(* ===== verification/Goa_Prelude.thy ===== *)
theory Goa_Prelude
  imports Main
begin

text \<open>
  Shared vocabulary of the development: the list operations that Go code performs on slices
  (find, replace or delete the first element with a given key, insert after a position), the
  theorem collections the component theories extend, and the interface of identifier
  allocation.
\<close>

named_theorems goa_inv \<open>preservation of the component invariants\<close>
named_theorems goa_frame \<open>what an operation leaves unchanged\<close>

section \<open>Slices addressed by key\<close>

text \<open>
  \<open>append(xs[:i], xs[i+1:]...)\<close> at the first index \<open>i\<close> where the test holds, nothing
  when there is none.
\<close>

fun remove_first :: "('a \<Rightarrow> bool) \<Rightarrow> 'a list \<Rightarrow> 'a list" where
  "remove_first p [] = []"
| "remove_first p (x # xs) = (if p x then xs else x # remove_first p xs)"

text \<open>The loop that patches the first matching element in place and breaks.\<close>

fun update_first :: "('a \<Rightarrow> bool) \<Rightarrow> ('a \<Rightarrow> 'a) \<Rightarrow> 'a list \<Rightarrow> 'a list" where
  "update_first p f [] = []"
| "update_first p f (x # xs) = (if p x then f x # xs else x # update_first p f xs)"

text \<open>The index of the first match, as the search loops compute it.\<close>

fun index_where :: "('a \<Rightarrow> bool) \<Rightarrow> 'a list \<Rightarrow> nat option" where
  "index_where p [] = None"
| "index_where p (x # xs) = (if p x then Some 0 else map_option Suc (index_where p xs))"

fun insert_after_first :: "('a \<Rightarrow> bool) \<Rightarrow> 'a \<Rightarrow> 'a list \<Rightarrow> 'a list" where
  "insert_after_first p y [] = [y]"
| "insert_after_first p y (x # xs) = (if p x then x # y # xs else x # insert_after_first p y xs)"

lemma set_remove_first_subset: "set (remove_first p xs) \<subseteq> set xs"
  by (induction xs) auto

lemma remove_first_id [simp]: "\<forall>x\<in>set xs. \<not> p x \<Longrightarrow> remove_first p xs = xs"
  by (induction xs) auto

lemma map_remove_first: "(\<And>x. p x = q (f x)) \<Longrightarrow> map f (remove_first p xs) = remove_first q (map f xs)"
  by (induction xs) auto

lemma distinct_remove_first: "distinct xs \<Longrightarrow> distinct (remove_first p xs)"
  by (induction xs) (use set_remove_first_subset in fastforce)+

lemma distinct_map_remove_first: "distinct (map f xs) \<Longrightarrow> distinct (map f (remove_first p xs))"
proof (induction xs)
  case (Cons x xs)
  then show ?case using set_remove_first_subset [of p xs] by (auto simp: image_iff subset_iff)
qed simp

lemma set_remove_first_key:
  "distinct (map f xs) \<Longrightarrow> set (remove_first (\<lambda>x. f x = k) xs) = {x \<in> set xs. f x \<noteq> k}"
proof (induction xs)
  case (Cons a xs)
  then have "f a \<notin> f ` set xs" by simp
  then have "\<forall>x\<in>set xs. f x \<noteq> f a" by (metis image_eqI)
  with Cons show ?case by auto
qed simp

lemma length_remove_first:
  "length (remove_first p xs) = (if \<exists>x\<in>set xs. p x then length xs - 1 else length xs)"
  by (induction xs) (auto simp: Suc_diff_le length_greater_0_conv [symmetric] simp del: length_greater_0_conv dest: length_pos_if_in_set)

lemma update_first_id: "(\<And>x. x \<in> set xs \<Longrightarrow> p x \<Longrightarrow> f x = x) \<Longrightarrow> update_first p f xs = xs"
  by (induction xs) auto

lemma update_first_none [simp]: "\<forall>x\<in>set xs. \<not> p x \<Longrightarrow> update_first p f xs = xs"
  by (induction xs) auto

lemma length_update_first [simp]: "length (update_first p f xs) = length xs"
  by (induction xs) auto

lemma map_update_first: "(\<And>x. p x \<Longrightarrow> g (f x) = g x) \<Longrightarrow> map g (update_first p f xs) = map g xs"
  by (induction xs) auto

lemma map_update_first_commute:
  "(\<And>x. q (g x) = p x) \<Longrightarrow> (\<And>x. p x \<Longrightarrow> g (f x) = h (g x)) \<Longrightarrow>
   map g (update_first p f xs) = update_first q h (map g xs)"
  by (induction xs) auto

lemma update_first_fuse:
  "(\<And>x. p x \<Longrightarrow> p (f x)) \<Longrightarrow> update_first p g (update_first p f xs) = update_first p (g \<circ> f) xs"
  by (induction xs) auto

lemma set_update_first: "set (update_first p f xs) \<subseteq> set xs \<union> f ` {x \<in> set xs. p x}"
  by (induction xs) auto

lemma update_first_map:
  "distinct (map k xs) \<Longrightarrow>
   update_first (\<lambda>x. k x = i) f xs = map (\<lambda>x. if k x = i then f x else x) xs"
proof (induction xs)
  case (Cons x xs)
  have "map (\<lambda>x. if k x = i then f x else x) xs = xs" if "k x = i"
    using Cons.prems that by (intro map_idI) (metis distinct.simps(2) image_eqI list.simps(9) set_map)
  with Cons show ?case by auto
qed simp

lemma index_where_Some:
  "index_where p xs = Some i \<Longrightarrow> i < length xs \<and> p (xs ! i) \<and> (\<forall>j<i. \<not> p (xs ! j))"
  by (induction xs arbitrary: i) (auto split: if_splits simp: less_Suc_eq_0_disj)

lemma index_where_None: "index_where p xs = None \<longleftrightarrow> (\<forall>x\<in>set xs. \<not> p x)"
  by (induction xs) auto

lemma find_None_iff_all: "List.find p xs = None \<longleftrightarrow> (\<forall>x\<in>set xs. \<not> p x)"
  by (auto simp: find_None_iff)

lemma find_SomeD: "List.find p xs = Some x \<Longrightarrow> x \<in> set xs \<and> p x"
  by (auto simp: find_Some_iff)

lemma find_update_first:
  "(\<And>x. p x \<Longrightarrow> p (f x)) \<Longrightarrow> List.find p (update_first p f xs) = map_option f (List.find p xs)"
  by (induction xs) auto

lemma find_update_first_other:
  "(\<And>x. p x \<Longrightarrow> \<not> q x \<and> \<not> q (f x)) \<Longrightarrow> List.find q (update_first p f xs) = List.find q xs"
  by (induction xs) auto

lemma map_of_map_find: "map_of (map (\<lambda>x. (k x, x)) xs) i = List.find (\<lambda>x. k x = i) xs"
  by (induction xs) auto

lemma mset_insert_after_first_set: "set (insert_after_first p y xs) = insert y (set xs)"
  by (induction xs) auto

lemma map_insert_after_first:
  "(\<And>x. q (f x) = p x) \<Longrightarrow> map f (insert_after_first p y xs) = insert_after_first q (f y) (map f xs)"
  by (induction xs) auto

lemma cut_at_sep: "c \<notin> set e \<Longrightarrow> c \<notin> set f \<Longrightarrow> e @ c # x = f @ c # y \<longleftrightarrow> e = f \<and> x = y"
proof (induction e arbitrary: f)
  case Nil
  then show ?case by (cases f) auto
next
  case (Cons a e)
  then show ?case by (cases f) auto
qed

text \<open>How a count over a list changes when one position is written.\<close>

lemma count_update:
  "i < length xs \<Longrightarrow> int (length (filter P (xs[i := x]))) =
     int (length (filter P xs)) - (if P (xs ! i) then 1 else 0) + (if P x then 1 else 0)"
proof (induction xs arbitrary: i)
  case (Cons a xs)
  show ?case
  proof (cases i)
    case (Suc j)
    with Cons.prems Cons.IH [of j] show ?thesis by (cases "P a") auto
  qed simp
qed simp

lemma length_filter_pos: "i < length xs \<Longrightarrow> P (xs ! i) \<Longrightarrow> 0 < length (filter P xs)"
  by (metis filter_empty_conv length_greater_0_conv nth_mem)

lemma distinct_insert_after_first:
  "distinct (insert_after_first p y xs) \<longleftrightarrow> y \<notin> set xs \<and> distinct xs"
  by (induction xs) (auto simp: mset_insert_after_first_set)

lemma insert_after_first_nth:
  "index_where p xs = Some i \<Longrightarrow>
   insert_after_first p y xs = take (Suc i) xs @ y # drop (Suc i) xs"
  by (induction xs arbitrary: i) (auto split: if_splits)

section \<open>Machine integers\<close>

text \<open>Go's \<open>int\<close> is 64 bits wide here; arithmetic wraps in two's complement.\<close>

definition max_int :: int where "max_int = 9223372036854775807"

definition wrap64 :: "int \<Rightarrow> int" where
  "wrap64 i = (i + 9223372036854775808) mod 18446744073709551616 - 9223372036854775808"

definition in_int :: "int \<Rightarrow> bool" where
  "in_int i \<longleftrightarrow> - max_int - 1 \<le> i \<and> i \<le> max_int"

lemma wrap64_in_int [simp]: "in_int (wrap64 i)"
proof -
  have "0 \<le> (i + 9223372036854775808) mod 18446744073709551616"
    "(i + 9223372036854775808) mod 18446744073709551616 < 18446744073709551616" by simp_all
  then show ?thesis unfolding in_int_def wrap64_def max_int_def by linarith
qed

lemma wrap64_id: "- max_int - 1 \<le> v \<Longrightarrow> v \<le> max_int \<Longrightarrow> wrap64 v = v"
  by (simp add: wrap64_def max_int_def)

lemma wrap64_id_in [simp]: "in_int v \<Longrightarrow> wrap64 v = v"
  by (simp add: in_int_def wrap64_id)

section \<open>Allocation of identifiers\<close>

text \<open>
  Several components hand out identifiers for the elements of a collection they own. The
  contract: the identifier allocated in a state that has room for one is not in use there.
  The client lemmas say what follows for the collection of keys.
\<close>

locale id_alloc =
  fixes used :: "'s \<Rightarrow> 'k list"
    and alloc :: "'s \<Rightarrow> 'k"
    and room :: "'s \<Rightarrow> bool"
  assumes alloc_fresh: "room s \<Longrightarrow> alloc s \<notin> set (used s)"
begin

lemma distinct_append: "room s \<Longrightarrow> distinct (used s) \<Longrightarrow> distinct (used s @ [alloc s])"
  by (simp add: alloc_fresh)

lemma distinct_insert:
  "room s \<Longrightarrow> distinct (used s) \<Longrightarrow> distinct (insert_after_first p (alloc s) (used s))"
  by (simp add: distinct_insert_after_first alloc_fresh)

lemma lookup_fresh:
  "room s \<Longrightarrow> used s = map k xs \<Longrightarrow> List.find (\<lambda>x. k x = alloc s) xs = None"
proof -
  assume "room s" and "used s = map k xs"
  with alloc_fresh [of s] have "alloc s \<notin> k ` set xs" by simp
  then have "\<forall>x\<in>set xs. k x \<noteq> alloc s" by (metis image_eqI)
  then show ?thesis by (simp add: find_None_iff_all)
qed

end

end
