(* ===== verification/Go_Strings.thy ===== *)
theory Go_Strings
  imports Goa_Prelude
begin

text \<open>
  The part of Go's string library the modelled code calls. A Go string is its bytes, so it is
  a \<open>string\<close> here; runes are the UTF-8 sequences of \<open>unicode/utf8\<close>. Each definition
  names the library function it stands for; nothing in this theory comes from the repository.
\<close>

section \<open>Bytes, white space, prefixes\<close>

abbreviation byte :: "char \<Rightarrow> nat" where "byte c \<equiv> of_char c"

definition bytes :: "nat list \<Rightarrow> string" where "bytes ns = map char_of ns"

lemma eq_char_of: "c = char_of (n :: nat) \<longleftrightarrow> take_bit 8 n = byte c"
  by (metis char_of_eq_iff)

text \<open>\<open>unicode.IsSpace\<close>: the six ASCII spaces and the UTF-8 forms of the other ones.\<close>

definition ascii_spaces :: "string list" where
  "ascii_spaces = [bytes [32], bytes [9], bytes [10], bytes [11], bytes [12], bytes [13]]"

definition unicode_spaces :: "string list" where
  "unicode_spaces = [bytes [194, 133], bytes [194, 160], bytes [225, 154, 128],
     bytes [226, 128, 128], bytes [226, 128, 129], bytes [226, 128, 130], bytes [226, 128, 131],
     bytes [226, 128, 132], bytes [226, 128, 133], bytes [226, 128, 134], bytes [226, 128, 135],
     bytes [226, 128, 136], bytes [226, 128, 137], bytes [226, 128, 138], bytes [226, 128, 168],
     bytes [226, 128, 169], bytes [226, 128, 175], bytes [226, 129, 159], bytes [227, 128, 128]]"

definition spaces :: "string list" where "spaces = ascii_spaces @ unicode_spaces"

text \<open>\<open>strings.HasPrefix\<close>, \<open>strings.HasSuffix\<close>.\<close>

definition has_prefix :: "string \<Rightarrow> string \<Rightarrow> bool" where
  "has_prefix p s \<longleftrightarrow> take (length p) s = p"

definition has_suffix :: "string \<Rightarrow> string \<Rightarrow> bool" where
  "has_suffix p s \<longleftrightarrow> has_prefix (rev p) (rev s)"

lemma has_prefix_Nil [simp]: "has_prefix [] s"
  by (simp add: has_prefix_def)

lemma has_prefix_iff: "has_prefix p s \<longleftrightarrow> (\<exists>t. s = p @ t)"
  unfolding has_prefix_def by (metis append_eq_conv_conj append_take_drop_id)

lemma has_prefix_append: "has_prefix p s \<Longrightarrow> has_prefix p (s @ t)"
  by (auto simp: has_prefix_iff)

lemma has_prefix_length: "has_prefix p s \<Longrightarrow> length p \<le> length s"
  by (auto simp: has_prefix_iff)

lemma space_nonempty: "[] \<notin> set spaces"
  by (auto simp: spaces_def ascii_spaces_def unicode_spaces_def bytes_def)

text \<open>
  The white-space sequence at the front of a string, if there is one, and
  \<open>strings.TrimLeftFunc(s, unicode.IsSpace)\<close>.
\<close>

definition space_at :: "string \<Rightarrow> string option" where
  "space_at s = List.find (\<lambda>sp. has_prefix sp s) spaces"

lemma space_at_pos: "space_at s = Some sp \<Longrightarrow> sp \<noteq> [] \<and> has_prefix sp s"
  using space_nonempty by (auto simp: space_at_def dest!: find_SomeD)

lemma space_at_Nil [simp]: "space_at [] = None"
  unfolding space_at_def find_None_iff_all has_prefix_iff using space_nonempty by auto

lemma space_at_prefix: "space_at (s @ t) = None \<Longrightarrow> space_at s = None"
  by (auto simp: space_at_def find_None_iff_all dest: has_prefix_append)

function trim_left :: "string \<Rightarrow> string" where
  "trim_left s = (case space_at s of None \<Rightarrow> s | Some sp \<Rightarrow> trim_left (drop (length sp) s))"
  by pat_completeness auto
termination
proof (relation "measure length")
  fix s sp
  assume "space_at s = Some sp"
  from space_at_pos [OF this] have "sp \<noteq> []" "length sp \<le> length s"
    by (auto dest: has_prefix_length)
  then show "(drop (length sp) s, s) \<in> measure length" by (cases sp; cases s) auto
qed simp

declare trim_left.simps [simp del]

text \<open>The same from the right, on the reversed string; \<open>strings.TrimSpace\<close>.\<close>

definition space_before :: "string \<Rightarrow> string option" where
  "space_before r = List.find (\<lambda>sp. has_prefix (rev sp) r) spaces"

lemma space_before_pos: "space_before s = Some sp \<Longrightarrow> sp \<noteq> [] \<and> has_prefix (rev sp) s"
  using space_nonempty by (auto simp: space_before_def dest!: find_SomeD)

lemma space_before_Nil [simp]: "space_before [] = None"
  unfolding space_before_def find_None_iff_all has_prefix_iff using space_nonempty by auto

function trim_left_rev :: "string \<Rightarrow> string" where
  "trim_left_rev r = (case space_before r of None \<Rightarrow> r
     | Some sp \<Rightarrow> trim_left_rev (drop (length sp) r))"
  by pat_completeness auto
termination
proof (relation "measure length")
  fix s sp
  assume "space_before s = Some sp"
  from space_before_pos [OF this] have "sp \<noteq> []" "length sp \<le> length s"
    by (auto dest: has_prefix_length)
  then show "(drop (length sp) s, s) \<in> measure length" by (cases sp; cases s) auto
qed simp

declare trim_left_rev.simps [simp del]

definition trim_right :: "string \<Rightarrow> string" where
  "trim_right s = rev (trim_left_rev (rev s))"

definition trim_space :: "string \<Rightarrow> string" where
  "trim_space s = trim_right (trim_left s)"

lemma trim_left_stops: "space_at (trim_left s) = None"
  by (induction s rule: trim_left.induct) (subst trim_left.simps, simp split: option.split)

lemma trim_left_id: "space_at s = None \<Longrightarrow> trim_left s = s"
  by (simp add: trim_left.simps)

lemma trim_left_rev_stops: "space_before (trim_left_rev s) = None"
  by (induction s rule: trim_left_rev.induct) (subst trim_left_rev.simps, simp split: option.split)

lemma trim_left_rev_id: "space_before s = None \<Longrightarrow> trim_left_rev s = s"
  by (simp add: trim_left_rev.simps)

lemma trim_left_rev_suffix: "\<exists>p. r = p @ trim_left_rev r"
proof (induction r rule: trim_left_rev.induct)
  case (1 r)
  show ?case
  proof (cases "space_before r")
    case (Some sp)
    with 1 obtain p where "drop (length sp) r = p @ trim_left_rev (drop (length sp) r)" by blast
    then have "r = (take (length sp) r @ p) @ trim_left_rev (drop (length sp) r)"
      by (metis append.assoc append_take_drop_id)
    moreover have "trim_left_rev r = trim_left_rev (drop (length sp) r)"
      using Some by (subst trim_left_rev.simps) simp
    ultimately show ?thesis by metis
  qed (simp add: trim_left_rev.simps)
qed

lemma trim_right_prefix: "\<exists>p. s = trim_right s @ p"
  using trim_left_rev_suffix [of "rev s"] unfolding trim_right_def
  by (metis rev_append rev_rev_ident)

lemma trim_space_idem [simp]: "trim_space (trim_space s) = trim_space s"
proof -
  obtain p where "trim_left s = trim_space s @ p"
    using trim_right_prefix [of "trim_left s"] by (auto simp: trim_space_def)
  with trim_left_stops [of s] have "space_at (trim_space s) = None"
    by (metis space_at_prefix)
  then have "trim_left (trim_space s) = trim_space s" by (rule trim_left_id)
  then show ?thesis
    by (simp add: trim_space_def trim_right_def trim_left_rev_id trim_left_rev_stops)
qed

lemma trim_space_Nil [simp]: "trim_space [] = []"
  by (simp add: trim_space_def trim_left_id trim_right_def trim_left_rev_id)

section \<open>Lower case\<close>

text \<open>
  \<open>strings.ToLower\<close> as far as its ASCII result goes: the upper-case letters, and the two
  non-ASCII letters (U+0130 and the Kelvin sign) whose lower case is an ASCII letter. Bytes of
  other non-ASCII letters stay non-ASCII; the callers only compare with ASCII text or drop
  non-ASCII bytes.
\<close>

definition lower_byte :: "char \<Rightarrow> char" where
  "lower_byte c = (if 65 \<le> byte c \<and> byte c \<le> 90 then char_of (byte c + 32) else c)"

fun to_lower :: "string \<Rightarrow> string" where
  "to_lower [] = []"
| "to_lower [a] = [lower_byte a]"
| "to_lower [a, b] = (if byte a = 196 \<and> byte b = 176 then [CHR ''i'']
     else lower_byte a # to_lower [b])"
| "to_lower (a # b # c # s) =
     (if byte a = 196 \<and> byte b = 176 then CHR ''i'' # to_lower (c # s)
      else if byte a = 226 \<and> byte b = 132 \<and> byte c = 170 then CHR ''k'' # to_lower s
      else lower_byte a # to_lower (b # c # s))"

section \<open>Searching and splitting\<close>

text \<open>\<open>strings.Index\<close> (\<open>None\<close> for -1).\<close>

fun str_index :: "string \<Rightarrow> string \<Rightarrow> nat option" where
  "str_index sub [] = (if sub = [] then Some 0 else None)"
| "str_index sub (c # s) =
     (if has_prefix sub (c # s) then Some 0 else map_option Suc (str_index sub s))"

lemma str_index_Some: "str_index sub s = Some i \<Longrightarrow> i + length sub \<le> length s \<and> has_prefix sub (drop i s)"
proof (induction sub s arbitrary: i rule: str_index.induct)
  case (2 sub c s)
  show ?case
  proof (cases "has_prefix sub (c # s)")
    case True
    with 2 show ?thesis by (auto dest: has_prefix_length)
  next
    case False
    with 2 show ?thesis by auto
  qed
qed (auto split: if_splits)

text \<open>\<open>strings.Count\<close> for a non-empty substring: non-overlapping occurrences from the left.\<close>

function str_count :: "string \<Rightarrow> string \<Rightarrow> nat" where
  "str_count sub s = (if sub = [] then 0
     else (case str_index sub s of None \<Rightarrow> 0
           | Some i \<Rightarrow> Suc (str_count sub (drop (i + length sub) s))))"
  by pat_completeness auto
termination
proof (relation "measure (\<lambda>(_, s). length s)")
  fix sub s :: string and i
  assume "sub \<noteq> []" and "str_index sub s = Some i"
  from str_index_Some [OF this(2)] this(1)
  show "((sub, drop (i + length sub) s), sub, s) \<in> measure (\<lambda>(_, s). length s)"
    by (cases sub) auto
qed simp

declare str_count.simps [simp del]

text \<open>\<open>strings.ReplaceAll\<close> for a non-empty old text: from the left, without overlaps.\<close>

function replace_all :: "string \<Rightarrow> string \<Rightarrow> string \<Rightarrow> string" where
  "replace_all old new [] = []"
| "replace_all old new (c # s) =
     (if old \<noteq> [] \<and> has_prefix old (c # s) then new @ replace_all old new (drop (length old) (c # s))
      else c # replace_all old new s)"
  by pat_completeness auto
termination by (relation "measure (\<lambda>(_, _, s). length s)") auto

text \<open>\<open>strings.Split\<close> with a one-byte separator and \<open>strings.Join\<close>.\<close>

fun split_on :: "char \<Rightarrow> string \<Rightarrow> string list" where
  "split_on c [] = [[]]"
| "split_on c (x # xs) = (if x = c then [] # split_on c xs
     else (case split_on c xs of [] \<Rightarrow> [[x]] | y # ys \<Rightarrow> (x # y) # ys))"

fun join_with :: "string \<Rightarrow> string list \<Rightarrow> string" where
  "join_with sep [] = []"
| "join_with sep [s] = s"
| "join_with sep (s # t # ss) = s @ sep @ join_with sep (t # ss)"

lemma split_on_nonempty [simp]: "split_on c s \<noteq> []"
  by (induction s) (auto split: list.split)

lemma join_split_on: "join_with [c] (split_on c s) = s"
proof (induction s)
  case (Cons x xs)
  obtain y ys where y: "split_on c xs = y # ys" by (cases "split_on c xs") auto
  with Cons show ?case by (cases ys) auto
qed simp

text \<open>\<open>strings.Fields\<close>: the maximal runs without white space.\<close>

definition flush_field :: "string \<Rightarrow> string list" where
  "flush_field cur = (if cur = [] then [] else [rev cur])"

function fields_from :: "string \<Rightarrow> string \<Rightarrow> string list" where
  "fields_from cur [] = flush_field cur"
| "fields_from cur (c # s) = (case space_at (c # s) of
       Some sp \<Rightarrow> flush_field cur @ fields_from [] (drop (length sp) (c # s))
     | None \<Rightarrow> fields_from (c # cur) s)"
  by pat_completeness auto
termination
proof (relation "measure (\<lambda>(_, s). length s)")
  fix cur c s sp
  assume "space_at (c # s) = Some sp"
  from space_at_pos [OF this] show "(([], drop (length sp) (c # s)), cur, c # s) \<in> measure (\<lambda>(_, s). length s)"
    by (cases sp) auto
qed auto

definition fields :: "string \<Rightarrow> string list" where "fields s = fields_from [] s"

section \<open>Decimal numbers\<close>

text \<open>\<open>%d\<close> of a non-negative and of a signed number.\<close>

fun dec :: "nat \<Rightarrow> string" where
  "dec n = (if n < 10 then [char_of (48 + n)] else dec (n div 10) @ [char_of (48 + n mod 10)])"

declare dec.simps [simp del]

definition dec_int :: "int \<Rightarrow> string" where
  "dec_int i = (if i < 0 then ''-'' @ dec (nat (- i)) else dec (nat i))"

definition is_digit :: "char \<Rightarrow> bool" where
  "is_digit c \<longleftrightarrow> 48 \<le> byte c \<and> byte c \<le> 57"

definition digits_val :: "string \<Rightarrow> nat" where
  "digits_val s = foldl (\<lambda>n c. n * 10 + (byte c - 48)) 0 s"

lemma digits_val_snoc: "digits_val (s @ [c]) = digits_val s * 10 + (byte c - 48)"
  by (simp add: digits_val_def)

lemma byte_digit: "d < 10 \<Longrightarrow> byte (char_of (48 + d :: nat)) = 48 + d"
  by (simp add: of_char_of)

lemma digits_val_dec [simp]: "digits_val (dec n) = n"
proof (induction n rule: dec.induct)
  case (1 n)
  show ?case
  proof (cases "n < 10")
    case True
    then show ?thesis by (subst dec.simps) (simp add: digits_val_def byte_digit)
  next
    case False
    have "n mod 10 < 10" by simp
    with False "1" show ?thesis by (subst dec.simps) (simp add: digits_val_snoc byte_digit)
  qed
qed

lemma dec_digits: "\<forall>c\<in>set (dec n). is_digit c"
proof (induction n rule: dec.induct)
  case (1 n)
  have "n mod 10 < 10" by simp
  with "1" show ?case by (subst dec.simps) (auto simp: is_digit_def byte_digit)
qed

lemma dec_nonempty [simp]: "dec n \<noteq> []"
  by (subst dec.simps) simp

lemma dec_inject [simp]: "dec m = dec n \<longleftrightarrow> m = n"
  by (metis digits_val_dec)

section \<open>Runes\<close>

text \<open>
  \<open>utf8.DecodeRuneInString\<close>: the width of the valid encoding at the front, \<open>None\<close> when
  the first byte does not start one (the decoder then consumes that single byte).
\<close>

definition cont_in :: "nat \<Rightarrow> nat \<Rightarrow> char \<Rightarrow> bool" where
  "cont_in lo hi c \<longleftrightarrow> lo \<le> byte c \<and> byte c \<le> hi"

definition second_range :: "nat \<Rightarrow> nat \<times> nat" where
  "second_range b = (if b = 224 then (160, 191) else if b = 237 then (128, 159)
     else if b = 240 then (144, 191) else if b = 244 then (128, 143) else (128, 191))"

definition lead_width :: "nat \<Rightarrow> nat" where
  "lead_width b = (if b < 128 then 1 else if 194 \<le> b \<and> b \<le> 223 then 2
     else if 224 \<le> b \<and> b \<le> 239 then 3 else if 240 \<le> b \<and> b \<le> 244 then 4 else 0)"

fun rune_width :: "string \<Rightarrow> nat option" where
  "rune_width [] = None"
| "rune_width (c # s) =
     (let w = lead_width (byte c); (lo, hi) = second_range (byte c) in
      if w = 1 then Some 1
      else if w = 0 \<or> length s < w - 1 then None
      else if cont_in lo hi (hd s) \<and> list_all (cont_in 128 191) (take (w - 2) (tl s))
      then Some w else None)"

function runes :: "string \<Rightarrow> string list" where
  "runes [] = []"
| "runes (c # s) = (case rune_width (c # s) of
       None \<Rightarrow> [c] # runes s
     | Some w \<Rightarrow> take (max 1 w) (c # s) # runes (drop (max 1 w) (c # s)))"
  by pat_completeness auto
termination
  by (relation "measure length") auto

text \<open>\<open>utf8.RuneCountInString\<close>, and \<open>string(rs)\<close> for runes cut out of a string.\<close>

definition rune_count :: "string \<Rightarrow> nat" where
  "rune_count s = length (runes s)"

definition rune_text :: "string \<Rightarrow> string" where
  "rune_text r = (if rune_width r = None then bytes [239, 191, 189] else r)"

lemma concat_runes: "concat (runes s) = s"
  by (induction s rule: runes.induct)
     (auto split: option.split simp del: take_Cons drop_Cons drop.simps take.simps)

lemma rune_count_le: "rune_count s \<le> length s"
proof (induction s rule: runes.induct)
  case (2 c s)
  show ?case
  proof (cases "rune_width (c # s)")
    case None
    with 2 show ?thesis by (simp add: rune_count_def)
  next
    case (Some w)
    have "rune_count (drop (max 1 w) (c # s)) \<le> length (drop (max 1 w) (c # s))"
      using 2 Some by blast
    moreover have "length (drop (max 1 w) (c # s)) < length (c # s)" by simp
    ultimately show ?thesis using Some by (simp add: rune_count_def del: drop_Cons length_drop)
  qed
qed (simp add: rune_count_def)

section \<open>Concrete texts\<close>

text \<open>Text without white space is its own trimming; a letter is one rune.\<close>

lemma trim_xs: "trim_space (replicate (Suc n) (CHR ''x'')) = replicate (Suc n) (CHR ''x'')"
proof -
  let ?r = "replicate (Suc n) (CHR ''x'')"
  have "space_at (CHR ''x'' # r) = None" "space_before (CHR ''x'' # r) = None" for r
    by (simp_all add: space_at_def space_before_def spaces_def ascii_spaces_def unicode_spaces_def
        bytes_def has_prefix_def eq_char_of)
  then have n: "space_at ?r = None" "space_before ?r = None" by simp_all
  have "trim_left ?r = ?r" "trim_left_rev ?r = ?r"
    by (rule trim_left_id [OF n(1)]) (rule trim_left_rev_id [OF n(2)])
  then show ?thesis by (simp only: trim_space_def trim_right_def rev_replicate)
qed

lemma runes_replicate: "runes (replicate n (CHR ''x'')) = replicate n ''x''"
  by (induction n) (simp_all add: lead_width_def second_range_def)

end
