(* ===== verification/Event_Log.thy ===== *)
theory Event_Log
  imports Goa_Prelude
begin

text \<open>
  The contract of an event-sourced component: every command changes the state in memory and
  appends events to a log, and a later session rebuilds the state by applying the logged
  events in order. The plan store, the goal engine and the task bus are clients.
\<close>

section \<open>Running commands, replaying events\<close>

fun run_cmds :: "('c \<Rightarrow> 's \<Rightarrow> 's \<times> 'e list) \<Rightarrow> 'c list \<Rightarrow> 's \<Rightarrow> 's" where
  "run_cmds step [] s = s"
| "run_cmds step (c # cs) s = run_cmds step cs (fst (step c s))"

fun log_cmds :: "('c \<Rightarrow> 's \<Rightarrow> 's \<times> 'e list) \<Rightarrow> 'c list \<Rightarrow> 's \<Rightarrow> 'e list" where
  "log_cmds step [] s = []"
| "log_cmds step (c # cs) s = snd (step c s) @ log_cmds step cs (fst (step c s))"

text \<open>A side condition required of every command in the state it runs in.\<close>

fun all_ok :: "('c \<Rightarrow> 's \<Rightarrow> 's \<times> 'e list) \<Rightarrow> ('c \<Rightarrow> 's \<Rightarrow> bool) \<Rightarrow> 'c list \<Rightarrow> 's \<Rightarrow> bool" where
  "all_ok step ok [] s \<longleftrightarrow> True"
| "all_ok step ok (c # cs) s \<longleftrightarrow> ok c s \<and> all_ok step ok cs (fst (step c s))"

text \<open>Replay stops at the first event its handler rejects.\<close>

fun replay :: "('e \<Rightarrow> 'r \<Rightarrow> 'x + 'r) \<Rightarrow> 'e list \<Rightarrow> 'r \<Rightarrow> 'x + 'r" where
  "replay app [] r = Inr r"
| "replay app (e # es) r = (case app e r of Inl x \<Rightarrow> Inl x | Inr r' \<Rightarrow> replay app es r')"

lemma replay_append:
  "replay app (es @ fs) r = (case replay app es r of Inl x \<Rightarrow> Inl x | Inr r' \<Rightarrow> replay app fs r')"
  by (induction es arbitrary: r) (auto split: sum.split)

lemma run_cmds_append: "run_cmds step (cs @ ds) s = run_cmds step ds (run_cmds step cs s)"
  by (induction cs arbitrary: s) auto

section \<open>The contract\<close>

locale event_log =
  fixes step :: "'c \<Rightarrow> 's \<Rightarrow> 's \<times> 'e list"
    and app :: "'e \<Rightarrow> 'r \<Rightarrow> 'x + 'r"
    and rel :: "'s \<Rightarrow> 'r \<Rightarrow> bool"
    and inv :: "'s \<Rightarrow> bool"
    and ok :: "'c \<Rightarrow> 's \<Rightarrow> bool"
  assumes inv_step: "inv s \<Longrightarrow> ok c s \<Longrightarrow> inv (fst (step c s))"
    and rel_step: "inv s \<Longrightarrow> ok c s \<Longrightarrow> rel s r \<Longrightarrow>
      \<exists>r'. replay app (snd (step c s)) r = Inr r' \<and> rel (fst (step c s)) r'"
begin

lemma inv_run: "inv s \<Longrightarrow> all_ok step ok cs s \<Longrightarrow> inv (run_cmds step cs s)"
  by (induction cs arbitrary: s) (auto intro: inv_step)

lemma replay_simulates:
  "inv s \<Longrightarrow> all_ok step ok cs s \<Longrightarrow> rel s r \<Longrightarrow>
   \<exists>r'. replay app (log_cmds step cs s) r = Inr r' \<and> rel (run_cmds step cs s) r'"
proof (induction cs arbitrary: s r)
  case (Cons c cs)
  from Cons.prems have ok: "ok c s" "all_ok step ok cs (fst (step c s))" by auto
  from rel_step [OF Cons.prems(1) ok(1) Cons.prems(3)] obtain r1
    where r1: "replay app (snd (step c s)) r = Inr r1" "rel (fst (step c s)) r1" by blast
  from Cons.IH [OF inv_step [OF Cons.prems(1) ok(1)] ok(2) r1(2)] r1(1)
  show ?case by (simp add: replay_append)
qed simp

text \<open>A log cut after any command replays to the state at that point.\<close>

lemma replay_prefix:
  assumes "inv s" "all_ok step ok (cs @ ds) s" "rel s r"
  shows "\<exists>r'. replay app (log_cmds step cs s) r = Inr r' \<and> rel (run_cmds step cs s) r'"
proof -
  have "all_ok step ok cs s"
    using assms(2) by (induction cs arbitrary: s) auto
  with assms show ?thesis by (intro replay_simulates)
qed

end

end
