(* ===== verification/Plan_Store.thy ===== *)
theory Plan_Store
  imports Go_Strings Event_Log
begin

text \<open>
  The plan data model, its event records and the event-sourced store of core/plan: model.go,
  events.go and store.go. A plan lives in memory, every mutation appends one event to
  events.jsonl and rewrites plan.json, and \<open>open_store\<close> rebuilds the plan from the events.

  The JSON text is abstracted: a line of the log is the event it decodes to, or garbage, and a
  payload is the value its decoder produces; \<open>PMalformed\<close> (or a payload of another event's
  shape) stands for a payload \<open>encoding/json\<close> refuses. Writing never fails: the code panics
  there. Times are numbers, 0 the zero time.
\<close>

type_synonym time = int

section \<open>Data model\<close>

datatype plan_status =
  PlanDraft | PlanInReview | PlanApproved | PlanExecuting | PlanDone | PlanBlocked | PlanFailed

text \<open>A replayed status is any string; \<open>ItemOther\<close> is one that is not a constant of the package.\<close>

datatype item_status =
  ItemPending | ItemInProgress | ItemDone | ItemBlocked | ItemSkipped | ItemOther string

record plan_item =
  pi_id :: string
  pi_title :: string
  pi_description :: string
  pi_dependsOn :: "string list"
  pi_role :: string
  pi_status :: item_status
  pi_result :: string

record plan_comment =
  pc_id :: string
  pc_itemID :: string
  pc_content :: string
  pc_revision :: int
  pc_resolved :: bool
  pc_createdAt :: time
  pc_updatedAt :: time

record plan =
  p_id :: string
  p_name :: string
  p_objective :: string
  p_status :: plan_status
  p_revision :: int
  p_items :: "plan_item list"
  p_comments :: "plan_comment list"
  p_runID :: string
  p_createdAt :: time
  p_updatedAt :: time

definition plan_Item :: "plan \<Rightarrow> string \<Rightarrow> plan_item option" where
  "plan_Item p i = List.find (\<lambda>it. pi_id it = i) (p_items p)"

text \<open>Writing through the pointer \<open>Item\<close> returns patches the first item with the ID.\<close>

definition patch_Item :: "string \<Rightarrow> (plan_item \<Rightarrow> plan_item) \<Rightarrow> plan \<Rightarrow> plan" where
  "patch_Item i f p = p\<lparr>p_items := update_first (\<lambda>it. pi_id it = i) f (p_items p)\<rparr>"

definition Dependents :: "plan \<Rightarrow> string \<Rightarrow> string list" where
  "Dependents p i = map pi_id (filter (\<lambda>it. i \<in> set (pi_dependsOn it)) (p_items p))"

definition item_terminal :: "plan_item \<Rightarrow> bool" where
  "item_terminal it \<longleftrightarrow> pi_status it = ItemDone \<or> pi_status it = ItemSkipped"

definition AllTerminal :: "plan \<Rightarrow> bool" where
  "AllTerminal p \<longleftrightarrow> list_all item_terminal (p_items p)"

section \<open>Events\<close>

datatype event_type =
    EventPlanCreated | EventItemAdded | EventItemUpdated | EventItemRemoved
  | EventItemsReordered | EventRevisionSubmitted | EventCommentAdded | EventCommentUpdated
  | EventCommentRemoved | EventCommentResolved | EventPlanApproved | EventExecutionStarted
  | EventItemStarted | EventItemCompleted | EventItemBlocked | EventItemSkipped
  | EventClarification | EventPlanCompleted | EventPlanFailed | EventOther string

text \<open>One entry of an item_updated fields object: a known field with its decoded value, a
  known field whose value has the wrong type, or a field the code does not know.\<close>

datatype item_field =
    FTitle string | FDescription string | FDependsOn "string list" | FRole string
  | FStatus item_status | FResult string | FIllTyped string | FUnknown string

datatype payload =
    PPlanCreated string string \<comment> \<open>objective, name\<close>
  | PItemAdded plan_item
  | PItemUpdated string "item_field list option" \<comment> \<open>None: not a JSON object\<close>
  | PItemRemoved string
  | PItemsReordered "string list"
  | PRevisionSubmitted int
  | PCommentAdded plan_comment
  | PCommentUpdated string string
  | PCommentRemoved string
  | PCommentResolved string string
  | PPlanApproved
  | PExecutionStarted string
  | PItemStarted string string string
  | PItemCompleted string string
  | PItemBlocked string string
  | PItemSkipped string string
  | PClarification string string string
  | PPlanCompleted
  | PPlanFailed string
  | PMalformed

record event =
  ev_seq :: int
  ev_type :: event_type
  ev_planID :: string
  ev_timestamp :: time
  ev_payload :: payload

section \<open>The store\<close>

record store =
  st_id :: string
  st_plan :: "plan option"
  st_seq :: int
  st_file :: "event list" \<comment> \<open>events.jsonl\<close>
  st_snapshot :: "plan option" \<comment> \<open>plan.json\<close>

datatype plan_err =
    PanicNilPlan
  | ErrPayload event_type
  | ErrFields
  | ErrField string
  | ErrSeqGap int int
  | ErrBadLine int
  | ErrLineTooLong
  | ErrNoPlanCreated
  | ErrItemNotFound string
  | ErrInsertAfter string
  | ErrDependedOn string "string list"
  | ErrReorderCount nat nat
  | ErrReorderUnknown string
  | ErrReorderDuplicate string
  | ErrSubmit plan_status
  | ErrApprove plan_status
  | ErrStartExecution plan_status
  | ErrStartItemPlan plan_status
  | ErrItemIsBlocked string
  | ErrNotPending string item_status
  | ErrAlreadyInProgress string
  | ErrDependencyNotFound string
  | ErrDependencyOpen string item_status
  | ErrNotInProgress string item_status
  | ErrCannotBlock string item_status
  | ErrCannotSkip string item_status
  | ErrEmptyResult
  | ErrEmptyComment
  | ErrCommentNotFound string
  | ErrEmptyClarification
  | ErrNotAllTerminal
  | ErrFinish plan_status

text \<open>
  \<open>append\<close>: number the event, fill in the plan ID and the time, write the line and then the
  snapshot. \<open>t\<close> is the clock reading taken here.
\<close>

definition append_event :: "time \<Rightarrow> event_type \<Rightarrow> payload \<Rightarrow> store \<Rightarrow> store" where
  "append_event t ty pl s =
     (let n = st_seq s + 1;
          e = \<lparr>ev_seq = n, ev_type = ty, ev_planID = st_id s, ev_timestamp = t, ev_payload = pl\<rparr>
      in s\<lparr>st_seq := n, st_file := st_file s @ [e], st_snapshot := st_plan s\<rparr>)"

text \<open>\<open>Create\<close>, with the random ID and the generated name as arguments.\<close>

definition create_store :: "string \<Rightarrow> string \<Rightarrow> time \<Rightarrow> time \<Rightarrow> string \<Rightarrow> store" where
  "create_store i name now t objective =
     (let p = \<lparr>p_id = i, p_name = name, p_objective = objective, p_status = PlanDraft,
               p_revision = 0, p_items = [], p_comments = [], p_runID = [],
               p_createdAt = now, p_updatedAt = now\<rparr>;
          s = \<lparr>st_id = i, st_plan = Some p, st_seq = 0, st_file = [], st_snapshot = None\<rparr>
      in append_event t EventPlanCreated (PPlanCreated objective name) s)"

section \<open>Event handlers\<close>

text \<open>The plan under reconstruction and an event give the next plan. Handlers other than
  plan_created do nothing while there is no plan.\<close>

definition touch :: "time \<Rightarrow> plan \<Rightarrow> plan" where
  "touch t p = p\<lparr>p_updatedAt := t\<rparr>"

definition applyPlanCreated :: "event \<Rightarrow> plan option \<Rightarrow> plan_err + plan option" where
  "applyPlanCreated e po = (case ev_payload e of
       PPlanCreated objective name \<Rightarrow> Inr (Some \<lparr>p_id = ev_planID e, p_name = name,
         p_objective = objective, p_status = PlanDraft, p_revision = 0, p_items = [],
         p_comments = [], p_runID = [], p_createdAt = ev_timestamp e,
         p_updatedAt = ev_timestamp e\<rparr>)
     | _ \<Rightarrow> Inl (ErrPayload EventPlanCreated))"

definition applyItemAdded :: "event \<Rightarrow> plan option \<Rightarrow> plan_err + plan option" where
  "applyItemAdded e po = (case ev_payload e of
       PItemAdded it \<Rightarrow> Inr (map_option
         (\<lambda>p. touch (ev_timestamp e) (p\<lparr>p_items := p_items p @ [it]\<rparr>)) po)
     | _ \<Rightarrow> Inl (ErrPayload EventItemAdded))"

definition applyItemRemoved :: "event \<Rightarrow> plan option \<Rightarrow> plan_err + plan option" where
  "applyItemRemoved e po = (case ev_payload e of
       PItemRemoved i \<Rightarrow> Inr (map_option (\<lambda>p. touch (ev_timestamp e)
         (p\<lparr>p_items := remove_first (\<lambda>it. pi_id it = i) (p_items p)\<rparr>)) po)
     | _ \<Rightarrow> Inl (ErrPayload EventItemRemoved))"

definition applyPlanApproved :: "event \<Rightarrow> plan option \<Rightarrow> plan_err + plan option" where
  "applyPlanApproved e po = Inr (map_option
     (\<lambda>p. touch (ev_timestamp e) (p\<lparr>p_status := PlanApproved\<rparr>)) po)"

definition applyExecutionStarted :: "event \<Rightarrow> plan option \<Rightarrow> plan_err + plan option" where
  "applyExecutionStarted e po = (case ev_payload e of
       PExecutionStarted r \<Rightarrow> Inr (map_option (\<lambda>p. touch (ev_timestamp e)
         (p\<lparr>p_status := PlanExecuting, p_runID := r\<rparr>)) po)
     | _ \<Rightarrow> Inl (ErrPayload EventExecutionStarted))"

definition applyPlanCompleted :: "event \<Rightarrow> plan option \<Rightarrow> plan_err + plan option" where
  "applyPlanCompleted e po = Inr (map_option
     (\<lambda>p. touch (ev_timestamp e) (p\<lparr>p_status := PlanDone\<rparr>)) po)"

definition applyPlanFailed :: "event \<Rightarrow> plan option \<Rightarrow> plan_err + plan option" where
  "applyPlanFailed e po = (case ev_payload e of
       PPlanFailed _ \<Rightarrow> Inr (map_option
         (\<lambda>p. touch (ev_timestamp e) (p\<lparr>p_status := PlanFailed\<rparr>)) po)
     | _ \<Rightarrow> Inl (ErrPayload EventPlanFailed))"

definition set_item_status :: "string \<Rightarrow> item_status \<Rightarrow> plan \<Rightarrow> plan" where
  "set_item_status i st p = patch_Item i (\<lambda>it. it\<lparr>pi_status := st\<rparr>) p"

definition applyItemBlocked :: "event \<Rightarrow> plan option \<Rightarrow> plan_err + plan option" where
  "applyItemBlocked e po = (case ev_payload e of
       PItemBlocked i _ \<Rightarrow> Inr (map_option
         (\<lambda>p. touch (ev_timestamp e) (set_item_status i ItemBlocked p)) po)
     | _ \<Rightarrow> Inl (ErrPayload EventItemBlocked))"

definition applyItemSkipped :: "event \<Rightarrow> plan option \<Rightarrow> plan_err + plan option" where
  "applyItemSkipped e po = (case ev_payload e of
       PItemSkipped i _ \<Rightarrow> Inr (map_option
         (\<lambda>p. touch (ev_timestamp e) (set_item_status i ItemSkipped p)) po)
     | _ \<Rightarrow> Inl (ErrPayload EventItemSkipped))"

definition applyItemStarted :: "event \<Rightarrow> plan option \<Rightarrow> plan_err + plan option" where
  "applyItemStarted e po = (case ev_payload e of
       PItemStarted i _ _ \<Rightarrow> Inr (map_option
         (\<lambda>p. touch (ev_timestamp e) (set_item_status i ItemInProgress p)) po)
     | _ \<Rightarrow> Inl (ErrPayload EventItemStarted))"

definition applyItemCompleted :: "event \<Rightarrow> plan option \<Rightarrow> plan_err + plan option" where
  "applyItemCompleted e po = (case ev_payload e of
       PItemCompleted i r \<Rightarrow> Inr (map_option (\<lambda>p. touch (ev_timestamp e)
         (patch_Item i (\<lambda>it. it\<lparr>pi_status := ItemDone, pi_result := r\<rparr>) p)) po)
     | _ \<Rightarrow> Inl (ErrPayload EventItemCompleted))"

definition applyRevisionSubmitted :: "event \<Rightarrow> plan option \<Rightarrow> plan_err + plan option" where
  "applyRevisionSubmitted e po = (case ev_payload e of
       PRevisionSubmitted n \<Rightarrow> Inr (map_option (\<lambda>p. touch (ev_timestamp e)
         (p\<lparr>p_revision := n, p_status := PlanInReview\<rparr>)) po)
     | _ \<Rightarrow> Inl (ErrPayload EventRevisionSubmitted))"

definition applyCommentAdded :: "event \<Rightarrow> plan option \<Rightarrow> plan_err + plan option" where
  "applyCommentAdded e po = (case ev_payload e of
       PCommentAdded c \<Rightarrow> Inr (map_option (\<lambda>p. touch (ev_timestamp e)
         (p\<lparr>p_comments := p_comments p @ [c]\<rparr>)) po)
     | _ \<Rightarrow> Inl (ErrPayload EventCommentAdded))"

definition applyCommentRemoved :: "event \<Rightarrow> plan option \<Rightarrow> plan_err + plan option" where
  "applyCommentRemoved e po = (case ev_payload e of
       PCommentRemoved i \<Rightarrow> Inr (map_option (\<lambda>p. touch (ev_timestamp e)
         (p\<lparr>p_comments := remove_first (\<lambda>c. pc_id c = i) (p_comments p)\<rparr>)) po)
     | _ \<Rightarrow> Inl (ErrPayload EventCommentRemoved))"

definition patch_comment ::
  "string \<Rightarrow> (plan_comment \<Rightarrow> plan_comment) \<Rightarrow> plan \<Rightarrow> plan" where
  "patch_comment i f p = p\<lparr>p_comments := update_first (\<lambda>c. pc_id c = i) f (p_comments p)\<rparr>"

definition applyCommentUpdated :: "event \<Rightarrow> plan option \<Rightarrow> plan_err + plan option" where
  "applyCommentUpdated e po = (case ev_payload e of
       PCommentUpdated i content \<Rightarrow> Inr (map_option (\<lambda>p. touch (ev_timestamp e)
         (patch_comment i (\<lambda>c. c\<lparr>pc_content := content, pc_updatedAt := ev_timestamp e\<rparr>) p)) po)
     | _ \<Rightarrow> Inl (ErrPayload EventCommentUpdated))"

definition applyCommentResolved :: "event \<Rightarrow> plan option \<Rightarrow> plan_err + plan option" where
  "applyCommentResolved e po = (case ev_payload e of
       PCommentResolved i _ \<Rightarrow> Inr (map_option (\<lambda>p. touch (ev_timestamp e)
         (patch_comment i (\<lambda>c. c\<lparr>pc_resolved := True, pc_updatedAt := ev_timestamp e\<rparr>) p)) po)
     | _ \<Rightarrow> Inl (ErrPayload EventCommentResolved))"

text \<open>\<open>itemMap\<close>: a later item overwrites an earlier one with the same ID.\<close>

definition itemMap :: "plan_item list \<Rightarrow> string \<Rightarrow> plan_item option" where
  "itemMap items i = List.find (\<lambda>it. pi_id it = i) (rev items)"

definition applyItemsReordered :: "event \<Rightarrow> plan option \<Rightarrow> plan_err + plan option" where
  "applyItemsReordered e po = (case ev_payload e of
       PItemsReordered ids \<Rightarrow> Inr (map_option (\<lambda>p. touch (ev_timestamp e)
         (p\<lparr>p_items := List.map_filter (itemMap (p_items p)) ids\<rparr>)) po)
     | _ \<Rightarrow> Inl (ErrPayload EventItemsReordered))"

fun applyItemFields :: "item_field list \<Rightarrow> plan_item \<Rightarrow> plan_err + plan_item" where
  "applyItemFields [] it = Inr it"
| "applyItemFields (FTitle v # fs) it = applyItemFields fs (it\<lparr>pi_title := v\<rparr>)"
| "applyItemFields (FDescription v # fs) it = applyItemFields fs (it\<lparr>pi_description := v\<rparr>)"
| "applyItemFields (FDependsOn v # fs) it = applyItemFields fs (it\<lparr>pi_dependsOn := v\<rparr>)"
| "applyItemFields (FRole v # fs) it = applyItemFields fs (it\<lparr>pi_role := v\<rparr>)"
| "applyItemFields (FStatus v # fs) it = applyItemFields fs (it\<lparr>pi_status := v\<rparr>)"
| "applyItemFields (FResult v # fs) it = applyItemFields fs (it\<lparr>pi_result := v\<rparr>)"
| "applyItemFields (FIllTyped k # fs) it = Inl (ErrField k)"
| "applyItemFields (FUnknown k # fs) it = applyItemFields fs it"

definition applyItemUpdated :: "event \<Rightarrow> plan option \<Rightarrow> plan_err + plan option" where
  "applyItemUpdated e po = (case ev_payload e of
       PItemUpdated i fso \<Rightarrow> (case po of None \<Rightarrow> Inr None | Some p \<Rightarrow>
         (case plan_Item p i of
            None \<Rightarrow> Inr (Some (touch (ev_timestamp e) p))
          | Some it \<Rightarrow> (case fso of None \<Rightarrow> Inl ErrFields | Some fs \<Rightarrow>
              (case applyItemFields fs it of Inl x \<Rightarrow> Inl x | Inr it' \<Rightarrow>
                 Inr (Some (touch (ev_timestamp e) (patch_Item i (\<lambda>_. it') p)))))))
     | _ \<Rightarrow> Inl (ErrPayload EventItemUpdated))"

definition applyClarification :: "event \<Rightarrow> plan option \<Rightarrow> plan_err + plan option" where
  "applyClarification e po = Inr (map_option (touch (ev_timestamp e)) po)"

text \<open>\<open>applyEvent\<close> with the table \<open>eventHandlers\<close>; an unknown type is skipped.\<close>

definition applyEvent :: "event \<Rightarrow> plan option \<Rightarrow> plan_err + plan option" where
  "applyEvent e = (case ev_type e of
       EventPlanCreated \<Rightarrow> applyPlanCreated e
     | EventItemAdded \<Rightarrow> applyItemAdded e
     | EventItemRemoved \<Rightarrow> applyItemRemoved e
     | EventPlanApproved \<Rightarrow> applyPlanApproved e
     | EventExecutionStarted \<Rightarrow> applyExecutionStarted e
     | EventPlanCompleted \<Rightarrow> applyPlanCompleted e
     | EventPlanFailed \<Rightarrow> applyPlanFailed e
     | EventItemBlocked \<Rightarrow> applyItemBlocked e
     | EventItemSkipped \<Rightarrow> applyItemSkipped e
     | EventItemStarted \<Rightarrow> applyItemStarted e
     | EventItemCompleted \<Rightarrow> applyItemCompleted e
     | EventRevisionSubmitted \<Rightarrow> applyRevisionSubmitted e
     | EventCommentAdded \<Rightarrow> applyCommentAdded e
     | EventCommentRemoved \<Rightarrow> applyCommentRemoved e
     | EventCommentUpdated \<Rightarrow> applyCommentUpdated e
     | EventCommentResolved \<Rightarrow> applyCommentResolved e
     | EventItemsReordered \<Rightarrow> applyItemsReordered e
     | EventItemUpdated \<Rightarrow> applyItemUpdated e
     | EventClarification \<Rightarrow> applyClarification e
     | EventOther _ \<Rightarrow> (\<lambda>po. Inr po))"

section \<open>Opening a store\<close>

text \<open>
  A line as \<open>bufio.Scanner\<close> delivers it; one that does not fit its 64 KiB buffer ends the scan
  with an error.
\<close>

datatype log_line = Blank | Garbage | LongLine | Line event

text \<open>The scan loop of \<open>Open\<close>: the plan so far and the last sequence number.\<close>

fun scan_lines :: "log_line list \<Rightarrow> plan option \<Rightarrow> int \<Rightarrow> plan_err + (plan option \<times> int)" where
  "scan_lines [] po n = Inr (po, n)"
| "scan_lines (Blank # ls) po n = scan_lines ls po n"
| "scan_lines (Garbage # ls) po n = Inl (ErrBadLine (n + 1))"
| "scan_lines (LongLine # ls) po n = Inl ErrLineTooLong"
| "scan_lines (Line e # ls) po n =
     (if n \<noteq> ev_seq e - 1 then Inl (ErrSeqGap (ev_seq e) (n + 1))
      else (case applyEvent e po of Inl x \<Rightarrow> Inl x | Inr po' \<Rightarrow> scan_lines ls po' (ev_seq e)))"

text \<open>The lines \<open>append\<close> wrote for the events; \<open>len\<close> gives the length of an event's JSON text.\<close>

definition file_lines :: "(event \<Rightarrow> nat) \<Rightarrow> event list \<Rightarrow> log_line list" where
  "file_lines len es = map (\<lambda>e. if len e < 65536 then Line e else LongLine) es"

definition line_events :: "log_line list \<Rightarrow> event list" where
  "line_events ls = List.map_filter (\<lambda>l. case l of Line e \<Rightarrow> Some e | _ \<Rightarrow> None) ls"

definition open_store :: "string \<Rightarrow> log_line list \<Rightarrow> plan option \<Rightarrow> plan_err + store" where
  "open_store i ls snap = (case scan_lines ls None 0 of
       Inl x \<Rightarrow> Inl x
     | Inr (None, n) \<Rightarrow> Inl ErrNoPlanCreated
     | Inr (Some p, n) \<Rightarrow> Inr \<lparr>st_id = i, st_plan = Some p, st_seq = n,
         st_file = line_events ls, st_snapshot = snap\<rparr>)"

section \<open>Reading back what was written\<close>

text \<open>A log whose events carry consecutive numbers is scanned exactly as it replays.\<close>

fun consecutive :: "int \<Rightarrow> event list \<Rightarrow> bool" where
  "consecutive n [] \<longleftrightarrow> True"
| "consecutive n (e # es) \<longleftrightarrow> ev_seq e = n + 1 \<and> consecutive (n + 1) es"

lemma consecutive_append:
  "consecutive n (es @ [e]) \<longleftrightarrow> consecutive n es \<and> ev_seq e = n + int (length es) + 1"
  by (induction es arbitrary: n) auto

lemma scan_lines_replay:
  "consecutive n es \<Longrightarrow> scan_lines (map Line es) po n =
     map_sum id (\<lambda>r. (r, n + int (length es))) (replay applyEvent es po)"
  by (induction es arbitrary: n po) (auto split: sum.split simp: add.assoc)

lemma scan_lines_LongLine: "LongLine \<in> set ls \<Longrightarrow> \<exists>x. scan_lines ls po n = Inl x"
  by (induction ls po n rule: scan_lines.induct) (auto split: sum.split)

lemma file_lines_short: "\<forall>e\<in>set es. len e < 65536 \<Longrightarrow> file_lines len es = map Line es"
  by (simp add: file_lines_def)

lemmas plan_handlers = applyEvent_def applyPlanCreated_def applyItemAdded_def
  applyItemRemoved_def applyPlanApproved_def applyExecutionStarted_def applyPlanCompleted_def
  applyPlanFailed_def applyItemBlocked_def applyItemSkipped_def applyItemStarted_def
  applyItemCompleted_def applyRevisionSubmitted_def applyCommentAdded_def
  applyCommentRemoved_def applyCommentUpdated_def applyCommentResolved_def
  applyItemsReordered_def applyItemUpdated_def applyClarification_def

lemma append_event_simps [simp]:
  "st_plan (append_event t ty pl s) = st_plan s"
  "st_id (append_event t ty pl s) = st_id s"
  "st_seq (append_event t ty pl s) = st_seq s + 1"
  "st_snapshot (append_event t ty pl s) = st_plan s"
  "st_file (append_event t ty pl s) = st_file s @
     [\<lparr>ev_seq = st_seq s + 1, ev_type = ty, ev_planID = st_id s, ev_timestamp = t, ev_payload = pl\<rparr>]"
  by (simp_all add: append_event_def Let_def)

lemma plan_Item_patch:
  "(\<And>it. pi_id (f it) = pi_id it) \<Longrightarrow>
   plan_Item (patch_Item i f p) j = (if i = j then map_option f (plan_Item p j) else plan_Item p j)"
  by (auto simp: plan_Item_def patch_Item_def intro: find_update_first find_update_first_other)

lemma plan_ItemD: "plan_Item p i = Some it \<Longrightarrow> it \<in> set (p_items p) \<and> pi_id it = i"
  by (auto simp: plan_Item_def dest: find_SomeD)

lemma plan_Item_None: "plan_Item p i = None \<longleftrightarrow> i \<notin> pi_id ` set (p_items p)"
  by (auto simp: plan_Item_def find_None_iff_all)

lemma patch_Item_fields [simp]:
  "p_status (patch_Item i f p) = p_status p" "p_comments (patch_Item i f p) = p_comments p"
  "p_revision (patch_Item i f p) = p_revision p" "p_runID (patch_Item i f p) = p_runID p"
  by (simp_all add: patch_Item_def)

end
