(* ===== verification/Plan_Mutations.thy ===== *)
theory Plan_Mutations
  imports Plan_Store
begin

text \<open>
  The mutations of core/plan/mutations.go. Each takes the two clock readings of the code
  (\<open>t\<close> for UpdatedAt, \<open>t'\<close> inside \<open>append\<close>), checks its guards in the order of the code, and
  returns the error or the store with the event appended. The mutex makes each one atomic.
\<close>

section \<open>Identifiers\<close>

text \<open>
  \<open>fmt.Sscanf(s, "item-%d", &id)\<close>: the literal, then spaces (a newline is an error), a sign
  and at least one digit; what follows the digits is not read. A value outside 64 bits is an
  error.
\<close>

function skip_space :: "string \<Rightarrow> string option" where
  "skip_space s = (case space_at s of None \<Rightarrow> Some s
     | Some sp \<Rightarrow> if sp = bytes [10] then None else skip_space (drop (length sp) s))"
  by pat_completeness auto
termination
proof (relation "measure length")
  fix s sp
  assume "space_at s = Some sp"
  from space_at_pos [OF this] have "sp \<noteq> []" "length sp \<le> length s"
    by (auto dest: has_prefix_length)
  then show "(drop (length sp) s, s) \<in> measure length" by (cases sp; cases s) auto
qed simp

declare skip_space.simps [simp del]

definition scan_int :: "string \<Rightarrow> int option" where
  "scan_int s =
     (let neg = has_prefix ''-'' s;
          r = (if neg \<or> has_prefix ''+'' s then drop 1 s else s);
          ds = takeWhile is_digit r;
          v = (if neg then - int (digits_val ds) else int (digits_val ds))
      in if ds = [] \<or> v < - max_int - 1 \<or> max_int < v then None else Some v)"

definition sscanf_item :: "string \<Rightarrow> int option" where
  "sscanf_item s = (if has_prefix ''item-'' s
     then (case skip_space (drop 5 s) of None \<Rightarrow> None | Some r \<Rightarrow> scan_int r) else None)"

definition item_number :: "plan_item \<Rightarrow> int \<Rightarrow> int" where
  "item_number it n = (case sscanf_item (pi_id it) of
       Some v \<Rightarrow> if v \<ge> n then wrap64 (v + 1) else n
     | None \<Rightarrow> n)"

definition nextItemID :: "plan \<Rightarrow> string" where
  "nextItemID p = ''item-'' @ dec_int (fold item_number (p_items p) 1)"

section \<open>Items\<close>

definition with_plan :: "store \<Rightarrow> (plan \<Rightarrow> plan_err + 'a) \<Rightarrow> plan_err + 'a" where
  "with_plan s f = (case st_plan s of None \<Rightarrow> Inl PanicNilPlan | Some p \<Rightarrow> f p)"

definition commit :: "time \<Rightarrow> event_type \<Rightarrow> payload \<Rightarrow> store \<Rightarrow> plan \<Rightarrow> store" where
  "commit t' ty pl s p' = append_event t' ty pl (s\<lparr>st_plan := Some p'\<rparr>)"

definition AddItem :: "time \<Rightarrow> time \<Rightarrow> string \<Rightarrow> string \<Rightarrow> string \<Rightarrow> string list \<Rightarrow> string
    \<Rightarrow> store \<Rightarrow> plan_err + (store \<times> string)" where
  "AddItem t t' title description aft dependsOn role s = with_plan s (\<lambda>p.
     let i = nextItemID p;
         item = \<lparr>pi_id = i, pi_title = title, pi_description = description,
                 pi_dependsOn = dependsOn, pi_role = role, pi_status = ItemPending, pi_result = []\<rparr>;
         fin = (\<lambda>items. Inr (commit t' EventItemAdded (PItemAdded item) s
                  (touch t (p\<lparr>p_items := items\<rparr>)), i))
     in if aft \<noteq> [] then
          (case index_where (\<lambda>it. pi_id it = aft) (p_items p) of
             None \<Rightarrow> Inl (ErrInsertAfter aft)
           | Some _ \<Rightarrow> fin (insert_after_first (\<lambda>it. pi_id it = aft) item (p_items p)))
        else fin (p_items p @ [item]))"

record item_patch =
  ip_title :: "string option"
  ip_description :: "string option"
  ip_dependsOn :: "string list option"
  ip_role :: "string option"

definition opt_set :: "('a \<Rightarrow> 'b \<Rightarrow> 'b) \<Rightarrow> 'a option \<Rightarrow> 'b \<Rightarrow> 'b" where
  "opt_set f v x = (case v of None \<Rightarrow> x | Some a \<Rightarrow> f a x)"

definition patch_fields :: "item_patch \<Rightarrow> plan_item \<Rightarrow> plan_item" where
  "patch_fields pt it =
     opt_set (\<lambda>v it. it\<lparr>pi_role := v\<rparr>) (ip_role pt)
    (opt_set (\<lambda>v it. it\<lparr>pi_dependsOn := v\<rparr>) (ip_dependsOn pt)
    (opt_set (\<lambda>v it. it\<lparr>pi_description := v\<rparr>) (ip_description pt)
    (opt_set (\<lambda>v it. it\<lparr>pi_title := v\<rparr>) (ip_title pt) it)))"

definition patch_payload :: "item_patch \<Rightarrow> item_field list" where
  "patch_payload pt =
     (case ip_title pt of None \<Rightarrow> [] | Some v \<Rightarrow> [FTitle v]) @
     (case ip_description pt of None \<Rightarrow> [] | Some v \<Rightarrow> [FDescription v]) @
     (case ip_dependsOn pt of None \<Rightarrow> [] | Some v \<Rightarrow> [FDependsOn v]) @
     (case ip_role pt of None \<Rightarrow> [] | Some v \<Rightarrow> [FRole v])"

definition UpdateItem :: "time \<Rightarrow> time \<Rightarrow> string \<Rightarrow> item_patch \<Rightarrow> store \<Rightarrow> plan_err + store" where
  "UpdateItem t t' i pt s = with_plan s (\<lambda>p. case plan_Item p i of
       None \<Rightarrow> Inl (ErrItemNotFound i)
     | Some _ \<Rightarrow> Inr (commit t' EventItemUpdated (PItemUpdated i (Some (patch_payload pt))) s
                  (touch t (patch_Item i (patch_fields pt) p))))"

definition RemoveItem :: "time \<Rightarrow> time \<Rightarrow> string \<Rightarrow> store \<Rightarrow> plan_err + store" where
  "RemoveItem t t' i s = with_plan s (\<lambda>p.
     if plan_Item p i = None then Inl (ErrItemNotFound i)
     else if Dependents p i \<noteq> [] then Inl (ErrDependedOn i (Dependents p i))
     else Inr (commit t' EventItemRemoved (PItemRemoved i) s
            (touch t (p\<lparr>p_items := remove_first (\<lambda>it. pi_id it = i) (p_items p)\<rparr>))))"

text \<open>The permutation check of \<open>Reorder\<close>: the first unknown or repeated ID is reported.\<close>

fun reorder_check :: "string list \<Rightarrow> string list \<Rightarrow> string list \<Rightarrow> plan_err option" where
  "reorder_check valid seen [] = None"
| "reorder_check valid seen (i # is) =
     (if i \<notin> set valid then Some (ErrReorderUnknown i)
      else if i \<in> set seen then Some (ErrReorderDuplicate i)
      else reorder_check valid (i # seen) is)"

definition Reorder :: "time \<Rightarrow> time \<Rightarrow> string list \<Rightarrow> store \<Rightarrow> plan_err + store" where
  "Reorder t t' ids s = with_plan s (\<lambda>p.
     if length ids \<noteq> length (p_items p)
     then Inl (ErrReorderCount (length ids) (length (p_items p)))
     else (case reorder_check (map pi_id (p_items p)) [] ids of
        Some err \<Rightarrow> Inl err
      | None \<Rightarrow> Inr (commit t' EventItemsReordered (PItemsReordered ids) s
          (touch t (p\<lparr>p_items := map (\<lambda>i. the (itemMap (p_items p) i)) ids\<rparr>)))))"

section \<open>Revisions and comments\<close>

definition SubmitRevision :: "time \<Rightarrow> time \<Rightarrow> store \<Rightarrow> plan_err + store" where
  "SubmitRevision t t' s = with_plan s (\<lambda>p.
     if p_status p \<noteq> PlanDraft \<and> p_status p \<noteq> PlanInReview then Inl (ErrSubmit (p_status p))
     else let n = wrap64 (p_revision p + 1) in
       Inr (commit t' EventRevisionSubmitted (PRevisionSubmitted n) s
         (touch t (p\<lparr>p_revision := n, p_status := PlanInReview\<rparr>))))"

text \<open>\<open>cid\<close> is the random identifier \<open>nextCommentID\<close> draws.\<close>

definition AddComment :: "time \<Rightarrow> time \<Rightarrow> string \<Rightarrow> string \<Rightarrow> string \<Rightarrow> store
    \<Rightarrow> plan_err + (store \<times> string)" where
  "AddComment t t' cid itemID content s = with_plan s (\<lambda>p.
     if content = [] then Inl ErrEmptyComment
     else let c = \<lparr>pc_id = cid, pc_itemID = itemID, pc_content = content,
                   pc_revision = p_revision p, pc_resolved = False, pc_createdAt = t,
                   pc_updatedAt = t\<rparr> in
       Inr (commit t' EventCommentAdded (PCommentAdded c) s
         (touch t (p\<lparr>p_comments := p_comments p @ [c]\<rparr>)), cid))"

definition comment_exists :: "plan \<Rightarrow> string \<Rightarrow> bool" where
  "comment_exists p i \<longleftrightarrow> index_where (\<lambda>c. pc_id c = i) (p_comments p) \<noteq> None"

definition UpdateComment :: "time \<Rightarrow> time \<Rightarrow> string \<Rightarrow> string \<Rightarrow> store \<Rightarrow> plan_err + store" where
  "UpdateComment t t' i content s = with_plan s (\<lambda>p.
     if content = [] then Inl ErrEmptyComment
     else if \<not> comment_exists p i then Inl (ErrCommentNotFound i)
     else Inr (commit t' EventCommentUpdated (PCommentUpdated i content) s
       (touch t (patch_comment i (\<lambda>c. c\<lparr>pc_content := content, pc_updatedAt := t\<rparr>) p))))"

definition RemoveComment :: "time \<Rightarrow> time \<Rightarrow> string \<Rightarrow> store \<Rightarrow> plan_err + store" where
  "RemoveComment t t' i s = with_plan s (\<lambda>p.
     if \<not> comment_exists p i then Inl (ErrCommentNotFound i)
     else Inr (commit t' EventCommentRemoved (PCommentRemoved i) s
       (touch t (p\<lparr>p_comments := remove_first (\<lambda>c. pc_id c = i) (p_comments p)\<rparr>))))"

definition ResolveComment :: "time \<Rightarrow> time \<Rightarrow> string \<Rightarrow> string \<Rightarrow> store \<Rightarrow> plan_err + store" where
  "ResolveComment t t' i note s = with_plan s (\<lambda>p.
     if \<not> comment_exists p i then Inl (ErrCommentNotFound i)
     else Inr (commit t' EventCommentResolved (PCommentResolved i note) s
       (touch t (patch_comment i (\<lambda>c. c\<lparr>pc_resolved := True, pc_updatedAt := t\<rparr>) p))))"

section \<open>Approval and execution\<close>

definition Approve :: "time \<Rightarrow> time \<Rightarrow> store \<Rightarrow> plan_err + store" where
  "Approve t t' s = with_plan s (\<lambda>p.
     if p_status p \<noteq> PlanInReview then Inl (ErrApprove (p_status p))
     else Inr (commit t' EventPlanApproved PPlanApproved s
       (touch t (p\<lparr>p_status := PlanApproved\<rparr>))))"

definition StartExecution :: "time \<Rightarrow> time \<Rightarrow> string \<Rightarrow> store \<Rightarrow> plan_err + store" where
  "StartExecution t t' runID s = with_plan s (\<lambda>p.
     if p_status p \<noteq> PlanApproved \<and> p_status p \<noteq> PlanExecuting
     then Inl (ErrStartExecution (p_status p))
     else Inr (commit t' EventExecutionStarted (PExecutionStarted runID) s
       (touch t (p\<lparr>p_status := PlanExecuting, p_runID := runID\<rparr>))))"

text \<open>Rule 4 of \<open>StartItem\<close>: the first dependency that is missing or not finished.\<close>

fun dependency_error :: "plan \<Rightarrow> string list \<Rightarrow> plan_err option" where
  "dependency_error p [] = None"
| "dependency_error p (d # ds) = (case plan_Item p d of
       None \<Rightarrow> Some (ErrDependencyNotFound d)
     | Some it \<Rightarrow> if item_terminal it then dependency_error p ds
                 else Some (ErrDependencyOpen d (pi_status it)))"

definition StartItem :: "time \<Rightarrow> time \<Rightarrow> string \<Rightarrow> string \<Rightarrow> string \<Rightarrow> store
    \<Rightarrow> plan_err + store" where
  "StartItem t t' itemID role agentID s = with_plan s (\<lambda>p.
     if p_status p \<noteq> PlanExecuting then Inl (ErrStartItemPlan (p_status p))
     else (case plan_Item p itemID of
        None \<Rightarrow> Inl (ErrItemNotFound itemID)
      | Some it \<Rightarrow>
          if pi_status it \<noteq> ItemPending then
            (if pi_status it = ItemBlocked then Inl (ErrItemIsBlocked itemID)
             else Inl (ErrNotPending itemID (pi_status it)))
          else (case List.find (\<lambda>x. pi_status x = ItemInProgress) (p_items p) of
             Some x \<Rightarrow> Inl (ErrAlreadyInProgress (pi_id x))
           | None \<Rightarrow> (case dependency_error p (pi_dependsOn it) of
                Some err \<Rightarrow> Inl err
              | None \<Rightarrow> Inr (commit t' EventItemStarted (PItemStarted itemID role agentID) s
                  (touch t (set_item_status itemID ItemInProgress p)))))))"

definition CompleteItem :: "time \<Rightarrow> time \<Rightarrow> string \<Rightarrow> string \<Rightarrow> store \<Rightarrow> plan_err + store" where
  "CompleteItem t t' itemID result s = with_plan s (\<lambda>p. case plan_Item p itemID of
       None \<Rightarrow> Inl (ErrItemNotFound itemID)
     | Some it \<Rightarrow>
         if pi_status it \<noteq> ItemInProgress then Inl (ErrNotInProgress itemID (pi_status it))
         else if result = [] then Inl ErrEmptyResult
         else Inr (commit t' EventItemCompleted (PItemCompleted itemID result) s
           (touch t (patch_Item itemID (\<lambda>it. it\<lparr>pi_status := ItemDone, pi_result := result\<rparr>) p))))"

definition BlockItem :: "time \<Rightarrow> time \<Rightarrow> string \<Rightarrow> string \<Rightarrow> store \<Rightarrow> plan_err + store" where
  "BlockItem t t' itemID reason s = with_plan s (\<lambda>p. case plan_Item p itemID of
       None \<Rightarrow> Inl (ErrItemNotFound itemID)
     | Some it \<Rightarrow>
         if pi_status it \<noteq> ItemInProgress \<and> pi_status it \<noteq> ItemPending
         then Inl (ErrCannotBlock itemID (pi_status it))
         else Inr (commit t' EventItemBlocked (PItemBlocked itemID reason) s
           (touch t (set_item_status itemID ItemBlocked p))))"

definition SkipItem :: "time \<Rightarrow> time \<Rightarrow> string \<Rightarrow> string \<Rightarrow> store \<Rightarrow> plan_err + store" where
  "SkipItem t t' itemID reason s = with_plan s (\<lambda>p. case plan_Item p itemID of
       None \<Rightarrow> Inl (ErrItemNotFound itemID)
     | Some it \<Rightarrow>
         if pi_status it \<noteq> ItemPending \<and> pi_status it \<noteq> ItemBlocked
         then Inl (ErrCannotSkip itemID (pi_status it))
         else Inr (commit t' EventItemSkipped (PItemSkipped itemID reason) s
           (touch t (set_item_status itemID ItemSkipped p))))"

definition RecordClarification :: "time \<Rightarrow> time \<Rightarrow> string \<Rightarrow> string \<Rightarrow> string \<Rightarrow> store
    \<Rightarrow> plan_err + store" where
  "RecordClarification t t' itemID question answer s = with_plan s (\<lambda>p.
     if plan_Item p itemID = None then Inl (ErrItemNotFound itemID)
     else if question = [] \<and> answer = [] then Inl ErrEmptyClarification
     else Inr (commit t' EventClarification (PClarification itemID question answer) s (touch t p)))"

definition Finish :: "time \<Rightarrow> time \<Rightarrow> store \<Rightarrow> plan_err + store" where
  "Finish t t' s = with_plan s (\<lambda>p.
     if \<not> AllTerminal p then Inl ErrNotAllTerminal
     else if p_status p \<noteq> PlanExecuting then Inl (ErrFinish (p_status p))
     else Inr (commit t' EventPlanCompleted PPlanCompleted s
       (touch t (p\<lparr>p_status := PlanDone\<rparr>))))"

definition Fail :: "time \<Rightarrow> time \<Rightarrow> string \<Rightarrow> store \<Rightarrow> plan_err + store" where
  "Fail t t' reason s = with_plan s (\<lambda>p.
     Inr (commit t' EventPlanFailed (PPlanFailed reason) s
       (touch t (p\<lparr>p_status := PlanFailed\<rparr>))))"

definition BlockPlan :: "time \<Rightarrow> time \<Rightarrow> string \<Rightarrow> store \<Rightarrow> plan_err + store" where
  "BlockPlan t t' reason s = with_plan s (\<lambda>p.
     Inr (commit t' EventPlanFailed (PPlanFailed (''blocked: '' @ reason)) s
       (touch t (p\<lparr>p_status := PlanBlocked\<rparr>))))"

end
