(* ===== verification/Plan_Replay.thy ===== *)
theory Plan_Replay
  imports Plan_Mutations
begin

text \<open>
  The plan store as an event-sourced component: its commands, what each keeps of the store's
  well-formedness, and the simulation between the plan in memory and the plan rebuilt from
  the log. \<open>same_plan\<close> is equality up to the recorded times, which the two sides read from
  different clock calls.
\<close>

section \<open>Commands\<close>

datatype plan_op =
    OAddItem string string string "string list" string
  | OUpdateItem string item_patch
  | ORemoveItem string
  | OReorder "string list"
  | OSubmitRevision
  | OAddComment string string string
  | OUpdateComment string string
  | ORemoveComment string
  | OResolveComment string string
  | OApprove
  | OStartExecution string
  | OStartItem string string string
  | OCompleteItem string string
  | OBlockItem string string
  | OSkipItem string string
  | OClarify string string string
  | OFinish
  | OFail string
  | OBlockPlan string

type_synonym plan_cmd = "time \<times> time \<times> plan_op"

fun plan_exec :: "plan_cmd \<Rightarrow> store \<Rightarrow> plan_err + store" where
  "plan_exec (t, t', OAddItem a b c d e) s = map_sum id fst (AddItem t t' a b c d e s)"
| "plan_exec (t, t', OUpdateItem i pt) s = UpdateItem t t' i pt s"
| "plan_exec (t, t', ORemoveItem i) s = RemoveItem t t' i s"
| "plan_exec (t, t', OReorder ids) s = Reorder t t' ids s"
| "plan_exec (t, t', OSubmitRevision) s = SubmitRevision t t' s"
| "plan_exec (t, t', OAddComment cid i c) s = map_sum id fst (AddComment t t' cid i c s)"
| "plan_exec (t, t', OUpdateComment i c) s = UpdateComment t t' i c s"
| "plan_exec (t, t', ORemoveComment i) s = RemoveComment t t' i s"
| "plan_exec (t, t', OResolveComment i n) s = ResolveComment t t' i n s"
| "plan_exec (t, t', OApprove) s = Approve t t' s"
| "plan_exec (t, t', OStartExecution r) s = StartExecution t t' r s"
| "plan_exec (t, t', OStartItem i r a) s = StartItem t t' i r a s"
| "plan_exec (t, t', OCompleteItem i r) s = CompleteItem t t' i r s"
| "plan_exec (t, t', OBlockItem i r) s = BlockItem t t' i r s"
| "plan_exec (t, t', OSkipItem i r) s = SkipItem t t' i r s"
| "plan_exec (t, t', OClarify i q a) s = RecordClarification t t' i q a s"
| "plan_exec (t, t', OFinish) s = Finish t t' s"
| "plan_exec (t, t', OFail r) s = Fail t t' r s"
| "plan_exec (t, t', OBlockPlan r) s = BlockPlan t t' r s"

text \<open>A command as a step of the store: a refused one changes nothing and logs nothing.\<close>

definition plan_step :: "plan_cmd \<Rightarrow> store \<Rightarrow> store \<times> event list" where
  "plan_step c s = (case plan_exec c s of Inl _ \<Rightarrow> (s, [])
     | Inr s' \<Rightarrow> (s', drop (length (st_file s)) (st_file s')))"

lemmas plan_ops = AddItem_def UpdateItem_def RemoveItem_def Reorder_def SubmitRevision_def
  AddComment_def UpdateComment_def RemoveComment_def ResolveComment_def Approve_def
  StartExecution_def StartItem_def CompleteItem_def BlockItem_def SkipItem_def
  RecordClarification_def Finish_def Fail_def BlockPlan_def

text \<open>Every successful command is one commit: the plan changes and one event is appended.\<close>

definition commits :: "time \<Rightarrow> store \<Rightarrow> store \<Rightarrow> bool" where
  "commits t' s s' \<longleftrightarrow> (\<exists>ty pl p p'. st_plan s = Some p \<and> s' = commit t' ty pl s p' \<and> p_id p' = p_id p)"

lemma commitsI [intro]:
  "st_plan s = Some p \<Longrightarrow> p_id p' = p_id p \<Longrightarrow> commits t' s (commit t' ty pl s p')"
  by (auto simp: commits_def)

lemma touch_fields [simp]:
  "p_id (touch t p) = p_id p" "p_items (touch t p) = p_items p" "p_status (touch t p) = p_status p"
  "p_comments (touch t p) = p_comments p" "p_revision (touch t p) = p_revision p"
  "p_runID (touch t p) = p_runID p" "p_name (touch t p) = p_name p"
  "p_objective (touch t p) = p_objective p"
  by (simp_all add: touch_def)

lemma plan_exec_commit: "plan_exec (t, t', oper) s = Inr s' \<Longrightarrow> commits t' s s'"
  by (cases oper; cases "st_plan s")
     (auto simp: plan_ops with_plan_def patch_Item_def patch_comment_def
        set_item_status_def Let_def split: if_splits option.splits)

lemma commit_simps [simp]:
  "st_plan (commit t' ty pl s p') = Some p'"
  "st_id (commit t' ty pl s p') = st_id s"
  "st_seq (commit t' ty pl s p') = st_seq s + 1"
  "st_snapshot (commit t' ty pl s p') = Some p'"
  "st_file (commit t' ty pl s p') = st_file s @ [\<lparr>ev_seq = st_seq s + 1, ev_type = ty,
     ev_planID = st_id s, ev_timestamp = t', ev_payload = pl\<rparr>]"
  by (simp_all add: commit_def)

section \<open>Well-formed stores\<close>

text \<open>
  The file holds the events 1 to \<open>seq\<close> and plan.json is the plan in memory. Item IDs are
  pairwise distinct.
\<close>

definition store_wf :: "store \<Rightarrow> bool" where
  "store_wf s \<longleftrightarrow> (\<exists>p. st_plan s = Some p \<and> st_snapshot s = Some p \<and> p_id p = st_id s) \<and>
     st_seq s = int (length (st_file s)) \<and> consecutive 0 (st_file s)"

definition ids_distinct :: "store \<Rightarrow> bool" where
  "ids_distinct s \<longleftrightarrow> (\<forall>p. st_plan s = Some p \<longrightarrow> distinct (map pi_id (p_items p)))"

lemma store_wf_commit [goa_inv]:
  "store_wf s \<Longrightarrow> p_id p' = st_id s \<Longrightarrow> store_wf (commit t' ty pl s p')"
  by (auto simp: store_wf_def consecutive_append)

lemma store_wf_exec: "store_wf s \<Longrightarrow> plan_exec c s = Inr s' \<Longrightarrow> store_wf s'"
proof -
  assume wf: "store_wf s" and ex: "plan_exec c s = Inr s'"
  obtain t t' oper where c: "c = (t, t', oper)" by (cases c) auto
  from plan_exec_commit [OF ex [unfolded c]] wf show ?thesis
    by (auto simp: commits_def store_wf_def consecutive_append)
qed

lemma store_wf_create: "store_wf (create_store i name now t objective)"
  by (simp add: store_wf_def create_store_def Let_def)

section \<open>Fresh item identifiers\<close>

text \<open>There is room for another item while no numbered ID is the largest 64-bit integer.\<close>

definition id_room :: "plan \<Rightarrow> bool" where
  "id_room p \<longleftrightarrow> (\<forall>it\<in>set (p_items p). \<forall>v. sscanf_item (pi_id it) = Some v \<longrightarrow> v < max_int)"

lemma sscanf_range: "sscanf_item s = Some v \<Longrightarrow> - max_int - 1 \<le> v \<and> v \<le> max_int"
  by (auto simp: sscanf_item_def scan_int_def Let_def split: if_splits option.splits)

lemma takeWhile_dec: "takeWhile is_digit (dec n) = dec n"
  using dec_digits by (simp add: takeWhile_eq_all_conv)

lemma dec_first: "\<exists>c r. dec n = c # r \<and> is_digit c"
  using dec_digits [of n] dec_nonempty [of n] by (cases "dec n") auto

lemma space_at_digit: "is_digit c \<Longrightarrow> space_at (c # r) = None"
  unfolding space_at_def find_None_iff_all has_prefix_def is_digit_def
  by (auto simp: spaces_def ascii_spaces_def unicode_spaces_def bytes_def)

lemma space_at_minus: "space_at (CHR ''-'' # r) = None"
  unfolding space_at_def find_None_iff_all has_prefix_def
  by (auto simp: spaces_def ascii_spaces_def unicode_spaces_def bytes_def eq_char_of)

lemma dec_no_sign: "\<not> has_prefix ''-'' (dec n)" "\<not> has_prefix ''+'' (dec n)"
  using dec_first [of n] by (auto simp: has_prefix_iff is_digit_def)

lemma scan_int_dec_int:
  assumes "- max_int - 1 \<le> v" "v \<le> max_int"
  shows "scan_int (dec_int v) = Some v"
proof (cases "v < 0")
  case True
  have "has_prefix ''-'' (''-'' @ dec (nat (- v)))" by (simp add: has_prefix_def)
  with True assms show ?thesis
    by (simp add: scan_int_def dec_int_def takeWhile_dec)
next
  case False
  with assms show ?thesis
    by (simp add: scan_int_def dec_int_def takeWhile_dec dec_no_sign max_int_def)
qed

lemma sscanf_dec_int:
  assumes "- max_int - 1 \<le> v" "v \<le> max_int"
  shows "sscanf_item (''item-'' @ dec_int v) = Some v"
proof -
  have "space_at (dec_int v) = None"
    using dec_first [of "nat v"] by (auto simp: dec_int_def space_at_minus space_at_digit)
  then have "skip_space (dec_int v) = Some (dec_int v)" by (subst skip_space.simps) simp
  with scan_int_dec_int [OF assms] show ?thesis
    by (simp add: sscanf_item_def has_prefix_def)
qed

lemma fold_item_number:
  assumes "\<forall>it\<in>set its. \<forall>v. sscanf_item (pi_id it) = Some v \<longrightarrow> v < max_int"
    and "1 \<le> n" "n \<le> max_int"
  shows "n \<le> fold item_number its n \<and> fold item_number its n \<le> max_int \<and>
    (\<forall>it\<in>set its. \<forall>v. sscanf_item (pi_id it) = Some v \<longrightarrow> v < fold item_number its n)"
  using assms
proof (induction its arbitrary: n)
  case (Cons it its)
  let ?m = "item_number it n"
  have "n \<le> ?m \<and> ?m \<le> max_int \<and> (\<forall>v. sscanf_item (pi_id it) = Some v \<longrightarrow> v < ?m)"
  proof (cases "sscanf_item (pi_id it)")
    case (Some v)
    with Cons.prems have "v < max_int" by simp
    moreover have "- max_int - 1 \<le> v" using sscanf_range [OF Some] by simp
    ultimately show ?thesis using Some Cons.prems by (simp add: item_number_def wrap64_id)
  qed (use Cons.prems in \<open>simp add: item_number_def\<close>)
  moreover from this have "?m \<le> fold item_number its ?m \<and> fold item_number its ?m \<le> max_int \<and>
      (\<forall>x\<in>set its. \<forall>v. sscanf_item (pi_id x) = Some v \<longrightarrow> v < fold item_number its ?m)"
    using Cons.prems by (intro Cons.IH) auto
  ultimately show ?case by (auto intro: order_less_le_trans)
qed simp

lemma nextItemID_fresh: "id_room p \<Longrightarrow> nextItemID p \<notin> set (map pi_id (p_items p))"
proof
  let ?n = "fold item_number (p_items p) 1"
  assume room: "id_room p" and mem: "nextItemID p \<in> set (map pi_id (p_items p))"
  have n: "1 \<le> ?n" "?n \<le> max_int"
    and lt: "\<forall>it\<in>set (p_items p). \<forall>v. sscanf_item (pi_id it) = Some v \<longrightarrow> v < ?n"
    using fold_item_number [of "p_items p" 1] room by (auto simp: id_room_def max_int_def)
  then have "sscanf_item (nextItemID p) = Some ?n"
    unfolding nextItemID_def by (intro sscanf_dec_int) (auto simp: max_int_def)
  with mem lt show False by auto
qed

interpretation item_ids: id_alloc "\<lambda>p. map pi_id (p_items p)" nextItemID id_room
  by unfold_locales (rule nextItemID_fresh)

section \<open>Memory and log agree\<close>

definition strip_comment :: "plan_comment \<Rightarrow> plan_comment" where
  "strip_comment c = c\<lparr>pc_updatedAt := 0\<rparr>"

definition same_plan :: "plan \<Rightarrow> plan \<Rightarrow> bool" where
  "same_plan p q \<longleftrightarrow> p_id p = p_id q \<and> p_name p = p_name q \<and> p_objective p = p_objective q \<and>
     p_status p = p_status q \<and> p_revision p = p_revision q \<and> p_items p = p_items q \<and>
     p_runID p = p_runID q \<and>
     map strip_comment (p_comments p) = map strip_comment (p_comments q)"

definition plan_rel :: "store \<Rightarrow> plan option \<Rightarrow> bool" where
  "plan_rel s r \<longleftrightarrow> (\<exists>p q. st_plan s = Some p \<and> r = Some q \<and> same_plan p q)"

lemma same_plan_refl [simp]: "same_plan p p"
  by (simp add: same_plan_def)

text \<open>
  Two commands are not replayed as they ran: an item inserted after another one is logged
  without its position, and \<open>BlockPlan\<close> logs a plan_failed event. \<open>replayable\<close> leaves them out
  (inserting after the last item is harmless).
\<close>

definition appends :: "string \<Rightarrow> plan \<Rightarrow> bool" where
  "appends aft p \<longleftrightarrow> aft = [] \<or> (p_items p \<noteq> [] \<and> pi_id (last (p_items p)) = aft)"

fun replayable :: "plan_cmd \<Rightarrow> store \<Rightarrow> bool" where
  "replayable (t, t', OAddItem title d aft deps role) s \<longleftrightarrow>
     (\<forall>p. st_plan s = Some p \<longrightarrow> appends aft p \<and> id_room p)"
| "replayable (t, t', OBlockPlan r) s \<longleftrightarrow> False"
| "replayable (t, t', oper) s \<longleftrightarrow> True"

lemma strip_comment_simps [simp]:
  "pc_id (strip_comment c) = pc_id c"
  "strip_comment (c\<lparr>pc_content := x, pc_updatedAt := t\<rparr>) = (strip_comment c)\<lparr>pc_content := x\<rparr>"
  "strip_comment (c\<lparr>pc_resolved := b, pc_updatedAt := t\<rparr>) = (strip_comment c)\<lparr>pc_resolved := b\<rparr>"
  by (simp_all add: strip_comment_def)

lemma strip_update_first:
  "(\<And>c. strip_comment (f c) = h (strip_comment c)) \<Longrightarrow>
   map strip_comment (update_first (\<lambda>c. pc_id c = i) f cs) =
   update_first (\<lambda>c. pc_id c = i) h (map strip_comment cs)"
  by (rule map_update_first_commute) simp_all

lemma strip_remove_first:
  "map strip_comment (remove_first (\<lambda>c. pc_id c = i) cs) =
   remove_first (\<lambda>c. pc_id c = i) (map strip_comment cs)"
  by (rule map_remove_first) simp

lemma patch_payload_applies: "applyItemFields (patch_payload pt) it = Inr (patch_fields pt it)"
  by (simp add: patch_payload_def patch_fields_def opt_set_def split: option.split)

lemma update_first_found:
  "List.find P xs = Some x \<Longrightarrow> update_first P (\<lambda>_. f x) xs = update_first P f xs"
  by (induction xs) (auto split: if_splits)

lemma insert_after_last:
  "distinct (map f xs) \<Longrightarrow> xs \<noteq> [] \<Longrightarrow> f (last xs) = k \<Longrightarrow>
   insert_after_first (\<lambda>x. f x = k) y xs = xs @ [y]"
proof (induction xs)
  case (Cons x xs)
  then show ?case
    by (cases "xs = []") (auto dest: last_in_set)
qed simp

lemma reorder_check_valid: "reorder_check valid seen ids = None \<Longrightarrow> set ids \<subseteq> set valid"
  by (induction ids arbitrary: seen) (auto split: if_splits)

lemma itemMap_Some: "i \<in> pi_id ` set items \<Longrightarrow> \<exists>it. itemMap items i = Some it \<and> pi_id it = i \<and> it \<in> set items"
proof -
  assume "i \<in> pi_id ` set items"
  then have "itemMap items i \<noteq> None" by (auto simp: itemMap_def find_None_iff_all)
  then obtain it where "itemMap items i = Some it" by blast
  then show ?thesis by (auto simp: itemMap_def dest!: find_SomeD)
qed

lemma map_filter_total:
  "(\<And>x. x \<in> set xs \<Longrightarrow> f x \<noteq> None) \<Longrightarrow> List.map_filter f xs = map (\<lambda>x. the (f x)) xs"
  by (induction xs) (auto simp: List.map_filter_simps split: option.split)

lemma reorder_items:
  assumes "reorder_check (map pi_id items) [] ids = None"
  shows "List.map_filter (itemMap items) ids = map (\<lambda>i. the (itemMap items i)) ids"
proof (rule map_filter_total)
  fix i assume "i \<in> set ids"
  with reorder_check_valid [OF assms] have "i \<in> pi_id ` set items" by auto
  from itemMap_Some [OF this] show "itemMap items i \<noteq> None" by auto
qed

text \<open>One logged event takes the plan rebuilt so far to the plan in memory.\<close>

definition event_gives :: "event \<Rightarrow> plan \<Rightarrow> plan \<Rightarrow> bool" where
  "event_gives e q p' \<longleftrightarrow> (case applyEvent e (Some q) of
     Inr (Some q') \<Rightarrow> same_plan p' q' | _ \<Rightarrow> False)"

definition commit_sim :: "store \<Rightarrow> store \<Rightarrow> plan \<Rightarrow> bool" where
  "commit_sim s s' q \<longleftrightarrow> (\<exists>e p'. st_file s' = st_file s @ [e] \<and> st_plan s' = Some p' \<and>
     event_gives e q p')"

lemma commit_sim_commit:
  "commit_sim s (commit t' ty pl s p') q \<longleftrightarrow>
   event_gives \<lparr>ev_seq = st_seq s + 1, ev_type = ty, ev_planID = st_id s, ev_timestamp = t',
     ev_payload = pl\<rparr> q p'"
  by (simp add: commit_sim_def)

lemma plan_Item_same: "same_plan p q \<Longrightarrow> plan_Item q i = plan_Item p i"
  by (simp add: same_plan_def plan_Item_def)

lemmas sim_simps = commit_sim_commit event_gives_def plan_handlers same_plan_def with_plan_def
  patch_Item_def patch_comment_def set_item_status_def touch_def strip_update_first
  strip_remove_first

lemma UpdateItem_sim:
  assumes "UpdateItem t t' i pt s = Inr s'" "st_plan s = Some p" "same_plan p q"
  shows "commit_sim s s' q"
proof -
  from assms(1,2) obtain it where it: "plan_Item p i = Some it"
    and s': "s' = commit t' EventItemUpdated (PItemUpdated i (Some (patch_payload pt))) s
      (touch t (patch_Item i (patch_fields pt) p))"
    by (auto simp: UpdateItem_def with_plan_def split: option.splits)
  from it have "update_first (\<lambda>x. pi_id x = i) (\<lambda>_. patch_fields pt it) (p_items p) =
      update_first (\<lambda>x. pi_id x = i) (patch_fields pt) (p_items p)"
    by (intro update_first_found) (simp add: plan_Item_def)
  with it assms(3) show ?thesis
    unfolding s' by (simp add: sim_simps plan_Item_def patch_payload_applies)
qed

lemma Reorder_sim:
  assumes "Reorder t t' ids s = Inr s'" "st_plan s = Some p" "same_plan p q"
  shows "commit_sim s s' q"
  using assms
  by (auto simp: Reorder_def sim_simps reorder_items split: if_splits option.splits)

lemma AddItem_sim:
  assumes "AddItem t t' title d aft deps role s = Inr (s', i)" "st_plan s = Some p"
    "same_plan p q" "appends aft p" "distinct (map pi_id (p_items p))"
  shows "commit_sim s s' q"
  using assms
  by (auto simp: AddItem_def sim_simps appends_def insert_after_last Let_def
      split: if_splits option.splits)

lemma exec_sim:
  assumes "plan_exec (t, t', oper) s = Inr s'" "replayable (t, t', oper) s" "st_plan s = Some p"
    "same_plan p q" "distinct (map pi_id (p_items p))"
  shows "commit_sim s s' q"
proof (cases oper)
  case (OAddItem a b c d e)
  with assms show ?thesis by (cases "AddItem t t' a b c d e s") (auto intro: AddItem_sim)
next
  case (OUpdateItem i pt)
  with assms show ?thesis by (auto intro: UpdateItem_sim)
next
  case (OReorder ids)
  with assms show ?thesis by (auto intro: Reorder_sim)
qed (use assms in \<open>auto simp: plan_ops sim_simps Let_def split: if_splits option.splits\<close>)

section \<open>Item IDs stay distinct\<close>

lemma pi_id_patch [simp]: "pi_id (patch_fields pt it) = pi_id it"
  by (simp add: patch_fields_def opt_set_def split: option.split)

lemma patch_Item_ids [simp]:
  "(\<And>it. pi_id (f it) = pi_id it) \<Longrightarrow> map pi_id (p_items (patch_Item i f p)) = map pi_id (p_items p)"
  by (simp add: patch_Item_def map_update_first)

lemma set_item_status_ids [simp]:
  "map pi_id (p_items (set_item_status i st p)) = map pi_id (p_items p)"
  by (simp add: set_item_status_def)

lemma reorder_check_distinct:
  "reorder_check valid seen ids = None \<Longrightarrow> distinct ids \<and> set ids \<inter> set seen = {}"
proof (induction ids arbitrary: seen)
  case (Cons i ids)
  from Cons.prems have "i \<notin> set seen" "reorder_check valid (i # seen) ids = None"
    by (auto split: if_splits)
  with Cons.IH [of "i # seen"] show ?case by auto
qed simp

lemma reorder_ids:
  assumes "reorder_check (map pi_id items) [] ids = None"
  shows "map pi_id (map (\<lambda>i. the (itemMap items i)) ids) = ids"
proof -
  have "pi_id (the (itemMap items i)) = i" if "i \<in> set ids" for i
  proof -
    from that reorder_check_valid [OF assms] have "i \<in> pi_id ` set items" by auto
    from itemMap_Some [OF this] show ?thesis by auto
  qed
  then show ?thesis by (simp add: map_idI)
qed

lemma AddItem_ids:
  "AddItem t t' title d aft deps role s = Inr (s', i) \<Longrightarrow> st_plan s = Some p \<Longrightarrow>
   i = nextItemID p \<and> (\<exists>p'. st_plan s' = Some p' \<and> map pi_id (p_items p') =
     (if aft = [] then map pi_id (p_items p) @ [i]
      else insert_after_first (\<lambda>x. x = aft) i (map pi_id (p_items p))))"
  by (auto simp: AddItem_def with_plan_def Let_def map_insert_after_first
      split: if_splits option.splits)

lemma ids_distinct_exec:
  assumes "plan_exec (t, t', oper) s = Inr s'" "ids_distinct s"
    "\<And>a b c d e p. oper = OAddItem a b c d e \<Longrightarrow> st_plan s = Some p \<Longrightarrow> id_room p"
  shows "ids_distinct s'"
proof -
  from plan_exec_commit [OF assms(1)] obtain p where p: "st_plan s = Some p"
    by (auto simp: commits_def)
  with assms(2) have dist: "distinct (map pi_id (p_items p))" by (simp add: ids_distinct_def)
  show ?thesis
  proof (cases oper)
    case (OAddItem a b c d e)
    then obtain i where "AddItem t t' a b c d e s = Inr (s', i)"
      using assms(1) by (cases "AddItem t t' a b c d e s") auto
    from AddItem_ids [OF this p] assms(3) [OF OAddItem p] dist show ?thesis
      by (auto simp: ids_distinct_def distinct_insert_after_first item_ids.distinct_append
          item_ids.alloc_fresh simp del: map_append set_map split: if_splits)
  next
    case (OReorder ids)
    with assms(1) p have "reorder_check (map pi_id (p_items p)) [] ids = None"
      and "st_plan s' = Some (touch t (p\<lparr>p_items := map (\<lambda>i. the (itemMap (p_items p) i)) ids\<rparr>))"
      by (auto simp: Reorder_def with_plan_def split: if_splits option.splits)
    with reorder_ids [of "p_items p" ids] reorder_check_distinct [of "map pi_id (p_items p)" "[]" ids]
    show ?thesis by (simp add: ids_distinct_def del: map_map)
  qed (use assms(1) p dist in \<open>auto simp: plan_ops with_plan_def ids_distinct_def Let_def
      patch_comment_def distinct_map_remove_first split: if_splits option.splits\<close>)
qed

section \<open>The plan store as an event log\<close>

definition plan_inv :: "store \<Rightarrow> bool" where
  "plan_inv s \<longleftrightarrow> store_wf s \<and> ids_distinct s"

lemma plan_step_cases:
  "plan_step c s = (s, []) \<or> (\<exists>s' e. plan_exec c s = Inr s' \<and> plan_step c s = (s', [e]) \<and>
     st_file s' = st_file s @ [e])"
proof (cases "plan_exec c s")
  case (Inr s')
  obtain t t' oper where c: "c = (t, t', oper)" by (cases c) auto
  from plan_exec_commit [OF Inr [unfolded c]] obtain e where "st_file s' = st_file s @ [e]"
    by (auto simp: commits_def)
  with Inr show ?thesis by (simp add: plan_step_def)
qed (simp add: plan_step_def)

lemma plan_inv_step: "plan_inv s \<Longrightarrow> replayable c s \<Longrightarrow> plan_inv (fst (plan_step c s))"
proof -
  assume inv: "plan_inv s" and ok: "replayable c s"
  obtain t t' oper where c: "c = (t, t', oper)" by (cases c) auto
  show ?thesis
  proof (cases "plan_exec c s")
    case (Inr s')
    have "ids_distinct s'"
    proof (rule ids_distinct_exec [OF Inr [unfolded c]])
      show "ids_distinct s" using inv by (simp add: plan_inv_def)
    next
      fix a b d e f p
      assume "oper = OAddItem a b d e f" "st_plan s = Some p"
      with ok show "id_room p" by (simp add: c)
    qed
    moreover have "store_wf s'"
      using inv Inr store_wf_exec [of s c s'] by (simp add: plan_inv_def)
    ultimately show ?thesis using Inr by (simp add: plan_step_def plan_inv_def)
  qed (use inv in \<open>simp add: plan_step_def\<close>)
qed

lemma plan_rel_step:
  assumes "plan_inv s" "replayable c s" "plan_rel s r"
  shows "\<exists>r'. replay applyEvent (snd (plan_step c s)) r = Inr r' \<and> plan_rel (fst (plan_step c s)) r'"
proof (cases "plan_exec c s")
  case (Inr s')
  obtain t t' oper where c: "c = (t, t', oper)" by (cases c) auto
  from assms(3) obtain p q where p: "st_plan s = Some p" "r = Some q" "same_plan p q"
    by (auto simp: plan_rel_def)
  have "commit_sim s s' q"
    using Inr assms p unfolding c by (intro exec_sim) (auto simp: plan_inv_def ids_distinct_def)
  with Inr p(2) show ?thesis
    by (auto simp: commit_sim_def event_gives_def plan_step_def plan_rel_def
        split: sum.splits option.splits)
qed (use assms in \<open>simp add: plan_step_def\<close>)

interpretation plan_log: event_log plan_step applyEvent plan_rel plan_inv replayable
  by unfold_locales (blast intro: plan_inv_step, rule plan_rel_step)

lemma plan_file_run: "st_file (run_cmds plan_step cs s) = st_file s @ log_cmds plan_step cs s"
proof (induction cs arbitrary: s)
  case (Cons c cs)
  from plan_step_cases [of c s] show ?case by (auto simp: Cons.IH)
qed simp

lemma plan_inv_create: "plan_inv (create_store i name now t objective)"
  using store_wf_create [of i name now t objective]
  by (auto simp: plan_inv_def ids_distinct_def create_store_def Let_def)

end
