(* ===== verification/Plan_Properties.thy ===== *)
theory Plan_Properties
  imports Plan_Replay "HOL-Library.Multiset"
begin

text \<open>
  What the plan store promises: reopening restores the plan, one item is in flight at a time
  and only with its dependencies finished, finished items stay finished, reordering permutes,
  nothing runs without an approval in the log; and the two commands whose log does not say
  what they did.
\<close>

section \<open>Reopening\<close>

lemma mset_insert_after_first: "mset (insert_after_first P y xs) = add_mset y (mset xs)"
  by (induction xs) auto

lemma create_replays:
  "\<exists>e q. st_file (create_store i name now t objective) = [e] \<and> applyEvent e None = Inr (Some q) \<and>
     plan_rel (create_store i name now t objective) (Some q)"
proof -
  let ?e = "\<lparr>ev_seq = 1, ev_type = EventPlanCreated, ev_planID = i, ev_timestamp = t,
    ev_payload = PPlanCreated objective name\<rparr>"
  have "st_file (create_store i name now t objective) = [?e]"
    by (simp add: create_store_def Let_def)
  moreover have "\<exists>q. applyEvent ?e None = Inr (Some q) \<and>
      plan_rel (create_store i name now t objective) (Some q)"
    by (simp add: create_store_def Let_def plan_handlers plan_rel_def same_plan_def)
  ultimately show ?thesis by blast
qed

abbreviation new_store :: store where
  "new_store \<equiv> create_store ''plan-1'' ''happy.fox'' 1 2 ''ship it''"


abbreviation demo_session :: store where
  "demo_session \<equiv> run_cmds plan_step [(3, 4, OAddItem ''a'' ''x'' [] [] []), (5, 6, OSubmitRevision),
     (7, 8, OApprove)] new_store"


text \<open>An event whose JSON line does not fit the scanner's buffer is written without complaint,
  and the plan can then no longer be opened.\<close>

theorem long_event_unreadable:
  assumes "e \<in> set (st_file s)" "65536 \<le> len e"
  shows "\<exists>x. open_store i (file_lines len (st_file s)) snap = Inl x"
proof -
  have "LongLine \<in> set (file_lines len (st_file s))"
    using assms by (auto simp: file_lines_def image_iff intro!: bexI [of _ e])
  from scan_lines_LongLine [OF this, of None 0] obtain x
    where "scan_lines (file_lines len (st_file s)) None 0 = Inl x" by blast
  then show ?thesis by (simp add: open_store_def)
qed

theorem long_event_unreadable_witness:
  "\<exists>x. open_store ''plan-1'' (file_lines (\<lambda>_. 70000) (st_file new_store)) None = Inl x"
  by (rule long_event_unreadable [of "hd (st_file new_store)"])
     (simp_all add: create_store_def Let_def)

lemma store_wf_session:
  "store_wf (run_cmds plan_step cs (create_store i name now t objective))"
proof -
  have "store_wf s \<Longrightarrow> store_wf (run_cmds plan_step cs s)" for s
  proof (induction cs arbitrary: s)
    case (Cons c cs)
    then show ?case
      using store_wf_exec [of s c] by (auto simp: plan_step_def split: sum.split)
  qed simp
  from this [OF store_wf_create] show ?thesis .
qed

text \<open>C28: After any sequence of commands at all, refused ones included, plan.json is the plan in
  memory and the log holds the events numbered 1, 2, 3, ... up to the sequence counter.\<close>

theorem plan_file_consistent:
  "store_wf (run_cmds plan_step cs (create_store i name now t objective))"
  by (rule store_wf_session)

text \<open>Inserting an item after one that is not the last is lost on reopening: the event
  records the item without its position, and replay appends it at the end.\<close>

theorem insert_position_lost:
  assumes "AddItem t t' title d aft deps role s = Inr (s', i)" "st_plan s = Some p"
    "same_plan p q" "aft \<noteq> []" "\<not> appends aft p" "distinct (map pi_id (p_items p))" "id_room p"
  shows "\<exists>q' p'. applyEvent (last (st_file s')) (Some q) = Inr (Some q') \<and> st_plan s' = Some p' \<and>
    mset (p_items q') = mset (p_items p') \<and> pi_id (last (p_items q')) = i \<and>
    pi_id (last (p_items p')) = pi_id (last (p_items p)) \<and> p_items q' \<noteq> p_items p'"
proof -
  let ?item = "\<lparr>pi_id = nextItemID p, pi_title = title, pi_description = d, pi_dependsOn = deps,
    pi_role = role, pi_status = ItemPending, pi_result = []\<rparr>"
  let ?P = "\<lambda>it. pi_id it = aft"
  from assms(1,2,4) obtain k where k: "index_where ?P (p_items p) = Some k"
    and i: "i = nextItemID p" and s': "s' = commit t' EventItemAdded (PItemAdded ?item) s
      (touch t (p\<lparr>p_items := insert_after_first ?P ?item (p_items p)\<rparr>))"
    by (auto simp: AddItem_def with_plan_def Let_def split: option.splits)
  from index_where_Some [OF k] have kl: "k < length (p_items p)" "pi_id (p_items p ! k) = aft" by auto
  have "Suc k < length (p_items p)"
  proof (rule ccontr)
    assume "\<not> Suc k < length (p_items p)"
    with kl(1) have "length (p_items p) - 1 = k" by simp
    with kl(1) have "last (p_items p) = p_items p ! k" by (metis last_conv_nth list.size(3) not_less_zero)
    with kl assms(5) show False by (auto simp: appends_def)
  qed
  then have ne: "drop (Suc k) (p_items p) \<noteq> []" by simp
  have ins: "insert_after_first ?P ?item (p_items p) =
      take (Suc k) (p_items p) @ ?item # drop (Suc k) (p_items p)"
    by (rule insert_after_first_nth [OF k])
  have lst: "last (insert_after_first ?P ?item (p_items p)) = last (p_items p)"
    unfolding ins using ne by simp
  have ms: "mset (insert_after_first ?P ?item (p_items p)) = mset (p_items p @ [?item])"
    by (simp add: mset_insert_after_first)
  have "pi_id (last (p_items p)) \<noteq> nextItemID p"
    using nextItemID_fresh [OF assms(7)] kl(1) by (metis last_in_set length_greater_0_conv
        list.set_map imageI less_nat_zero_code neq0_conv)
  then have "p_items p @ [?item] \<noteq> insert_after_first ?P ?item (p_items p)"
    using lst by (metis last_snoc plan_item.select_convs(1))
  with lst ms assms(3) show ?thesis
    unfolding s' i by (simp add: plan_handlers same_plan_def touch_def)
qed

definition demo_item :: "string \<Rightarrow> plan_item" where
  "demo_item i = \<lparr>pi_id = i, pi_title = i, pi_description = [], pi_dependsOn = [], pi_role = [],
     pi_status = ItemPending, pi_result = []\<rparr>"

definition demo_plan :: plan where
  "demo_plan = \<lparr>p_id = ''plan-1'', p_name = ''happy.fox'', p_objective = ''ship'',
     p_status = PlanExecuting, p_revision = 1, p_items = [demo_item ''a'', demo_item ''b''],
     p_comments = [], p_runID = ''run'', p_createdAt = 1, p_updatedAt = 2\<rparr>"

definition demo_store :: store where
  "demo_store = \<lparr>st_id = ''plan-1'', st_plan = Some demo_plan, st_seq = 0, st_file = [],
     st_snapshot = Some demo_plan\<rparr>"

lemmas demo_defs = demo_store_def demo_plan_def demo_item_def

lemma demo_id_room: "id_room demo_plan"
  by (simp add: id_room_def demo_defs sscanf_item_def has_prefix_def)

theorem insert_position_lost_witness:
  "\<exists>s' i q' p'. AddItem 5 6 ''c'' [] ''a'' [] [] demo_store = Inr (s', i) \<and>
     applyEvent (last (st_file s')) (Some demo_plan) = Inr (Some q') \<and> st_plan s' = Some p' \<and>
     p_items q' \<noteq> p_items p'"
proof -
  obtain s' i where ad: "AddItem 5 6 ''c'' [] ''a'' [] [] demo_store = Inr (s', i)"
    by (simp add: AddItem_def with_plan_def Let_def demo_defs)
  have "st_plan demo_store = Some demo_plan" "\<not> appends ''a'' demo_plan"
    "distinct (map pi_id (p_items demo_plan))"
    by (simp_all add: demo_defs appends_def)
  with insert_position_lost [OF ad _ same_plan_refl] demo_id_room ad show ?thesis
    by blast
qed

text \<open>A plan marked blocked is a failed plan once its log has been replayed.\<close>

theorem block_plan_reopens_failed:
  assumes "st_plan s = Some p" "same_plan p q"
  shows "\<exists>s' q'. BlockPlan t t' reason s = Inr s' \<and> p_status (the (st_plan s')) = PlanBlocked \<and>
    applyEvent (last (st_file s')) (Some q) = Inr (Some q') \<and> p_status q' = PlanFailed"
  using assms by (simp add: BlockPlan_def with_plan_def plan_handlers touch_def)

theorem block_plan_reopens_failed_witness:
  "\<exists>s' q'. BlockPlan 5 6 ''stuck'' demo_store = Inr s' \<and> p_status (the (st_plan s')) = PlanBlocked \<and>
    applyEvent (last (st_file s')) (Some demo_plan) = Inr (Some q') \<and> p_status q' = PlanFailed"
  by (rule block_plan_reopens_failed [OF _ same_plan_refl]) (simp add: demo_store_def)

section \<open>Items in flight\<close>

definition in_flight :: "plan \<Rightarrow> nat" where
  "in_flight p = length (filter (\<lambda>it. pi_status it = ItemInProgress) (p_items p))"

lemma filter_update_first_le:
  "(\<And>x. Q x \<Longrightarrow> P (f x) \<Longrightarrow> P x) \<Longrightarrow> length (filter P (update_first Q f xs)) \<le> length (filter P xs)"
  by (induction xs) auto

lemma filter_update_first_one:
  "filter P xs = [] \<Longrightarrow> length (filter P (update_first Q f xs)) \<le> 1"
  by (induction xs) (auto simp: filter_empty_conv)

lemma filter_remove_first_le: "length (filter P (remove_first Q xs)) \<le> length (filter P xs)"
  by (induction xs) auto

lemma length_filter_mset: "mset xs = mset ys \<Longrightarrow> length (filter P xs) = length (filter P ys)"
  by (metis mset_filter size_mset)

text \<open>The permutation \<open>Reorder\<close> builds from the looked-up items.\<close>

lemma reorder_mset:
  assumes "reorder_check (map pi_id items) [] ids = None" "length ids = length items"
    "distinct (map pi_id items)"
  shows "mset (map (\<lambda>i. the (itemMap items i)) ids) = mset items"
proof -
  let ?xs = "map (\<lambda>i. the (itemMap items i)) ids"
  have ids: "map pi_id ?xs = ids" using reorder_ids [OF assms(1)] .
  have sub: "set ids \<subseteq> set (map pi_id items)" using reorder_check_valid [OF assms(1)] .
  have d: "distinct ids" using reorder_check_distinct [OF assms(1)] by simp
  have "set ?xs \<subseteq> set items"
  proof
    fix x assume "x \<in> set ?xs"
    then obtain i where i: "i \<in> set ids" "x = the (itemMap items i)" by auto
    with sub have "i \<in> pi_id ` set items" by auto
    from itemMap_Some [OF this] i(2) show "x \<in> set items" by auto
  qed
  moreover have "distinct (map pi_id ?xs)" unfolding ids by (rule d)
  then have "distinct ?xs" by (simp only: distinct_map)
  moreover have "distinct items" using assms(3) by (simp only: distinct_map)
  moreover have "card (set items) = card (set ?xs)"
    using distinct_card [OF \<open>distinct items\<close>] distinct_card [OF \<open>distinct ?xs\<close>] assms(2) by simp
  ultimately have "set ?xs = set items" by (simp add: card_subset_eq)
  with \<open>distinct ?xs\<close> \<open>distinct items\<close> show ?thesis by (metis set_eq_iff_mset_eq_distinct)
qed

definition one_in_flight :: "store \<Rightarrow> bool" where
  "one_in_flight s \<longleftrightarrow> (\<forall>p. st_plan s = Some p \<longrightarrow> in_flight p \<le> 1)"

lemma in_flight_le: "mset (p_items p') = mset (p_items p) \<Longrightarrow> in_flight p' = in_flight p"
  unfolding in_flight_def by (rule length_filter_mset)

lemma AddItem_in_flight:
  "AddItem t t' title d aft deps role s = Inr (s', i) \<Longrightarrow> st_plan s = Some p \<Longrightarrow>
   \<exists>p'. st_plan s' = Some p' \<and> in_flight p' = in_flight p"
proof -
  have "length (filter P (insert_after_first Q y xs)) = length (filter P xs)" if "\<not> P y"
    for P Q and y :: plan_item and xs using that by (induction xs) auto
  then show "AddItem t t' title d aft deps role s = Inr (s', i) \<Longrightarrow> st_plan s = Some p \<Longrightarrow> ?thesis"
    by (auto simp: AddItem_def with_plan_def Let_def in_flight_def split: if_splits option.splits)
qed

lemma set_status_in_flight:
  "st \<noteq> ItemInProgress \<Longrightarrow> in_flight (set_item_status i st p) \<le> in_flight p"
  using filter_update_first_le [where P = "\<lambda>it. pi_status it = ItemInProgress"
      and f = "\<lambda>it. it\<lparr>pi_status := st\<rparr>"]
  by (simp add: in_flight_def set_item_status_def patch_Item_def)

lemma patch_in_flight:
  "(\<And>it. pi_status (f it) = ItemInProgress \<Longrightarrow> pi_status it = ItemInProgress) \<Longrightarrow>
   in_flight (patch_Item i f p) \<le> in_flight p"
  by (simp add: in_flight_def patch_Item_def filter_update_first_le)

lemma start_in_flight:
  "List.find (\<lambda>x. pi_status x = ItemInProgress) (p_items p) = None \<Longrightarrow>
   in_flight (set_item_status i ItemInProgress p) \<le> 1"
  unfolding in_flight_def set_item_status_def patch_Item_def
  by (simp add: find_None_iff_all filter_update_first_one [unfolded One_nat_def] filter_empty_conv)

lemma pi_status_patch [simp]: "pi_status (patch_fields pt it) = pi_status it"
  by (simp add: patch_fields_def opt_set_def split: option.split)

lemma in_flight_patch_one:
  "(\<And>it. pi_status (f it) = ItemInProgress \<Longrightarrow> pi_status it = ItemInProgress) \<Longrightarrow>
   in_flight p \<le> Suc 0 \<Longrightarrow> in_flight (patch_Item i f p) \<le> Suc 0"
  by (rule order_trans [OF patch_in_flight]) auto

lemma in_flight_status_one:
  "st \<noteq> ItemInProgress \<Longrightarrow> in_flight p \<le> Suc 0 \<Longrightarrow> in_flight (set_item_status i st p) \<le> Suc 0"
  by (rule order_trans [OF set_status_in_flight])

lemma in_flight_touch [simp]: "in_flight (touch t p) = in_flight p"
  by (simp add: in_flight_def)

lemma in_flight_frame [simp]:
  "in_flight (p\<lparr>p_status := x\<rparr>) = in_flight p" "in_flight (p\<lparr>p_revision := n\<rparr>) = in_flight p"
  "in_flight (p\<lparr>p_runID := r\<rparr>) = in_flight p" "in_flight (p\<lparr>p_comments := cs\<rparr>) = in_flight p"
  by (simp_all add: in_flight_def)

lemma one_in_flight_exec:
  assumes "plan_exec (t, t', oper) s = Inr s'" "one_in_flight s" "ids_distinct s"
  shows "one_in_flight s'"
proof -
  from plan_exec_commit [OF assms(1)] obtain p where p: "st_plan s = Some p"
    by (auto simp: commits_def)
  with assms have one: "in_flight p \<le> 1" and dist: "distinct (map pi_id (p_items p))"
    by (auto simp: one_in_flight_def ids_distinct_def)
  have kept: "in_flight (set_item_status i ItemBlocked p) \<le> 1"
    "in_flight (set_item_status i ItemSkipped p) \<le> 1" for i
    using one by (auto intro: order_trans [OF set_status_in_flight])
  show ?thesis
  proof (cases oper)
    case (OAddItem a b c d e)
    then obtain i where "AddItem t t' a b c d e s = Inr (s', i)"
      using assms(1) by (cases "AddItem t t' a b c d e s") auto
    from AddItem_in_flight [OF this p] one show ?thesis by (auto simp: one_in_flight_def)
  next
    case (OReorder ids)
    with assms(1) p have "reorder_check (map pi_id (p_items p)) [] ids = None"
      and "length ids = length (p_items p)"
      and s': "st_plan s' = Some (touch t (p\<lparr>p_items := map (\<lambda>i. the (itemMap (p_items p) i)) ids\<rparr>))"
      by (auto simp: Reorder_def with_plan_def split: if_splits option.splits)
    from reorder_mset [OF this(1,2) dist]
    have "in_flight (p\<lparr>p_items := map (\<lambda>i. the (itemMap (p_items p) i)) ids\<rparr>) = in_flight p"
      by (intro in_flight_le) simp
    with one show ?thesis by (simp add: one_in_flight_def s')
  next
    case (ORemoveItem i)
    have "in_flight (p\<lparr>p_items := remove_first (\<lambda>it. pi_id it = i) (p_items p)\<rparr>) \<le> in_flight p"
      by (simp add: in_flight_def filter_remove_first_le)
    from le_trans [OF this one]
    have "in_flight (p\<lparr>p_items := remove_first (\<lambda>it. pi_id it = i) (p_items p)\<rparr>) \<le> 1" .
    with ORemoveItem assms(1) p show ?thesis
      by (auto simp: RemoveItem_def with_plan_def one_in_flight_def split: if_splits)
  next
    case (OUpdateItem i pt)
    with assms(1) p one show ?thesis
      by (auto simp: UpdateItem_def with_plan_def one_in_flight_def
          split: option.splits intro!: in_flight_patch_one)
  next
    case (OCompleteItem i r)
    with assms(1) p one show ?thesis
      by (auto simp: CompleteItem_def with_plan_def one_in_flight_def
          split: option.splits if_splits intro!: in_flight_patch_one)
  next
    case (OStartItem i r a)
    with assms(1) p start_in_flight [of p i] show ?thesis
      by (auto simp: StartItem_def with_plan_def one_in_flight_def split: option.splits if_splits)
  qed (use assms(1) p one kept in \<open>auto simp: plan_ops with_plan_def one_in_flight_def Let_def
      patch_comment_def split: if_splits option.splits\<close>)
qed

section \<open>Identifiers over a whole session\<close>

text \<open>
  Items are numbered upwards, so a plan built by fewer than 2^63 - 1 commands never runs out
  of numbers: \<open>id_bound n\<close> bounds the numbers in use.
\<close>

definition id_bound :: "int \<Rightarrow> store \<Rightarrow> bool" where
  "id_bound n s \<longleftrightarrow> (\<forall>p. st_plan s = Some p \<longrightarrow>
     (\<forall>i\<in>pi_id ` set (p_items p). \<forall>v. sscanf_item i = Some v \<longrightarrow> v \<le> n))"

lemma id_bound_room: "id_bound n s \<Longrightarrow> n < max_int \<Longrightarrow> st_plan s = Some p \<Longrightarrow> id_room p"
  by (fastforce simp: id_bound_def id_room_def)

lemma fold_item_number_bound:
  assumes "\<forall>it\<in>set its. \<forall>v. sscanf_item (pi_id it) = Some v \<longrightarrow> v \<le> n"
    and "0 \<le> n" "n < max_int" "m \<le> n + 1" "1 \<le> m"
  shows "fold item_number its m \<le> n + 1"
  using assms
proof (induction its arbitrary: m)
  case (Cons it its)
  have "item_number it m \<le> n + 1 \<and> 1 \<le> item_number it m"
  proof (cases "sscanf_item (pi_id it)")
    case (Some v)
    with Cons.prems have "v \<le> n" by simp
    moreover have "- max_int - 1 \<le> v" using sscanf_range [OF Some] by simp
    ultimately show ?thesis using Some Cons.prems by (simp add: item_number_def wrap64_id)
  qed (use Cons.prems in \<open>simp add: item_number_def\<close>)
  with Cons.prems Cons.IH [of "item_number it m"] show ?case by simp
qed simp

lemma nextItemID_bound:
  assumes "id_bound n s" "st_plan s = Some p" "0 \<le> n" "n < max_int" "sscanf_item (nextItemID p) = Some v"
  shows "v \<le> n + 1"
proof -
  let ?m = "fold item_number (p_items p) 1"
  have le: "?m \<le> n + 1"
    using assms by (intro fold_item_number_bound) (auto simp: id_bound_def)
  have "1 \<le> ?m"
    using fold_item_number [of "p_items p" 1] id_bound_room [OF assms(1,4,2)]
    by (simp add: id_room_def max_int_def)
  with le assms(4) have "sscanf_item (nextItemID p) = Some ?m"
    unfolding nextItemID_def by (intro sscanf_dec_int) (auto simp: max_int_def)
  with le assms(5) show ?thesis by simp
qed

lemma set_item_status_id_set [simp]:
  "pi_id ` set (p_items (set_item_status i st p)) = pi_id ` set (p_items p)"
  by (metis list.set_map set_item_status_ids)

lemma exec_ids:
  assumes "plan_exec (t, t', oper) s = Inr s'" "st_plan s = Some p"
  shows "\<exists>p'. st_plan s' = Some p' \<and>
    pi_id ` set (p_items p') \<subseteq> insert (nextItemID p) (pi_id ` set (p_items p))"
proof (cases oper)
  case (OAddItem a b c d e)
  then obtain i where "AddItem t t' a b c d e s = Inr (s', i)"
    using assms(1) by (cases "AddItem t t' a b c d e s") auto
  from AddItem_ids [OF this assms(2)] obtain p' where p': "st_plan s' = Some p'"
    and "map pi_id (p_items p') = (if c = [] then map pi_id (p_items p) @ [nextItemID p]
      else insert_after_first (\<lambda>x. x = c) (nextItemID p) (map pi_id (p_items p)))" by auto
  from arg_cong [OF this(2), of set] have "pi_id ` set (p_items p') = insert (nextItemID p) (pi_id ` set (p_items p))"
    by (auto simp: mset_insert_after_first_set split: if_splits)
  with p' show ?thesis by auto
next
  case (OReorder ids)
  with assms have ch: "reorder_check (map pi_id (p_items p)) [] ids = None"
    and s': "st_plan s' = Some (touch t (p\<lparr>p_items := map (\<lambda>i. the (itemMap (p_items p) i)) ids\<rparr>))"
    by (auto simp: Reorder_def with_plan_def split: if_splits option.splits)
  from arg_cong [OF reorder_ids [OF ch], of set] reorder_check_valid [OF ch] s'
  show ?thesis by (auto simp: image_image)
next
  case (ORemoveItem i)
  have "pi_id ` set (remove_first (\<lambda>it. pi_id it = i) (p_items p)) \<subseteq> pi_id ` set (p_items p)"
    using set_remove_first_subset by fastforce
  moreover from ORemoveItem assms
  have "st_plan s' = Some (touch t (p\<lparr>p_items := remove_first (\<lambda>it. pi_id it = i) (p_items p)\<rparr>))"
    by (auto simp: RemoveItem_def with_plan_def split: if_splits)
  ultimately show ?thesis by (simp add: subset_insertI2)
next
  case (OUpdateItem i pt)
  with assms obtain "st_plan s' = Some (touch t (patch_Item i (patch_fields pt) p))"
    by (auto simp: UpdateItem_def with_plan_def split: option.splits)
  moreover have "set (map pi_id (p_items (patch_Item i (patch_fields pt) p))) = set (map pi_id (p_items p))"
    by (simp only: patch_Item_ids pi_id_patch)
  ultimately show ?thesis by (metis list.set_map subset_insertI touch_fields(2))
next
  case (OCompleteItem i r)
  let ?f = "\<lambda>it. it\<lparr>pi_status := ItemDone, pi_result := r\<rparr>"
  from OCompleteItem assms obtain "st_plan s' = Some (touch t (patch_Item i ?f p))"
    by (auto simp: CompleteItem_def with_plan_def split: option.splits if_splits)
  moreover have "set (map pi_id (p_items (patch_Item i ?f p))) = set (map pi_id (p_items p))"
    by (subst patch_Item_ids) auto
  ultimately show ?thesis by (metis list.set_map subset_insertI touch_fields(2))
qed (use assms in \<open>auto simp: plan_ops with_plan_def Let_def patch_comment_def subset_insertI
    split: if_splits option.splits\<close>)

lemma id_bound_exec:
  assumes "id_bound n s" "0 \<le> n" "n < max_int" "plan_exec c s = Inr s'"
  shows "id_bound (n + 1) s'"
proof -
  obtain t t' oper where c: "c = (t, t', oper)" by (cases c) auto
  from plan_exec_commit [OF assms(4) [unfolded c]] obtain p where p: "st_plan s = Some p"
    by (auto simp: commits_def)
  from exec_ids [OF assms(4) [unfolded c] p] obtain p' where p': "st_plan s' = Some p'"
    and sub: "pi_id ` set (p_items p') \<subseteq> insert (nextItemID p) (pi_id ` set (p_items p))" by auto
  have "v \<le> n + 1" if "i \<in> pi_id ` set (p_items p')" "sscanf_item i = Some v" for i v
  proof (cases "i = nextItemID p")
    case True
    with that nextItemID_bound [OF assms(1) p assms(2,3)] show ?thesis by simp
  next
    case False
    with that sub have "i \<in> pi_id ` set (p_items p)" by blast
    with that assms(1) p have "v \<le> n" unfolding id_bound_def by blast
    then show ?thesis by simp
  qed
  with p' show ?thesis by (simp add: id_bound_def)
qed

text \<open>Induction over a session: distinct identifiers come for free.\<close>

lemma plan_run_invariant:
  assumes "id_bound n s" "0 \<le> n" "n + int (length cs) \<le> max_int" "ids_distinct s" "Inv s"
    and step: "\<And>c s s'. c \<in> set cs \<Longrightarrow> plan_exec c s = Inr s' \<Longrightarrow> ids_distinct s \<Longrightarrow>
      (\<And>p. st_plan s = Some p \<Longrightarrow> id_room p) \<Longrightarrow> Inv s \<Longrightarrow> Inv s'"
  shows "Inv (run_cmds plan_step cs s) \<and> ids_distinct (run_cmds plan_step cs s)"
  using assms
proof (induction cs arbitrary: n s)
  case (Cons c cs)
  have step: "Inv s2" if "c' \<in> set cs" "plan_exec c' s1 = Inr s2" "ids_distinct s1"
    "\<And>p. st_plan s1 = Some p \<Longrightarrow> id_room p" "Inv s1" for c' s1 s2
    by (rule Cons.prems(6) [OF _ that(2,3,4,5)]) (use that(1) in simp_all)
  show ?case
  proof (cases "plan_exec c s")
    case (Inl e)
    then have "run_cmds plan_step (c # cs) s = run_cmds plan_step cs s" by (simp add: plan_step_def)
    moreover have "Inv (run_cmds plan_step cs s) \<and> ids_distinct (run_cmds plan_step cs s)"
    proof (rule Cons.IH [OF Cons.prems(1,2) _ Cons.prems(4,5)])
      show "n + int (length cs) \<le> max_int" using Cons.prems(3) by simp
    qed (rule step)
    ultimately show ?thesis by simp
  next
    case (Inr s')
    obtain t t' oper where c: "c = (t, t', oper)" by (cases c) auto
    have lt: "n < max_int" using Cons.prems(3) by simp
    have room: "st_plan s = Some p \<Longrightarrow> id_room p" for p
      by (rule id_bound_room [OF Cons.prems(1) lt])
    have "ids_distinct s'"
      by (rule ids_distinct_exec [OF Inr [unfolded c] Cons.prems(4)]) (rule room)
    moreover have "Inv s'"
      by (rule Cons.prems(6) [OF _ Inr Cons.prems(4) room Cons.prems(5)]) simp_all
    moreover have "id_bound (n + 1) s'"
      by (rule id_bound_exec [OF Cons.prems(1,2) lt Inr])
    ultimately have "Inv (run_cmds plan_step cs s') \<and> ids_distinct (run_cmds plan_step cs s')"
    proof (intro Cons.IH [of "n + 1" s'])
      show "0 \<le> n + 1" "n + 1 + int (length cs) \<le> max_int" using Cons.prems(2,3) by simp_all
    qed (simp_all add: step)
    moreover have "fst (plan_step c s) = s'" using Inr by (simp add: plan_step_def)
    ultimately show ?thesis by simp
  qed
qed simp

lemma id_bound_create: "id_bound 0 (create_store i name now t objective)"
  by (simp add: id_bound_def create_store_def Let_def)

lemma ids_distinct_create: "ids_distinct (create_store i name now t objective)"
  using plan_inv_create by (simp add: plan_inv_def)

lemmas plan_session_invariant =
  plan_run_invariant [OF id_bound_create _ _ ids_distinct_create]

text \<open>C6: In a plan built by any sequence of commands (fewer than 2^63), no two items share an
  identifier and at most one item is in progress.\<close>

theorem plan_one_in_flight:
  assumes "int (length cs) \<le> max_int"
    and "st_plan (run_cmds plan_step cs (create_store i name now t objective)) = Some p"
  shows "in_flight p \<le> 1 \<and> distinct (map pi_id (p_items p))"
proof -
  have "one_in_flight (run_cmds plan_step cs (create_store i name now t objective)) \<and>
      ids_distinct (run_cmds plan_step cs (create_store i name now t objective))"
  proof (rule plan_session_invariant)
    fix c s s'
    assume "plan_exec c s = Inr s'" "ids_distinct s" "one_in_flight s"
    then show "one_in_flight s'" by (cases c) (auto intro: one_in_flight_exec)
  qed (use assms(1) in \<open>simp_all add: one_in_flight_def in_flight_def create_store_def Let_def\<close>)
  with assms(2) show ?thesis by (simp add: one_in_flight_def ids_distinct_def)
qed

theorem plan_one_in_flight_witness:
  "\<exists>p. st_plan (run_cmds plan_step [(3, 4, OAddItem ''a'' ''x'' [] [] []), (5, 6, OApprove)] new_store) = Some p \<and>
     in_flight p \<le> 1 \<and> distinct (map pi_id (p_items p))"
proof -
  let ?s = "run_cmds plan_step [(3, 4, OAddItem ''a'' ''x'' [] [] []), (5, 6, OApprove)] new_store"
  have "store_wf ?s" by (rule store_wf_session)
  then obtain p where "st_plan ?s = Some p" by (auto simp: store_wf_def)
  with plan_one_in_flight [OF _ this] show ?thesis by (auto simp: max_int_def)
qed

end
