(* ===== verification/Plan_Lifecycle.thy ===== *)
theory Plan_Lifecycle
  imports Plan_Properties
begin

text \<open>
  The life of a plan and of its items: what starting an item requires, that finished items keep
  their status and result, that the order of items is any permutation and nothing else, and
  that a plan only runs after an approval that its log records.
\<close>

section \<open>Starting and finishing\<close>

lemma dependency_error_None:
  "dependency_error p ds = None \<longleftrightarrow> (\<forall>d\<in>set ds. \<exists>it. plan_Item p d = Some it \<and> item_terminal it)"
  by (induction ds) (auto split: option.split)

lemma dependency_error_Some:
  "dependency_error p ds = Some e \<Longrightarrow> \<exists>d\<in>set ds. \<forall>it. plan_Item p d = Some it \<longrightarrow> \<not> item_terminal it"
  using dependency_error_None [of p ds] by auto

lemma plan_step_fst [simp]:
  "plan_exec c s = Inl e \<Longrightarrow> fst (plan_step c s) = s"
  "plan_exec c s = Inr s' \<Longrightarrow> fst (plan_step c s) = s'"
  by (simp_all add: plan_step_def)

definition startable :: "plan \<Rightarrow> string \<Rightarrow> bool" where
  "startable p i \<longleftrightarrow> p_status p = PlanExecuting \<and> in_flight p = 0 \<and>
     (\<exists>it. plan_Item p i = Some it \<and> pi_status it = ItemPending \<and>
       list_all (\<lambda>d. \<exists>x. plan_Item p d = Some x \<and> item_terminal x) (pi_dependsOn it))"

lemma in_flight_zero: "in_flight p = 0 \<longleftrightarrow> List.find (\<lambda>x. pi_status x = ItemInProgress) (p_items p) = None"
  by (simp add: in_flight_def find_None_iff_all filter_empty_conv)

text \<open>An item is started exactly when the plan is executing, the item is pending, no other item
  is in progress, and every dependency exists and is done or skipped; it is then in progress.\<close>

theorem start_item_iff:
  "(\<exists>s'. StartItem t t' i role agent s = Inr s') = (\<exists>p. st_plan s = Some p \<and> startable p i)"
  by (auto simp: StartItem_def with_plan_def startable_def in_flight_zero dependency_error_None
      list_all_iff dest: dependency_error_Some split: option.splits)

text \<open>A plan can be finished exactly when it is executing and every item is done or skipped.\<close>

theorem finish_iff:
  "(\<exists>s'. Finish t t' s = Inr s') = (\<exists>p. st_plan s = Some p \<and> p_status p = PlanExecuting \<and>
     AllTerminal p)"
  by (auto simp: Finish_def with_plan_def split: option.splits)

section \<open>Finished items\<close>

text \<open>The item keeps its status and result as long as it is in the plan.\<close>

definition settled :: "string \<Rightarrow> item_status \<Rightarrow> string \<Rightarrow> store \<Rightarrow> bool" where
  "settled i st r s \<longleftrightarrow> (\<exists>p it. st_plan s = Some p \<and> plan_Item p i = Some it \<and>
     pi_status it = st \<and> pi_result it = r)"

lemma plan_Item_unique:
  "distinct (map pi_id (p_items p)) \<Longrightarrow> it \<in> set (p_items p) \<Longrightarrow> plan_Item p (pi_id it) = Some it"
  unfolding plan_Item_def
proof (induction "p_items p" arbitrary: p)
  case (Cons x xs)
  have "List.find (\<lambda>y. pi_id y = pi_id it) (x # xs) = Some it"
    if "distinct (map pi_id (x # xs))" "it \<in> set (x # xs)" for x xs
    using that by (induction xs arbitrary: x) (auto simp: image_iff)
  with Cons show ?case by metis
qed simp

lemma plan_Item_set:
  assumes "set (p_items p') = set (p_items p)" "distinct (map pi_id (p_items p'))"
    "plan_Item p i = Some it"
  shows "plan_Item p' i = Some it"
proof -
  from plan_ItemD [OF assms(3)] assms(1) have "it \<in> set (p_items p')" "pi_id it = i" by auto
  with plan_Item_unique [OF assms(2)] show ?thesis by blast
qed

lemma find_remove_first_other:
  "(\<And>x. P x \<Longrightarrow> \<not> Q x) \<Longrightarrow> List.find Q (remove_first P xs) = List.find Q xs"
  by (induction xs) auto

lemma find_insert_after_first:
  "\<not> Q y \<Longrightarrow> List.find Q (insert_after_first P y xs) = List.find Q xs"
  by (induction xs) auto

lemma find_snoc_other: "\<not> Q y \<Longrightarrow> List.find Q (xs @ [y]) = List.find Q xs"
  by (induction xs) auto

lemma patch_fields_kept [simp]: "pi_result (patch_fields pt it) = pi_result it"
  by (simp add: patch_fields_def opt_set_def split: option.split)

lemma plan_Item_patch_fields:
  "plan_Item (patch_Item j (patch_fields pt) p) i =
   (if j = i then map_option (patch_fields pt) (plan_Item p i) else plan_Item p i)"
  by (rule plan_Item_patch) simp

lemma plan_Item_set_status:
  "plan_Item (set_item_status j st p) i =
   (if j = i then map_option (\<lambda>it. it\<lparr>pi_status := st\<rparr>) (plan_Item p i) else plan_Item p i)"
  unfolding set_item_status_def by (rule plan_Item_patch) simp

lemma plan_Item_complete:
  "plan_Item (patch_Item j (\<lambda>it. it\<lparr>pi_status := ItemDone, pi_result := r\<rparr>) p) i =
   (if j = i then map_option (\<lambda>it. it\<lparr>pi_status := ItemDone, pi_result := r\<rparr>) (plan_Item p i)
    else plan_Item p i)"
  by (rule plan_Item_patch) simp

lemma plan_Item_frame [simp]:
  "plan_Item (touch t p) i = plan_Item p i"
  "plan_Item (p\<lparr>p_status := a\<rparr>) i = plan_Item p i"
  "plan_Item (p\<lparr>p_revision := b\<rparr>) i = plan_Item p i"
  "plan_Item (p\<lparr>p_runID := c\<rparr>) i = plan_Item p i"
  "plan_Item (p\<lparr>p_comments := d\<rparr>) i = plan_Item p i"
  "plan_Item (patch_comment k f p) i = plan_Item p i"
  by (simp_all add: plan_Item_def touch_def patch_comment_def)

lemma settled_exec:
  assumes ex: "plan_exec (t, t', oper) s = Inr s'" and dist: "ids_distinct s"
    and room: "\<And>p. st_plan s = Some p \<Longrightarrow> id_room p"
    and st: "st = ItemDone \<or> st = ItemSkipped" and set: "settled i st r s"
    and nr: "oper \<noteq> ORemoveItem i"
  shows "settled i st r s'"
proof -
  from set obtain p it where p: "st_plan s = Some p" and it: "plan_Item p i = Some it"
    "pi_status it = st" "pi_result it = r" by (auto simp: settled_def)
  show ?thesis
  proof (cases oper)
    case (OAddItem a b c d e)
    then obtain j where ad: "AddItem t t' a b c d e s = Inr (s', j)"
      using ex by (cases "AddItem t t' a b c d e s") auto
    from AddItem_ids [OF this p] have j: "j = nextItemID p" by simp
    have "i \<in> set (map pi_id (p_items p))" using plan_ItemD [OF it(1)] by auto
    with nextItemID_fresh [OF room [OF p]] have "nextItemID p \<noteq> i" by auto
    with ad p it show ?thesis
      by (auto simp: AddItem_def with_plan_def Let_def settled_def plan_Item_def
          find_insert_after_first find_snoc_other split: if_splits option.splits)
  next
    case (OReorder ids)
    with ex p have ck: "reorder_check (map pi_id (p_items p)) [] ids = None"
      and len: "length ids = length (p_items p)"
      and s': "st_plan s' = Some (touch t (p\<lparr>p_items := map (\<lambda>i. the (itemMap (p_items p) i)) ids\<rparr>))"
      by (auto simp: Reorder_def with_plan_def split: if_splits option.splits)
    let ?p = "p\<lparr>p_items := map (\<lambda>i. the (itemMap (p_items p) i)) ids\<rparr>"
    from dist p have d: "distinct (map pi_id (p_items p))" by (simp add: ids_distinct_def)
    from reorder_mset [OF ck len d] have "set (p_items ?p) = set (p_items p)"
      by (metis mset_eq_setD plan.select_convs(6) plan.surjective plan.update_convs(6))
    moreover have "distinct (map pi_id (p_items ?p))"
      using reorder_ids [OF ck] reorder_check_distinct [OF ck] by (simp del: map_map)
    ultimately have "plan_Item ?p i = Some it" using it(1) by (rule plan_Item_set)
    with s' it show ?thesis by (simp add: settled_def)
  next
    case (ORemoveItem j)
    have "List.find (\<lambda>x. pi_id x = i) (remove_first (\<lambda>x. pi_id x = j) (p_items p)) =
        List.find (\<lambda>x. pi_id x = i) (p_items p)"
      using nr ORemoveItem by (intro find_remove_first_other) auto
    with ORemoveItem ex p it show ?thesis
      by (auto simp: RemoveItem_def with_plan_def settled_def plan_Item_def split: if_splits)
  qed (use ex p it st in \<open>auto simp: plan_ops with_plan_def Let_def settled_def
      plan_Item_patch_fields plan_Item_set_status plan_Item_complete
      split: if_splits option.splits\<close>)
qed

text \<open>C22: Once an item is done or skipped, no later command changes its status or its result as
  long as that item is not removed.\<close>

theorem settled_items_stay:
  assumes "s = run_cmds plan_step cs (create_store j name now t objective)"
    and "int (length cs) + int (length ds) \<le> max_int"
    and "st = ItemDone \<or> st = ItemSkipped" "settled i st r s"
    and "ORemoveItem i \<notin> set (map (\<lambda>(_, _, oper). oper) ds)"
  shows "settled i st r (run_cmds plan_step ds s)"
proof -
  have "id_bound (int (length cs)) s \<and> ids_distinct s"
    unfolding assms(1) using assms(2)
  proof (induction cs rule: rev_induct)
    case Nil
    then show ?case by (simp add: id_bound_create ids_distinct_create)
  next
    case (snoc c cs)
    let ?s = "run_cmds plan_step cs (create_store j name now t objective)"
    from snoc have ib: "id_bound (int (length cs)) ?s" "ids_distinct ?s"
      and lt: "int (length cs) < max_int" by auto
    obtain u u' oper where c: "c = (u, u', oper)" by (cases c) auto
    show ?case
    proof (cases "plan_exec c ?s")
      case (Inl e)
      have "id_bound (int (length (cs @ [c]))) ?s"
        using ib(1) unfolding id_bound_def by force
      with Inl ib(2) show ?thesis by (simp add: run_cmds_append)
    next
      case (Inr s')
      have "id_bound (int (length cs) + 1) s'" by (rule id_bound_exec [OF ib(1) _ lt Inr]) simp
      moreover have "ids_distinct s'"
        by (rule ids_distinct_exec [OF Inr [unfolded c] ib(2)]) (rule id_bound_room [OF ib(1) lt])
      ultimately show ?thesis
        using Inr by (simp add: run_cmds_append add.commute)
    qed
  qed
  then have ib: "id_bound (int (length cs)) s" "ids_distinct s" by auto
  have "settled i st r (run_cmds plan_step ds s) \<and> ids_distinct (run_cmds plan_step ds s)"
  proof (rule plan_run_invariant [where Inv = "settled i st r", OF ib(1) _ assms(2) ib(2) assms(4)])
    fix c u u' assume h: "c \<in> set ds" "plan_exec c u = Inr u'" "ids_distinct u"
      "\<And>p. st_plan u = Some p \<Longrightarrow> id_room p" "settled i st r u"
    obtain a b oper where c: "c = (a, b, oper)" by (cases c) auto
    have "oper \<noteq> ORemoveItem i" using h(1) assms(5) by (force simp: c)
    from settled_exec [OF h(2) [unfolded c] h(3,4) assms(3) h(5) this]
    show "settled i st r u'" by blast
  qed simp
  then show ?thesis by simp
qed

theorem settled_items_stay_witness:
  "settled ''item-1'' ItemSkipped [] (run_cmds plan_step [(7, 8, OApprove), (9, 9, OStartItem ''item-1'' [] [])]
     (run_cmds plan_step [(3, 4, OAddItem ''a'' ''x'' [] [] []), (5, 6, OSkipItem ''item-1'' ''no'')] new_store))"
proof (rule settled_items_stay [OF refl])
  show "settled ''item-1'' ItemSkipped []
    (run_cmds plan_step [(3, 4, OAddItem ''a'' ''x'' [] [] []), (5, 6, OSkipItem ''item-1'' ''no'')] new_store)"
    by (simp add: settled_def create_store_def Let_def plan_step_def AddItem_def SkipItem_def
        with_plan_def nextItemID_def dec_int_def dec.simps plan_Item_def set_item_status_def
        patch_Item_def char_of_def bit_0)
qed (simp_all add: max_int_def)

section \<open>Order\<close>

lemma reorder_check_complete:
  "set ids \<subseteq> set valid \<Longrightarrow> distinct ids \<Longrightarrow> set ids \<inter> set seen = {} \<Longrightarrow>
   reorder_check valid seen ids = None"
  by (induction ids arbitrary: seen) auto

text \<open>Reordering accepts exactly the permutations of the item identifiers, and then the plan
  holds the same items in that order.\<close>

theorem reorder_permutes:
  assumes "st_plan s = Some p" "distinct (map pi_id (p_items p))"
  shows "(\<exists>s'. Reorder t t' ids s = Inr s') = (mset ids = mset (map pi_id (p_items p))) \<and>
    (\<forall>s'. Reorder t t' ids s = Inr s' \<longrightarrow> (\<exists>p'. st_plan s' = Some p' \<and>
      mset (p_items p') = mset (p_items p) \<and> map pi_id (p_items p') = ids))"
proof -
  have core: "length ids = length (p_items p) \<and> reorder_check (map pi_id (p_items p)) [] ids = None
      \<longleftrightarrow> mset ids = mset (map pi_id (p_items p))"
  proof
    assume h: "length ids = length (p_items p) \<and> reorder_check (map pi_id (p_items p)) [] ids = None"
    have "mset (map pi_id (map (\<lambda>i. the (itemMap (p_items p) i)) ids)) = mset (map pi_id (p_items p))"
      using reorder_mset [OF _ _ assms(2)] h by (metis mset_map)
    then show "mset ids = mset (map pi_id (p_items p))" using reorder_ids h by metis
  next
    assume m: "mset ids = mset (map pi_id (p_items p))"
    then have "distinct ids" using assms(2) by (metis mset_eq_imp_distinct_iff)
    moreover from m have "set ids = set (map pi_id (p_items p))" by (rule mset_eq_setD)
    moreover from m have "length ids = length (map pi_id (p_items p))" by (rule mset_eq_length)
    ultimately show "length ids = length (p_items p) \<and> reorder_check (map pi_id (p_items p)) [] ids = None"
      by (simp add: reorder_check_complete)
  qed
  have "(\<exists>s'. Reorder t t' ids s = Inr s') = (mset ids = mset (map pi_id (p_items p)))"
    unfolding core [symmetric] using assms(1)
    by (auto simp: Reorder_def with_plan_def split: option.splits)
  moreover have "\<exists>p'. st_plan s' = Some p' \<and> mset (p_items p') = mset (p_items p) \<and>
      map pi_id (p_items p') = ids" if "Reorder t t' ids s = Inr s'" for s'
  proof -
    from that assms(1) have ck: "reorder_check (map pi_id (p_items p)) [] ids = None"
      and len: "length ids = length (p_items p)"
      and s': "st_plan s' = Some (touch t (p\<lparr>p_items := map (\<lambda>i. the (itemMap (p_items p) i)) ids\<rparr>))"
      by (auto simp: Reorder_def with_plan_def split: if_splits option.splits)
    with reorder_mset [OF ck len assms(2)] reorder_ids [OF ck] show ?thesis by (simp del: map_map)
  qed
  ultimately show ?thesis by blast
qed

theorem reorder_permutes_witness:
  "(\<exists>s'. Reorder 5 6 [''b'', ''a''] demo_store = Inr s') \<and> \<not> (\<exists>s'. Reorder 5 6 [''a'', ''a''] demo_store = Inr s')"
proof -
  have "st_plan demo_store = Some demo_plan" "distinct (map pi_id (p_items demo_plan))"
    by (simp_all add: demo_defs)
  from reorder_permutes [OF this, of 5 6 "[''b'', ''a'']"] reorder_permutes [OF this, of 5 6 "[''a'', ''a'']"]
  show ?thesis by (simp add: demo_defs)
qed

section \<open>Approval\<close>

definition approved_first :: "store \<Rightarrow> bool" where
  "approved_first s \<longleftrightarrow> (\<forall>p. st_plan s = Some p \<longrightarrow>
     p_status p \<in> {PlanApproved, PlanExecuting, PlanDone} \<longrightarrow>
     EventPlanApproved \<in> ev_type ` set (st_file s))"

lemma approved_first_exec:
  assumes "plan_exec (t, t', oper) s = Inr s'" "approved_first s"
  shows "approved_first s'"
proof -
  from plan_exec_commit [OF assms(1)] obtain p where p: "st_plan s = Some p"
    by (auto simp: commits_def)
  show ?thesis
  proof (cases oper)
    case (OAddItem a b c d e)
    with assms p show ?thesis
      by (cases "AddItem t t' a b c d e s")
         (auto simp: AddItem_def with_plan_def Let_def approved_first_def split: if_splits option.splits)
  qed (use assms p in \<open>auto simp: plan_ops with_plan_def Let_def approved_first_def patch_comment_def
      set_item_status_def split: if_splits option.splits\<close>)
qed

text \<open>Whatever commands ran, a plan that is approved, executing or done has an approval in its
  log.\<close>

theorem plan_runs_after_approval:
  "approved_first (run_cmds plan_step cs (create_store i name now t objective))"
proof -
  have "approved_first s \<Longrightarrow> approved_first (run_cmds plan_step cs s)" for s
  proof (induction cs arbitrary: s)
    case (Cons c cs)
    obtain u u' oper where c: "c = (u, u', oper)" by (cases c) auto
    from Cons.prems have "approved_first (fst (plan_step c s))"
      by (cases "plan_exec c s") (simp_all add: c approved_first_exec)
    with Cons.IH show ?case by simp
  qed simp
  moreover have "approved_first (create_store i name now t objective)"
    by (simp add: approved_first_def create_store_def Let_def)
  ultimately show ?thesis .
qed

end
