(* ===== verification/Goal_Model.thy ===== *)
theory Goal_Model
  imports Go_Strings Event_Log
begin

text \<open>
  The data of the goal engine, core/goal/model.go, and its pure parts: the budget report of
  budget.go, the todo list of todo.go, the text excerpts and summaries of serialize.go and the
  text normalisation of mode_helpers.go. A nil pointer is \<open>None\<close>; times are clock readings in
  milliseconds; \<open>int\<close> counters wrap at 64 bits.
\<close>

type_synonym ms = int

section \<open>Goals\<close>

datatype goal_status = GoalActive | GoalPaused | GoalBlocked | GoalDone
datatype goal_actor = ActorUser | ActorModel | ActorRuntime | ActorSystem

text \<open>A kind is any string the caller supplies; two are named.\<close>

datatype goal_kind = KindStandard | KindUnblock | KindOther string

record budget_limits =
  bl_tokens :: "int option"
  bl_turns :: "int option"
  bl_wall :: "int option"

record budget_report =
  br_limits :: budget_limits
  br_remainingTokens :: "int option"
  br_remainingTurns :: "int option"
  br_remainingWall :: "int option"
  br_over :: bool

record todo =
  td_id :: string
  td_title :: string
  td_status :: string

record goal_stage =
  gs_goalID :: string
  gs_name :: string
  gs_managedBy :: string
  gs_kind :: goal_kind
  gs_objective :: string
  gs_criterion :: "string option"
  gs_verify :: "string option"
  gs_fresh :: bool
  gs_team :: string
  gs_pauseAfter :: bool
  gs_handoff :: "string option"
  gs_todos :: "todo list"
  gs_status :: goal_status
  gs_turns :: int
  gs_tokens :: int
  gs_wall :: int
  gs_resumedAt :: "ms option"
  gs_limits :: budget_limits
  gs_reason :: "string option"
  gs_expectation :: "string option"
  gs_pending :: bool
  gs_failures :: int
  gs_updatedAt :: ms

record snapshot =
  sn_goalID :: string
  sn_name :: string
  sn_managedBy :: string
  sn_kind :: goal_kind
  sn_objective :: string
  sn_criterion :: "string option"
  sn_verify :: "string option"
  sn_fresh :: bool
  sn_team :: string
  sn_pauseAfter :: bool
  sn_handoff :: "string option"
  sn_todos :: "todo list"
  sn_status :: goal_status
  sn_turns :: int
  sn_tokens :: int
  sn_wall :: int
  sn_budget :: budget_report
  sn_reason :: "string option"
  sn_expectation :: "string option"

datatype change_kind = ChangeLifecycle | ChangeCompletion | ChangeClear

record change =
  ch_kind :: change_kind
  ch_status :: "goal_status option"
  ch_reason :: "string option"
  ch_expectation :: "string option"
  ch_actor :: "goal_actor option"
  ch_stats :: "(int \<times> int \<times> int) option" \<comment> \<open>turns, tokens, wall clock\<close>

record create_input =
  ci_objective :: string
  ci_name :: string
  ci_managedBy :: string
  ci_criterion :: "string option"
  ci_verify :: "string option"
  ci_replace :: bool
  ci_fresh :: bool
  ci_team :: string
  ci_handoff :: "string option"
  ci_kind :: goal_kind

record reason_input =
  ri_reason :: "string option"
  ri_expectation :: "string option"

datatype goal_event_type = GoalEventCreate | GoalEventUpdate | GoalEventClear

text \<open>
  A record of the log; only the fields of its type are set. An empty todo list is not written
  (\<open>omitempty\<close>), so it reads back as the nil list, which is the empty list here.
\<close>

record goal_event =
  ge_type :: goal_event_type
  ge_timestamp :: ms
  ge_goalID :: "string option"
  ge_name :: "string option"
  ge_managedBy :: "string option"
  ge_objective :: "string option"
  ge_criterion :: "string option"
  ge_verify :: "string option"
  ge_handoff :: "string option"
  ge_fresh :: "bool option"
  ge_team :: "string option"
  ge_kind :: "goal_kind option"
  ge_status :: "goal_status option"
  ge_reason :: "string option"
  ge_expectation :: "string option"
  ge_todos :: "todo list"
  ge_actor :: "goal_actor option"
  ge_turns :: "int option"
  ge_tokens :: "int option"
  ge_wall :: "int option"
  ge_limits :: "budget_limits option"
  ge_pauseAfter :: "bool option"

definition goal_record :: "goal_event_type \<Rightarrow> ms \<Rightarrow> goal_event" where
  "goal_record ty t = \<lparr>ge_type = ty, ge_timestamp = t, ge_goalID = None, ge_name = None,
     ge_managedBy = None, ge_objective = None, ge_criterion = None, ge_verify = None,
     ge_handoff = None, ge_fresh = None, ge_team = None, ge_kind = None, ge_status = None,
     ge_reason = None, ge_expectation = None, ge_todos = [], ge_actor = None, ge_turns = None,
     ge_tokens = None, ge_wall = None, ge_limits = None, ge_pauseAfter = None\<rparr>"

section \<open>Budgets\<close>

text \<open>One limit: what remains, never below zero, and whether it is reached.\<close>

definition remaining :: "int option \<Rightarrow> int \<Rightarrow> int option" where
  "remaining lim used = (case lim of None \<Rightarrow> None
     | Some l \<Rightarrow> let r = wrap64 (l - used) in Some (if r < 0 then 0 else r))"

definition reached :: "int option \<Rightarrow> int \<Rightarrow> bool" where
  "reached lim used = (case lim of None \<Rightarrow> False | Some l \<Rightarrow> used \<ge> l)"

definition ComputeBudgetReport :: "budget_limits \<Rightarrow> int \<Rightarrow> int \<Rightarrow> int \<Rightarrow> budget_report" where
  "ComputeBudgetReport l turns tokens wall =
     \<lparr>br_limits = l,
      br_remainingTokens = remaining (bl_tokens l) tokens,
      br_remainingTurns = remaining (bl_turns l) turns,
      br_remainingWall = remaining (bl_wall l) wall,
      br_over = (reached (bl_tokens l) tokens \<or> reached (bl_turns l) turns \<or> reached (bl_wall l) wall)\<rparr>"

definition LiveWallClockMs :: "goal_stage \<Rightarrow> ms \<Rightarrow> int" where
  "LiveWallClockMs st now = (case gs_resumedAt st of
       Some r \<Rightarrow> if gs_status st = GoalActive then gs_wall st + max 0 (now - r) else gs_wall st
     | None \<Rightarrow> gs_wall st)"

text \<open>What remains of a budget is never negative, it is the limit less the usage while that is
  not negative, and the report is over budget exactly when some set limit is reached.\<close>

theorem budget_report_sound:
  assumes "in_int l" "0 \<le> l" "0 \<le> tokens" "in_int tokens" "bl_tokens lim = Some l"
  shows "br_remainingTokens (ComputeBudgetReport lim turns tokens wall) = Some (max 0 (l - tokens)) \<and>
    (br_over (ComputeBudgetReport lim turns tokens wall) \<longleftrightarrow> l \<le> tokens \<or>
      (\<exists>k. bl_turns lim = Some k \<and> k \<le> turns) \<or> (\<exists>k. bl_wall lim = Some k \<and> k \<le> wall))"
proof -
  have "in_int (l - tokens)" using assms by (simp add: in_int_def max_int_def)
  with assms(5) show ?thesis
    by (auto simp: ComputeBudgetReport_def remaining_def reached_def Let_def split: option.splits)
qed

theorem budget_report_sound_witness:
  "br_remainingTokens (ComputeBudgetReport \<lparr>bl_tokens = Some 100, bl_turns = Some 3, bl_wall = None\<rparr> 3 40 0) = Some 60 \<and>
   br_over (ComputeBudgetReport \<lparr>bl_tokens = Some 100, bl_turns = Some 3, bl_wall = None\<rparr> 3 40 0)"
  using budget_report_sound [of 100 40 "\<lparr>bl_tokens = Some 100, bl_turns = Some 3, bl_wall = None\<rparr>" 3 0]
  by (simp add: in_int_def max_int_def)

section \<open>Todo lists\<close>

definition TodoPending :: string where "TodoPending = ''pending''"
definition TodoInProgress :: string where "TodoInProgress = ''in_progress''"
definition TodoDone :: string where "TodoDone = ''done''"

definition normalizeTodoStatus :: "string \<Rightarrow> string" where
  "normalizeTodoStatus s = (let k = trim_space (to_lower s) in
     if k = TodoInProgress then TodoInProgress
     else if k = TodoDone then TodoDone else TodoPending)"

definition todo_ids :: "todo list \<Rightarrow> string set" where
  "todo_ids ts = td_id ` set ts"

text \<open>The search for the lowest free number; it ends because the used identifiers are finitely
  many.\<close>

definition todo_id :: "nat \<Rightarrow> string" where "todo_id i = CHR ''t'' # dec i"

lemma todo_id_inject [simp]: "todo_id i = todo_id j \<longleftrightarrow> i = j"
  by (simp add: todo_id_def)

function free_todo :: "todo list \<Rightarrow> nat \<Rightarrow> nat" where
  "free_todo ts i = (if todo_id i \<in> set (map td_id ts) then free_todo ts (Suc i) else i)"
  by pat_completeness auto
termination
proof (relation "measure (\<lambda>(ts, i). card {j. i \<le> j \<and> todo_id j \<in> set (map td_id ts)})")
  fix ts :: "todo list" and i
  let ?S = "\<lambda>i. {j. i \<le> j \<and> todo_id j \<in> set (map td_id ts)}"
  assume used: "todo_id i \<in> set (map td_id ts)"
  have "finite (todo_id -` set (map td_id ts))"
    by (rule finite_vimageI) (simp_all add: inj_def)
  then have "finite (?S i)" by (rule rev_finite_subset) auto
  moreover have "i \<in> ?S i" "i \<notin> ?S (Suc i)" "?S (Suc i) \<subseteq> ?S i" using used by auto
  then have "?S (Suc i) \<subset> ?S i" by blast
  ultimately show "((ts, Suc i), (ts, i)) \<in> measure (\<lambda>(ts, i). card {j. i \<le> j \<and> todo_id j \<in> set (map td_id ts)})"
    by (simp add: psubset_card_mono)
qed simp

declare free_todo.simps [simp del]

definition nextTodoID :: "todo list \<Rightarrow> string" where
  "nextTodoID ts = todo_id (free_todo ts 1)"

lemma free_todo_spec:
  "todo_id (free_todo ts i) \<notin> set (map td_id ts) \<and> i \<le> free_todo ts i \<and>
   (\<forall>j. i \<le> j \<longrightarrow> j < free_todo ts i \<longrightarrow> todo_id j \<in> set (map td_id ts))"
proof (induction ts i rule: free_todo.induct)
  case (1 ts i)
  show ?case
  proof (cases "todo_id i \<in> set (map td_id ts)")
    case True
    from "1" [OF True] have ih: "todo_id (free_todo ts (Suc i)) \<notin> set (map td_id ts)"
      "Suc i \<le> free_todo ts (Suc i)"
      "\<forall>j. Suc i \<le> j \<longrightarrow> j < free_todo ts (Suc i) \<longrightarrow> todo_id j \<in> set (map td_id ts)" by auto
    moreover have "free_todo ts i = free_todo ts (Suc i)" using True by (subst free_todo.simps) simp
    moreover have "todo_id j \<in> set (map td_id ts)" if "i \<le> j" "j < free_todo ts (Suc i)" for j
      using ih(3) True that by (cases "j = i") auto
    ultimately show ?thesis by auto
  qed (simp add: free_todo.simps [of ts i])
qed

interpretation todo_alloc: id_alloc "map td_id" nextTodoID "\<lambda>_. True"
  by unfold_locales (use free_todo_spec in \<open>simp add: nextTodoID_def\<close>)

definition countIncompleteTodos :: "todo list \<Rightarrow> nat" where
  "countIncompleteTodos ts = length (filter (\<lambda>t. td_status t \<noteq> TodoDone) ts)"

section \<open>Text\<close>

definition MaxObjectiveLength :: nat where "MaxObjectiveLength = 4000"
definition MaxHandoverLength :: nat where "MaxHandoverLength = 4096"

definition ValidateObjective :: "string \<Rightarrow> bool" where
  "ValidateObjective s \<longleftrightarrow> \<not> rune_count s > MaxObjectiveLength"

definition NormalizeOptionalText :: "string option \<Rightarrow> string option" where
  "NormalizeOptionalText v = (case v of None \<Rightarrow> None
     | Some s \<Rightarrow> let t = trim_space s in if t = [] then None else Some t)"

lemma NormalizeOptionalText_idem [simp]:
  "NormalizeOptionalText (NormalizeOptionalText v) = NormalizeOptionalText v"
  by (simp add: NormalizeOptionalText_def Let_def split: option.split)

lemma NormalizeOptionalText_None [simp]: "NormalizeOptionalText None = None"
  by (simp add: NormalizeOptionalText_def)

text \<open>\<open>NormalizeHandover\<close>: the outer \<open>None\<close> is the length error. The length is in bytes.\<close>

definition NormalizeHandover :: "string option \<Rightarrow> string option option" where
  "NormalizeHandover v = (let h = NormalizeOptionalText v in
     case h of Some s \<Rightarrow> if length s > MaxHandoverLength then None else Some h | None \<Rightarrow> Some h)"

lemma NormalizeHandover_Some:
  "NormalizeHandover v = Some h \<Longrightarrow> NormalizeOptionalText h = h \<and>
   (\<forall>s. h = Some s \<longrightarrow> length s \<le> MaxHandoverLength)"
  by (auto simp: NormalizeHandover_def Let_def split: option.splits if_splits)

definition ExcerptObjectiveLen :: int where "ExcerptObjectiveLen = 400"
definition ExcerptFieldLen :: int where "ExcerptFieldLen = 280"

definition Excerpt :: "string \<Rightarrow> int \<Rightarrow> string" where
  "Excerpt s m = (if m \<le> 0 then []
     else if int (length (runes s)) \<le> m then s
     else concat (map rune_text (take (nat m) (runes s))) @ bytes [226, 128, 166])"

record goal_summary =
  sm_name :: string
  sm_status :: goal_status
  sm_objective :: string
  sm_turns :: int
  sm_tokens :: int
  sm_wall :: int
  sm_todos :: "todo list"

definition SummarizeSnapshot :: "snapshot \<Rightarrow> goal_summary" where
  "SummarizeSnapshot s = \<lparr>sm_name = sn_name s, sm_status = sn_status s,
     sm_objective = Excerpt (sn_objective s) ExcerptObjectiveLen, sm_turns = sn_turns s,
     sm_tokens = sn_tokens s, sm_wall = sn_wall s,
     sm_todos = map (\<lambda>t. t\<lparr>td_title := Excerpt (td_title t) ExcerptFieldLen\<rparr>) (sn_todos s)\<rparr>"

definition ForModel :: "snapshot \<Rightarrow> snapshot" where
  "ForModel s = s\<lparr>sn_goalID := []\<rparr>"

end
