(* ===== verification/Goal_Mode.thy ===== *)
theory Goal_Mode
  imports Goal_Model
begin

text \<open>
  The goal engine of core/goal/mode.go: one current goal, changed by commands that append to an
  event log, publish snapshots and track telemetry. Each exported method holds the mutex for its
  whole body, so it is one function from the mode to its result and the next mode. An error can
  come with a changed mode (see \<open>CreateGoal\<close>), so both are returned.

  A method reads the clock several times: \<open>t\<close> is its first reading, \<open>t'\<close> stands for the later
  ones. Identifiers and friendly names are random in the code and arguments here. Appending to
  the store cannot fail here; the code ignores the error.
\<close>

section \<open>The engine's state\<close>

datatype done_gate = DoneGateVerify | DoneGateEvidence | DoneGateOff

record verify_outcome =
  vo_output :: string
  vo_ok :: bool
  vo_duration :: int
  vo_timeout :: int

record judge_input =
  ju_objective :: string
  ju_criterion :: string
  ju_evidence :: string

datatype telemetry =
    TGoalCreated goal_actor bool
  | TGoalContinued int
  | TGoalStatusChanged goal_actor goal_status int int int
  | TGoalBudgetSet goal_actor
  | TGoalCleared goal_actor
  | TGoalChallenged string
  | TGoalVerifyFailed string int
  | TGoalJudgeError string
  | TGoalAutoBlocked string
  | TGoalStallDetected string int

text \<open>The judge answers with an error message or a verdict and its rationale.\<close>

record goal_mode =
  gm_state :: "goal_stage option"
  gm_log :: "goal_event list option" \<comment> \<open>None: no store\<close>
  gm_published :: "(snapshot option \<times> change option) list"
  gm_telemetry :: "telemetry list"
  gm_reminders :: "string list option" \<comment> \<open>None: no reminder function\<close>
  gm_doneGate :: done_gate
  gm_verifier :: "(string \<Rightarrow> verify_outcome) option"
  gm_verifyEnabled :: bool
  gm_judge :: "(judge_input \<Rightarrow> string + (bool \<times> string)) option"
  gm_maxFailures :: int
  gm_defaultTurns :: int

definition NewGoalMode :: "goal_event list option \<Rightarrow> string list option \<Rightarrow> goal_mode" where
  "NewGoalMode log rem = \<lparr>gm_state = None, gm_log = log, gm_published = [], gm_telemetry = [],
     gm_reminders = rem, gm_doneGate = DoneGateVerify, gm_verifier = None,
     gm_verifyEnabled = True, gm_judge = None, gm_maxFailures = 3, gm_defaultTurns = 0\<rparr>"

datatype goal_err =
    ErrEmptyObjective
  | ErrGoalExists
  | ErrHandoverTooLong
  | ErrNoActiveGoal
  | ErrCannotPause goal_status
  | ErrCannotResume goal_status
  | ErrIDMismatch
  | ErrEmptyTitle
  | ErrTodoNotFound string
  | ErrIncompleteTodos nat
  | ErrMissingEvidence

type_synonym 'a goal_result = "(goal_err + 'a) \<times> goal_mode"

section \<open>Helpers\<close>

definition toSnapshot :: "goal_stage \<Rightarrow> ms \<Rightarrow> snapshot" where
  "toSnapshot s now = (let wall = LiveWallClockMs s now in
     \<lparr>sn_goalID = gs_goalID s, sn_name = gs_name s, sn_managedBy = gs_managedBy s,
      sn_kind = gs_kind s, sn_objective = gs_objective s, sn_criterion = gs_criterion s,
      sn_verify = gs_verify s, sn_fresh = gs_fresh s, sn_team = gs_team s,
      sn_pauseAfter = gs_pauseAfter s, sn_handoff = gs_handoff s, sn_todos = gs_todos s,
      sn_status = gs_status s, sn_turns = gs_turns s, sn_tokens = gs_tokens s, sn_wall = wall,
      sn_budget = ComputeBudgetReport (gs_limits s) (gs_turns s) (gs_tokens s) wall,
      sn_reason = gs_reason s, sn_expectation = gs_expectation s\<rparr>)"

definition publish :: "snapshot option \<Rightarrow> change option \<Rightarrow> goal_mode \<Rightarrow> goal_mode" where
  "publish sn ch m = m\<lparr>gm_published := gm_published m @ [(sn, ch)]\<rparr>"

definition track :: "telemetry \<Rightarrow> goal_mode \<Rightarrow> goal_mode" where
  "track e m = m\<lparr>gm_telemetry := gm_telemetry m @ [e]\<rparr>"

definition appendGoalUpdateRecord :: "goal_event \<Rightarrow> goal_mode \<Rightarrow> goal_mode" where
  "appendGoalUpdateRecord r m = (case gm_log m of None \<Rightarrow> m | Some l \<Rightarrow> m\<lparr>gm_log := Some (l @ [r])\<rparr>)"

text \<open>\<open>persistState\<close>: \<open>silent\<close> skips the publication.\<close>

definition persistState :: "ms \<Rightarrow> bool \<Rightarrow> change option \<Rightarrow> goal_stage \<Rightarrow> goal_mode \<Rightarrow> goal_mode" where
  "persistState t silent ch s m =
     (let s' = s\<lparr>gs_updatedAt := t\<rparr>; m' = m\<lparr>gm_state := Some s'\<rparr>
      in if silent then m' else publish (Some (toSnapshot s' t)) ch m')"

definition lifecycle :: "goal_status \<Rightarrow> string option \<Rightarrow> string option \<Rightarrow> goal_actor \<Rightarrow> change" where
  "lifecycle st r e a = \<lparr>ch_kind = ChangeLifecycle, ch_status = Some st, ch_reason = r,
     ch_expectation = e, ch_actor = Some a, ch_stats = None\<rparr>"

definition statsOf :: "goal_stage \<Rightarrow> ms \<Rightarrow> int \<times> int \<times> int" where
  "statsOf s now = (gs_turns s, gs_tokens s, LiveWallClockMs s now)"

definition applyStatus :: "ms \<Rightarrow> goal_status \<Rightarrow> goal_stage \<Rightarrow> goal_stage" where
  "applyStatus now st s =
     (let s1 = (case gs_resumedAt s of
            Some r \<Rightarrow> if gs_status s = GoalActive
              then s\<lparr>gs_wall := (if now - r > 0 then gs_wall s + (now - r) else gs_wall s),
                     gs_resumedAt := None\<rparr> else s
          | None \<Rightarrow> s);
          s2 = (if st = GoalActive then s1\<lparr>gs_resumedAt := Some now\<rparr>
                else s1\<lparr>gs_pending := False, gs_failures := 0\<rparr>)
      in s2\<lparr>gs_status := st\<rparr>)"

definition appendStatusUpdate :: "ms \<Rightarrow> goal_stage \<Rightarrow> goal_actor \<Rightarrow> reason_input \<Rightarrow> goal_mode \<Rightarrow> goal_mode" where
  "appendStatusUpdate t s a i m =
     (let wall = LiveWallClockMs s t in
      track (TGoalStatusChanged a (gs_status s) (gs_turns s) (gs_tokens s) wall)
        (appendGoalUpdateRecord ((goal_record GoalEventUpdate t)
           \<lparr>ge_status := Some (gs_status s), ge_reason := ri_reason i,
            ge_expectation := ri_expectation i, ge_actor := Some a, ge_wall := Some wall\<rparr>) m))"

text \<open>\<open>clearInternal\<close> with its emit options.\<close>

definition clearInternal :: "ms \<Rightarrow> goal_actor \<Rightarrow> bool \<Rightarrow> bool \<Rightarrow> change option \<Rightarrow> goal_mode \<Rightarrow> goal_mode" where
  "clearInternal t a emit trck ch m =
     (if gm_state m = None then m
      else let m1 = m\<lparr>gm_state := None\<rparr>;
               m2 = (if emit then publish None ch m1 else m1);
               m3 = appendGoalUpdateRecord (goal_record GoalEventClear t) m2
           in if trck then track (TGoalCleared a) m3 else m3)"

definition with_goal :: "goal_mode \<Rightarrow> (goal_stage \<Rightarrow> 'a goal_result) \<Rightarrow> 'a goal_result" where
  "with_goal m f = (case gm_state m of None \<Rightarrow> (Inl ErrNoActiveGoal, m) | Some s \<Rightarrow> f s)"

text \<open>The methods that do nothing unless a goal is active return a nil snapshot then.\<close>

definition with_active :: "goal_mode \<Rightarrow> (goal_stage \<Rightarrow> snapshot option \<times> goal_mode) \<Rightarrow> snapshot option \<times> goal_mode" where
  "with_active m f = (case gm_state m of None \<Rightarrow> (None, m)
     | Some s \<Rightarrow> if gs_status s = GoalActive then f s else (None, m))"

section \<open>Creation\<close>

text \<open>
  \<open>CreateGoal\<close>: the old goal is cleared before the handover note is checked. Only the runtime
  may mark a goal as an unblocking investigation. \<open>gid\<close> and \<open>gen\<close> are the generated identifier
  and friendly name.
\<close>

definition create_kind :: "goal_actor \<Rightarrow> goal_kind \<Rightarrow> goal_kind" where
  "create_kind a k = (if a = ActorRuntime \<and> k = KindUnblock then KindUnblock else KindStandard)"

definition new_stage :: "ms \<Rightarrow> string \<Rightarrow> string \<Rightarrow> create_input \<Rightarrow> goal_actor \<Rightarrow> string option
    \<Rightarrow> int \<Rightarrow> goal_stage" where
  "new_stage t gid gen i a handoff dflt =
     \<lparr>gs_goalID = gid, gs_name = (let n = trim_space (ci_name i) in if n = [] then gen else n),
      gs_managedBy = ci_managedBy i, gs_kind = create_kind a (ci_kind i),
      gs_objective = trim_space (ci_objective i),
      gs_criterion = NormalizeOptionalText (ci_criterion i),
      gs_verify = NormalizeOptionalText (ci_verify i),
      gs_fresh = ci_fresh i, gs_team = ci_team i, gs_pauseAfter = False, gs_handoff = handoff,
      gs_todos = [], gs_status = GoalActive, gs_turns = 0, gs_tokens = 0, gs_wall = 0,
      gs_resumedAt = Some t,
      gs_limits = \<lparr>bl_tokens = None, bl_turns = (if dflt > 0 then Some dflt else None), bl_wall = None\<rparr>,
      gs_reason = None, gs_expectation = None, gs_pending = False, gs_failures = 0,
      gs_updatedAt = t\<rparr>"

definition create_record :: "ms \<Rightarrow> goal_stage \<Rightarrow> goal_event" where
  "create_record t s = (goal_record GoalEventCreate t)
     \<lparr>ge_goalID := Some (gs_goalID s), ge_name := Some (gs_name s),
      ge_managedBy := Some (gs_managedBy s), ge_objective := Some (gs_objective s),
      ge_criterion := gs_criterion s, ge_verify := gs_verify s, ge_handoff := gs_handoff s,
      ge_fresh := Some (gs_fresh s), ge_team := Some (gs_team s), ge_kind := Some (gs_kind s)\<rparr>"

definition CreateGoal :: "ms \<Rightarrow> ms \<Rightarrow> string \<Rightarrow> string \<Rightarrow> create_input \<Rightarrow> goal_actor \<Rightarrow> goal_mode
    \<Rightarrow> snapshot goal_result" where
  "CreateGoal t t' gid gen i a m =
     (if trim_space (ci_objective i) = [] then (Inl ErrEmptyObjective, m)
      else if gm_state m \<noteq> None \<and> \<not> ci_replace i then (Inl ErrGoalExists, m)
      else let m1 = clearInternal t ActorSystem True True None m in
        case NormalizeHandover (ci_handoff i) of
          None \<Rightarrow> (Inl ErrHandoverTooLong, m1)
        | Some h \<Rightarrow>
            let s = new_stage t gid gen i a h (gm_defaultTurns m);
                m2 = persistState t' False None s m1;
                m3 = appendGoalUpdateRecord (create_record t s) m2;
                m4 = track (TGoalCreated a (ci_replace i)) m3
            in (Inr (toSnapshot (s\<lparr>gs_updatedAt := t'\<rparr>) t'), m4))"

section \<open>Status changes\<close>

text \<open>The common body: change the status, record the reason, publish, log.\<close>

definition change_status :: "ms \<Rightarrow> ms \<Rightarrow> goal_status \<Rightarrow> reason_input \<Rightarrow> goal_actor \<Rightarrow> goal_stage \<Rightarrow> goal_mode
    \<Rightarrow> snapshot \<times> goal_mode" where
  "change_status t t' st i a s m =
     (let s1 = (applyStatus t st s)\<lparr>gs_reason := ri_reason i, gs_expectation := ri_expectation i,
                 gs_updatedAt := t'\<rparr>;
          m1 = persistState t' False (Some (lifecycle st (ri_reason i) (ri_expectation i) a)) s1 m;
          m2 = appendStatusUpdate t' s1 a i m1
      in (toSnapshot s1 t', m2))"

definition PauseGoal :: "ms \<Rightarrow> ms \<Rightarrow> reason_input \<Rightarrow> goal_actor \<Rightarrow> goal_mode \<Rightarrow> snapshot goal_result" where
  "PauseGoal t t' i a m = with_goal m (\<lambda>s.
     if gs_status s = GoalPaused then (Inr (toSnapshot s t), m)
     else if gs_status s \<noteq> GoalActive then (Inl (ErrCannotPause (gs_status s)), m)
     else let (sn, m') = change_status t t' GoalPaused i a s m in (Inr sn, m'))"

definition PauseActiveGoal :: "ms \<Rightarrow> ms \<Rightarrow> reason_input \<Rightarrow> goal_actor \<Rightarrow> goal_mode
    \<Rightarrow> snapshot option \<times> goal_mode" where
  "PauseActiveGoal t t' i a m = with_active m (\<lambda>s.
     let (sn, m') = change_status t t' GoalPaused i a s m in (Some sn, m'))"

definition PauseOnInterrupt :: "ms \<Rightarrow> ms \<Rightarrow> string \<Rightarrow> goal_mode \<Rightarrow> snapshot option \<times> goal_mode" where
  "PauseOnInterrupt t t' r m =
     PauseActiveGoal t t' \<lparr>ri_reason = Some r, ri_expectation = None\<rparr> ActorUser m"

definition ResumeGoal :: "ms \<Rightarrow> ms \<Rightarrow> reason_input \<Rightarrow> goal_actor \<Rightarrow> goal_mode \<Rightarrow> snapshot goal_result" where
  "ResumeGoal t t' i a m = with_goal m (\<lambda>s.
     if gs_status s = GoalActive then (Inr (toSnapshot s t), m)
     else if gs_status s \<noteq> GoalPaused \<and> gs_status s \<noteq> GoalBlocked
     then (Inl (ErrCannotResume (gs_status s)), m)
     else let s1 = (applyStatus t GoalActive (s\<lparr>gs_reason := None, gs_expectation := None\<rparr>))
                     \<lparr>gs_updatedAt := t'\<rparr>;
              m1 = persistState t' False (Some (lifecycle GoalActive (ri_reason i) None a)) s1 m
          in (Inr (toSnapshot s1 t'), appendStatusUpdate t' s1 a i m1))"

definition markBlockedLocked :: "ms \<Rightarrow> ms \<Rightarrow> reason_input \<Rightarrow> goal_actor \<Rightarrow> goal_mode
    \<Rightarrow> snapshot option \<times> goal_mode" where
  "markBlockedLocked t t' i a m = with_active m (\<lambda>s.
     let (sn, m') = change_status t t' GoalBlocked i a s m in (Some sn, m'))"

definition MarkBlocked :: "ms \<Rightarrow> ms \<Rightarrow> reason_input \<Rightarrow> goal_actor \<Rightarrow> goal_mode
    \<Rightarrow> snapshot option \<times> goal_mode" where
  "MarkBlocked = markBlockedLocked"

definition markCompleteLocked :: "ms \<Rightarrow> ms \<Rightarrow> reason_input \<Rightarrow> goal_actor \<Rightarrow> goal_mode
    \<Rightarrow> snapshot option \<times> goal_mode" where
  "markCompleteLocked t t' i a m = with_active m (\<lambda>s.
     let s1 = (applyStatus t GoalDone s)\<lparr>gs_reason := ri_reason i\<rparr>;
         sn = toSnapshot s1 t';
         m1 = appendStatusUpdate t' s1 a i (m\<lparr>gm_state := Some s1\<rparr>);
         m2 = publish (Some sn) (Some \<lparr>ch_kind = ChangeCompletion, ch_status = Some GoalDone,
                ch_reason = ri_reason i, ch_expectation = None, ch_actor = Some a,
                ch_stats = Some (statsOf s1 t')\<rparr>) m1
     in (Some sn, clearInternal t' a True False None m2))"

definition MarkComplete :: "ms \<Rightarrow> ms \<Rightarrow> reason_input \<Rightarrow> goal_actor \<Rightarrow> goal_mode
    \<Rightarrow> snapshot option \<times> goal_mode" where
  "MarkComplete = markCompleteLocked"

section \<open>Discarding a goal\<close>

definition CancellationReminder :: string where
  "CancellationReminder = ''The user cancelled the current goal. Ignore earlier active-goal reminders for that goal. Handle the next user request normally unless the user starts or resumes a goal.''"

definition cancelGoalLocked :: "ms \<Rightarrow> goal_actor \<Rightarrow> goal_mode \<Rightarrow> snapshot goal_result" where
  "cancelGoalLocked t a m = with_goal m (\<lambda>s.
     let m1 = clearInternal t a True True (Some \<lparr>ch_kind = ChangeClear, ch_status = None,
                ch_reason = None, ch_expectation = None, ch_actor = Some a, ch_stats = None\<rparr>) m;
         m2 = (if a = ActorUser then m1\<lparr>gm_reminders := map_option (\<lambda>rs. rs @ [CancellationReminder]) (gm_reminders m1)\<rparr>
               else m1)
     in (Inr (toSnapshot s t), m2))"

definition CancelGoal :: "ms \<Rightarrow> goal_actor \<Rightarrow> goal_mode \<Rightarrow> snapshot goal_result" where
  "CancelGoal = cancelGoalLocked"

definition CancelGoalByID :: "ms \<Rightarrow> string \<Rightarrow> goal_actor \<Rightarrow> goal_mode \<Rightarrow> snapshot goal_result" where
  "CancelGoalByID t i a m = with_goal m (\<lambda>s.
     if gs_goalID s \<noteq> i then (Inl ErrIDMismatch, m) else cancelGoalLocked t a m)"

text \<open>\<open>AddDate(0, 0, -n)\<close> is taken as n days of 24 hours.\<close>

definition CleanupExpired :: "ms \<Rightarrow> int \<Rightarrow> goal_mode \<Rightarrow> goal_mode" where
  "CleanupExpired t days m =
     (if days \<le> 0 then m else case gm_state m of None \<Rightarrow> m
      | Some s \<Rightarrow> if gs_status s = GoalActive then m
          else if gs_updatedAt s < t - days * 86400000
          then clearInternal t ActorRuntime True True None m else m)"

section \<open>Todos\<close>

definition persistTodosLocked :: "ms \<Rightarrow> goal_stage \<Rightarrow> goal_actor \<Rightarrow> goal_mode \<Rightarrow> goal_mode" where
  "persistTodosLocked t s a m = appendGoalUpdateRecord
     ((goal_record GoalEventUpdate t)\<lparr>ge_todos := gs_todos s, ge_actor := Some a\<rparr>)
     (persistState t False None s m)"

definition AddGoalTodo :: "ms \<Rightarrow> string \<Rightarrow> goal_actor \<Rightarrow> goal_mode \<Rightarrow> todo goal_result" where
  "AddGoalTodo t title a m = with_goal m (\<lambda>s.
     let ttl = trim_space title in
     if ttl = [] then (Inl ErrEmptyTitle, m)
     else let item = \<lparr>td_id = nextTodoID (gs_todos s), td_title = ttl, td_status = TodoPending\<rparr>
          in (Inr item, persistTodosLocked t (s\<lparr>gs_todos := gs_todos s @ [item]\<rparr>) a m))"

text \<open>The three edits of one item: they fail when no item has the identifier.\<close>

definition edit_todo :: "ms \<Rightarrow> string \<Rightarrow> (todo list \<Rightarrow> todo list) \<Rightarrow> goal_actor \<Rightarrow> goal_stage \<Rightarrow> goal_mode
    \<Rightarrow> snapshot goal_result" where
  "edit_todo t i f a s m =
     (if i \<in> td_id ` set (gs_todos s)
      then let s1 = s\<lparr>gs_todos := f (gs_todos s), gs_updatedAt := t\<rparr>
           in (Inr (toSnapshot s1 t), persistTodosLocked t s1 a m)
      else (Inl (ErrTodoNotFound i), m))"

definition UpdateGoalTodo :: "ms \<Rightarrow> string \<Rightarrow> string \<Rightarrow> goal_actor \<Rightarrow> goal_mode \<Rightarrow> snapshot goal_result" where
  "UpdateGoalTodo t i status a m = with_goal m (\<lambda>s.
     edit_todo t i (update_first (\<lambda>td. td_id td = i)
       (\<lambda>td. td\<lparr>td_status := normalizeTodoStatus status\<rparr>)) a s m)"

definition RenameGoalTodo :: "ms \<Rightarrow> string \<Rightarrow> string \<Rightarrow> goal_actor \<Rightarrow> goal_mode \<Rightarrow> snapshot goal_result" where
  "RenameGoalTodo t i title a m = with_goal m (\<lambda>s.
     let ttl = trim_space title in
     if ttl = [] then (Inl ErrEmptyTitle, m)
     else edit_todo t i (update_first (\<lambda>td. td_id td = i) (\<lambda>td. td\<lparr>td_title := ttl\<rparr>)) a s m)"

definition RemoveGoalTodo :: "ms \<Rightarrow> string \<Rightarrow> goal_actor \<Rightarrow> goal_mode \<Rightarrow> snapshot goal_result" where
  "RemoveGoalTodo t i a m = with_goal m (\<lambda>s.
     edit_todo t i (remove_first (\<lambda>td. td_id td = i)) a s m)"

section \<open>Counters and settings\<close>

definition RecordTokenUsage :: "ms \<Rightarrow> int \<Rightarrow> goal_mode \<Rightarrow> snapshot option \<times> goal_mode" where
  "RecordTokenUsage t delta m = with_active m (\<lambda>s.
     let s1 = s\<lparr>gs_tokens := wrap64 (gs_tokens s + (if delta < 0 then 0 else delta)), gs_updatedAt := t\<rparr>;
         m1 = persistState t True None s1 m
     in (Some (toSnapshot s1 t), appendGoalUpdateRecord
          ((goal_record GoalEventUpdate t)\<lparr>ge_tokens := Some (gs_tokens s1)\<rparr>) m1))"

definition IncrementTurn :: "ms \<Rightarrow> goal_mode \<Rightarrow> snapshot option \<times> goal_mode" where
  "IncrementTurn t m = with_active m (\<lambda>s.
     let s1 = s\<lparr>gs_turns := wrap64 (gs_turns s + 1), gs_updatedAt := t\<rparr>;
         m1 = persistState t False None s1 m;
         m2 = appendGoalUpdateRecord ((goal_record GoalEventUpdate t)\<lparr>ge_turns := Some (gs_turns s1)\<rparr>) m1
     in (Some (toSnapshot s1 t), track (TGoalContinued (gs_turns s1)) m2))"

definition SetPauseAfterComplete :: "ms \<Rightarrow> bool \<Rightarrow> goal_actor \<Rightarrow> goal_mode \<Rightarrow> snapshot goal_result" where
  "SetPauseAfterComplete t armed a m = with_goal m (\<lambda>s.
     let s1 = s\<lparr>gs_pauseAfter := armed, gs_updatedAt := t\<rparr>;
         m1 = persistState t False None s1 m
     in (Inr (toSnapshot s1 t), appendGoalUpdateRecord
          ((goal_record GoalEventUpdate t)\<lparr>ge_pauseAfter := Some armed, ge_actor := Some a\<rparr>) m1))"

definition or_else :: "'a option \<Rightarrow> 'a option \<Rightarrow> 'a option" where
  "or_else x y = (case x of Some _ \<Rightarrow> x | None \<Rightarrow> y)"

definition merge_limits :: "budget_limits \<Rightarrow> budget_limits \<Rightarrow> budget_limits" where
  "merge_limits new old = \<lparr>bl_tokens = or_else (bl_tokens new) (bl_tokens old),
     bl_turns = or_else (bl_turns new) (bl_turns old), bl_wall = or_else (bl_wall new) (bl_wall old)\<rparr>"

definition SetBudgetLimits :: "ms \<Rightarrow> budget_limits \<Rightarrow> goal_actor \<Rightarrow> goal_mode \<Rightarrow> snapshot goal_result" where
  "SetBudgetLimits t l a m = with_goal m (\<lambda>s.
     let s1 = s\<lparr>gs_limits := merge_limits l (gs_limits s), gs_updatedAt := t\<rparr>;
         m1 = persistState t False None s1 m;
         m2 = appendGoalUpdateRecord ((goal_record GoalEventUpdate t)\<lparr>ge_limits := Some (gs_limits s1)\<rparr>) m1
     in (Inr (toSnapshot s1 t), track (TGoalBudgetSet a) m2))"

section \<open>Reading\<close>

definition GetGoal :: "ms \<Rightarrow> goal_mode \<Rightarrow> snapshot option" where
  "GetGoal t m = map_option (\<lambda>s. toSnapshot s t) (gm_state m)"

definition GetActiveGoal :: "ms \<Rightarrow> goal_mode \<Rightarrow> snapshot option" where
  "GetActiveGoal t m = (case gm_state m of None \<Rightarrow> None
     | Some s \<Rightarrow> if gs_status s \<noteq> GoalActive then None else Some (toSnapshot s t))"

definition NotifyGoalChanged :: "ms \<Rightarrow> goal_mode \<Rightarrow> goal_mode" where
  "NotifyGoalChanged t m = publish (GetGoal t m) None m"

definition TrackStall :: "int \<Rightarrow> goal_mode \<Rightarrow> goal_mode" where
  "TrackStall n m = track (TGoalStallDetected (case gm_state m of None \<Rightarrow> [] | Some s \<Rightarrow> gs_name s) n) m"

section \<open>Replay\<close>

definition RestoreCreate :: "goal_event \<Rightarrow> goal_stage option \<Rightarrow> goal_stage option" where
  "RestoreCreate r so = Some
     \<lparr>gs_goalID = (case ge_goalID r of Some v \<Rightarrow> v | None \<Rightarrow> []),
      gs_name = (case ge_name r of Some v \<Rightarrow> v | None \<Rightarrow> []),
      gs_managedBy = (case ge_managedBy r of Some v \<Rightarrow> v | None \<Rightarrow> []),
      gs_kind = (if ge_kind r = Some KindUnblock then KindUnblock else KindStandard),
      gs_objective = (case ge_objective r of Some v \<Rightarrow> v | None \<Rightarrow> []),
      gs_criterion = NormalizeOptionalText (ge_criterion r),
      gs_verify = NormalizeOptionalText (ge_verify r),
      gs_fresh = (case ge_fresh r of Some v \<Rightarrow> v | None \<Rightarrow> False),
      gs_team = (case ge_team r of Some v \<Rightarrow> v | None \<Rightarrow> []),
      gs_pauseAfter = False, gs_handoff = NormalizeOptionalText (ge_handoff r), gs_todos = [],
      gs_status = GoalActive, gs_turns = 0, gs_tokens = 0, gs_wall = 0, gs_resumedAt = None,
      gs_limits = \<lparr>bl_tokens = None, bl_turns = None, bl_wall = None\<rparr>,
      gs_reason = None, gs_expectation = None, gs_pending = False, gs_failures = 0,
      gs_updatedAt = ge_timestamp r\<rparr>"

definition restore_status :: "goal_event \<Rightarrow> goal_stage \<Rightarrow> goal_stage" where
  "restore_status r s = (case ge_status r of None \<Rightarrow> s
     | Some st \<Rightarrow> s\<lparr>gs_status := st, gs_resumedAt := None,
         gs_reason := (if st \<noteq> GoalActive then ge_reason r else None),
         gs_expectation := (if st \<noteq> GoalActive then ge_expectation r else None)\<rparr>)"

text \<open>The patches of an update record, in the order of the code; the last one is the todo list.\<close>

definition set_some :: "('a \<Rightarrow> 'b \<Rightarrow> 'b) \<Rightarrow> 'a option \<Rightarrow> 'b \<Rightarrow> 'b" where
  "set_some f v x = (case v of None \<Rightarrow> x | Some a \<Rightarrow> f a x)"

definition restore_update :: "goal_event \<Rightarrow> goal_stage \<Rightarrow> goal_stage" where
  "restore_update r s =
     (if ge_todos r \<noteq> [] then (\<lambda>s. s\<lparr>gs_todos := ge_todos r\<rparr>) else id)
     (set_some (\<lambda>b s. s\<lparr>gs_pauseAfter := b\<rparr>) (ge_pauseAfter r)
     (set_some (\<lambda>l s. s\<lparr>gs_limits := l\<rparr>) (ge_limits r)
     (set_some (\<lambda>w s. s\<lparr>gs_wall := w, gs_resumedAt := None\<rparr>) (ge_wall r)
     (set_some (\<lambda>n s. s\<lparr>gs_tokens := n\<rparr>) (ge_tokens r)
     (set_some (\<lambda>n s. s\<lparr>gs_turns := n\<rparr>) (ge_turns r) (restore_status r s))))))"

definition RestoreUpdate :: "goal_event \<Rightarrow> goal_stage option \<Rightarrow> goal_stage option" where
  "RestoreUpdate r so = map_option (restore_update r) so"

definition restore_record :: "goal_event \<Rightarrow> goal_stage option \<Rightarrow> goal_stage option" where
  "restore_record r = (case ge_type r of
       GoalEventCreate \<Rightarrow> RestoreCreate r
     | GoalEventUpdate \<Rightarrow> RestoreUpdate r
     | GoalEventClear \<Rightarrow> (\<lambda>_. None))"

definition ResumeReason :: string where "ResumeReason = ''Paused after agent resume''"

definition NormalizeAfterReplay :: "ms \<Rightarrow> ms \<Rightarrow> goal_mode \<Rightarrow> goal_mode" where
  "NormalizeAfterReplay t t' m = (case gm_state m of None \<Rightarrow> m
     | Some s0 \<Rightarrow>
         let s = s0\<lparr>gs_resumedAt := None\<rparr>; m0 = m\<lparr>gm_state := Some s\<rparr> in
         if gs_status s = GoalDone then clearInternal t ActorRuntime False False None m0
         else if gs_status s = GoalActive then
           let s1 = (applyStatus t GoalPaused s)\<lparr>gs_reason := Some ResumeReason, gs_updatedAt := t'\<rparr>
           in appendStatusUpdate t' s1 ActorRuntime \<lparr>ri_reason = Some ResumeReason, ri_expectation = None\<rparr>
                (persistState t' True None s1 m0)
         else m0)"

text \<open>\<open>Replay\<close> reads the records of the store (a nil store panics: \<open>None\<close>).\<close>

definition Replay :: "ms \<Rightarrow> ms \<Rightarrow> goal_mode \<Rightarrow> goal_mode option" where
  "Replay t t' m = map_option (\<lambda>l. NormalizeAfterReplay t t'
     (m\<lparr>gm_state := fold restore_record l (gm_state m)\<rparr>)) (gm_log m)"

section \<open>Settings\<close>

definition SetDoneGate :: "done_gate \<Rightarrow> goal_mode \<Rightarrow> goal_mode" where
  "SetDoneGate g m = m\<lparr>gm_doneGate := g\<rparr>"

definition SetVerifier :: "(string \<Rightarrow> verify_outcome) option \<Rightarrow> bool \<Rightarrow> goal_mode \<Rightarrow> goal_mode" where
  "SetVerifier v enabled m = m\<lparr>gm_verifier := v, gm_verifyEnabled := enabled\<rparr>"

definition SetJudge :: "(judge_input \<Rightarrow> string + (bool \<times> string)) option \<Rightarrow> goal_mode \<Rightarrow> goal_mode" where
  "SetJudge j m = m\<lparr>gm_judge := j\<rparr>"

definition SetMaxVerifyFailures :: "int \<Rightarrow> goal_mode \<Rightarrow> goal_mode" where
  "SetMaxVerifyFailures n m = m\<lparr>gm_maxFailures := n\<rparr>"

definition SetDefaultTurnBudget :: "int \<Rightarrow> goal_mode \<Rightarrow> goal_mode" where
  "SetDefaultTurnBudget n m = m\<lparr>gm_defaultTurns := n\<rparr>"

section \<open>What the helpers leave alone\<close>

lemma state_frame [simp]:
  "gm_state (track e m) = gm_state m" "gm_state (publish sn ch m) = gm_state m"
  "gm_state (appendGoalUpdateRecord r m) = gm_state m"
  "gm_state (appendStatusUpdate t s a i m) = gm_state m"
  "gm_state (clearInternal t a em tk ch m) = None"
  "gm_state (persistState t silent ch s m) = Some (s\<lparr>gs_updatedAt := t\<rparr>)"
  by (simp_all add: track_def publish_def appendGoalUpdateRecord_def appendStatusUpdate_def
      clearInternal_def persistState_def Let_def split: option.split)

definition add_records :: "goal_event list \<Rightarrow> goal_event list option \<Rightarrow> goal_event list option" where
  "add_records es l = map_option (\<lambda>x. x @ es) l"

lemma add_records_Some [simp]: "add_records es (Some l) = Some (l @ es)"
  by (simp add: add_records_def)

lemma add_records_None [simp]: "add_records es None = None"
  by (simp add: add_records_def)

lemma add_records_add [simp]: "add_records fs (add_records es l) = add_records (es @ fs) l"
  by (simp add: add_records_def option.map_comp comp_def)

lemma add_records_Nil [simp]: "add_records [] l = l"
  by (simp add: add_records_def option.map_ident)

lemma log_frame [simp]:
  "gm_log (track e m) = gm_log m" "gm_log (publish sn ch m) = gm_log m"
  "gm_log (persistState t silent ch s m) = gm_log m"
  "gm_log (appendGoalUpdateRecord r m) = add_records [r] (gm_log m)"
  "gm_log (m\<lparr>gm_state := so\<rparr>) = gm_log m"
  by (simp_all add: track_def publish_def appendGoalUpdateRecord_def persistState_def Let_def
      split: option.split)

lemma config_frame [simp]:
  "gm_defaultTurns (track e m) = gm_defaultTurns m" "gm_defaultTurns (publish sn ch m) = gm_defaultTurns m"
  "gm_defaultTurns (appendGoalUpdateRecord r m) = gm_defaultTurns m"
  "gm_defaultTurns (appendStatusUpdate t s a i m) = gm_defaultTurns m"
  "gm_defaultTurns (clearInternal t a em tk ch m) = gm_defaultTurns m"
  "gm_defaultTurns (persistState t silent ch s m) = gm_defaultTurns m"
  "gm_maxFailures (track e m) = gm_maxFailures m" "gm_maxFailures (publish sn ch m) = gm_maxFailures m"
  "gm_maxFailures (appendGoalUpdateRecord r m) = gm_maxFailures m"
  "gm_maxFailures (appendStatusUpdate t s a i m) = gm_maxFailures m"
  "gm_maxFailures (clearInternal t a em tk ch m) = gm_maxFailures m"
  "gm_maxFailures (persistState t silent ch s m) = gm_maxFailures m"
  by (simp_all add: track_def publish_def appendGoalUpdateRecord_def appendStatusUpdate_def
      clearInternal_def persistState_def Let_def split: option.split)

lemma toSnapshot_fields [simp]:
  "sn_goalID (toSnapshot s t) = gs_goalID s" "sn_status (toSnapshot s t) = gs_status s"
  "sn_todos (toSnapshot s t) = gs_todos s"
  by (simp_all add: toSnapshot_def Let_def)

lemma applyStatus_fields [simp]:
  "gs_goalID (applyStatus t st s) = gs_goalID s" "gs_name (applyStatus t st s) = gs_name s"
  "gs_managedBy (applyStatus t st s) = gs_managedBy s" "gs_kind (applyStatus t st s) = gs_kind s"
  "gs_objective (applyStatus t st s) = gs_objective s" "gs_criterion (applyStatus t st s) = gs_criterion s"
  "gs_verify (applyStatus t st s) = gs_verify s" "gs_fresh (applyStatus t st s) = gs_fresh s"
  "gs_team (applyStatus t st s) = gs_team s" "gs_pauseAfter (applyStatus t st s) = gs_pauseAfter s"
  "gs_handoff (applyStatus t st s) = gs_handoff s" "gs_todos (applyStatus t st s) = gs_todos s"
  "gs_turns (applyStatus t st s) = gs_turns s" "gs_tokens (applyStatus t st s) = gs_tokens s"
  "gs_limits (applyStatus t st s) = gs_limits s" "gs_status (applyStatus t st s) = st"
  "gs_reason (applyStatus t st s) = gs_reason s" "gs_expectation (applyStatus t st s) = gs_expectation s"
  "gs_pending (applyStatus t st s) = (if st = GoalActive then gs_pending s else False)"
  "gs_failures (applyStatus t st s) = (if st = GoalActive then gs_failures s else 0)"
  "gs_resumedAt (applyStatus t st s) = (if st = GoalActive then Some t
     else if gs_status s = GoalActive then None else gs_resumedAt s)"
  by (simp_all add: applyStatus_def Let_def split: option.split)

text \<open>The wall clock of a goal that leaves the active state is what was shown live.\<close>

lemma applyStatus_wall:
  "gs_wall (applyStatus t st s) = (if gs_status s = GoalActive then LiveWallClockMs s t else gs_wall s)"
  by (simp add: applyStatus_def LiveWallClockMs_def Let_def split: option.split)

section \<open>Records and what they restore, field by field\<close>

lemma goal_record_fields [simp]:
  "ge_type (goal_record ty t) = ty" "ge_timestamp (goal_record ty t) = t"
  "ge_goalID (goal_record ty t) = None" "ge_name (goal_record ty t) = None"
  "ge_managedBy (goal_record ty t) = None" "ge_objective (goal_record ty t) = None"
  "ge_criterion (goal_record ty t) = None" "ge_verify (goal_record ty t) = None"
  "ge_handoff (goal_record ty t) = None" "ge_fresh (goal_record ty t) = None"
  "ge_team (goal_record ty t) = None" "ge_kind (goal_record ty t) = None"
  "ge_status (goal_record ty t) = None" "ge_reason (goal_record ty t) = None"
  "ge_expectation (goal_record ty t) = None" "ge_todos (goal_record ty t) = []"
  "ge_actor (goal_record ty t) = None" "ge_turns (goal_record ty t) = None"
  "ge_tokens (goal_record ty t) = None" "ge_wall (goal_record ty t) = None"
  "ge_limits (goal_record ty t) = None" "ge_pauseAfter (goal_record ty t) = None"
  by (simp_all add: goal_record_def)

lemma set_some_simps [simp]: "set_some f None x = x" "set_some f (Some a) x = f a x"
  by (simp_all add: set_some_def)

lemma set_some_frame: "(\<And>a x. g (f a x) = g x) \<Longrightarrow> g (set_some f v x) = g x"
  by (cases v) simp_all

lemma set_some_field: "(\<And>a x. g (f a x) = a) \<Longrightarrow> g (set_some f v x) = (case v of None \<Rightarrow> g x | Some a \<Rightarrow> a)"
  by (cases v) simp_all

lemma restore_status_fields [simp]:
  "gs_goalID (restore_status r s) = gs_goalID s" "gs_name (restore_status r s) = gs_name s"
  "gs_managedBy (restore_status r s) = gs_managedBy s" "gs_kind (restore_status r s) = gs_kind s"
  "gs_objective (restore_status r s) = gs_objective s" "gs_criterion (restore_status r s) = gs_criterion s"
  "gs_verify (restore_status r s) = gs_verify s" "gs_fresh (restore_status r s) = gs_fresh s"
  "gs_team (restore_status r s) = gs_team s" "gs_pauseAfter (restore_status r s) = gs_pauseAfter s"
  "gs_handoff (restore_status r s) = gs_handoff s" "gs_todos (restore_status r s) = gs_todos s"
  "gs_turns (restore_status r s) = gs_turns s" "gs_tokens (restore_status r s) = gs_tokens s"
  "gs_limits (restore_status r s) = gs_limits s" "gs_wall (restore_status r s) = gs_wall s"
  "gs_updatedAt (restore_status r s) = gs_updatedAt s"
  "gs_status (restore_status r s) = (case ge_status r of None \<Rightarrow> gs_status s | Some st \<Rightarrow> st)"
  "gs_reason (restore_status r s) = (case ge_status r of None \<Rightarrow> gs_reason s
     | Some st \<Rightarrow> if st \<noteq> GoalActive then ge_reason r else None)"
  "gs_expectation (restore_status r s) = (case ge_status r of None \<Rightarrow> gs_expectation s
     | Some st \<Rightarrow> if st \<noteq> GoalActive then ge_expectation r else None)"
  by (simp_all add: restore_status_def split: option.split)

lemma restore_update_fields [simp]:
  "gs_goalID (restore_update r s) = gs_goalID s" "gs_name (restore_update r s) = gs_name s"
  "gs_managedBy (restore_update r s) = gs_managedBy s" "gs_kind (restore_update r s) = gs_kind s"
  "gs_objective (restore_update r s) = gs_objective s" "gs_criterion (restore_update r s) = gs_criterion s"
  "gs_verify (restore_update r s) = gs_verify s" "gs_fresh (restore_update r s) = gs_fresh s"
  "gs_team (restore_update r s) = gs_team s" "gs_handoff (restore_update r s) = gs_handoff s"
  "gs_updatedAt (restore_update r s) = gs_updatedAt s"
  "gs_pauseAfter (restore_update r s) = (case ge_pauseAfter r of None \<Rightarrow> gs_pauseAfter s | Some b \<Rightarrow> b)"
  "gs_todos (restore_update r s) = (if ge_todos r \<noteq> [] then ge_todos r else gs_todos s)"
  "gs_turns (restore_update r s) = (case ge_turns r of None \<Rightarrow> gs_turns s | Some n \<Rightarrow> n)"
  "gs_tokens (restore_update r s) = (case ge_tokens r of None \<Rightarrow> gs_tokens s | Some n \<Rightarrow> n)"
  "gs_limits (restore_update r s) = (case ge_limits r of None \<Rightarrow> gs_limits s | Some l \<Rightarrow> l)"
  "gs_wall (restore_update r s) = (case ge_wall r of None \<Rightarrow> gs_wall s | Some w \<Rightarrow> w)"
  "gs_status (restore_update r s) = gs_status (restore_status r s)"
  "gs_reason (restore_update r s) = gs_reason (restore_status r s)"
  "gs_expectation (restore_update r s) = gs_expectation (restore_status r s)"
  unfolding restore_update_def
  by (simp_all add: set_some_frame set_some_field del: restore_status_fields(18-20) split: option.split)

end
