(* ===== verification/Goal_Gate.thy ===== *)
theory Goal_Gate
  imports Goal_Mode
begin

text \<open>
  The done-gate of core/goal/gate.go. A completion request has a locked first part
  (\<open>beginCompletion\<close>), a verification that runs without the lock, and a locked last part
  (\<open>finishCompletion\<close> or \<open>failCompletion\<close>); other commands can run in between.
\<close>

section \<open>Outcomes\<close>

datatype complete_outcome = CompleteClosed | CompleteChallenged | CompleteVerifyFailed | CompleteNoGoal

record verify_evidence =
  ve_command :: string
  ve_output :: string
  ve_duration :: int
  ve_timeout :: int

record verify_failure =
  vf_kind :: string
  vf_detail :: string
  vf_streak :: int
  vf_escalated :: bool

record complete_result =
  cr_snapshot :: "snapshot option"
  cr_outcome :: complete_outcome
  cr_failure :: "verify_failure option"
  cr_verification :: "verify_evidence option"

text \<open>What \<open>beginCompletion\<close> decides: an error, a final outcome, or that machine verification
  must run with the recorded command and judge.\<close>

datatype completion_decision =
    DErr goal_err
  | DClosed "snapshot option"
  | DOutcome complete_outcome "snapshot option"
  | DVerify "string option" "(judge_input \<Rightarrow> string + (bool \<times> string)) option" judge_input

definition ParseDoneGate :: "string \<Rightarrow> done_gate option" where
  "ParseDoneGate v = (let k = to_lower (trim_space v) in
     if k = [] \<or> k = ''verify'' then Some DoneGateVerify
     else if k = ''evidence'' then Some DoneGateEvidence
     else if k = ''off'' then Some DoneGateOff else None)"

section \<open>The steps of a completion request\<close>

definition gateApplies :: "goal_mode \<Rightarrow> goal_stage \<Rightarrow> goal_actor \<Rightarrow> bool" where
  "gateApplies m s a \<longleftrightarrow> gm_doneGate m \<noteq> DoneGateOff \<and> a = ActorModel \<and>
     gs_managedBy s = [] \<and> gs_criterion s \<noteq> None"

definition effectiveVerifyCommand :: "goal_mode \<Rightarrow> goal_stage \<Rightarrow> string option" where
  "effectiveVerifyCommand m s =
     (if \<not> gm_verifyEnabled m then None
      else case gm_verifier m of None \<Rightarrow> None | Some _ \<Rightarrow> gs_verify s)"

definition blank :: "string option \<Rightarrow> bool" where
  "blank r \<longleftrightarrow> (case r of None \<Rightarrow> True | Some s \<Rightarrow> trim_space s = [])"

definition beginCompletion :: "ms \<Rightarrow> ms \<Rightarrow> reason_input \<Rightarrow> goal_actor \<Rightarrow> goal_mode
    \<Rightarrow> completion_decision \<times> goal_mode" where
  "beginCompletion t t' i a m = (case gm_state m of None \<Rightarrow> (DOutcome CompleteNoGoal None, m)
     | Some s \<Rightarrow>
       if gs_status s \<noteq> GoalActive then (DOutcome CompleteNoGoal None, m)
       else if \<not> gateApplies m s a then
         (let (sn, m') = markCompleteLocked t t' i a m in (DClosed sn, m'))
       else if countIncompleteTodos (gs_todos s) > 0
         then (DErr (ErrIncompleteTodos (countIncompleteTodos (gs_todos s))), m)
       else if gm_doneGate m = DoneGateVerify \<and> \<not> gs_pending s then
         (let s1 = s\<lparr>gs_pending := True\<rparr>
          in (DOutcome CompleteChallenged (Some (toSnapshot s1 t')),
              track (TGoalChallenged (gs_name s)) (m\<lparr>gm_state := Some s1\<rparr>)))
       else if blank (ri_reason i) then (DErr ErrMissingEvidence, m)
       else (DVerify (effectiveVerifyCommand m s) (gm_judge m)
         \<lparr>ju_objective = gs_objective s, ju_criterion = the (gs_criterion s),
          ju_evidence = trim_space (the (ri_reason i))\<rparr>, m))"

text \<open>\<open>tailLines\<close>: the last \<open>n\<close> lines, trailing newlines dropped.\<close>

definition trim_newlines :: "string \<Rightarrow> string" where
  "trim_newlines s = rev (dropWhile (\<lambda>c. c = char_of (10 :: nat)) (rev s))"

definition tailLines :: "string \<Rightarrow> nat \<Rightarrow> string" where
  "tailLines s n = (let s' = trim_newlines s in
     if s' = [] then ''(no output)''
     else let ls = split_on (char_of (10 :: nat)) s'
          in join_with (bytes [10]) (if length ls > n then drop (length ls - n) ls else ls))"

text \<open>
  \<open>runVerification\<close> with the verifier and judge of the decision: the failure (\<open>None\<close> when
  verified), the evidence, and a judge error to track. A broken judge does not fail the goal.
\<close>

definition runVerification :: "(string \<Rightarrow> verify_outcome) \<Rightarrow> string option \<Rightarrow>
    (judge_input \<Rightarrow> string + (bool \<times> string)) option \<Rightarrow> judge_input \<Rightarrow>
    verify_failure option \<times> verify_evidence option \<times> telemetry option" where
  "runVerification verify cmd judge ji =
     (let ev = map_option (\<lambda>c. let vo = verify c in \<lparr>ve_command = c, ve_output = vo_output vo,
                 ve_duration = vo_duration vo, ve_timeout = vo_timeout vo\<rparr>) cmd;
          fail = (\<lambda>k d. \<lparr>vf_kind = k, vf_detail = d, vf_streak = 0, vf_escalated = False\<rparr>);
          audit = (case judge of None \<Rightarrow> (None, ev, None)
            | Some j \<Rightarrow> (case j ji of Inl err \<Rightarrow> (None, ev, Some (TGoalJudgeError err))
                | Inr (pass, why) \<Rightarrow> (if pass then None else Some (fail ''judge'' why), ev, None)))
      in case cmd of None \<Rightarrow> audit
         | Some c \<Rightarrow> if \<not> vo_ok (verify c)
             then (Some (fail ''command'' (tailLines (vo_output (verify c)) 10)), ev, None) else audit)"

definition finishCompletion :: "ms \<Rightarrow> ms \<Rightarrow> reason_input \<Rightarrow> goal_actor \<Rightarrow> goal_mode
    \<Rightarrow> complete_result \<times> goal_mode" where
  "finishCompletion t t' i a m =
     (let no = \<lparr>cr_snapshot = None, cr_outcome = CompleteNoGoal, cr_failure = None, cr_verification = None\<rparr>
      in case gm_state m of None \<Rightarrow> (no, m)
     | Some s \<Rightarrow> if gs_status s \<noteq> GoalActive then (no, m)
         else let (sn, m') = markCompleteLocked t t' i a m
              in (\<lparr>cr_snapshot = sn, cr_outcome = CompleteClosed, cr_failure = None, cr_verification = None\<rparr>, m'))"

definition EscalationReason :: "int \<Rightarrow> string" where
  "EscalationReason n = ''verification failed '' @ dec_int n @ '' times consecutively''"

definition EscalationExpectation :: string where
  "EscalationExpectation = ''user review of the completion criterion or verify command''"

definition failCompletion :: "ms \<Rightarrow> ms \<Rightarrow> verify_failure \<Rightarrow> goal_mode \<Rightarrow> complete_result \<times> goal_mode" where
  "failCompletion t t' f m =
     (let no = \<lparr>cr_snapshot = None, cr_outcome = CompleteNoGoal, cr_failure = None, cr_verification = None\<rparr>
      in case gm_state m of None \<Rightarrow> (no, m)
     | Some s \<Rightarrow> if gs_status s \<noteq> GoalActive then (no, m)
         else let n = wrap64 (gs_failures s + 1);
                  s1 = s\<lparr>gs_failures := n\<rparr>;
                  f1 = f\<lparr>vf_streak := n\<rparr>;
                  m1 = track (TGoalVerifyFailed (vf_kind f) n) (m\<lparr>gm_state := Some s1\<rparr>);
                  r = (\<lambda>sn f. \<lparr>cr_snapshot = sn, cr_outcome = CompleteVerifyFailed,
                        cr_failure = Some f, cr_verification = None\<rparr>)
              in if gm_maxFailures m > 0 \<and> n \<ge> gm_maxFailures m
                 then (let (sn, m2) = markBlockedLocked t t'
                         \<lparr>ri_reason = Some (EscalationReason n), ri_expectation = Some EscalationExpectation\<rparr>
                         ActorSystem m1
                       in (r sn (f1\<lparr>vf_escalated := True\<rparr>), track (TGoalAutoBlocked (EscalationReason n)) m2))
                 else (r (Some (toSnapshot s1 t')) f1, m1))"

text \<open>
  \<open>RequestComplete\<close> when no other command runs during the verification. The decision only asks
  for a command when a verifier is wired. The clock readings are \<open>t\<close> and \<open>t'\<close> before, \<open>u\<close> and
  \<open>u'\<close> after the verification.
\<close>

definition RequestComplete :: "ms \<Rightarrow> ms \<Rightarrow> ms \<Rightarrow> ms \<Rightarrow> reason_input \<Rightarrow> goal_actor \<Rightarrow> goal_mode
    \<Rightarrow> (goal_err + complete_result) \<times> goal_mode" where
  "RequestComplete t t' u u' i a m =
     (let (d, m1) = beginCompletion t t' i a m;
          plain = (\<lambda>sn oc. \<lparr>cr_snapshot = sn, cr_outcome = oc, cr_failure = None, cr_verification = None\<rparr>)
      in case d of
        DErr e \<Rightarrow> (Inl e, m1)
      | DClosed sn \<Rightarrow> (Inr (plain sn CompleteClosed), m1)
      | DOutcome oc sn \<Rightarrow> (Inr (plain sn oc), m1)
      | DVerify cmd judge ji \<Rightarrow>
          let (fl, ev, tl) = runVerification (case gm_verifier m1 of Some v \<Rightarrow> v
                | None \<Rightarrow> (\<lambda>_. \<lparr>vo_output = [], vo_ok = False, vo_duration = 0, vo_timeout = 0\<rparr>)) cmd judge ji;
              m2 = (case tl of None \<Rightarrow> m1 | Some e \<Rightarrow> track e m1);
              (r, m3) = (case fl of None \<Rightarrow> finishCompletion u u' i a m2
                | Some f \<Rightarrow> failCompletion u u' f m2)
          in (Inr (r\<lparr>cr_verification := ev\<rparr>), m3))"

definition RunVerifyCommand :: "goal_mode \<Rightarrow> string + (string \<times> bool)" where
  "RunVerifyCommand m = (case gm_state m of None \<Rightarrow> Inl ''no current goal''
     | Some s \<Rightarrow> (case gs_verify s of None \<Rightarrow> Inl ''no verify command recorded for this goal''
         | Some c \<Rightarrow> (case gm_verifier m of None \<Rightarrow> Inl ''command verification is disabled''
             | Some v \<Rightarrow> if \<not> gm_verifyEnabled m then Inl ''command verification is disabled''
                 else Inr (vo_output (v c), vo_ok (v c)))))"

section \<open>What the gate demands\<close>

definition gated :: "goal_mode \<Rightarrow> goal_actor \<Rightarrow> goal_stage \<Rightarrow> bool" where
  "gated m a s \<longleftrightarrow> gm_state m = Some s \<and> gs_status s = GoalActive \<and> gateApplies m s a"

text \<open>The verification a gated completion must survive.\<close>

definition command_passes :: "goal_mode \<Rightarrow> goal_stage \<Rightarrow> bool" where
  "command_passes m s \<longleftrightarrow> (\<forall>v c. gm_verifyEnabled m \<longrightarrow> gm_verifier m = Some v \<longrightarrow> gs_verify s = Some c \<longrightarrow> vo_ok (v c))"

definition judge_accepts :: "goal_mode \<Rightarrow> goal_stage \<Rightarrow> reason_input \<Rightarrow> bool" where
  "judge_accepts m s i \<longleftrightarrow> (\<forall>j why. gm_judge m = Some j \<longrightarrow>
     j \<lparr>ju_objective = gs_objective s, ju_criterion = the (gs_criterion s),
        ju_evidence = trim_space (the (ri_reason i))\<rparr> \<noteq> Inr (False, why))"

lemma runVerification_passes:
  "fst (runVerification v cmd judge ji) = None \<longleftrightarrow>
   (\<forall>c. cmd = Some c \<longrightarrow> vo_ok (v c)) \<and> (\<forall>j why. judge = Some j \<longrightarrow> j ji \<noteq> Inr (False, why))"
  by (cases cmd; cases judge) (auto simp: runVerification_def Let_def split: sum.split prod.split)

lemma failCompletion_outcome: "failCompletion t t' f m = (r, m') \<Longrightarrow> cr_outcome r \<noteq> CompleteClosed"
  by (auto simp: failCompletion_def Let_def split: option.splits prod.splits if_splits)


definition no_limits :: budget_limits where
  "no_limits = \<lparr>bl_tokens = None, bl_turns = None, bl_wall = None\<rparr>"

definition demo_stage :: goal_stage where
  "demo_stage = \<lparr>gs_goalID = ''goal-1'', gs_name = ''happy.fox'', gs_managedBy = [],
     gs_kind = KindStandard, gs_objective = ''ship'', gs_criterion = Some ''tests pass'',
     gs_verify = Some ''make test'', gs_fresh = False, gs_team = [], gs_pauseAfter = False,
     gs_handoff = None, gs_todos = [], gs_status = GoalActive, gs_turns = 0, gs_tokens = 0,
     gs_wall = 0, gs_resumedAt = Some 10, gs_limits = no_limits, gs_reason = None,
     gs_expectation = None, gs_pending = True, gs_failures = 0, gs_updatedAt = 10\<rparr>"

definition demo_verifier :: "string \<Rightarrow> verify_outcome" where
  "demo_verifier c = \<lparr>vo_output = ''ok'', vo_ok = (c = ''make test''), vo_duration = 5, vo_timeout = 60\<rparr>"

definition demo_mode :: goal_mode where
  "demo_mode = (NewGoalMode (Some []) None)\<lparr>gm_state := Some demo_stage, gm_verifier := Some demo_verifier\<rparr>"

definition demo_evidence :: reason_input where
  "demo_evidence = \<lparr>ri_reason = Some ''x'', ri_expectation = None\<rparr>"

lemmas demo_goal_defs = demo_mode_def demo_stage_def demo_verifier_def NewGoalMode_def
  demo_evidence_def no_limits_def

lemma trim_x: "trim_space ''x'' = ''x''"
  by (simp add: trim_space_def trim_right_def trim_left.simps trim_left_rev.simps space_at_def
      space_before_def spaces_def ascii_spaces_def unicode_spaces_def bytes_def has_prefix_def eq_char_of)


section \<open>The unlocked window\<close>

text \<open>While a verification runs without the lock, a goal that replaces the verified one is closed
  in its place: only the status of the current goal is checked again, not its identity.\<close>

theorem verification_closes_other_goal:
  assumes "fst (beginCompletion t t' i a m) = DVerify cmd judge ji"
    and "CreateGoal u u' gid gen inp b m = (Inr sn, m')"
  shows "\<exists>sn'. cr_outcome (fst (finishCompletion v v' i a m')) = CompleteClosed \<and>
    cr_snapshot (fst (finishCompletion v v' i a m')) = Some sn' \<and> sn_goalID sn' = gid \<and>
    sn_status sn' = GoalDone \<and> gm_state (snd (finishCompletion v v' i a m')) = None"
proof -
  from assms(2) obtain h where "gm_state m' = Some ((new_stage u gid gen inp b h (gm_defaultTurns m))\<lparr>gs_updatedAt := u'\<rparr>)"
    by (auto simp: CreateGoal_def Let_def split: if_splits option.splits)
  then show ?thesis
    by (simp add: finishCompletion_def markCompleteLocked_def with_active_def Let_def new_stage_def)
qed

definition demo_input :: create_input where
  "demo_input = \<lparr>ci_objective = ''x'', ci_name = [], ci_managedBy = [], ci_criterion = None,
     ci_verify = None, ci_replace = True, ci_fresh = False, ci_team = [], ci_handoff = None,
     ci_kind = KindStandard\<rparr>"

theorem verification_closes_other_goal_witness:
  "\<exists>sn m' sn'. CreateGoal 40 41 ''goal-2'' ''calm.owl'' demo_input ActorUser demo_mode = (Inr sn, m') \<and>
    cr_snapshot (fst (finishCompletion 50 51 demo_evidence ActorModel m')) = Some sn' \<and> sn_goalID sn' = ''goal-2''"
proof -
  obtain cmd judge ji where b: "fst (beginCompletion 20 21 demo_evidence ActorModel demo_mode) = DVerify cmd judge ji"
    by (simp add: beginCompletion_def gateApplies_def demo_goal_defs countIncompleteTodos_def blank_def trim_x)
  obtain sn m' where c: "CreateGoal 40 41 ''goal-2'' ''calm.owl'' demo_input ActorUser demo_mode = (Inr sn, m')"
    by (simp add: CreateGoal_def demo_input_def trim_x NormalizeHandover_def Let_def demo_goal_defs)
  from verification_closes_other_goal [OF b c, of 50 51] c show ?thesis by blast
qed

end
