(* ===== verification/Goal_Replay.thy ===== *)
theory Goal_Replay
  imports Goal_Gate
begin

text \<open>
  The goal engine as an event-sourced component. The commands of a session include the locked
  parts of a completion request as separate steps, so every interleaving with other commands is
  a session; the settings do not change within one. \<open>goal_rel\<close> relates the goal in memory to
  the goal its log rebuilds: the in-memory verification state and the running wall-clock
  interval are not logged.
\<close>

section \<open>Commands\<close>

datatype goal_op =
    GCreate string string create_input goal_actor
  | GPause reason_input goal_actor
  | GPauseActive reason_input goal_actor
  | GResume reason_input goal_actor
  | GCancel goal_actor
  | GCancelID string goal_actor
  | GBlocked reason_input goal_actor
  | GComplete reason_input goal_actor
  | GCleanup int
  | GAddTodo string goal_actor
  | GUpdateTodo string string goal_actor
  | GRenameTodo string string goal_actor
  | GRemoveTodo string goal_actor
  | GTokens int
  | GTurn
  | GPauseAfter bool goal_actor
  | GBudget budget_limits goal_actor
  | GNotify
  | GBegin reason_input goal_actor
  | GFinish reason_input goal_actor
  | GFail verify_failure

type_synonym goal_cmd = "ms \<times> ms \<times> goal_op"

fun goal_exec :: "goal_cmd \<Rightarrow> goal_mode \<Rightarrow> goal_mode" where
  "goal_exec (t, t', GCreate gid gen i a) m = snd (CreateGoal t t' gid gen i a m)"
| "goal_exec (t, t', GPause i a) m = snd (PauseGoal t t' i a m)"
| "goal_exec (t, t', GPauseActive i a) m = snd (PauseActiveGoal t t' i a m)"
| "goal_exec (t, t', GResume i a) m = snd (ResumeGoal t t' i a m)"
| "goal_exec (t, t', GCancel a) m = snd (CancelGoal t a m)"
| "goal_exec (t, t', GCancelID i a) m = snd (CancelGoalByID t i a m)"
| "goal_exec (t, t', GBlocked i a) m = snd (MarkBlocked t t' i a m)"
| "goal_exec (t, t', GComplete i a) m = snd (MarkComplete t t' i a m)"
| "goal_exec (t, t', GCleanup n) m = CleanupExpired t n m"
| "goal_exec (t, t', GAddTodo s a) m = snd (AddGoalTodo t s a m)"
| "goal_exec (t, t', GUpdateTodo i s a) m = snd (UpdateGoalTodo t i s a m)"
| "goal_exec (t, t', GRenameTodo i s a) m = snd (RenameGoalTodo t i s a m)"
| "goal_exec (t, t', GRemoveTodo i a) m = snd (RemoveGoalTodo t i a m)"
| "goal_exec (t, t', GTokens d) m = snd (RecordTokenUsage t d m)"
| "goal_exec (t, t', GTurn) m = snd (IncrementTurn t m)"
| "goal_exec (t, t', GPauseAfter b a) m = snd (SetPauseAfterComplete t b a m)"
| "goal_exec (t, t', GBudget l a) m = snd (SetBudgetLimits t l a m)"
| "goal_exec (t, t', GNotify) m = NotifyGoalChanged t m"
| "goal_exec (t, t', GBegin i a) m = snd (beginCompletion t t' i a m)"
| "goal_exec (t, t', GFinish i a) m = snd (finishCompletion t t' i a m)"
| "goal_exec (t, t', GFail f) m = snd (failCompletion t t' f m)"

definition goal_log :: "goal_mode \<Rightarrow> goal_event list" where
  "goal_log m = (case gm_log m of None \<Rightarrow> [] | Some l \<Rightarrow> l)"

definition goal_step :: "goal_cmd \<Rightarrow> goal_mode \<Rightarrow> goal_mode \<times> goal_event list" where
  "goal_step c m = (let m' = goal_exec c m in (m', drop (length (goal_log m)) (goal_log m')))"

lemmas goal_ops = PauseGoal_def PauseActiveGoal_def ResumeGoal_def CancelGoal_def
  cancelGoalLocked_def CancelGoalByID_def MarkBlocked_def markBlockedLocked_def MarkComplete_def
  markCompleteLocked_def CleanupExpired_def AddGoalTodo_def UpdateGoalTodo_def
  RenameGoalTodo_def RemoveGoalTodo_def RecordTokenUsage_def IncrementTurn_def
  SetPauseAfterComplete_def SetBudgetLimits_def NotifyGoalChanged_def beginCompletion_def
  finishCompletion_def failCompletion_def with_goal_def with_active_def edit_todo_def
  persistTodosLocked_def change_status_def

section \<open>The goal in memory and the goal in the log\<close>

definition same_goal :: "goal_stage \<Rightarrow> goal_stage \<Rightarrow> bool" where
  "same_goal s r \<longleftrightarrow> gs_goalID r = gs_goalID s \<and> gs_name r = gs_name s \<and>
     gs_managedBy r = gs_managedBy s \<and> gs_kind r = gs_kind s \<and> gs_objective r = gs_objective s \<and>
     gs_criterion r = gs_criterion s \<and> gs_verify r = gs_verify s \<and> gs_fresh r = gs_fresh s \<and>
     gs_team r = gs_team s \<and> gs_pauseAfter r = gs_pauseAfter s \<and> gs_handoff r = gs_handoff s \<and>
     gs_todos r = gs_todos s \<and> gs_status r = gs_status s \<and> gs_turns r = gs_turns s \<and>
     gs_tokens r = gs_tokens s \<and> gs_limits r = gs_limits s \<and> gs_reason r = gs_reason s \<and>
     gs_expectation r = gs_expectation s \<and> (gs_status s \<noteq> GoalActive \<longrightarrow> gs_wall r = gs_wall s)"

definition goal_rel :: "goal_mode \<Rightarrow> goal_stage option \<Rightarrow> bool" where
  "goal_rel m so \<longleftrightarrow> (case gm_state m of None \<Rightarrow> so = None
     | Some s \<Rightarrow> (\<exists>r. so = Some r \<and> same_goal s r))"

definition goal_inv :: "goal_mode \<Rightarrow> bool" where
  "goal_inv m \<longleftrightarrow> gm_log m \<noteq> None \<and> gm_defaultTurns m \<le> 0 \<and>
     (\<forall>s. gm_state m = Some s \<longrightarrow> gs_status s \<noteq> GoalDone)"

text \<open>Removing the only todo writes an empty list, which the log does not hold.\<close>

fun goal_ok :: "goal_cmd \<Rightarrow> goal_mode \<Rightarrow> bool" where
  "goal_ok (t, t', GRemoveTodo i a) m \<longleftrightarrow> (\<forall>s. gm_state m = Some s \<longrightarrow> length (gs_todos s) \<noteq> 1)"
| "goal_ok (t, t', oper) m \<longleftrightarrow> True"

text \<open>One command appends records that take the rebuilt goal to the new one.\<close>

definition transfers :: "goal_mode \<Rightarrow> goal_mode \<Rightarrow> bool" where
  "transfers m m' \<longleftrightarrow> (\<forall>so. goal_rel m so \<longrightarrow> (\<exists>es. gm_log m' = add_records es (gm_log m) \<and>
     goal_rel m' (fold restore_record es so)))"

lemma transfersI:
  assumes "gm_log m' = add_records es (gm_log m)"
    and "\<And>so. goal_rel m so \<Longrightarrow> goal_rel m' (fold restore_record es so)"
  shows "transfers m m'"
  using assms by (auto simp: transfers_def)

lemma transfers_refl [simp]: "transfers m m"
  by (rule transfersI [of _ "[]"]) simp_all

lemma transfers_same: "gm_log m' = gm_log m \<Longrightarrow> (\<And>so. goal_rel m so \<Longrightarrow> goal_rel m' so) \<Longrightarrow> transfers m m'"
  by (rule transfersI [of _ "[]"]) simp_all

lemma transfers_trans:
  assumes "transfers m m1" "transfers m1 m2"
  shows "transfers m m2"
  unfolding transfers_def
proof (intro allI impI)
  fix so assume "goal_rel m so"
  with assms(1) obtain es where es: "gm_log m1 = add_records es (gm_log m)"
    "goal_rel m1 (fold restore_record es so)" unfolding transfers_def by blast
  with assms(2) obtain fs where fs: "gm_log m2 = add_records fs (gm_log m1)"
    "goal_rel m2 (fold restore_record fs (fold restore_record es so))" unfolding transfers_def by blast
  have "gm_log m2 = add_records (es @ fs) (gm_log m) \<and> goal_rel m2 (fold restore_record (es @ fs) so)"
    using es(1) fs by simp
  then show "\<exists>es. gm_log m2 = add_records es (gm_log m) \<and> goal_rel m2 (fold restore_record es so)" by blast
qed

text \<open>A single record on top of a change of the goal in memory.\<close>

lemma transfers_update:
  assumes "gm_state m = Some s" "gm_log m' = add_records [r] (gm_log m)" "gm_state m' = Some s'"
    and "ge_type r = GoalEventUpdate"
    and "\<And>x. same_goal s x \<Longrightarrow> same_goal s' (restore_update r x)"
  shows "transfers m m'"
proof (rule transfersI [OF assms(2)])
  fix so assume "goal_rel m so"
  then obtain x where "so = Some x" "same_goal s x" using assms(1) by (auto simp: goal_rel_def)
  with assms(3-5) show "goal_rel m' (fold restore_record [r] so)"
    by (simp add: goal_rel_def restore_record_def RestoreUpdate_def)
qed

lemma clear_log:
  "gm_log (clearInternal t a em tk ch m) =
   (if gm_state m = None then gm_log m else add_records [goal_record GoalEventClear t] (gm_log m))"
  by (simp add: clearInternal_def Let_def)

lemma transfers_clear: "transfers m (clearInternal t a em tk ch m)"
proof (rule transfersI)
  show "gm_log (clearInternal t a em tk ch m) =
      add_records (if gm_state m = None then [] else [goal_record GoalEventClear t]) (gm_log m)"
    by (simp add: clear_log)
qed (auto simp: goal_rel_def restore_record_def)

lemma appendStatus_log:
  "gm_log (appendStatusUpdate t s a i m) = add_records [(goal_record GoalEventUpdate t)
     \<lparr>ge_status := Some (gs_status s), ge_reason := ri_reason i, ge_expectation := ri_expectation i,
      ge_actor := Some a, ge_wall := Some (LiveWallClockMs s t)\<rparr>] (gm_log m)"
  by (simp add: appendStatusUpdate_def Let_def)

lemmas restore_simps = same_goal_def Let_def

lemma live_inactive: "gs_status s \<noteq> GoalActive \<Longrightarrow> LiveWallClockMs s t = gs_wall s"
  by (simp add: LiveWallClockMs_def split: option.split)

lemma live_simps [simp]:
  "LiveWallClockMs (s\<lparr>gs_updatedAt := u\<rparr>) t = LiveWallClockMs s t"
  "LiveWallClockMs (s\<lparr>gs_reason := r\<rparr>) t = LiveWallClockMs s t"
  "LiveWallClockMs (s\<lparr>gs_expectation := r\<rparr>) t = LiveWallClockMs s t"
  by (simp_all add: LiveWallClockMs_def split: option.split)

lemma change_status_transfers:
  assumes "gm_state m = Some s" "st \<noteq> GoalActive"
  shows "transfers m (snd (change_status t t' st i a s m))"
  by (rule transfers_update [OF assms(1)])
     (use assms(2) in \<open>auto simp: change_status_def appendStatus_log restore_simps live_inactive\<close>)

lemma resume_transfers:
  assumes "gm_state m = Some s"
  shows "transfers m (snd (ResumeGoal t t' i a m))"
proof (cases "gs_status s = GoalPaused \<or> gs_status s = GoalBlocked")
  case True
  then have "gs_status s \<noteq> GoalActive" by auto
  with True show ?thesis
    by (intro transfers_update [OF assms])
       (use assms in \<open>auto simp: ResumeGoal_def with_goal_def appendStatus_log restore_simps\<close>)
next
  case False
  with assms show ?thesis by (auto simp: ResumeGoal_def with_goal_def)
qed

lemma complete_transfers:
  assumes "gm_state m = Some s" "gs_status s = GoalActive"
  shows "transfers m (snd (markCompleteLocked t t' i a m))"
proof -
  let ?s = "(applyStatus t GoalDone s)\<lparr>gs_reason := ri_reason i\<rparr>"
  let ?m = "appendStatusUpdate t' ?s a i (m\<lparr>gm_state := Some ?s\<rparr>)"
  have "gm_log (snd (markCompleteLocked t t' i a m)) =
      add_records [goal_record GoalEventClear t'] (gm_log ?m)"
    using assms by (simp add: markCompleteLocked_def with_active_def Let_def clear_log)
  then have log: "gm_log (snd (markCompleteLocked t t' i a m)) =
      add_records ([(goal_record GoalEventUpdate t') \<lparr>ge_status := Some GoalDone,
        ge_reason := ri_reason i, ge_expectation := ri_expectation i, ge_actor := Some a,
        ge_wall := Some (LiveWallClockMs ?s t')\<rparr>] @ [goal_record GoalEventClear t']) (gm_log m)"
    by (simp add: appendStatus_log)
  have st: "gm_state (snd (markCompleteLocked t t' i a m)) = None"
    using assms by (simp add: markCompleteLocked_def with_active_def Let_def)
  show ?thesis
    by (rule transfersI [OF log]) (simp add: goal_rel_def st restore_record_def)
qed

lemma create_transfers:
  assumes "gm_defaultTurns m \<le> 0"
  shows "transfers m (snd (CreateGoal t t' gid gen i a m))"
proof (cases "trim_space (ci_objective i) = [] \<or> gm_state m \<noteq> None \<and> \<not> ci_replace i")
  case True
  then show ?thesis by (auto simp: CreateGoal_def)
next
  case False
  let ?m1 = "clearInternal t ActorSystem True True None m"
  show ?thesis
  proof (cases "NormalizeHandover (ci_handoff i)")
    case None
    with False show ?thesis by (auto simp: CreateGoal_def Let_def intro: transfers_clear)
  next
    case (Some h)
    let ?s = "new_stage t gid gen i a h (gm_defaultTurns m)"
    let ?m2 = "snd (CreateGoal t t' gid gen i a m)"
    from False Some have log: "gm_log ?m2 = add_records [create_record t ?s] (gm_log ?m1)"
      and st: "gm_state ?m2 = Some (?s\<lparr>gs_updatedAt := t'\<rparr>)"
      by (auto simp: CreateGoal_def Let_def)
    have h: "NormalizeOptionalText h = h" using NormalizeHandover_Some [OF Some] by simp
    have "same_goal (?s\<lparr>gs_updatedAt := t'\<rparr>) (the (RestoreCreate (create_record t ?s) so))" for so
      using assms h by (simp add: same_goal_def RestoreCreate_def create_record_def new_stage_def
          create_kind_def)
    then have "transfers ?m1 ?m2"
      by (intro transfersI [OF log])
         (simp add: goal_rel_def st restore_record_def create_record_def RestoreCreate_def)
    with transfers_clear show ?thesis by (rule transfers_trans)
  qed
qed

text \<open>Writing the todo list back: the record holds it unless it is empty.\<close>

lemma todos_transfers:
  assumes "gm_state m = Some s" "ts \<noteq> []"
  shows "transfers m (persistTodosLocked t (s\<lparr>gs_todos := ts\<rparr>) a m)"
    and "transfers m (persistTodosLocked t (s\<lparr>gs_todos := ts, gs_updatedAt := u\<rparr>) a m)"
  by (rule transfers_update [OF assms(1)],
      use assms(2) in \<open>auto simp: persistTodosLocked_def restore_simps\<close>)+

lemma update_first_empty [simp]: "update_first P f xs = [] \<longleftrightarrow> xs = []"
  by (cases xs) auto

lemma remove_first_empty: "remove_first P xs = [] \<Longrightarrow> xs \<noteq> [] \<Longrightarrow> length xs = 1"
  by (cases xs) (auto split: if_splits)

lemma edit_todo_transfers:
  assumes "gm_state m = Some s" "gs_todos s \<noteq> [] \<Longrightarrow> f (gs_todos s) \<noteq> []"
  shows "transfers m (snd (edit_todo t i f a s m))"
proof (cases "i \<in> td_id ` set (gs_todos s)")
  case True
  then have "gs_todos s \<noteq> []" by auto
  with True todos_transfers(2) [OF assms(1) assms(2)] show ?thesis
    by (auto simp: edit_todo_def Let_def)
qed (simp add: edit_todo_def)

lemma cancel_transfers:
  assumes "gm_state m = Some s"
  shows "transfers m (snd (cancelGoalLocked t a m))"
proof -
  let ?m = "clearInternal t a True True (Some \<lparr>ch_kind = ChangeClear, ch_status = None,
    ch_reason = None, ch_expectation = None, ch_actor = Some a, ch_stats = None\<rparr>) m"
  have "transfers ?m (snd (cancelGoalLocked t a m))"
    using assms by (auto intro!: transfers_same simp: cancelGoalLocked_def with_goal_def Let_def goal_rel_def)
  with transfers_clear show ?thesis by (rule transfers_trans)
qed

lemma same_goal_gate [simp]:
  "same_goal (s\<lparr>gs_pending := b\<rparr>) r = same_goal s r" "same_goal (s\<lparr>gs_failures := n\<rparr>) r = same_goal s r"
  by (simp_all add: same_goal_def)

lemma transfers_gate:
  assumes "gm_state m = Some s" "gm_state m' = Some s'" "gm_log m' = gm_log m"
    and "\<And>r. same_goal s' r = same_goal s r"
  shows "transfers m m'"
  by (rule transfers_same) (use assms in \<open>auto simp: goal_rel_def\<close>)

lemma begin_transfers:
  assumes "gm_state m = Some s"
  shows "transfers m (snd (beginCompletion t t' i a m))"
proof -
  have "transfers m (track e (m\<lparr>gm_state := Some (s\<lparr>gs_pending := True\<rparr>)\<rparr>))" for e
    by (rule transfers_gate [OF assms, where s' = "s\<lparr>gs_pending := True\<rparr>"]) simp_all
  moreover have "gs_status s = GoalActive \<Longrightarrow> transfers m (snd (markCompleteLocked t t' i a m))"
    by (rule complete_transfers [OF assms])
  ultimately show ?thesis
    using assms by (auto simp: beginCompletion_def Let_def case_prod_beta)
qed

lemma fail_transfers:
  assumes "gm_state m = Some s"
  shows "transfers m (snd (failCompletion t t' f m))"
proof (cases "gs_status s = GoalActive")
  case True
  let ?s = "s\<lparr>gs_failures := wrap64 (gs_failures s + 1)\<rparr>"
  let ?m = "track (TGoalVerifyFailed (vf_kind f) (wrap64 (gs_failures s + 1))) (m\<lparr>gm_state := Some ?s\<rparr>)"
  have "transfers m ?m" by (rule transfers_gate [OF assms, where s' = ?s]) simp_all
  have blk: "transfers ?m (snd (markBlockedLocked t t' i ActorSystem ?m))" for i
    using change_status_transfers [of ?m ?s GoalBlocked t t' i ActorSystem] True
    by (auto simp: markBlockedLocked_def with_active_def split: prod.split)
  have "transfers ?m (track e (snd (markBlockedLocked t t' i ActorSystem ?m)))" for e i
    by (rule transfers_trans [OF blk]) (rule transfers_same, simp_all add: goal_rel_def)
  from transfers_trans [OF \<open>transfers m ?m\<close> this]
  have "transfers m (track e (snd (markBlockedLocked t t' i ActorSystem ?m)))" for e i .
  with \<open>transfers m ?m\<close> show ?thesis
    using assms True by (simp add: failCompletion_def Let_def case_prod_beta)
qed (use assms in \<open>simp add: failCompletion_def\<close>)

lemma goal_exec_transfers:
  assumes "goal_inv m" "goal_ok (t, t', oper) m"
  shows "transfers m (goal_exec (t, t', oper) m)"
proof (cases "gm_state m")
  case None
  from assms(1) have dt: "gm_defaultTurns m \<le> 0" by (simp add: goal_inv_def)
  show ?thesis
  proof (cases oper)
    case (GCreate a b c d)
    with create_transfers [OF dt] show ?thesis by simp
  next
    case GNotify
    then show ?thesis
      using None by (auto intro!: transfers_same simp: NotifyGoalChanged_def goal_rel_def)
  qed (use None in \<open>simp_all add: goal_ops Let_def\<close>)
next
  case (Some s)
  from assms(1) have dt: "gm_defaultTurns m \<le> 0" by (simp add: goal_inv_def)
  note upd = transfers_update [OF Some]
  show ?thesis
  proof (cases oper)
    case (GCreate a b c d)
    with create_transfers [OF dt] show ?thesis by simp
  next
    case GNotify
    then show ?thesis by (auto intro!: transfers_same simp: NotifyGoalChanged_def goal_rel_def)
  next
    case (GResume i a)
    with resume_transfers [OF Some] show ?thesis by simp
  next
    case (GComplete i a)
    with complete_transfers [OF Some] Some show ?thesis
      by (auto simp: MarkComplete_def markCompleteLocked_def with_active_def)
  next
    case (GAddTodo x a)
    with todos_transfers(1) [OF Some] Some show ?thesis
      by (auto simp: AddGoalTodo_def with_goal_def Let_def)
  next
    case (GUpdateTodo i x a)
    with edit_todo_transfers [OF Some] Some show ?thesis by (auto simp: UpdateGoalTodo_def with_goal_def)
  next
    case (GRenameTodo i x a)
    with edit_todo_transfers [OF Some] Some show ?thesis
      by (auto simp: RenameGoalTodo_def with_goal_def Let_def)
  next
    case (GRemoveTodo i a)
    with assms(2) Some have "length (gs_todos s) \<noteq> 1" by simp
    then have "gs_todos s \<noteq> [] \<Longrightarrow> remove_first (\<lambda>td. td_id td = i) (gs_todos s) \<noteq> []"
      using remove_first_empty by blast
    then have "transfers m (snd (edit_todo t i (remove_first (\<lambda>td. td_id td = i)) a s m))"
      by (intro edit_todo_transfers [OF Some])
    with GRemoveTodo Some show ?thesis by (simp add: RemoveGoalTodo_def with_goal_def)
  next
    case (GTokens d)
    show ?thesis
    proof (cases "gs_status s = GoalActive")
      case True
      with GTokens Some show ?thesis
        by (intro upd) (auto simp: RecordTokenUsage_def with_active_def restore_simps)
    qed (use GTokens Some in \<open>simp add: RecordTokenUsage_def with_active_def\<close>)
  next
    case GTurn
    show ?thesis
    proof (cases "gs_status s = GoalActive")
      case True
      with GTurn Some show ?thesis
        by (intro upd) (auto simp: IncrementTurn_def with_active_def restore_simps)
    qed (use GTurn Some in \<open>simp add: IncrementTurn_def with_active_def\<close>)
  next
    case (GPauseAfter b a)
    with Some show ?thesis
      by (intro upd) (auto simp: SetPauseAfterComplete_def with_goal_def restore_simps)
  next
    case (GBudget l a)
    with Some show ?thesis
      by (intro upd) (auto simp: SetBudgetLimits_def with_goal_def restore_simps)
  next
    case (GPause i a)
    with Some change_status_transfers [OF Some] show ?thesis
      by (auto simp: PauseGoal_def with_goal_def case_prod_beta)
  next
    case (GPauseActive i a)
    with Some change_status_transfers [OF Some] show ?thesis
      by (auto simp: PauseActiveGoal_def with_active_def case_prod_beta)
  next
    case (GBlocked i a)
    with Some change_status_transfers [OF Some] show ?thesis
      by (auto simp: MarkBlocked_def markBlockedLocked_def with_active_def case_prod_beta)
  next
    case (GCancel a)
    with Some show ?thesis by (auto simp: CancelGoal_def cancel_transfers [OF Some])
  next
    case (GCancelID i a)
    with Some show ?thesis by (auto simp: CancelGoalByID_def with_goal_def cancel_transfers [OF Some])
  next
    case (GCleanup n)
    with Some show ?thesis by (auto simp: CleanupExpired_def intro: transfers_clear)
  next
    case (GBegin i a)
    with begin_transfers [OF Some] show ?thesis by simp
  next
    case (GFinish i a)
    with complete_transfers [OF Some] Some show ?thesis
      by (auto simp: finishCompletion_def Let_def case_prod_beta)
  next
    case (GFail f)
    with fail_transfers [OF Some] show ?thesis by simp
  qed
qed

end
