(* ===== verification/Goal_Properties.thy ===== *)
theory Goal_Properties
  imports Goal_Replay
begin

text \<open>
  What the goal engine promises over whole sessions: the invariant of the current goal, that
  replaying the log restores it, who may create investigations, and the places where the code
  does not keep its word.
\<close>

section \<open>The invariant of the current goal\<close>

definition stage_ok :: "int \<Rightarrow> goal_stage \<Rightarrow> bool" where
  "stage_ok mx s \<longleftrightarrow> gs_status s \<noteq> GoalDone \<and>
     (gs_status s \<noteq> GoalActive \<longrightarrow> \<not> gs_pending s \<and> gs_failures s = 0 \<and> gs_resumedAt s = None) \<and>
     (0 < mx \<longrightarrow> 0 \<le> gs_failures s \<and> gs_failures s < mx) \<and>
     (\<forall>h. gs_handoff s = Some h \<longrightarrow> length h \<le> MaxHandoverLength) \<and>
     gs_objective s \<noteq> [] \<and> distinct (map td_id (gs_todos s))"

definition mode_ok :: "goal_mode \<Rightarrow> bool" where
  "mode_ok m \<longleftrightarrow> (\<forall>s. gm_state m = Some s \<longrightarrow> stage_ok (gm_maxFailures m) s)"

lemma mode_okI: "gm_state m = None \<Longrightarrow> mode_ok m"
  "gm_state m = Some s \<Longrightarrow> stage_ok (gm_maxFailures m) s \<Longrightarrow> mode_ok m"
  by (simp_all add: mode_ok_def)

lemma stage_ok_frame [simp]:
  "stage_ok mx (s\<lparr>gs_updatedAt := u\<rparr>) = stage_ok mx s" "stage_ok mx (s\<lparr>gs_reason := r\<rparr>) = stage_ok mx s"
  "stage_ok mx (s\<lparr>gs_expectation := r\<rparr>) = stage_ok mx s" "stage_ok mx (s\<lparr>gs_tokens := n\<rparr>) = stage_ok mx s"
  "stage_ok mx (s\<lparr>gs_turns := n\<rparr>) = stage_ok mx s" "stage_ok mx (s\<lparr>gs_limits := l\<rparr>) = stage_ok mx s"
  "stage_ok mx (s\<lparr>gs_pauseAfter := b\<rparr>) = stage_ok mx s"
  by (simp_all add: stage_ok_def)

lemma stage_ok_status: "stage_ok mx s \<Longrightarrow> st \<noteq> GoalDone \<Longrightarrow> stage_ok mx (applyStatus t st s)"
  by (auto simp: stage_ok_def)

lemma stage_ok_todos:
  "stage_ok mx s \<Longrightarrow> distinct (map td_id ts) \<Longrightarrow> stage_ok mx (s\<lparr>gs_todos := ts\<rparr>)"
  by (auto simp: stage_ok_def)

lemma persist_todos_ok:
  "stage_ok (gm_maxFailures m) s \<Longrightarrow> distinct (map td_id (gs_todos s)) \<Longrightarrow> mode_ok (persistTodosLocked t s a m)"
  by (rule mode_okI(2) [of _ "s\<lparr>gs_updatedAt := t\<rparr>"]) (simp_all add: persistTodosLocked_def)

lemma edit_todo_ok:
  assumes "gm_state m = Some s" "stage_ok (gm_maxFailures m) s" "distinct (map td_id (f (gs_todos s)))"
  shows "mode_ok (snd (edit_todo t i f a s m))"
proof (cases "i \<in> td_id ` set (gs_todos s)")
  case True
  have "stage_ok (gm_maxFailures m) (s\<lparr>gs_todos := f (gs_todos s), gs_updatedAt := t\<rparr>)"
    using stage_ok_todos [OF assms(2,3)] by simp
  with True assms(3) show ?thesis by (simp add: edit_todo_def Let_def persist_todos_ok)
next
  case False
  with assms show ?thesis by (simp add: edit_todo_def mode_ok_def)
qed

lemma change_status_ok:
  assumes "stage_ok (gm_maxFailures m) s" "st \<noteq> GoalDone"
  shows "mode_ok (snd (change_status t t' st i a s m))"
proof -
  have "stage_ok (gm_maxFailures m) ((applyStatus t st s)\<lparr>gs_reason := ri_reason i,
      gs_expectation := ri_expectation i, gs_updatedAt := t'\<rparr>)"
    using stage_ok_status [OF assms] by simp
  then show ?thesis by (simp add: mode_ok_def change_status_def Let_def)
qed

lemma change_status_config [simp]:
  "gm_maxFailures (snd (change_status t t' st i a s m)) = gm_maxFailures m"
  "gm_defaultTurns (snd (change_status t t' st i a s m)) = gm_defaultTurns m"
  by (simp_all add: change_status_def Let_def)

lemma CreateGoal_ok:
  assumes "mode_ok m"
  shows "mode_ok (snd (CreateGoal t t' gid gen i a m))"
proof (cases "trim_space (ci_objective i) = [] \<or> gm_state m \<noteq> None \<and> \<not> ci_replace i \<or>
    NormalizeHandover (ci_handoff i) = None")
  case True
  with assms show ?thesis by (auto simp: CreateGoal_def Let_def mode_ok_def)
next
  case False
  then obtain h where h: "NormalizeHandover (ci_handoff i) = Some h" by auto
  have "0 < mx \<Longrightarrow> stage_ok mx (new_stage t gid gen i a h d)" "mx \<le> 0 \<Longrightarrow> stage_ok mx (new_stage t gid gen i a h d)" for mx d
    using False NormalizeHandover_Some [OF h] by (auto simp: stage_ok_def new_stage_def)
  then have "stage_ok mx (new_stage t gid gen i a h d)" for mx d by (meson not_le)
  with False h show ?thesis by (auto simp: CreateGoal_def Let_def mode_ok_def)
qed

lemma config_exec [simp]:
  "gm_maxFailures (goal_exec c m) = gm_maxFailures m" "gm_defaultTurns (goal_exec c m) = gm_defaultTurns m"
proof -
  obtain t t' oper where c: "c = (t, t', oper)" by (cases c) auto
  have "gm_maxFailures (goal_exec c m) = gm_maxFailures m \<and> gm_defaultTurns (goal_exec c m) = gm_defaultTurns m"
    unfolding c
  proof (cases oper)
    case (GCreate gid gen i a)
    then show "gm_maxFailures (goal_exec (t, t', oper) m) = gm_maxFailures m \<and>
        gm_defaultTurns (goal_exec (t, t', oper) m) = gm_defaultTurns m"
      by (simp add: CreateGoal_def Let_def split: option.split)
  qed (simp_all add: goal_ops ResumeGoal_def Let_def case_prod_beta split: option.split)
  then show "gm_maxFailures (goal_exec c m) = gm_maxFailures m" "gm_defaultTurns (goal_exec c m) = gm_defaultTurns m"
    by auto
qed

lemma complete_ok: "mode_ok m \<Longrightarrow> mode_ok (snd (markCompleteLocked t t' i a m))"
  by (auto simp: markCompleteLocked_def with_active_def Let_def mode_ok_def split: option.splits)

lemma begin_ok:
  assumes "mode_ok m"
  shows "mode_ok (snd (beginCompletion t t' i a m))"
proof (cases "gm_state m")
  case (Some s)
  with assms have "stage_ok (gm_maxFailures m) s" by (simp add: mode_ok_def)
  then have "gs_status s = GoalActive \<Longrightarrow> stage_ok (gm_maxFailures m) (s\<lparr>gs_pending := True\<rparr>)"
    by (simp add: stage_ok_def)
  with Some assms complete_ok [OF assms] show ?thesis
    by (auto simp: beginCompletion_def Let_def case_prod_beta mode_ok_def)
qed (simp add: beginCompletion_def mode_ok_def)

lemma fail_ok:
  assumes "mode_ok m" "in_int (gm_maxFailures m)"
  shows "mode_ok (snd (failCompletion t t' f m))"
proof (cases "gm_state m")
  case (Some s)
  show ?thesis
  proof (cases "gs_status s = GoalActive")
    case True
    let ?n = "wrap64 (gs_failures s + 1)"
    let ?s = "s\<lparr>gs_failures := ?n\<rparr>"
    from Some assms have ok: "stage_ok (gm_maxFailures m) s" by (simp add: mode_ok_def)
    have n: "?n = gs_failures s + 1" if "0 < gm_maxFailures m"
      using ok that assms(2) by (intro wrap64_id_in) (auto simp: stage_ok_def in_int_def max_int_def)
    have under: "stage_ok (gm_maxFailures m) ?s" if "\<not> (0 < gm_maxFailures m \<and> gm_maxFailures m \<le> ?n)"
      using ok n that True by (auto simp: stage_ok_def)
    let ?b = "(applyStatus t GoalBlocked ?s)"
    have "stage_ok (gm_maxFailures m) ?b" using ok by (auto simp: stage_ok_def)
    with Some True under show ?thesis
      by (simp add: failCompletion_def Let_def case_prod_beta mode_ok_def markBlockedLocked_def
          with_active_def change_status_def)
  next
    case False
    with Some assms(1) show ?thesis by (simp add: failCompletion_def)
  qed
qed (simp add: failCompletion_def mode_ok_def)

lemma goal_exec_ok:
  assumes "mode_ok m" "in_int (gm_maxFailures m)"
  shows "mode_ok (goal_exec (t, t', oper) m)"
proof (cases "\<exists>gid gen i a. oper = GCreate gid gen i a")
  case True
  with CreateGoal_ok [OF assms(1)] show ?thesis by auto
next
  case nc: False
  show ?thesis
  proof (cases "gm_state m")
    case None
    with nc assms show ?thesis
      by (cases oper) (simp_all add: goal_ops ResumeGoal_def Let_def mode_ok_def)
  next
    case (Some s)
    with assms have ok: "stage_ok (gm_maxFailures m) s" by (simp add: mode_ok_def)
    then have dist: "distinct (map td_id (gs_todos s))" by (simp add: stage_ok_def)
    note chg = change_status_ok [OF ok]
    show ?thesis
    proof (cases oper)
      case (GCreate a b c d)
      with nc show ?thesis by simp
    next
      case (GPause i a)
      with Some assms chg show ?thesis by (auto simp: PauseGoal_def with_goal_def case_prod_beta)
    next
      case (GPauseActive i a)
      with Some assms chg show ?thesis by (auto simp: PauseActiveGoal_def with_active_def case_prod_beta)
    next
      case (GBlocked i a)
      with Some assms chg show ?thesis
        by (auto simp: MarkBlocked_def markBlockedLocked_def with_active_def case_prod_beta)
    next
      case (GResume i a)
      have "stage_ok (gm_maxFailures m) (applyStatus t GoalActive (s\<lparr>gs_reason := None, gs_expectation := None\<rparr>))"
        using ok by (intro stage_ok_status) simp_all
      with GResume Some assms show ?thesis by (auto simp: ResumeGoal_def with_goal_def Let_def mode_ok_def)
    next
      case (GAddTodo x a)
      have "distinct (map td_id (gs_todos s @ [\<lparr>td_id = nextTodoID (gs_todos s), td_title = trim_space x, td_status = TodoPending\<rparr>]))"
        using todo_alloc.distinct_append [of "gs_todos s"] dist by simp
      from persist_todos_ok [OF stage_ok_todos [OF ok this]] GAddTodo Some assms this
      show ?thesis by (auto simp: AddGoalTodo_def with_goal_def Let_def)
    next
      case (GUpdateTodo i x a)
      have "distinct (map td_id (update_first (\<lambda>td. td_id td = i) (\<lambda>td. td\<lparr>td_status := normalizeTodoStatus x\<rparr>) (gs_todos s)))"
        using dist by (simp add: map_update_first)
      from edit_todo_ok [where f = "update_first (\<lambda>td. td_id td = i) (\<lambda>td. td\<lparr>td_status := normalizeTodoStatus x\<rparr>)", OF Some ok this]
        GUpdateTodo Some show ?thesis by (simp add: UpdateGoalTodo_def with_goal_def)
    next
      case (GRenameTodo i x a)
      have "distinct (map td_id (update_first (\<lambda>td. td_id td = i) (\<lambda>td. td\<lparr>td_title := trim_space x\<rparr>) (gs_todos s)))"
        using dist by (simp add: map_update_first)
      from edit_todo_ok [where f = "update_first (\<lambda>td. td_id td = i) (\<lambda>td. td\<lparr>td_title := trim_space x\<rparr>)", OF Some ok this]
        GRenameTodo Some assms show ?thesis by (simp add: RenameGoalTodo_def with_goal_def Let_def)
    next
      case (GRemoveTodo i a)
      from edit_todo_ok [where f = "remove_first (\<lambda>td. td_id td = i)", OF Some ok distinct_map_remove_first [OF dist]]
        GRemoveTodo Some show ?thesis by (simp add: RemoveGoalTodo_def with_goal_def)
    next
      case (GBegin i a)
      with begin_ok [OF assms(1)] show ?thesis by simp
    next
      case (GFail f)
      with fail_ok [OF assms] show ?thesis by simp
    next
      case (GComplete i a)
      with complete_ok [OF assms(1)] show ?thesis by (simp add: MarkComplete_def)
    next
      case (GFinish i a)
      with complete_ok [OF assms(1)] Some assms show ?thesis
        by (auto simp: finishCompletion_def Let_def case_prod_beta)
    qed (use Some assms ok in \<open>auto simp: RecordTokenUsage_def IncrementTurn_def SetPauseAfterComplete_def
        SetBudgetLimits_def NotifyGoalChanged_def CancelGoal_def CancelGoalByID_def
        cancelGoalLocked_def CleanupExpired_def with_active_def with_goal_def Let_def mode_ok_def publish_def\<close>)
  qed
qed

definition goal_run :: "goal_cmd list \<Rightarrow> goal_mode \<Rightarrow> goal_mode" where
  "goal_run cs m = run_cmds goal_step cs m"

lemma goal_step_fst [simp]: "fst (goal_step c m) = goal_exec c m"
  by (simp add: goal_step_def Let_def)

text \<open>C19: In every session, however commands and the parts of completion requests interleave, the
  current goal is never left complete, only an active goal has a pending verification or a
  failure streak, the streak stays below the cap, its handover note is at most 4096 bytes, its
  objective is not empty and its todos have distinct identifiers.\<close>

theorem goal_session_invariant:
  assumes "gm_state m = None" "in_int (gm_maxFailures m)"
  shows "mode_ok (goal_run cs m)"
proof -
  have "mode_ok m \<Longrightarrow> in_int (gm_maxFailures m) \<Longrightarrow> mode_ok (run_cmds goal_step cs m)" for m
  proof (induction cs arbitrary: m)
    case (Cons c cs)
    obtain t t' oper where "c = (t, t', oper)" by (cases c) auto
    with Cons goal_exec_ok [of m t t' oper] show ?case by simp
  qed simp
  with assms show ?thesis by (simp add: goal_run_def mode_ok_def)
qed

abbreviation new_mode :: goal_mode where
  "new_mode \<equiv> NewGoalMode (Some []) None"

theorem goal_session_invariant_witness:
  "mode_ok (goal_run [(1, 1, GCreate ''goal-1'' ''calm.owl'' demo_input ActorUser), (2, 2, GTurn)] new_mode)"
  by (rule goal_session_invariant) (simp_all add: NewGoalMode_def in_int_def max_int_def)

section \<open>Replaying the log\<close>

text \<open>The log-related part of the invariant: a store is wired, and no implicit turn budget.\<close>

definition log_inv :: "goal_mode \<Rightarrow> bool" where
  "log_inv m \<longleftrightarrow> goal_inv m \<and> mode_ok m \<and> in_int (gm_maxFailures m)"

lemma goal_rel_refl: "goal_rel m (gm_state m)"
  by (simp add: goal_rel_def same_goal_def split: option.split)

lemma goal_step_log:
  assumes "log_inv m" "goal_ok c m"
  shows "gm_log (fst (goal_step c m)) = add_records (snd (goal_step c m)) (gm_log m)"
    and "goal_rel m so \<Longrightarrow> goal_rel (fst (goal_step c m)) (fold restore_record (snd (goal_step c m)) so)"
proof -
  obtain t t' oper where c: "c = (t, t', oper)" by (cases c) auto
  from assms obtain l where l: "gm_log m = Some l" by (auto simp: log_inv_def goal_inv_def)
  have tr: "transfers m (goal_exec c m)"
    using assms goal_exec_transfers unfolding c log_inv_def by blast
  from tr obtain es where es: "gm_log (goal_exec c m) = add_records es (gm_log m)"
    using goal_rel_refl unfolding transfers_def by blast
  have snd: "gm_log (goal_exec c m) = add_records fs (gm_log m) \<Longrightarrow> snd (goal_step c m) = fs" for fs
    by (simp add: goal_step_def Let_def goal_log_def l)
  show "gm_log (fst (goal_step c m)) = add_records (snd (goal_step c m)) (gm_log m)"
    using es snd by simp
  assume "goal_rel m so"
  with tr obtain fs where "gm_log (goal_exec c m) = add_records fs (gm_log m)"
    "goal_rel (goal_exec c m) (fold restore_record fs so)" unfolding transfers_def by blast
  with snd show "goal_rel (fst (goal_step c m)) (fold restore_record (snd (goal_step c m)) so)" by simp
qed

lemma log_inv_step: "log_inv m \<Longrightarrow> goal_ok c m \<Longrightarrow> log_inv (fst (goal_step c m))"
proof -
  assume h: "log_inv m" "goal_ok c m"
  obtain t t' oper where c: "c = (t, t', oper)" by (cases c) auto
  from h have ok: "mode_ok (goal_exec c m)" unfolding c log_inv_def by (intro goal_exec_ok) auto
  moreover from ok have "\<forall>s. gm_state (goal_exec c m) = Some s \<longrightarrow> gs_status s \<noteq> GoalDone"
    by (simp add: mode_ok_def stage_ok_def)
  moreover have "gm_log (goal_exec c m) \<noteq> None"
    using goal_step_log(1) [OF h] h by (auto simp: log_inv_def goal_inv_def add_records_def)
  ultimately show ?thesis using h by (simp add: log_inv_def goal_inv_def)
qed

lemma replay_total: "replay (\<lambda>r so. Inr (restore_record r so)) es so = (Inr (fold restore_record es so) :: goal_err + goal_stage option)"
  by (induction es arbitrary: so) auto

interpretation goal_events: event_log goal_step
    "\<lambda>r so. Inr (restore_record r so) :: goal_err + goal_stage option" goal_rel log_inv goal_ok
proof (unfold_locales, rule log_inv_step, assumption, assumption)
  fix m c so assume h: "log_inv m" "goal_ok c m" "goal_rel m so"
  from goal_step_log(2) [OF h]
  show "\<exists>r'. replay (\<lambda>r so. Inr (restore_record r so) :: goal_err + goal_stage option) (snd (goal_step c m)) so = Inr r' \<and>
      goal_rel (fst (goal_step c m)) r'"
    by (simp add: replay_total)
qed

lemma goal_run_log:
  "log_inv m \<Longrightarrow> all_ok goal_step goal_ok cs m \<Longrightarrow>
   gm_log (goal_run cs m) = add_records (log_cmds goal_step cs m) (gm_log m)"
  unfolding goal_run_def
proof (induction cs arbitrary: m)
  case (Cons c cs)
  from Cons.prems have ok: "goal_ok c m" "all_ok goal_step goal_ok cs (fst (goal_step c m))" by simp_all
  have i: "log_inv (fst (goal_step c m))" by (rule log_inv_step [OF Cons.prems(1) ok(1)])
  show ?case
    using Cons.IH [OF i ok(2)] goal_step_log(1) [OF Cons.prems(1) ok(1)] by simp
qed simp



end
