(* ===== verification/Goal_Findings.thy ===== *)
theory Goal_Findings
  imports Goal_Properties
begin

text \<open>
  Escalation, classification and retention of goals, and the places where a goal's log or a
  failed command does not preserve the goal.
\<close>

section \<open>Escalation\<close>

fun fail_times :: "nat \<Rightarrow> ms \<Rightarrow> verify_failure \<Rightarrow> goal_mode \<Rightarrow> goal_mode" where
  "fail_times 0 t f m = m"
| "fail_times (Suc n) t f m = snd (failCompletion t t f (fail_times n t f m))"

lemma fail_step:
  assumes "gm_state m = Some s" "gs_status s = GoalActive" "0 \<le> gs_failures s" "gs_failures s < max_int"
  shows "\<exists>s'. gm_state (snd (failCompletion t t' f m)) = Some s' \<and>
    gm_maxFailures (snd (failCompletion t t' f m)) = gm_maxFailures m \<and>
    (if 0 < gm_maxFailures m \<and> gm_maxFailures m \<le> gs_failures s + 1
     then gs_status s' = GoalBlocked \<and> gs_reason s' = Some (EscalationReason (gs_failures s + 1))
     else gs_status s' = GoalActive \<and> gs_failures s' = gs_failures s + 1)"
proof -
  have "wrap64 (gs_failures s + 1) = gs_failures s + 1"
    using assms(3,4) by (intro wrap64_id_in) (simp add: in_int_def max_int_def)
  with assms(1,2) show ?thesis
    by (simp add: failCompletion_def Let_def case_prod_beta markBlockedLocked_def with_active_def
        change_status_def)
qed

text \<open>C27: With a cap of n > 0, the goal stays active through n - 1 consecutive failed verifications,
  counting them, and the n-th blocks it for review.\<close>

theorem escalation_at_cap:
  assumes "gm_state m = Some s" "gs_status s = GoalActive" "gs_failures s = 0"
    and "gm_maxFailures m = int (Suc n)" "int (Suc n) \<le> max_int"
  shows "(\<forall>k\<le>n. \<exists>s'. gm_state (fail_times k t f m) = Some s' \<and> gs_status s' = GoalActive \<and> gs_failures s' = int k) \<and>
    (\<exists>s'. gm_state (fail_times (Suc n) t f m) = Some s' \<and> gs_status s' = GoalBlocked \<and>
      gs_reason s' = Some (EscalationReason (int (Suc n))))"
proof -
  have below: "\<exists>s'. gm_state (fail_times k t f m) = Some s' \<and> gs_status s' = GoalActive \<and> gs_failures s' = int k \<and>
      gm_maxFailures (fail_times k t f m) = int (Suc n)" if "k \<le> n" for k
    using that
  proof (induction k)
    case 0
    with assms show ?case by simp
  next
    case (Suc k)
    then obtain x where x: "gm_state (fail_times k t f m) = Some x" "gs_status x = GoalActive"
      "gs_failures x = int k" "gm_maxFailures (fail_times k t f m) = int (Suc n)" by auto
    from fail_step [OF x(1,2), of t t f] x(3,4) Suc.prems assms(5) show ?case by (auto split: if_splits)
  qed
  from below [of n] obtain x where x: "gm_state (fail_times n t f m) = Some x" "gs_status x = GoalActive"
    "gs_failures x = int n" "gm_maxFailures (fail_times n t f m) = int (Suc n)" by auto
  from fail_step [OF x(1,2), of t t f] x(3,4) assms(5)
  have "\<exists>s'. gm_state (fail_times (Suc n) t f m) = Some s' \<and> gs_status s' = GoalBlocked \<and>
      gs_reason s' = Some (EscalationReason (int (Suc n)))" by (auto simp: add.commute)
  with below show ?thesis by blast
qed

definition demo_failure :: verify_failure where
  "demo_failure = \<lparr>vf_kind = ''command'', vf_detail = ''boom'', vf_streak = 0, vf_escalated = False\<rparr>"

theorem escalation_at_cap_witness:
  "\<exists>s'. gm_state (fail_times 3 50 demo_failure demo_mode) = Some s' \<and> gs_status s' = GoalBlocked"
  using escalation_at_cap [of demo_mode demo_stage 2 50 demo_failure]
  by (auto simp: demo_goal_defs max_int_def numeral_3_eq_3)

section \<open>Investigations\<close>

definition standard_kind :: "goal_mode \<Rightarrow> bool" where
  "standard_kind m \<longleftrightarrow> (\<forall>s. gm_state m = Some s \<longrightarrow> gs_kind s = KindStandard)"

lemma change_status_kind: "map_option gs_kind (gm_state (snd (change_status t t' st i a s m))) = Some (gs_kind s)"
  by (simp add: change_status_def Let_def)

lemma complete_kind: "standard_kind m \<Longrightarrow> standard_kind (snd (markCompleteLocked t t' i a m))"
  by (auto simp: markCompleteLocked_def with_active_def Let_def standard_kind_def split: option.splits)

lemma edit_todo_kind:
  "gm_state m = Some s \<Longrightarrow> standard_kind m \<Longrightarrow> standard_kind (snd (edit_todo t i f a s m))"
  by (simp add: edit_todo_def Let_def persistTodosLocked_def standard_kind_def)

lemma standard_kind_change:
  assumes "gm_state m = Some s" "standard_kind m"
  shows "standard_kind (snd (change_status t t' st i a s m))"
  using change_status_kind [of t t' st i a s m] assms by (auto simp: standard_kind_def)

lemma standard_kind_fail: "standard_kind m \<Longrightarrow> standard_kind (snd (failCompletion t t' f m))"
proof (cases "gm_state m")
  case (Some s)
  assume k: "standard_kind m"
  show ?thesis
  proof (cases "gs_status s = GoalActive")
    case True
    let ?s = "s\<lparr>gs_failures := wrap64 (gs_failures s + 1)\<rparr>"
    let ?m = "track (TGoalVerifyFailed (vf_kind f) (wrap64 (gs_failures s + 1))) (m\<lparr>gm_state := Some ?s\<rparr>)"
    have m: "gm_state ?m = Some ?s" "standard_kind ?m" using k Some by (simp_all add: standard_kind_def)
    from standard_kind_change [OF this] have "standard_kind (snd (markBlockedLocked t t' i ActorSystem ?m))" for i
      using True by (simp add: markBlockedLocked_def with_active_def case_prod_beta)
    then have "standard_kind (track e (snd (markBlockedLocked t t' i ActorSystem ?m)))" for e i
      by (simp add: standard_kind_def)
    with Some True m(2) show ?thesis by (simp add: failCompletion_def Let_def case_prod_beta)
  qed (use Some k in \<open>simp add: failCompletion_def\<close>)
qed (simp add: failCompletion_def)

lemma standard_kind_exec:
  assumes "standard_kind m" "\<And>gid gen i. oper \<noteq> GCreate gid gen i ActorRuntime"
  shows "standard_kind (goal_exec (t, t', oper) m)"
proof (cases "gm_state m")
  case None
  show ?thesis
  proof (cases oper)
    case (GCreate gid gen i a)
    with assms None show ?thesis
      by (auto simp: CreateGoal_def Let_def standard_kind_def new_stage_def create_kind_def split: option.splits)
  qed (use None assms in \<open>simp_all add: goal_ops ResumeGoal_def Let_def standard_kind_def\<close>)
next
  case (Some s)
  note chg = standard_kind_change [OF Some assms(1)]
  note edit = edit_todo_kind [OF Some assms(1)]
  show ?thesis
  proof (cases oper)
    case (GCreate gid gen i a)
    with assms show ?thesis
      by (auto simp: CreateGoal_def Let_def standard_kind_def new_stage_def create_kind_def split: option.splits)
  next
    case (GPause i a)
    with Some assms chg show ?thesis by (auto simp: PauseGoal_def with_goal_def case_prod_beta)
  next
    case (GPauseActive i a)
    with Some assms chg show ?thesis by (auto simp: PauseActiveGoal_def with_active_def case_prod_beta)
  next
    case (GBlocked i a)
    with Some assms chg show ?thesis
      by (auto simp: MarkBlocked_def markBlockedLocked_def with_active_def case_prod_beta)
  next
    case (GComplete i a)
    with complete_kind [OF assms(1)] show ?thesis by (simp add: MarkComplete_def)
  next
    case (GFinish i a)
    with complete_kind [OF assms(1)] Some assms show ?thesis
      by (auto simp: finishCompletion_def Let_def case_prod_beta)
  next
    case (GBegin i a)
    with complete_kind [OF assms(1)] Some assms show ?thesis
      by (auto simp: beginCompletion_def Let_def case_prod_beta standard_kind_def)
  next
    case (GFail f)
    with standard_kind_fail [OF assms(1)] show ?thesis by simp
  next
    case (GRemoveTodo i a)
    with Some edit show ?thesis by (simp add: RemoveGoalTodo_def with_goal_def)
  next
    case (GUpdateTodo i x a)
    with Some edit show ?thesis by (simp add: UpdateGoalTodo_def with_goal_def)
  next
    case (GRenameTodo i x a)
    with Some edit assms show ?thesis by (simp add: RenameGoalTodo_def with_goal_def Let_def)
  qed (use Some assms in \<open>auto simp: RecordTokenUsage_def IncrementTurn_def SetPauseAfterComplete_def
      SetBudgetLimits_def NotifyGoalChanged_def CancelGoal_def CancelGoalByID_def AddGoalTodo_def
      persistTodosLocked_def ResumeGoal_def cancelGoalLocked_def CleanupExpired_def with_active_def
      with_goal_def Let_def standard_kind_def\<close>)
qed

text \<open>However users and models create goals, only the framework's runtime can make a goal an
  unblocking investigation: a session without a runtime creation never has one.\<close>

theorem only_runtime_investigates:
  assumes "gm_state m = None" "\<forall>(t, t', oper)\<in>set cs. \<forall>gid gen i. oper \<noteq> GCreate gid gen i ActorRuntime"
    and "gm_state (goal_run cs m) = Some s"
  shows "gs_kind s = KindStandard"
proof -
  have "standard_kind m \<Longrightarrow> standard_kind (run_cmds goal_step cs m)" for m
    using assms(2)
  proof (induction cs arbitrary: m)
    case (Cons c cs)
    obtain t t' oper where c: "c = (t, t', oper)" by (cases c) auto
    from Cons.prems have "standard_kind (goal_exec c m)" unfolding c by (intro standard_kind_exec) auto
    with Cons show ?case by simp
  qed simp
  moreover have "standard_kind m" using assms(1) by (simp add: standard_kind_def)
  ultimately show ?thesis using assms(3) by (simp add: goal_run_def standard_kind_def)
qed

theorem only_runtime_investigates_witness:
  "\<exists>s. gm_state (goal_run [(1, 1, GCreate ''goal-1'' ''calm.owl'' (demo_input\<lparr>ci_kind := KindUnblock\<rparr>) ActorModel)] new_mode) = Some s \<and>
     gs_kind s = KindStandard"
proof -
  let ?cs = "[(1, 1, GCreate ''goal-1'' ''calm.owl'' (demo_input\<lparr>ci_kind := KindUnblock\<rparr>) ActorModel)]"
  obtain s where s: "gm_state (goal_run ?cs new_mode) = Some s"
    by (simp add: goal_run_def CreateGoal_def demo_input_def trim_x NormalizeHandover_def NewGoalMode_def Let_def)
  have "gs_kind s = KindStandard"
    by (rule only_runtime_investigates [OF _ _ s]) (simp_all add: NewGoalMode_def)
  with s show ?thesis by blast
qed

section \<open>Where a goal is lost or comes back\<close>

text \<open>Replacing the goal with one whose handover note is too long fails with an error, and the
  current goal is gone: it is cleared before the note is checked.\<close>

theorem failed_replace_drops_goal:
  assumes "gm_state m = Some s" "ci_replace i" "trim_space (ci_objective i) \<noteq> []"
    and "ci_handoff i = Some h" "MaxHandoverLength < length (trim_space h)"
  shows "fst (CreateGoal t t' gid gen i a m) = Inl ErrHandoverTooLong \<and>
    gm_state (snd (CreateGoal t t' gid gen i a m)) = None \<and>
    gm_log (snd (CreateGoal t t' gid gen i a m)) = add_records [goal_record GoalEventClear t] (gm_log m)"
  using assms
  by (auto simp: CreateGoal_def NormalizeHandover_def NormalizeOptionalText_def Let_def clear_log)

theorem failed_replace_drops_goal_witness:
  "fst (CreateGoal 40 41 ''goal-2'' ''calm.owl'' (demo_input\<lparr>ci_handoff := Some (replicate 5000 (CHR ''x''))\<rparr>) ActorUser demo_mode)
     = Inl ErrHandoverTooLong \<and>
   gm_state demo_mode \<noteq> None \<and>
   gm_state (snd (CreateGoal 40 41 ''goal-2'' ''calm.owl'' (demo_input\<lparr>ci_handoff := Some (replicate 5000 (CHR ''x''))\<rparr>) ActorUser demo_mode)) = None"
proof -
  let ?i = "demo_input\<lparr>ci_handoff := Some (replicate 5000 (CHR ''x''))\<rparr>"
  have "trim_space (replicate 5000 (CHR ''x'')) = replicate 5000 (CHR ''x'')" using trim_xs [of 4999] by simp
  then have long: "MaxHandoverLength < length (trim_space (replicate 5000 (CHR ''x'')))"
    by (simp add: MaxHandoverLength_def)
  have st: "gm_state demo_mode = Some demo_stage" by (simp add: demo_mode_def)
  from failed_replace_drops_goal [OF st, of ?i "replicate 5000 (CHR ''x'')" 40 41 "''goal-2''" "''calm.owl''" ActorUser] long
  show ?thesis by (simp add: demo_input_def trim_x st)
qed

text \<open>The removal of a goal's only todo is not restored: the empty list is not written, so
  replaying the log brings the todo back.\<close>

theorem last_todo_returns:
  assumes "gm_state m = Some s" "gs_todos s = [td]" "same_goal s r"
  shows "\<exists>s' e. gm_state (snd (RemoveGoalTodo t (td_id td) a m)) = Some s' \<and> gs_todos s' = [] \<and>
    gm_log (snd (RemoveGoalTodo t (td_id td) a m)) = add_records [e] (gm_log m) \<and>
    map_option gs_todos (fold restore_record [e] (Some r)) = Some [td]"
  using assms
  by (auto simp: RemoveGoalTodo_def with_goal_def edit_todo_def Let_def persistTodosLocked_def
      restore_record_def RestoreUpdate_def same_goal_def)

definition demo_todo :: todo where
  "demo_todo = \<lparr>td_id = ''t1'', td_title = ''a'', td_status = TodoPending\<rparr>"

lemma same_goal_self: "same_goal s s"
  by (simp add: same_goal_def)

theorem last_todo_returns_witness:
  "\<exists>s' e. gm_state (snd (RemoveGoalTodo 30 ''t1'' ActorUser (demo_mode\<lparr>gm_state := Some (demo_stage\<lparr>gs_todos := [demo_todo]\<rparr>)\<rparr>))) = Some s' \<and>
    gs_todos s' = [] \<and> map_option gs_todos (fold restore_record [e] (Some (demo_stage\<lparr>gs_todos := [demo_todo]\<rparr>))) = Some [demo_todo]"
  using last_todo_returns [of "demo_mode\<lparr>gm_state := Some (demo_stage\<lparr>gs_todos := [demo_todo]\<rparr>)\<rparr>"
      "demo_stage\<lparr>gs_todos := [demo_todo]\<rparr>" demo_todo "demo_stage\<lparr>gs_todos := [demo_todo]\<rparr>" 30 ActorUser]
  by (simp add: same_goal_self) (auto simp: demo_todo_def)

text \<open>The implicit turn budget of a new goal is not in its create record: after a restart the goal
  has no turn limit.\<close>

theorem default_budget_lost:
  assumes "0 < gm_defaultTurns m" "gm_state m = None" "CreateGoal t t' gid gen i a m = (Inr sn, m')"
  shows "\<exists>s e r. gm_state m' = Some s \<and> bl_turns (gs_limits s) = Some (gm_defaultTurns m) \<and>
    gm_log m' = add_records [e] (gm_log m) \<and> restore_record e None = Some r \<and> bl_turns (gs_limits r) = None"
proof -
  from assms(2,3) obtain h where
    "gm_state m' = Some ((new_stage t gid gen i a h (gm_defaultTurns m))\<lparr>gs_updatedAt := t'\<rparr>)"
    "gm_log m' = add_records [create_record t (new_stage t gid gen i a h (gm_defaultTurns m))] (gm_log m)"
    by (auto simp: CreateGoal_def Let_def clear_log split: if_splits option.splits)
  moreover have "restore_record (create_record t s) None = Some (the (RestoreCreate (create_record t s) None)) \<and>
      bl_turns (gs_limits (the (RestoreCreate (create_record t s) None))) = None" for s
    by (simp add: restore_record_def create_record_def RestoreCreate_def)
  moreover have "bl_turns (gs_limits (new_stage t gid gen i a h (gm_defaultTurns m))) = Some (gm_defaultTurns m)"
    using assms(1) by (simp add: new_stage_def)
  ultimately show ?thesis by fastforce
qed

theorem default_budget_lost_witness:
  "\<exists>m' s e r. CreateGoal 1 1 ''goal-1'' ''calm.owl'' demo_input ActorUser (SetDefaultTurnBudget 20 new_mode) =
      (fst (CreateGoal 1 1 ''goal-1'' ''calm.owl'' demo_input ActorUser (SetDefaultTurnBudget 20 new_mode)), m') \<and>
    gm_state m' = Some s \<and> bl_turns (gs_limits s) = Some 20 \<and> restore_record e None = Some r \<and> bl_turns (gs_limits r) = None"
proof -
  let ?m = "SetDefaultTurnBudget 20 new_mode"
  obtain sn m' where c: "CreateGoal 1 1 ''goal-1'' ''calm.owl'' demo_input ActorUser ?m = (Inr sn, m')"
    by (simp add: CreateGoal_def demo_input_def trim_x NormalizeHandover_def NewGoalMode_def Let_def SetDefaultTurnBudget_def)
  have "0 < gm_defaultTurns ?m" "gm_state ?m = None" "gm_defaultTurns ?m = 20"
    by (simp_all add: SetDefaultTurnBudget_def NewGoalMode_def)
  from default_budget_lost [OF this(1,2) c] this(3) obtain s e r where "gm_state m' = Some s"
    "bl_turns (gs_limits s) = Some 20" "restore_record e None = Some r" "bl_turns (gs_limits r) = None" by auto
  with c show ?thesis by auto
qed

text \<open>A goal paused just now is cleared by the retention sweep after a restart when it was created
  before the cutoff: replay does not restore the time of its last update.\<close>

theorem paused_goal_expires_after_restart:
  assumes "goal_exec (u, u, GPause i a) m = m1" "gm_state m = Some s" "gs_status s = GoalActive"
    and "restore_record e None = Some r0" "same_goal s r0" "ge_type e = GoalEventCreate"
    and "ge_timestamp e < t - days * 86400000" "t - days * 86400000 \<le> u" "0 < days"
  shows "\<exists>rec r. gm_log m1 = add_records [rec] (gm_log m) \<and> restore_record rec (Some r0) = Some r \<and>
    gs_status r = GoalPaused \<and> gm_state (CleanupExpired t days m1) = gm_state m1 \<and> gm_state m1 \<noteq> None \<and>
    gm_state (CleanupExpired t days (m1\<lparr>gm_state := Some r\<rparr>)) = None"
proof -
  let ?s = "(applyStatus u GoalPaused s)\<lparr>gs_reason := ri_reason i, gs_expectation := ri_expectation i, gs_updatedAt := u\<rparr>"
  let ?e = "(goal_record GoalEventUpdate u)\<lparr>ge_status := Some GoalPaused, ge_reason := ri_reason i,
    ge_expectation := ri_expectation i, ge_actor := Some a, ge_wall := Some (LiveWallClockMs ?s u)\<rparr>"
  have st: "gm_state m1 = Some ?s" and log: "gm_log m1 = add_records [?e] (gm_log m)"
    using assms(1-3) by (auto simp: PauseGoal_def with_goal_def change_status_def Let_def appendStatus_log)
  have up: "gs_updatedAt (restore_update ?e r0) = ge_timestamp e"
    using assms(4,6) by (auto simp: restore_record_def RestoreCreate_def)
  have "restore_record ?e (Some r0) = Some (restore_update ?e r0)" "gs_status (restore_update ?e r0) = GoalPaused"
    by (simp_all add: restore_record_def RestoreUpdate_def)
  moreover have "gm_state (CleanupExpired t days m1) = gm_state m1"
    using assms(8) by (simp add: CleanupExpired_def st)
  moreover have "gm_state (CleanupExpired t days (m1\<lparr>gm_state := Some (restore_update ?e r0)\<rparr>)) = None"
    using assms(7,9) up by (simp add: CleanupExpired_def)
  ultimately show ?thesis using st log by blast
qed

theorem paused_goal_expires_after_restart_witness:
  "\<exists>m1 r. goal_exec (864000000, 864000000, GPause demo_evidence ActorUser) demo_mode = m1 \<and>
    gm_state (CleanupExpired 864000001 1 m1) \<noteq> None \<and>
    gm_state (CleanupExpired 864000001 1 (m1\<lparr>gm_state := Some r\<rparr>)) = None"
proof -
  let ?m = "goal_exec (864000000, 864000000, GPause demo_evidence ActorUser) demo_mode"
  let ?r = "the (restore_record (create_record 10 demo_stage) None)"
  have r: "restore_record (create_record 10 demo_stage) None = Some ?r"
    by (simp add: restore_record_def create_record_def RestoreCreate_def)
  have nt: "NormalizeOptionalText (Some ''tests pass'') = Some ''tests pass''" "NormalizeOptionalText (Some ''make test'') = Some ''make test''"
    by (simp_all add: NormalizeOptionalText_def Let_def trim_space_def trim_right_def trim_left.simps
        trim_left_rev.simps space_at_def space_before_def spaces_def ascii_spaces_def
        unicode_spaces_def bytes_def has_prefix_def eq_char_of)
  have same: "same_goal demo_stage ?r"
    by (simp add: restore_record_def create_record_def RestoreCreate_def same_goal_def demo_stage_def nt no_limits_def)
  have "gm_state demo_mode = Some demo_stage" "gs_status demo_stage = GoalActive"
    by (simp_all add: demo_mode_def demo_stage_def)
  from paused_goal_expires_after_restart [OF refl this r same, of 864000001 1 864000000 demo_evidence ActorUser]
  show ?thesis by (auto simp: create_record_def)
qed

end
