(* ===== verification/Goal_Drive.thy ===== *)
theory Goal_Drive
  imports Goal_Properties
begin

text \<open>
  The loop that works on a goal without the user (src/core/goal_driver.go): it runs the agent for as long as the
  goal engine has an active goal, within its budget, and watches for progress. The agent, the clock, the
  progress probe and the context that can be cancelled are arguments. Commands of others on the goal take
  effect after the loop has looked for an active goal or during a turn. Contexts and goroutines are left out,
  texts of prompts are named by constructors.
\<close>

section \<open>Errors of a turn\<close>

text \<open>An error with the answers of \<open>errors.Is\<close> and its text.\<close>

record turn_error =
  te_busy :: bool
  te_silent :: bool
  te_canceled :: bool
  te_text :: string

definition silent_stop :: turn_error where
  "silent_stop = \<lparr>te_busy = False, te_silent = True, te_canceled = False,
     te_text = ''goal driver: model stopped after reasoning without producing a reply''\<rparr>"

definition no_agent :: turn_error where
  "no_agent = \<lparr>te_busy = False, te_silent = False, te_canceled = False, te_text = ''goal driver has no agent''\<rparr>"

definition context_canceled :: turn_error where
  "context_canceled = \<lparr>te_busy = False, te_silent = False, te_canceled = True, te_text = ''context canceled''\<rparr>"

definition PauseRateLimit :: string where "PauseRateLimit = ''Paused after provider rate limit''"
definition PauseConnError :: string where "PauseConnError = ''Paused after provider connection error''"
definition PauseAuthError :: string where "PauseAuthError = ''Paused after provider authentication error''"
definition PauseAPIError :: string where "PauseAPIError = ''Paused after provider API error''"
definition PauseRequestError :: string where "PauseRequestError = ''Paused after provider request error''"
definition PauseModelConfig :: string where "PauseModelConfig = ''Paused after model configuration error''"
definition PauseRuntimeError :: string where "PauseRuntimeError = ''Paused after runtime error''"
definition PauseRunawayLoop :: string where "PauseRunawayLoop = ''Paused after detecting a runaway response loop''"
definition PauseSilentStop :: string where
  "PauseSilentStop = ''Paused after model stopped without producing a reply (send continue to resume)''"

definition driverErrorRules :: "(string \<times> string list) list" where
  "driverErrorRules =
     [(PauseRateLimit, [''rate limit'']),
      (PauseAuthError, [''authentication'', ''auth'']),
      (PauseRequestError, [''400'', ''invalid_request'', ''404'', ''408'', ''422'', ''unprocessable'']),
      (PauseConnError, [''connection'']),
      (PauseAPIError, [''api error'']),
      (PauseModelConfig, [''model config'', ''not configured'']),
      (PauseRunawayLoop, [''runaway loop'', ''stream loop''])]"

text \<open>Comparison without regard to the case of ASCII letters, byte by byte.\<close>

definition lower_byte :: "char \<Rightarrow> nat" where
  "lower_byte c = (if 65 \<le> byte c \<and> byte c \<le> 90 then byte c + 32 else byte c)"

definition equalCI :: "string \<Rightarrow> string \<Rightarrow> bool" where
  "equalCI a b \<longleftrightarrow> length a = length b \<and> map lower_byte a = map lower_byte b"

definition containsAtCI :: "string \<Rightarrow> string \<Rightarrow> bool" where
  "containsAtCI s sub \<longleftrightarrow> list_ex (\<lambda>i. equalCI (take (length sub) (drop i s)) sub) [0..<length s + 1 - length sub]"

definition containsCI :: "string \<Rightarrow> string \<Rightarrow> bool" where
  "containsCI s sub \<longleftrightarrow> length s \<ge> length sub \<and> containsAtCI s sub"

definition mapDriverError :: "turn_error \<Rightarrow> string" where
  "mapDriverError e =
     (if te_canceled e then ''Paused after interruption''
      else case List.find (\<lambda>(reason, subs). list_ex (containsCI (te_text e)) subs) driverErrorRules of
          Some (reason, _) \<Rightarrow> reason | None \<Rightarrow> PauseRuntimeError)"

section \<open>The driver and its surroundings\<close>

datatype prompt = ContinuationPrompt | RunawayRecoveryPrompt

text \<open>What the driver does to others: the run of a turn with its prompt and goal (and, on a clean context,
  whether it starts it), the reset of the agent's loop latch, overlays of teams, challenges, the report of
  a cancelled drive.\<close>

datatype driver_act =
    DRun prompt string "bool option"
  | DResetLoopStop
  | DApplyOverlay string
  | DRemoveOverlay
  | DRemind int
  | DCancel string

datatype cancel = NoCancel | ExternalCancel | UserStop

text \<open>What the agent does in one turn: commands on the goal, by itself or by others meanwhile.\<close>

record turn_outcome =
  to_cmds :: "goal_cmd list"
  to_error :: "turn_error option"
  to_silent :: bool
  to_cancel :: cancel

record driver_env =
  de_agent :: bool
  de_freshRunner :: bool
  de_canReset :: bool
  de_overlays :: bool
  de_onCancel :: bool
  de_watch :: bool
  de_stallTurns :: int
  de_clock :: "nat \<Rightarrow> nat \<Rightarrow> ms"
  de_before :: "nat \<Rightarrow> goal_cmd list"
  de_turn :: "nat \<Rightarrow> turn_outcome"
  de_probe :: "nat \<Rightarrow> string"
  de_initial :: cancel

record driver =
  d_mode :: goal_mode
  d_driving :: bool
  d_canceled :: bool
  d_stopSource :: string
  d_freshBegun :: string
  d_stallGoal :: string
  d_lastFP :: string
  d_stale :: int
  d_challenges :: int
  d_runaway :: string
  d_overlay :: string
  d_acts :: "driver_act list"

definition act :: "driver_act \<Rightarrow> driver \<Rightarrow> driver" where
  "act a d = d\<lparr>d_acts := d_acts d @ [a]\<rparr>"

definition stallChallengeLimit :: int where "stallChallengeLimit = 2"

definition Stop :: "driver \<Rightarrow> driver" where
  "Stop d = (if d_driving d then d\<lparr>d_stopSource := ''user_interrupt'', d_canceled := True\<rparr> else d)"

fun apply_cancel :: "cancel \<Rightarrow> driver \<Rightarrow> driver" where
  "apply_cancel NoCancel d = d"
| "apply_cancel ExternalCancel d = d\<lparr>d_canceled := True\<rparr>"
| "apply_cancel UserStop d = Stop d"

section \<open>The parts of a round\<close>

definition syncTeamOverlay :: "driver_env \<Rightarrow> snapshot option \<Rightarrow> driver \<Rightarrow> driver" where
  "syncTeamOverlay env active d =
     (if \<not> de_overlays env then d
      else let want = (case active of None \<Rightarrow> [] | Some s \<Rightarrow> trim_space (sn_team s));
               wantID = (case active of None \<Rightarrow> [] | Some s \<Rightarrow> sn_goalID s)
        in if want = [] \<and> d_overlay d \<noteq> [] then (act DRemoveOverlay d)\<lparr>d_overlay := []\<rparr>
           else if want \<noteq> [] \<and> d_overlay d \<noteq> wantID
           then (act (DApplyOverlay want) (if d_overlay d \<noteq> [] then act DRemoveOverlay d else d))\<lparr>d_overlay := wantID\<rparr>
           else d)"

definition turnPrompt :: "driver_env \<Rightarrow> snapshot \<Rightarrow> driver \<Rightarrow> prompt \<times> driver" where
  "turnPrompt env active d =
     (if d_runaway d = [] \<or> d_runaway d \<noteq> sn_goalID active then (ContinuationPrompt, d)
      else let d = d\<lparr>d_runaway := []\<rparr>
        in (RunawayRecoveryPrompt, if de_canReset env then act DResetLoopStop d else d))"

definition checkSilentStop :: "turn_outcome \<Rightarrow> turn_error option" where
  "checkSilentStop out = (if to_silent out then Some silent_stop else None)"

definition runTurn :: "driver_env \<Rightarrow> nat \<Rightarrow> snapshot \<Rightarrow> driver \<Rightarrow> turn_error option \<times> driver" where
  "runTurn env n active d =
     (let (prompt, d) = turnPrompt env active d;
          fresh = (sn_fresh active \<and> de_freshRunner env);
          begin = (d_freshBegun d \<noteq> sn_goalID active);
          d = (if fresh then d else d\<lparr>d_freshBegun := []\<rparr>);
          d = act (DRun prompt (sn_goalID active) (if fresh then Some begin else None)) d;
          out = de_turn env n;
          d = apply_cancel (to_cancel out) (d\<lparr>d_mode := fold goal_exec (to_cmds out) (d_mode d)\<rparr>)
      in case to_error out of
          Some e \<Rightarrow> (Some e, d)
        | None \<Rightarrow> (checkSilentStop out, if fresh then d\<lparr>d_freshBegun := sn_goalID active\<rparr> else d))"

definition handleTurnError :: "ms \<Rightarrow> ms \<Rightarrow> turn_error \<Rightarrow> driver \<Rightarrow> turn_error option \<times> driver" where
  "handleTurnError t t' e d =
     (if te_busy e then (None, d)
      else let reason = (if te_silent e then PauseSilentStop else mapDriverError e);
               pauseReason = (if reason = PauseRunawayLoop then reason @ '': '' @ te_text e else reason);
               (paused, m) = PauseActiveGoal t t' \<lparr>ri_reason = Some pauseReason, ri_expectation = None\<rparr> ActorRuntime (d_mode d);
               d = d\<lparr>d_mode := m\<rparr>
        in (Some e, case paused of
              Some sn \<Rightarrow> if reason = PauseRunawayLoop then d\<lparr>d_runaway := sn_goalID sn\<rparr> else d
            | None \<Rightarrow> d))"

definition block :: "ms \<Rightarrow> ms \<Rightarrow> string \<Rightarrow> string option \<Rightarrow> driver \<Rightarrow> driver" where
  "block t t' reason expectation d =
     d\<lparr>d_mode := snd (MarkBlocked t t' \<lparr>ri_reason = Some reason, ri_expectation = expectation\<rparr> ActorSystem (d_mode d))\<rparr>"

definition BudgetReason :: string where "BudgetReason = ''A configured budget was reached''"

definition checkStall :: "driver_env \<Rightarrow> ms \<Rightarrow> ms \<Rightarrow> string \<Rightarrow> snapshot \<Rightarrow> driver \<Rightarrow> driver" where
  "checkStall env t t' fp current d =
     (if \<not> de_watch env \<or> de_stallTurns env \<le> 0 \<or> sn_managedBy current \<noteq> [] then d
      else if sn_goalID current \<noteq> d_stallGoal d
      then d\<lparr>d_stallGoal := sn_goalID current, d_lastFP := fp, d_stale := 0, d_challenges := 0\<rparr>
      else if fp \<noteq> d_lastFP d then d\<lparr>d_lastFP := fp, d_stale := 0, d_challenges := 0\<rparr>
      else let d = d\<lparr>d_stale := d_stale d + 1\<rparr> in
        if d_stale d < de_stallTurns env then d
        else let d = d\<lparr>d_stale := 0, d_challenges := d_challenges d + 1\<rparr>;
                 d = d\<lparr>d_mode := TrackStall (d_challenges d) (d_mode d)\<rparr>
          in if d_challenges d \<ge> stallChallengeLimit
             then block t t' ''no measurable progress'' (Some ''user direction on how to proceed'') d
             else act (DRemind (de_stallTurns env)) d)"

section \<open>The loop\<close>

text \<open>One round; the first part of the result is what the loop returns, if it ends here.\<close>

definition drive_round :: "driver_env \<Rightarrow> nat \<Rightarrow> driver \<Rightarrow> turn_error option option \<times> driver" where
  "drive_round env n d =
     (let clock = de_clock env n in
      case GetActiveGoal (clock 0) (d_mode d) of
        None \<Rightarrow> (Some None, syncTeamOverlay env None d)
      | Some active \<Rightarrow>
          let d = syncTeamOverlay env (Some active) d;
              d = d\<lparr>d_mode := fold goal_exec (de_before env n) (d_mode d)\<rparr>
          in if br_over (sn_budget active) then (Some None, block (clock 1) (clock 2) BudgetReason None d)
             else let d = d\<lparr>d_mode := snd (IncrementTurn (clock 3) (d_mode d))\<rparr>;
                      (err, d) = runTurn env n active d
               in case err of
                   Some e \<Rightarrow> (case handleTurnError (clock 4) (clock 5) e d of (r, d) \<Rightarrow> (Some r, d))
                 | None \<Rightarrow>
                     (case GetActiveGoal (clock 6) (d_mode d) of
                        None \<Rightarrow> (Some None, d)
                      | Some current \<Rightarrow>
                          if br_over (sn_budget current) then (Some None, block (clock 7) (clock 8) BudgetReason None d)
                          else (None, checkStall env (clock 9) (clock 10) (de_probe env n) current d)))"

text \<open>The loop may run as long as the agent makes progress: the first number bounds its rounds.\<close>

fun drive_loop :: "driver_env \<Rightarrow> nat \<Rightarrow> nat \<Rightarrow> driver \<Rightarrow> (turn_error option \<times> driver) option" where
  "drive_loop env 0 n d = None"
| "drive_loop env (Suc rounds) n d =
     (if d_canceled d then Some (Some context_canceled, d)
      else case drive_round env n d of
          (Some r, d) \<Rightarrow> Some (r, d)
        | (None, d) \<Rightarrow> drive_loop env rounds (Suc n) d)"

text \<open>The deferred function.\<close>

definition drive_end :: "driver_env \<Rightarrow> driver \<Rightarrow> driver" where
  "drive_end env d =
     (let source = d_stopSource d; canceled = d_canceled d;
          d = d\<lparr>d_driving := False, d_stopSource := [], d_canceled := False\<rparr>
      in if canceled \<and> de_onCancel env then act (DCancel (if source = [] then ''external_context'' else source)) d else d)"

definition Drive :: "driver_env \<Rightarrow> nat \<Rightarrow> driver \<Rightarrow> (turn_error option \<times> driver) option" where
  "Drive env rounds d =
     (if d_driving d then Some (None, d)
      else if \<not> de_agent env then Some (Some no_agent, d)
      else map_option (\<lambda>(r, d). (r, drive_end env d))
        (drive_loop env rounds 0 (apply_cancel (de_initial env) (d\<lparr>d_driving := True, d_stopSource := [], d_canceled := False\<rparr>))))"

definition Start :: "driver_env \<Rightarrow> nat \<Rightarrow> ms \<Rightarrow> driver \<Rightarrow> driver option" where
  "Start env rounds t d =
     (if \<not> de_agent env \<or> GetActiveGoal t (d_mode d) = None then Some d else map_option snd (Drive env rounds d))"

end
