(* ===== verification/Goal_Progress.thy ===== *)
theory Goal_Progress
  imports Goal_Drive
begin

text \<open>
  What the loop of Goal_Drive promises: it ends when nothing moves, it respects the budget of turns, it leaves
  no active goal behind, and it keeps the invariant of the goal engine.
\<close>

section \<open>Commands that keep the goal\<close>

fun keeps_goal :: "goal_cmd \<Rightarrow> bool" where
  "keeps_goal (t, t', GCreate gid gen i a) \<longleftrightarrow> False"
| "keeps_goal (t, t', oper) \<longleftrightarrow> True"

fun keeps_budget :: "goal_cmd \<Rightarrow> bool" where
  "keeps_budget (t, t', GCreate gid gen i a) \<longleftrightarrow> False"
| "keeps_budget (t, t', GResume i a) \<longleftrightarrow> False"
| "keeps_budget (t, t', GBudget l a) \<longleftrightarrow> False"
| "keeps_budget (t, t', GTurn) \<longleftrightarrow> False"
| "keeps_budget (t, t', oper) \<longleftrightarrow> True"

definition carried :: "(goal_stage \<Rightarrow> goal_stage \<Rightarrow> bool) \<Rightarrow> goal_mode \<Rightarrow> goal_mode \<Rightarrow> bool" where
  "carried R m m' \<longleftrightarrow> (\<forall>s'. gm_state m' = Some s' \<longrightarrow> (\<exists>s. gm_state m = Some s \<and> R s s'))"

definition same_id :: "goal_stage \<Rightarrow> goal_stage \<Rightarrow> bool" where
  "same_id s s' \<longleftrightarrow> gs_goalID s' = gs_goalID s \<and> gs_managedBy s' = gs_managedBy s"

definition same_budget :: "goal_stage \<Rightarrow> goal_stage \<Rightarrow> bool" where
  "same_budget s s' \<longleftrightarrow> gs_turns s' = gs_turns s \<and> gs_limits s' = gs_limits s
     \<and> (gs_status s' = GoalActive \<longrightarrow> gs_status s = GoalActive)"

lemma carried_refl: "(\<And>s. R s s) \<Longrightarrow> carried R m m"
  by (simp add: carried_def)

lemma carried_trans: "(\<And>x y z. R x y \<Longrightarrow> R y z \<Longrightarrow> R x z) \<Longrightarrow> carried R m m1 \<Longrightarrow> carried R m1 m2 \<Longrightarrow> carried R m m2"
  unfolding carried_def by blast

lemma change_status_state: "gm_state (snd (change_status t t' st i a s m)) =
    Some ((applyStatus t st s)\<lparr>gs_reason := ri_reason i, gs_expectation := ri_expectation i, gs_updatedAt := t'\<rparr>)"
  by (simp add: change_status_def Let_def)

lemma exec_keeps_goal: "keeps_goal c \<Longrightarrow> carried same_id m (goal_exec c m)"
proof -
  obtain t t' oper where c: "c = (t, t', oper)" by (cases c) auto
  show "keeps_goal c \<Longrightarrow> ?thesis" unfolding c
    by (cases oper; cases "gm_state m")
      (auto simp: carried_def same_id_def goal_ops ResumeGoal_def Let_def case_prod_beta change_status_state
        publish_def split: if_splits)
qed

lemma exec_keeps_budget: "keeps_budget c \<Longrightarrow> carried same_budget m (goal_exec c m)"
proof -
  obtain t t' oper where c: "c = (t, t', oper)" by (cases c) auto
  show "keeps_budget c \<Longrightarrow> ?thesis" unfolding c
    by (cases oper; cases "gm_state m")
      (auto simp: carried_def same_budget_def goal_ops Let_def case_prod_beta change_status_state
        publish_def split: if_splits)
qed

lemma fold_carried:
  assumes "\<And>x. R x x" "\<And>x y z. R x y \<Longrightarrow> R y z \<Longrightarrow> R x z" "\<And>c m. P c \<Longrightarrow> carried R m (goal_exec c m)" "\<forall>c\<in>set cs. P c"
  shows "carried R m (fold goal_exec cs m)"
  using assms(4)
proof (induction cs arbitrary: m)
  case Nil
  then show ?case by (simp add: carried_refl assms(1))
next
  case (Cons c cs)
  then have "carried R m (goal_exec c m)" "carried R (goal_exec c m) (fold goal_exec cs (goal_exec c m))"
    using assms(3) by simp_all
  then have "carried R m (fold goal_exec cs (goal_exec c m))"
    unfolding carried_def using assms(2) by blast
  then show ?case by simp
qed

lemmas fold_keeps_goal = fold_carried [where R = same_id and P = keeps_goal, OF _ _ exec_keeps_goal]
lemmas fold_keeps_budget = fold_carried [where R = same_budget and P = keeps_budget, OF _ _ exec_keeps_budget]

lemma increment_keeps: "carried same_id m (snd (IncrementTurn t m))"
  by (auto simp: carried_def same_id_def IncrementTurn_def with_active_def Let_def split: option.splits)

section \<open>One round\<close>

definition turn_mode :: "driver_env \<Rightarrow> nat \<Rightarrow> goal_mode \<Rightarrow> goal_mode" where
  "turn_mode env n m = fold goal_exec (to_cmds (de_turn env n))
     (snd (IncrementTurn (de_clock env n 3) (fold goal_exec (de_before env n) m)))"

definition stall_state :: "driver \<Rightarrow> string \<times> string \<times> int \<times> int" where
  "stall_state d = (d_stallGoal d, d_lastFP d, d_stale d, d_challenges d)"

lemma driver_frame [simp]:
  "d_mode (act a d) = d_mode d" "stall_state (act a d) = stall_state d"
  "d_mode (syncTeamOverlay env x d) = d_mode d" "stall_state (syncTeamOverlay env x d) = stall_state d"
  "d_mode (snd (turnPrompt env sn d)) = d_mode d" "stall_state (snd (turnPrompt env sn d)) = stall_state d"
  "d_mode (apply_cancel k d) = d_mode d" "stall_state (apply_cancel k d) = stall_state d"
  "stall_state (d\<lparr>d_mode := m\<rparr>) = stall_state d"
  by (auto simp: act_def syncTeamOverlay_def turnPrompt_def stall_state_def Stop_def Let_def intro: cancel.exhaust [of k])

lemma run_turn_frame:
  "d_mode (snd (runTurn env n active d)) = fold goal_exec (to_cmds (de_turn env n)) (d_mode d)"
  "stall_state (snd (runTurn env n active d)) = stall_state d"
proof -
  obtain p d1 where p: "turnPrompt env active d = (p, d1)" by fastforce
  with driver_frame(5,6) [of env active d] have m: "d_mode d1 = d_mode d" "stall_state d1 = stall_state d" by simp_all
  have f: "d_mode (x\<lparr>d_freshBegun := g\<rparr>) = d_mode x" "stall_state (x\<lparr>d_freshBegun := g\<rparr>) = stall_state x" for x g
    by (simp_all add: stall_state_def)
  show "d_mode (snd (runTurn env n active d)) = fold goal_exec (to_cmds (de_turn env n)) (d_mode d)"
    "stall_state (snd (runTurn env n active d)) = stall_state d"
    using m by (simp_all add: runTurn_def p Let_def f split: option.split)
qed

lemma active_snapshot: "GetActiveGoal t m = Some sn \<longleftrightarrow> (\<exists>s. gm_state m = Some s \<and> gs_status s = GoalActive \<and> sn = toSnapshot s t)"
  by (auto simp: GetActiveGoal_def split: option.split)

lemma no_active: "GetActiveGoal t m = None \<longleftrightarrow> (\<forall>s. gm_state m = Some s \<longrightarrow> gs_status s \<noteq> GoalActive)"
  by (auto simp: GetActiveGoal_def split: option.split)

text \<open>The driver when the commands of others have taken effect, and when the turn starts.\<close>

definition round_open :: "driver_env \<Rightarrow> nat \<Rightarrow> snapshot \<Rightarrow> driver \<Rightarrow> driver" where
  "round_open env n sn d = (syncTeamOverlay env (Some sn) d)\<lparr>d_mode := fold goal_exec (de_before env n) (d_mode d)\<rparr>"

definition round_start :: "driver_env \<Rightarrow> nat \<Rightarrow> snapshot \<Rightarrow> driver \<Rightarrow> driver" where
  "round_start env n sn d = (round_open env n sn d)\<lparr>d_mode := snd (IncrementTurn (de_clock env n 3) (d_mode (round_open env n sn d)))\<rparr>"

lemma drive_round_eq:
  "drive_round env n d =
     (case GetActiveGoal (de_clock env n 0) (d_mode d) of
        None \<Rightarrow> (Some None, syncTeamOverlay env None d)
      | Some sn \<Rightarrow>
          if br_over (sn_budget sn)
          then (Some None, block (de_clock env n 1) (de_clock env n 2) BudgetReason None (round_open env n sn d))
          else case runTurn env n sn (round_start env n sn d) of
              (Some e, d3) \<Rightarrow> (case handleTurnError (de_clock env n 4) (de_clock env n 5) e d3 of (r, d) \<Rightarrow> (Some r, d))
            | (None, d3) \<Rightarrow>
                (case GetActiveGoal (de_clock env n 6) (d_mode d3) of
                   None \<Rightarrow> (Some None, d3)
                 | Some current \<Rightarrow>
                     if br_over (sn_budget current)
                     then (Some None, block (de_clock env n 7) (de_clock env n 8) BudgetReason None d3)
                     else (None, checkStall env (de_clock env n 9) (de_clock env n 10) (de_probe env n) current d3)))"
  unfolding drive_round_def Let_def round_start_def round_open_def
  by (auto split: option.split prod.split)

lemma round_cases:
  assumes "drive_round env n d = (r, d')"
  obtains (idle) "GetActiveGoal (de_clock env n 0) (d_mode d) = None" "r = Some None" "d' = syncTeamOverlay env None d"
  | (over) sn where "GetActiveGoal (de_clock env n 0) (d_mode d) = Some sn" "br_over (sn_budget sn)" "r = Some None"
      "d' = block (de_clock env n 1) (de_clock env n 2) BudgetReason None (round_open env n sn d)"
  | (failed) sn e d3 where "GetActiveGoal (de_clock env n 0) (d_mode d) = Some sn" "\<not> br_over (sn_budget sn)"
      "runTurn env n sn (round_start env n sn d) = (Some e, d3)"
      "r = Some (fst (handleTurnError (de_clock env n 4) (de_clock env n 5) e d3))"
      "d' = snd (handleTurnError (de_clock env n 4) (de_clock env n 5) e d3)"
  | (ended) sn d3 where "GetActiveGoal (de_clock env n 0) (d_mode d) = Some sn" "\<not> br_over (sn_budget sn)"
      "runTurn env n sn (round_start env n sn d) = (None, d3)" "r = Some None"
      "GetActiveGoal (de_clock env n 6) (d_mode d3) = None \<and> d' = d3
       \<or> d' = block (de_clock env n 7) (de_clock env n 8) BudgetReason None d3"
  | (going_on) sn d3 current where "GetActiveGoal (de_clock env n 0) (d_mode d) = Some sn" "\<not> br_over (sn_budget sn)"
      "runTurn env n sn (round_start env n sn d) = (None, d3)" "r = None"
      "GetActiveGoal (de_clock env n 6) (d_mode d3) = Some current" "\<not> br_over (sn_budget current)"
      "d' = checkStall env (de_clock env n 9) (de_clock env n 10) (de_probe env n) current d3"
proof (cases "GetActiveGoal (de_clock env n 0) (d_mode d)")
  case None
  with assms idle show ?thesis by (simp add: drive_round_eq)
next
  case (Some sn)
  obtain err d3 where t: "runTurn env n sn (round_start env n sn d) = (err, d3)" by fastforce
  show ?thesis
  proof (cases "br_over (sn_budget sn)")
    case True
    with assms Some over show ?thesis by (simp add: drive_round_eq)
  next
    case not_over: False
    show ?thesis
    proof (cases err)
      case (Some e)
      with assms \<open>GetActiveGoal _ _ = Some sn\<close> not_over t failed show ?thesis
        by (auto simp: drive_round_eq split: prod.splits)
    next
      case None
      with assms \<open>GetActiveGoal _ _ = Some sn\<close> not_over t ended going_on show ?thesis
        by (auto simp: drive_round_eq split: option.splits if_splits)
    qed
  qed
qed

lemma turn_result:
  assumes "runTurn env n sn (round_start env n sn d) = (err, d3)"
  shows "d_mode d3 = turn_mode env n (d_mode d)" "stall_state d3 = stall_state d"
  using run_turn_frame [of env n sn "round_start env n sn d"] assms
  by (simp_all add: turn_mode_def round_start_def round_open_def)

section \<open>Without progress the loop ends\<close>

definition stall_rank :: "nat \<Rightarrow> string \<Rightarrow> string \<Rightarrow> driver \<Rightarrow> nat" where
  "stall_rank k fp g d =
     (if d_stallGoal d = g \<and> d_lastFP d = fp then k - nat (d_stale d) + (if d_challenges d = 0 then k else 0) else 2 * k + 1)"

definition stall_ok :: "nat \<Rightarrow> driver \<Rightarrow> bool" where
  "stall_ok k d \<longleftrightarrow> 0 \<le> d_stale d \<and> d_stale d < int k \<and> 0 \<le> d_challenges d"

lemma block_state:
  assumes "gm_state (d_mode d) = Some s" "gs_status s = GoalActive"
  shows "GetActiveGoal u (d_mode (block t t' r e d)) = None"
  using assms by (auto simp: no_active block_def MarkBlocked_def markBlockedLocked_def with_active_def change_status_def Let_def)

lemma block_inactive: "GetActiveGoal u (d_mode (block t t' r e d)) = None"
proof (cases "\<exists>s. gm_state (d_mode d) = Some s \<and> gs_status s = GoalActive")
  case True
  then show ?thesis using block_state by blast
qed (auto simp: no_active block_def MarkBlocked_def markBlockedLocked_def with_active_def split: option.splits)

text \<open>One check of the watchdog, with the fingerprint unchanged.\<close>

lemma stall_step:
  assumes "de_watch env" "0 < k" "de_stallTurns env = int k" "stall_ok k d" "sn_managedBy sn = []"
  shows "(\<forall>u. GetActiveGoal u (d_mode (checkStall env t t' fp sn d)) = None) \<or>
    stall_ok k (checkStall env t t' fp sn d) \<and> gm_state (d_mode (checkStall env t t' fp sn d)) = gm_state (d_mode d) \<and>
      stall_rank k fp (sn_goalID sn) (checkStall env t t' fp sn d) < stall_rank k fp (sn_goalID sn) d"
proof -
  have tr: "gm_state (TrackStall n m) = gm_state m" for n m by (simp add: TrackStall_def)
  show ?thesis
    using assms by (auto simp: checkStall_def Let_def stall_ok_def stall_rank_def act_def stallChallengeLimit_def block_inactive tr)
qed

lemma loop_mono: "drive_loop env f n d = Some x \<Longrightarrow> f \<le> f' \<Longrightarrow> drive_loop env f' n d = Some x"
proof (induction f arbitrary: f' n d)
  case (Suc f)
  then obtain g where g: "f' = Suc g" "f \<le> g" by (cases f') auto
  obtain r d1 where r: "drive_round env n d = (r, d1)" by fastforce
  show ?case
  proof (cases "d_canceled d \<or> r \<noteq> None")
    case True
    with Suc.prems r g show ?thesis by auto
  next
    case False
    with Suc.prems r have "drive_loop env f (Suc n) d1 = Some x" by simp
    from Suc.IH [OF this g(2)] False r g show ?thesis by simp
  qed
qed simp

lemma loop_inactive:
  "(\<And>u. GetActiveGoal u (d_mode d) = None) \<Longrightarrow> drive_loop env (Suc f) n d \<noteq> None"
  by (simp add: drive_round_def Let_def)

lemma turn_mode_keeps_goal:
  assumes "\<forall>c\<in>set (de_before env n @ to_cmds (de_turn env n)). keeps_goal c"
  shows "carried same_id m (turn_mode env n m)"
proof -
  have t: "\<And>x y z. same_id x y \<Longrightarrow> same_id y z \<Longrightarrow> same_id x z" by (simp add: same_id_def)
  have r: "\<And>x. same_id x x" by (simp add: same_id_def)
  let ?m1 = "fold goal_exec (de_before env n) m"
  have 1: "carried same_id m ?m1" using fold_keeps_goal [OF r t] assms by simp
  have 2: "carried same_id (snd (IncrementTurn (de_clock env n 3) ?m1)) (turn_mode env n m)"
    unfolding turn_mode_def using fold_keeps_goal [OF r t] assms by simp
  from carried_trans [of same_id, OF t carried_trans [of same_id, OF t 1 increment_keeps] 2] show ?thesis .
qed

lemma rank_le: "stall_rank k fp g d \<le> 2 * k + 1"
  by (auto simp: stall_rank_def)

lemma stall_loop:
  assumes "de_watch env" "0 < k" "de_stallTurns env = int k" "\<forall>n. de_probe env n = fp"
    "\<forall>n. \<forall>c\<in>set (de_before env n @ to_cmds (de_turn env n)). keeps_goal c"
  shows "stall_ok k d \<Longrightarrow> (\<And>s. gm_state (d_mode d) = Some s \<Longrightarrow> gs_goalID s = g \<and> gs_managedBy s = []) \<Longrightarrow>
    drive_loop env (Suc (stall_rank k fp g d)) n d \<noteq> None"
proof (induction "stall_rank k fp g d" arbitrary: n d rule: less_induct)
  case less
  obtain r d' where rd: "drive_round env n d = (r, d')" by fastforce
  show ?case
  proof (cases "d_canceled d \<or> r \<noteq> None")
    case True
    with rd show ?thesis by auto
  next
    case False
    then have "drive_round env n d = (None, d')" using rd by simp
    then obtain s d3 where x: "d_mode d3 = turn_mode env n (d_mode d)"
      "stall_state d3 = stall_state d" "gm_state (d_mode d3) = Some s"
      "d' = checkStall env (de_clock env n 9) (de_clock env n 10) (de_probe env n) (toSnapshot s (de_clock env n 6)) d3"
      by (cases rule: round_cases) (use turn_result active_snapshot in \<open>blast, blast, blast, blast, metis\<close>)
    have "carried same_id (d_mode d) (d_mode d3)" unfolding x(1) using turn_mode_keeps_goal assms(5) by blast
    then have s: "gs_goalID s = g" "gs_managedBy s = []"
      using x(3) less.prems(2) by (auto simp: carried_def same_id_def)
    have ok: "stall_ok k d3" "stall_rank k fp g d3 = stall_rank k fp g d"
      using x(2) less.prems(1) by (simp_all add: stall_state_def stall_ok_def stall_rank_def)
    have pos: "0 < stall_rank k fp g d" using less.prems(1) assms(2) by (auto simp: stall_rank_def stall_ok_def)
    have sn: "sn_managedBy (toSnapshot s u) = []" "sn_goalID (toSnapshot s u) = g" for u
      using s by (simp_all add: toSnapshot_def Let_def)
    from stall_step [OF assms(1-3) ok(1) sn(1), of "de_clock env n 9" "de_clock env n 10" fp "de_clock env n 6"]
    have "(\<forall>u. GetActiveGoal u (d_mode d') = None) \<or>
      stall_ok k d' \<and> gm_state (d_mode d') = Some s \<and> stall_rank k fp g d' < stall_rank k fp g d"
      using x(3,4) assms(4) ok(2) sn(2) by simp
    then show ?thesis
    proof
      assume "\<forall>u. GetActiveGoal u (d_mode d') = None"
      then have "drive_loop env (stall_rank k fp g d) (Suc n) d' \<noteq> None"
        using pos loop_inactive [of d' env "stall_rank k fp g d - 1"] by simp
      with False rd show ?thesis by simp
    next
      assume h: "stall_ok k d' \<and> gm_state (d_mode d') = Some s \<and> stall_rank k fp g d' < stall_rank k fp g d"
      then have "drive_loop env (Suc (stall_rank k fp g d')) (Suc n) d' \<noteq> None"
        using less.hyps [of d' "Suc n"] s by simp
      then have "drive_loop env (stall_rank k fp g d) (Suc n) d' \<noteq> None"
        using h loop_mono [of env "Suc (stall_rank k fp g d')" "Suc n" d' _ "stall_rank k fp g d"] by fastforce
      with False rd show ?thesis by simp
    qed
  qed
qed


section \<open>The budget of turns\<close>

definition runs :: "driver \<Rightarrow> nat" where
  "runs d = length (filter (\<lambda>a. case a of DRun _ _ _ \<Rightarrow> True | _ \<Rightarrow> False) (d_acts d))"

lemma runs_frame [simp]:
  "runs (act (DRun p g b) d) = Suc (runs d)" "runs (act DResetLoopStop d) = runs d" "runs (act (DApplyOverlay w) d) = runs d"
  "runs (act DRemoveOverlay d) = runs d" "runs (act (DRemind k) d) = runs d" "runs (act (DCancel c) d) = runs d"
  "runs (d\<lparr>d_mode := m\<rparr>) = runs d" "runs (d\<lparr>d_overlay := g\<rparr>) = runs d" "runs (d\<lparr>d_freshBegun := g\<rparr>) = runs d"
  "runs (d\<lparr>d_runaway := g\<rparr>) = runs d" "runs (d\<lparr>d_lastFP := g\<rparr>) = runs d" "runs (d\<lparr>d_stale := i\<rparr>) = runs d"
  "runs (d\<lparr>d_challenges := i\<rparr>) = runs d" "runs (d\<lparr>d_stallGoal := g\<rparr>) = runs d" "runs (d\<lparr>d_stopSource := g\<rparr>) = runs d"
  "runs (d\<lparr>d_canceled := b'\<rparr>) = runs d" "runs (d\<lparr>d_driving := b'\<rparr>) = runs d"
  by (simp_all add: runs_def act_def)

lemma runs_parts [simp]:
  "runs (syncTeamOverlay env x d) = runs d" "runs (snd (turnPrompt env sn d)) = runs d" "runs (apply_cancel k d) = runs d"
  "runs (block t t' r e d) = runs d" "runs (checkStall env t t' fp sn d) = runs d" "runs (snd (handleTurnError t t' err d)) = runs d"
  "runs (drive_end env d) = runs d"
  by (simp_all add: syncTeamOverlay_def turnPrompt_def block_def checkStall_def handleTurnError_def drive_end_def Let_def
      split: prod.split option.split)
    (cases k; simp add: Stop_def)

lemma turnPrompt_runs: "turnPrompt env sn d = (p, d') \<Longrightarrow> runs d' = runs d"
  using runs_parts(2) [of env sn d] by simp

lemma runs_turn: "runs (snd (runTurn env n sn d)) = Suc (runs d)"
  by (auto simp: runTurn_def Let_def dest: turnPrompt_runs split: prod.split option.split)

lemma round_start_runs [simp]: "runs (round_start env n sn d) = runs d" "runs (round_open env n sn d) = runs d"
  by (simp_all add: round_start_def round_open_def)

lemma runs_round:
  assumes "drive_round env n d = (r, d')"
  shows "runs d' \<le> Suc (runs d)"
proof -
  have t: "runTurn env n sn (round_start env n sn d) = (e, d3) \<Longrightarrow> runs d3 = Suc (runs d)" for sn e d3
    using runs_turn [of env n sn "round_start env n sn d"] by simp
  from assms show ?thesis by (cases rule: round_cases) (auto dest: t)
qed

lemma check_state:
  "(\<forall>u. GetActiveGoal u (d_mode (checkStall env t t' fp sn d)) = None) \<or>
   gm_state (d_mode (checkStall env t t' fp sn d)) = gm_state (d_mode d)"
  by (simp add: checkStall_def Let_def act_def block_inactive TrackStall_def)

text \<open>The turns left to the active goal.\<close>

definition turns_left :: "int \<Rightarrow> driver \<Rightarrow> nat" where
  "turns_left L d = (case gm_state (d_mode d) of
     Some s \<Rightarrow> if gs_status s = GoalActive then nat (L - gs_turns s) else 0 | None \<Rightarrow> 0)"

definition budget_ok :: "int \<Rightarrow> driver \<Rightarrow> bool" where
  "budget_ok L d \<longleftrightarrow> in_int L \<and> (\<forall>s. gm_state (d_mode d) = Some s \<longrightarrow> gs_status s = GoalActive \<longrightarrow>
     bl_turns (gs_limits s) = Some L \<and> 0 \<le> gs_turns s)"

lemma not_over_turns: "\<not> br_over (sn_budget (toSnapshot s t)) \<Longrightarrow> bl_turns (gs_limits s) = Some L \<Longrightarrow> gs_turns s < L"
  by (auto simp: toSnapshot_def Let_def ComputeBudgetReport_def reached_def)

lemma turn_counts:
  assumes "\<forall>c\<in>set (de_before env n @ to_cmds (de_turn env n)). keeps_budget c"
    "gm_state (turn_mode env n m) = Some s" "gs_status s = GoalActive"
  obtains s0 where "gm_state m = Some s0" "gs_status s0 = GoalActive" "gs_limits s = gs_limits s0"
    "gs_turns s = wrap64 (gs_turns s0 + 1)"
proof -
  have t: "\<And>x y z. same_budget x y \<Longrightarrow> same_budget y z \<Longrightarrow> same_budget x z" by (auto simp: same_budget_def)
  have r: "\<And>x. same_budget x x" by (simp add: same_budget_def)
  let ?m1 = "fold goal_exec (de_before env n) m"
  have 1: "carried same_budget m ?m1" using fold_keeps_budget [OF r t] assms(1) by simp
  have 2: "carried same_budget (snd (IncrementTurn (de_clock env n 3) ?m1)) (turn_mode env n m)"
    unfolding turn_mode_def using fold_keeps_budget [OF r t] assms(1) by simp
  from 2 assms(2,3) obtain s2 where s2: "gm_state (snd (IncrementTurn (de_clock env n 3) ?m1)) = Some s2"
    "gs_status s2 = GoalActive" "gs_turns s = gs_turns s2" "gs_limits s = gs_limits s2"
    unfolding carried_def same_budget_def by blast
  then obtain s1 where s1: "gm_state ?m1 = Some s1" "gs_status s1 = GoalActive" "gs_turns s2 = wrap64 (gs_turns s1 + 1)"
    "gs_limits s2 = gs_limits s1"
    by (auto simp: IncrementTurn_def with_active_def Let_def split: option.splits if_splits)
  with 1 obtain s0 where "gm_state m = Some s0" "gs_status s0 = GoalActive" "gs_turns s1 = gs_turns s0" "gs_limits s1 = gs_limits s0"
    unfolding carried_def same_budget_def by blast
  with s1 s2 that show ?thesis by simp
qed

lemma budget_loop:
  assumes "\<forall>n. \<forall>c\<in>set (de_before env n @ to_cmds (de_turn env n)). keeps_budget c"
  shows "budget_ok L d \<Longrightarrow> \<exists>r d'. drive_loop env (Suc (turns_left L d)) n d = Some (r, d') \<and> runs d' \<le> runs d + turns_left L d"
proof (induction "turns_left L d" arbitrary: n d rule: less_induct)
  case less
  obtain r d' where rd: "drive_round env n d = (r, d')" by fastforce
  have left: "0 < turns_left L d" if "GetActiveGoal (de_clock env n 0) (d_mode d) = Some sn" "\<not> br_over (sn_budget sn)" for sn
    using that less.prems not_over_turns by (fastforce simp: active_snapshot turns_left_def budget_ok_def)
  show ?case
  proof (cases "d_canceled d")
    case True
    then show ?thesis by simp
  next
    case nc: False
    show ?thesis
    proof (cases r)
      case (Some x)
      have "runs d' \<le> runs d + turns_left L d"
        using rd
      proof (cases rule: round_cases)
        case (failed sn e d3)
        with left runs_round [OF rd] show ?thesis by fastforce
      next
        case (ended sn d3)
        with left runs_round [OF rd] show ?thesis by fastforce
      qed (use Some in simp_all)
      with Some rd nc show ?thesis by simp
    next
      case None
      from rd obtain sn d3 current where g: "GetActiveGoal (de_clock env n 0) (d_mode d) = Some sn" "\<not> br_over (sn_budget sn)"
        "runTurn env n sn (round_start env n sn d) = (None, d3)"
        "GetActiveGoal (de_clock env n 6) (d_mode d3) = Some current" "\<not> br_over (sn_budget current)"
        "d' = checkStall env (de_clock env n 9) (de_clock env n 10) (de_probe env n) current d3"
        by (cases rule: round_cases) (use None in simp_all)
      obtain s where s: "gm_state (d_mode d3) = Some s" "gs_status s = GoalActive" "current = toSnapshot s (de_clock env n 6)"
        using g(4) by (auto simp: active_snapshot)
      have "gm_state (turn_mode env n (d_mode d)) = Some s" using s(1) turn_result(1) [OF g(3)] by simp
      from turn_counts [OF spec [OF assms] this s(2)] obtain s0 where s0: "gm_state (d_mode d) = Some s0"
        "gs_status s0 = GoalActive" "gs_limits s = gs_limits s0" "gs_turns s = wrap64 (gs_turns s0 + 1)" by blast
      have L: "bl_turns (gs_limits s0) = Some L" "0 \<le> gs_turns s0" "in_int L" using less.prems s0 by (simp_all add: budget_ok_def)
      have lt: "gs_turns s0 < L" using g(1,2) s0 L not_over_turns by (auto simp: active_snapshot)
      then have t: "gs_turns s = gs_turns s0 + 1" using s0(4) L by (simp add: wrap64_id in_int_def max_int_def)
      have "gm_state (d_mode d') = Some s \<or> (\<forall>u. GetActiveGoal u (d_mode d') = None)"
        using check_state [of env "de_clock env n 9" "de_clock env n 10" "de_probe env n" current d3] g(6) s(1) by auto
      then have ok: "budget_ok L d'" and fewer: "turns_left L d' < turns_left L d"
        using L lt t s0 s left [OF g(1,2)]
        by (auto simp: budget_ok_def turns_left_def no_active split: option.split)
      from less.hyps [OF fewer ok, of "Suc n"] obtain x d'' where
        "drive_loop env (Suc (turns_left L d')) (Suc n) d' = Some (x, d'')" "runs d'' \<le> runs d' + turns_left L d'" by blast
      then have "drive_loop env (turns_left L d) (Suc n) d' = Some (x, d'')" "runs d'' \<le> runs d + turns_left L d"
        using loop_mono [of env "Suc (turns_left L d')" "Suc n" d' _ "turns_left L d"] fewer runs_round [OF rd] by auto
      with None rd nc show ?thesis by simp
    qed
  qed
qed

text \<open>C18: A budget of turns is kept: a drive of a goal that may take L turns ends, and it runs the agent at
  most as often as turns are left, whatever the agent does to the goal other than replacing or
  resuming it or changing its budget.\<close>

theorem drive_within_turn_budget:
  assumes "gm_state (d_mode d) = Some s" "bl_turns (gs_limits s) = Some L" "in_int L" "0 \<le> gs_turns s"
    "\<forall>n. \<forall>c\<in>set (de_before env n @ to_cmds (de_turn env n)). keeps_budget c"
  shows "\<exists>r d'. Drive env (Suc (nat (L - gs_turns s))) d = Some (r, d') \<and> runs d' \<le> runs d + nat (L - gs_turns s)"
proof -
  let ?d = "apply_cancel (de_initial env) (d\<lparr>d_driving := True, d_stopSource := [], d_canceled := False\<rparr>)"
  have ok: "budget_ok L ?d" using assms(1-4) by (simp add: budget_ok_def)
  have le: "turns_left L ?d \<le> nat (L - gs_turns s)" using assms(1) by (simp add: turns_left_def)
  have "\<exists>r d'. drive_loop env (Suc (turns_left L ?d)) 0 ?d = Some (r, d') \<and> runs d' \<le> runs ?d + turns_left L ?d"
    by (rule budget_loop) (use assms(5) ok in blast)+
  then obtain r d' where "drive_loop env (Suc (turns_left L ?d)) 0 ?d = Some (r, d')" "runs d' \<le> runs ?d + turns_left L ?d"
    by blast
  then have "drive_loop env (Suc (nat (L - gs_turns s))) 0 ?d = Some (r, d')" "runs d' \<le> runs d + nat (L - gs_turns s)"
    using loop_mono [of env _ 0 ?d _ "Suc (nat (L - gs_turns s))"] le by (fastforce, simp)
  then show ?thesis by (auto simp: Drive_def)
qed

section \<open>How a drive ends\<close>

lemma pause_inactive: "GetActiveGoal u (snd (PauseActiveGoal t t' i a m)) = None"
  by (auto simp: no_active PauseActiveGoal_def with_active_def change_status_def Let_def split: option.splits)

lemma error_ends: "te_busy e \<and> fst (handleTurnError t t' e d) = None \<or>
    \<not> te_busy e \<and> fst (handleTurnError t t' e d) = Some e \<and> GetActiveGoal u (d_mode (snd (handleTurnError t t' e d))) = None"
proof -
  have "d_mode (snd (handleTurnError t t' e d)) = snd (PauseActiveGoal t t'
      \<lparr>ri_reason = Some (let reason = (if te_silent e then PauseSilentStop else mapDriverError e)
         in if reason = PauseRunawayLoop then reason @ '': '' @ te_text e else reason), ri_expectation = None\<rparr> ActorRuntime (d_mode d))"
    if "\<not> te_busy e" using that by (simp add: handleTurnError_def Let_def split: prod.split option.split)
  then show ?thesis using pause_inactive by (auto simp: handleTurnError_def Let_def split: prod.split)
qed

lemma loop_ends:
  assumes "drive_loop env rounds n d = Some (r, d')"
  shows "(\<forall>u. GetActiveGoal u (d_mode d') = None) \<or> r = Some context_canceled \<or>
    r = None \<and> (\<exists>n e. to_error (de_turn env n) = Some e \<and> te_busy e)"
  using assms
proof (induction rounds arbitrary: n d)
  case (Suc rounds)
  obtain x d1 where rd: "drive_round env n d = (x, d1)" by fastforce
  show ?case
  proof (cases "d_canceled d")
    case True
    with Suc.prems show ?thesis by simp
  next
    case nc: False
    show ?thesis
    proof (cases x)
      case None
      with nc rd Suc show ?thesis by simp
    next
      case (Some y)
      with nc rd Suc.prems have y: "y = r" "d1 = d'" by simp_all
      from rd show ?thesis
      proof (cases rule: round_cases)
        case (failed sn e d3)
        have "to_error (de_turn env n) = Some e \<or> e = silent_stop"
          using failed(3) by (auto simp: runTurn_def Let_def checkSilentStop_def split: prod.splits option.splits if_splits)
        then have "te_busy e \<Longrightarrow> to_error (de_turn env n) = Some e" by (auto simp: silent_stop_def)
        then have busy: "to_error (de_turn env n) = Some e" if "te_busy e" using that by simp
        have res: "r = fst (handleTurnError (de_clock env n 4) (de_clock env n 5) e d3)"
          "d' = snd (handleTurnError (de_clock env n 4) (de_clock env n 5) e d3)"
          using failed y Some by auto
        show ?thesis
        proof (cases "te_busy e")
          case True
          with error_ends [of e "de_clock env n 4" "de_clock env n 5" d3] have "r = None" by (simp add: res)
          with busy [OF True] True show ?thesis by blast
        next
          case False
          with error_ends [of e "de_clock env n 4" "de_clock env n 5" d3] have "GetActiveGoal u (d_mode d') = None" for u
            by (simp add: res no_active)
          then show ?thesis by simp
        qed
      next
        case (ended sn d3)
        then have "GetActiveGoal u (d_mode d1) = None" for u using block_inactive by (auto simp: no_active)
        with y show ?thesis by simp
      next
        case (over sn)
        then have "GetActiveGoal u (d_mode d1) = None" for u using block_inactive by (auto simp: no_active)
        with y show ?thesis by simp
      next
        case idle
        then show ?thesis using y by (auto simp: no_active)
      qed (use Some in simp)
    qed
  qed
qed simp


section \<open>The invariant of the engine\<close>

definition engine_ok :: "goal_mode \<Rightarrow> bool" where
  "engine_ok m \<longleftrightarrow> mode_ok m \<and> in_int (gm_maxFailures m)"

lemma engine_exec: "engine_ok m \<Longrightarrow> engine_ok (goal_exec c m)"
  by (cases c) (simp add: engine_ok_def goal_exec_ok)

lemma engine_fold: "engine_ok m \<Longrightarrow> engine_ok (fold goal_exec cs m)"
  by (induction cs arbitrary: m) (simp_all add: engine_exec)

lemma engine_parts:
  "engine_ok m \<Longrightarrow> engine_ok (snd (IncrementTurn t m))" "engine_ok m \<Longrightarrow> engine_ok (snd (PauseActiveGoal t t' i a m))"
  "engine_ok m \<Longrightarrow> engine_ok (snd (MarkBlocked t t' i a m))" "engine_ok m \<Longrightarrow> engine_ok (TrackStall k m)"
  using engine_exec [of m "(t, t', GTurn)"] engine_exec [of m "(t, t', GPauseActive i a)"] engine_exec [of m "(t, t', GBlocked i a)"]
  by (simp_all add: engine_ok_def mode_ok_def TrackStall_def)

lemma engine_block: "engine_ok (d_mode d) \<Longrightarrow> engine_ok (d_mode (block t t' r e d))"
  by (simp add: block_def engine_parts)

lemma engine_round:
  assumes "drive_round env n d = (r, d')" "engine_ok (d_mode d)"
  shows "engine_ok (d_mode d')"
proof -
  have t: "engine_ok (d_mode d3)" if "runTurn env n sn (round_start env n sn d) = (e, d3)" for sn e d3
    unfolding turn_result(1) [OF that] turn_mode_def by (intro engine_fold engine_parts assms(2))
  have h: "engine_ok (d_mode x) \<Longrightarrow> engine_ok (d_mode (snd (handleTurnError u u' e x)))" for u u' e x
    using engine_parts(2) [of "d_mode x"] by (auto simp: handleTurnError_def Let_def split: prod.splits option.split) (metis snd_conv)+
  have c: "engine_ok (d_mode x) \<Longrightarrow> engine_ok (d_mode (checkStall env u u' fp sn x))" for u u' fp sn x
    by (simp add: checkStall_def Let_def engine_parts engine_block)
  from assms(1) show ?thesis
    by (cases rule: round_cases) (auto simp: assms(2) round_open_def intro!: engine_block engine_fold h c dest!: t)
qed

text \<open>Driving a goal keeps the invariant of the goal engine (see goal_session_invariant): the goal is
  never left complete, only an active goal has a pending verification, its todos have distinct
  identifiers.\<close>

theorem drive_keeps_goal_ok:
  assumes "mode_ok (d_mode d)" "in_int (gm_maxFailures (d_mode d))" "Drive env rounds d = Some (r, d')"
  shows "mode_ok (d_mode d')"
proof -
  have "engine_ok (d_mode d) \<Longrightarrow> drive_loop env rounds n d = Some (r, d') \<Longrightarrow> engine_ok (d_mode d')" for rounds n d d'
  proof (induction rounds arbitrary: n d)
    case (Suc rounds)
    obtain x d1 where rd: "drive_round env n d = (x, d1)" by fastforce
    with engine_round have "engine_ok (d_mode d1)" using Suc.prems by blast
    with rd Suc.prems Suc.IH [of d1] show ?case by (auto split: if_splits option.splits)
  qed simp
  from this [of "apply_cancel (de_initial env) (d\<lparr>d_driving := True, d_stopSource := [], d_canceled := False\<rparr>)" rounds 0]
  show ?thesis using assms by (auto simp: Drive_def engine_ok_def drive_end_def Let_def split: if_splits)
qed

end
