(* ===== verification/Drive_Findings.thy ===== *)
theory Drive_Findings
  imports Goal_Progress
begin

text \<open>
  The properties of the drive loop at concrete goals, and the places where the loop does something else than
  its documentation says.
\<close>

section \<open>Drives of a small goal\<close>

definition idle_turn :: turn_outcome where
  "idle_turn = \<lparr>to_cmds = [], to_error = None, to_silent = False, to_cancel = NoCancel\<rparr>"

definition demo_env :: driver_env where
  "demo_env = \<lparr>de_agent = True, de_freshRunner = False, de_canReset = True, de_overlays = True, de_onCancel = False,
     de_watch = True, de_stallTurns = 1, de_clock = (\<lambda>n i. 20), de_before = (\<lambda>n. []), de_turn = (\<lambda>n. idle_turn),
     de_probe = (\<lambda>n. ''same''), de_initial = NoCancel\<rparr>"

definition new_driver :: "goal_mode \<Rightarrow> driver" where
  "new_driver m = \<lparr>d_mode = m, d_driving = False, d_canceled = False, d_stopSource = [], d_freshBegun = [],
     d_stallGoal = [], d_lastFP = [], d_stale = 0, d_challenges = 0, d_runaway = [], d_overlay = [], d_acts = []\<rparr>"

definition two_turns :: goal_stage where
  "two_turns = demo_stage\<lparr>gs_limits := no_limits\<lparr>bl_turns := Some 2\<rparr>, gs_pending := False\<rparr>"

lemmas drive_demo_defs = idle_turn_def demo_env_def new_driver_def two_turns_def demo_mode_def demo_stage_def
  NewGoalMode_def no_limits_def


theorem drive_within_turn_budget_witness:
  "\<exists>r d'. Drive demo_env 3 (new_driver (demo_mode\<lparr>gm_state := Some two_turns\<rparr>)) = Some (r, d') \<and> runs d' \<le> 2"
  using drive_within_turn_budget [of "new_driver (demo_mode\<lparr>gm_state := Some two_turns\<rparr>)" two_turns 2 demo_env]
  by (simp add: drive_demo_defs in_int_def max_int_def runs_def numeral_eq_Suc)

text \<open>An agent whose turn fails.\<close>

definition refused :: "string \<Rightarrow> turn_error" where
  "refused msg = \<lparr>te_busy = False, te_silent = False, te_canceled = False, te_text = msg\<rparr>"

definition failing_env :: "turn_error \<Rightarrow> driver_env" where
  "failing_env e = demo_env\<lparr>de_turn := (\<lambda>n. idle_turn\<lparr>to_error := Some e\<rparr>)\<rparr>"

lemmas drive_eval = Drive_def drive_round_eq round_start_def round_open_def runTurn_def turnPrompt_def syncTeamOverlay_def
  checkSilentStop_def handleTurnError_def drive_end_def act_def numeral_eq_Suc Let_def

lemma failing_drive:
  "\<not> te_busy e \<Longrightarrow> \<exists>d'. Drive (failing_env e) (Suc 0) (new_driver demo_mode) = Some (Some e, d')"
  by (simp add: drive_eval failing_env_def drive_demo_defs GetActiveGoal_def toSnapshot_def ComputeBudgetReport_def
      reached_def trim_space_def split: prod.split option.split)


theorem drive_keeps_goal_ok_witness:
  "\<exists>d'. Drive (failing_env (refused ''boom'')) (Suc 0) (new_driver demo_mode) = Some (Some (refused ''boom''), d') \<and>
     mode_ok (d_mode d')"
proof -
  obtain d' where d: "Drive (failing_env (refused ''boom'')) (Suc 0) (new_driver demo_mode) = Some (Some (refused ''boom''), d')"
    using failing_drive [of "refused ''boom''"] by (auto simp: refused_def)
  have "mode_ok (d_mode (new_driver demo_mode))" "in_int (gm_maxFailures (d_mode (new_driver demo_mode)))"
    by (simp_all add: drive_demo_defs mode_ok_def stage_ok_def in_int_def max_int_def)
  from drive_keeps_goal_ok [OF this d] d show ?thesis by simp
qed

section \<open>The overlay of a team\<close>

text \<open>A round with a goal of a team ends with the overlay of the team in place, also when the goal ended in its
  turn: then the loop returns, and nothing takes the overlay away.\<close>

theorem overlay_outlives_goal:
  assumes "de_overlays env" "GetActiveGoal (de_clock env n 0) (d_mode d) = Some sn" "trim_space (sn_team sn) \<noteq> []"
  shows "d_overlay (snd (drive_round env n d)) = sn_goalID sn"
proof -
  have opened: "d_overlay (round_open env n sn d) = sn_goalID sn"
    using assms by (auto simp: round_open_def syncTeamOverlay_def act_def Let_def)
  have turn: "d_overlay (snd (runTurn env n a x)) = d_overlay x" for a x
    by (cases "to_cancel (de_turn env n)")
      (auto simp: runTurn_def turnPrompt_def act_def Stop_def Let_def split: option.split)
  have rest: "d_overlay (block t t' r e x) = d_overlay x" "d_overlay (snd (handleTurnError t t' y x)) = d_overlay x"
    "d_overlay (checkStall env t t' fp c x) = d_overlay x" for t t' r e x y fp c
    by (auto simp: block_def handleTurnError_def checkStall_def act_def Let_def split: prod.split option.split)
  obtain x d' where r: "drive_round env n d = (x, d')" by fastforce
  then have "d_overlay d' = sn_goalID sn"
  proof (cases rule: round_cases)
    case idle
    with assms show ?thesis by simp
  qed (use assms opened rest turn [of sn "round_start env n sn d"] in \<open>auto simp: round_start_def\<close>)
  with r show ?thesis by simp
qed

section \<open>The prompt after a runaway response\<close>

text \<open>A turn refused because the agent is busy uses up the recovery prompt: the next turn of the goal gets the
  ordinary prompt.\<close>

theorem recovery_prompt_lost:
  assumes "d_runaway d = sn_goalID sn" "to_error (de_turn env n) = Some e" "te_busy e"
  shows "fst (turnPrompt env sn (snd (handleTurnError t t' e (snd (runTurn env n sn d))))) = ContinuationPrompt"
  using assms by (cases "to_cancel (de_turn env n)")
    (auto simp: turnPrompt_def runTurn_def handleTurnError_def act_def Stop_def Let_def)

section \<open>Reasons of a pause\<close>

text \<open>The rules look for parts of words and numbers.\<close>

theorem author_is_no_authentication:
  "mapDriverError (refused ''unknown author'') = PauseAuthError"
  "mapDriverError (refused ''timeout after 4000 ms'') = PauseRequestError"
  by code_simp+

section \<open>Challenges\<close>

text \<open>The second time the watchdog would challenge the agent, it blocks the goal instead.\<close>

theorem one_challenge_only:
  assumes "1 \<le> d_challenges d" "GetActiveGoal u (d_mode d) = Some current"
  shows "d_acts (checkStall env t t' fp current d) = d_acts d"
  using assms by (auto simp: checkStall_def block_def stallChallengeLimit_def Let_def)

end
