(* ===== verification/Goal_Queue.thy ===== *)
theory Goal_Queue
  imports Goal_Model "HOL-Library.Multiset"
begin

text \<open>
  The queue of upcoming goals, core/goal_queue.go and core/goal_queue_cleanup.go. Every method
  reads the whole file, computes the new list and writes it back under one mutex, so the file is
  the list of goals here and a method a function on it; when the file cannot be read or written
  the methods return the error, which is not modelled. \<open>FriendlyNameUnique\<close> of internal/idgen.go
  draws random names: the draws are an argument.
\<close>

section \<open>The queue and its operations\<close>

record upcoming =
  ug_id :: string
  ug_name :: string
  ug_managedBy :: string
  ug_objective :: string
  ug_criterion :: "string option"
  ug_verify :: "string option"
  ug_fresh :: bool
  ug_team :: string
  ug_handoff :: "string option"
  ug_createdAt :: ms
  ug_updatedAt :: ms

record upcoming_input =
  ui_objective :: string
  ui_criterion :: "string option"
  ui_verify :: "string option"
  ui_fresh :: bool
  ui_team :: string
  ui_handoff :: "string option"

datatype queue_err =
    QObjectiveTooLong
  | QHandoverTooLong
  | QNotFound string
  | QBadDirection string
  | QBadPosition int
  | QBadIndex int
  | QItemTwice
  | QIncomplete
  | QBadToken string
  | QBadLetter char

definition names :: "upcoming list \<Rightarrow> string set" where
  "names gs = ug_name ` {g \<in> set gs. ug_name g \<noteq> []}"

text \<open>Sixteen plain draws, 64 with a suffix, and a last one that is not checked.\<close>

definition FriendlyNameUnique :: "(nat \<Rightarrow> string) \<Rightarrow> string set \<Rightarrow> string" where
  "FriendlyNameUnique draws taken =
     (case List.find (\<lambda>n. n \<notin> taken) (map draws [0..<80]) of Some n \<Rightarrow> n | None \<Rightarrow> draws 80)"

definition insertGoal :: "ms \<Rightarrow> string \<Rightarrow> (nat \<Rightarrow> string) \<Rightarrow> upcoming_input \<Rightarrow> bool \<Rightarrow> upcoming list
    \<Rightarrow> queue_err + upcoming list" where
  "insertGoal t qid draws i front gs =
     (if \<not> ValidateObjective (ui_objective i) then Inl QObjectiveTooLong
      else case NormalizeHandover (ui_handoff i) of None \<Rightarrow> Inl QHandoverTooLong
      | Some h \<Rightarrow>
        let item = \<lparr>ug_id = qid, ug_name = FriendlyNameUnique draws (names gs), ug_managedBy = [],
              ug_objective = trim_space (ui_objective i),
              ug_criterion = NormalizeOptionalText (ui_criterion i),
              ug_verify = NormalizeOptionalText (ui_verify i), ug_fresh = ui_fresh i,
              ug_team = trim_space (ui_team i), ug_handoff = h, ug_createdAt = t, ug_updatedAt = t\<rparr>
        in Inr (if front then item # gs else gs @ [item]))"

definition Update :: "ms \<Rightarrow> string \<Rightarrow> string \<Rightarrow> upcoming list \<Rightarrow> queue_err + upcoming list" where
  "Update t i objective gs =
     (if i \<in> ug_id ` set gs
      then Inr (update_first (\<lambda>g. ug_id g = i) (\<lambda>g. g\<lparr>ug_objective := trim_space objective, ug_updatedAt := t\<rparr>) gs)
      else Inl (QNotFound i))"

text \<open>\<open>Remove\<close> drops every goal with the identifier and returns the last of them.\<close>

definition Remove :: "string \<Rightarrow> upcoming list \<Rightarrow> queue_err + (upcoming list \<times> upcoming)" where
  "Remove i gs =
     (case List.find (\<lambda>g. ug_id g = i) (rev gs) of None \<Rightarrow> Inl (QNotFound i)
      | Some g \<Rightarrow> Inr (filter (\<lambda>g. ug_id g \<noteq> i) gs, g))"

definition Clear :: "upcoming list \<Rightarrow> upcoming list \<times> upcoming list" where
  "Clear gs = (gs, [])"

definition swap_at :: "nat \<Rightarrow> nat \<Rightarrow> 'a list \<Rightarrow> 'a list" where
  "swap_at i j xs = xs[i := xs ! j, j := xs ! i]"

definition Move :: "string \<Rightarrow> string \<Rightarrow> upcoming list \<Rightarrow> queue_err + upcoming list" where
  "Move i dir gs = (case index_where (\<lambda>g. ug_id g = i) gs of None \<Rightarrow> Inl (QNotFound i)
     | Some k \<Rightarrow>
        if dir = ''up'' then Inr (if k = 0 then gs else swap_at k (k - 1) gs)
        else if dir = ''down'' then Inr (if k = length gs - 1 then gs else swap_at k (k + 1) gs)
        else Inl (QBadDirection dir))"

definition Restore :: "upcoming \<Rightarrow> upcoming list \<Rightarrow> upcoming list" where
  "Restore g gs = g # gs"

definition CleanupQueue :: "ms \<Rightarrow> int \<Rightarrow> upcoming list \<Rightarrow> nat \<times> upcoming list" where
  "CleanupQueue t days gs =
     (if days \<le> 0 then (0, gs)
      else let old = (\<lambda>g. ug_updatedAt g < t - days * 86400000)
           in (length (filter old gs), filter (\<lambda>g. \<not> old g) gs))"

section \<open>Reordering by a mapping\<close>

text \<open>\<open>parseReorderMapping\<close>: a token is a position in decimal and a letter.\<close>

definition parse_token :: "string \<Rightarrow> queue_err + (int \<times> int)" where
  "parse_token part =
     (if length part < 2 then Inl (QBadToken part)
      else if \<not> list_all is_digit (butlast part) then Inl (QBadToken part)
      else if byte (last part) < 65 \<or> 90 < byte (last part) then Inl (QBadLetter (last part))
      else Inr (foldl (\<lambda>p c. wrap64 (p * 10 + int (byte c - 48))) 0 (butlast part),
                int (byte (last part)) - 65))"

fun parse_tokens :: "string list \<Rightarrow> queue_err + (int \<times> int) list" where
  "parse_tokens [] = Inr []"
| "parse_tokens (p # ps) = (case parse_token p of Inl e \<Rightarrow> Inl e
     | Inr x \<Rightarrow> (case parse_tokens ps of Inl e \<Rightarrow> Inl e | Inr xs \<Rightarrow> Inr (x # xs)))"

text \<open>\<open>sort.Slice\<close> by position; the order of pairs with one position does not matter, they make
  the mapping incomplete.\<close>

definition parseReorderMapping :: "string \<Rightarrow> queue_err + (int \<times> int) list" where
  "parseReorderMapping mapping =
     (let m = filter (\<lambda>c. c \<noteq> CHR '' '') mapping in
      if m = [] then Inr []
      else map_sum id (sort_key fst) (parse_tokens (split_on (CHR '','') m)))"

definition zero_goal :: upcoming where
  "zero_goal = \<lparr>ug_id = [], ug_name = [], ug_managedBy = [], ug_objective = [], ug_criterion = None,
     ug_verify = None, ug_fresh = False, ug_team = [], ug_handoff = None, ug_createdAt = 0,
     ug_updatedAt = 0\<rparr>"

fun place_pairs :: "upcoming list \<Rightarrow> (int \<times> int) list \<Rightarrow> nat list \<Rightarrow> upcoming list
    \<Rightarrow> queue_err + (upcoming list \<times> nat list)" where
  "place_pairs gs [] used res = Inr (res, used)"
| "place_pairs gs ((pos, idx) # ps) used res =
     (if pos < 1 \<or> pos > int (length gs) then Inl (QBadPosition pos)
      else if idx < 0 \<or> idx \<ge> int (length gs) then Inl (QBadIndex idx)
      else if nat idx \<in> set used then Inl QItemTwice
      else place_pairs gs ps (nat idx # used) (res[nat (pos - 1) := gs ! nat idx]))"

fun fill_remaining :: "upcoming list \<Rightarrow> upcoming list \<Rightarrow> queue_err + upcoming list" where
  "fill_remaining rest [] = Inr []"
| "fill_remaining rest (r # rs) =
     (if ug_id r \<noteq> [] then map_sum id (\<lambda>xs. r # xs) (fill_remaining rest rs)
      else case rest of [] \<Rightarrow> Inl QIncomplete
      | x # rest' \<Rightarrow> map_sum id (\<lambda>xs. x # xs) (fill_remaining rest' rs))"

definition unused :: "upcoming list \<Rightarrow> nat list \<Rightarrow> upcoming list" where
  "unused gs used = map (\<lambda>i. gs ! i) (filter (\<lambda>i. i \<notin> set used) [0..<length gs])"

definition applyReorderPairs :: "upcoming list \<Rightarrow> (int \<times> int) list \<Rightarrow> queue_err + upcoming list" where
  "applyReorderPairs gs ps =
     (case place_pairs gs ps [] (replicate (length gs) zero_goal) of Inl e \<Rightarrow> Inl e
      | Inr (res, used) \<Rightarrow> fill_remaining (unused gs used) res)"

definition ReorderByMapping :: "string \<Rightarrow> upcoming list \<Rightarrow> queue_err + upcoming list" where
  "ReorderByMapping mapping gs =
     (if gs = [] then Inr []
      else case parseReorderMapping mapping of Inl e \<Rightarrow> Inl e
      | Inr ps \<Rightarrow> applyReorderPairs gs ps)"

section \<open>A reordering is a permutation\<close>

abbreviation filled :: "upcoming list \<Rightarrow> upcoming list" where
  "filled res \<equiv> filter (\<lambda>g. ug_id g \<noteq> []) res"

lemma filled_update:
  assumes "i < length res" "ug_id g \<noteq> []"
  shows "mset (filled (res[i := g])) \<subseteq># add_mset g (mset (filled res))"
    and "length (filled (res[i := g])) \<le> Suc (length (filled res))"
    and "ug_id (res ! i) \<noteq> [] \<Longrightarrow> length (filled (res[i := g])) = length (filled res)"
proof -
  have r: "res = take i res @ (res ! i) # drop (Suc i) res" using assms(1) by (rule id_take_nth_drop)
  have u: "res[i := g] = take i res @ g # drop (Suc i) res" using assms(1) by (rule upd_conv_take_nth_drop)
  show "mset (filled (res[i := g])) \<subseteq># add_mset g (mset (filled res))"
    unfolding u by (subst (2) r) (use assms(2) in \<open>simp add: subset_mset.add_mono\<close>)
  show "length (filled (res[i := g])) \<le> Suc (length (filled res))"
    unfolding u by (subst (2) r) (use assms(2) in simp)
  show "ug_id (res ! i) \<noteq> [] \<Longrightarrow> length (filled (res[i := g])) = length (filled res)"
    unfolding u by (subst (3) r) (use assms(2) in simp)
qed

lemma place_pairs_inv:
  assumes "place_pairs gs ps used res = Inr (res', used')" "length res = length gs"
    and "\<forall>g\<in>set gs. ug_id g \<noteq> []" "distinct used" "set used \<subseteq> {..<length gs}"
    and "mset (filled res) \<subseteq># image_mset ((!) gs) (mset used)"
  shows "length res' = length gs \<and> distinct used' \<and> set used' \<subseteq> {..<length gs} \<and>
    length used' = length used + length ps \<and> mset (filled res') \<subseteq># image_mset ((!) gs) (mset used') \<and>
    length (filled res') \<le> length (filled res) + length ps"
  using assms
proof (induction gs ps used res arbitrary: res' used' rule: place_pairs.induct)
  case (2 gs pos idx ps used res)
  let ?i = "nat (pos - 1)" and ?g = "gs ! nat idx"
  from "2.prems"(1) have b: "\<not> (pos < 1 \<or> pos > int (length gs))" "\<not> (idx < 0 \<or> idx \<ge> int (length gs))"
    "nat idx \<notin> set used" "place_pairs gs ps (nat idx # used) (res[?i := ?g]) = Inr (res', used')"
    by (auto split: if_splits)
  have i: "?i < length res" using b(1) "2.prems"(2) by auto
  have n: "nat idx < length gs" using b(2) by auto
  have g: "ug_id ?g \<noteq> []" using "2.prems"(3) n by simp
  have sub: "mset (filled (res[?i := ?g])) \<subseteq># image_mset ((!) gs) (mset (nat idx # used))"
    using subset_mset.order_trans [OF filled_update(1) [OF i g]] "2.prems"(6) by simp
  have "length res' = length gs \<and> distinct used' \<and> set used' \<subseteq> {..<length gs} \<and>
    length used' = length (nat idx # used) + length ps \<and> mset (filled res') \<subseteq># image_mset ((!) gs) (mset used') \<and>
    length (filled res') \<le> length (filled (res[?i := ?g])) + length ps"
    by (rule "2.IH" [OF b(1,2,3,4)]) (use "2.prems" b(3) n sub in auto)
  with filled_update(2) [OF i g] show ?case by simp
qed simp

lemma place_pairs_grow:
  assumes "place_pairs gs ps used res = Inr (res', used')" "length res = length gs"
    and "\<forall>g\<in>set gs. ug_id g \<noteq> []"
  shows "length (filled res') \<le> length (filled res) + length ps"
  using assms
proof (induction gs ps used res arbitrary: res' used' rule: place_pairs.induct)
  case (2 gs pos idx ps used res)
  let ?i = "nat (pos - 1)" and ?g = "gs ! nat idx"
  from "2.prems"(1) have b: "\<not> (pos < 1 \<or> pos > int (length gs))" "\<not> (idx < 0 \<or> idx \<ge> int (length gs))"
    "nat idx \<notin> set used" "place_pairs gs ps (nat idx # used) (res[?i := ?g]) = Inr (res', used')"
    by (auto split: if_splits)
  have i: "?i < length res" and g: "ug_id ?g \<noteq> []" using b(1,2) "2.prems"(2,3) by auto
  have "length (filled res') \<le> length (filled (res[?i := ?g])) + length ps"
    by (rule "2.IH" [OF b]) (use "2.prems"(2,3) in simp_all)
  with filled_update(2) [OF i g] show ?case by simp
qed simp

text \<open>When every pair filled a new position, later pairs did not overwrite earlier ones.\<close>

lemma place_pairs_kept:
  assumes "place_pairs gs ps used res = Inr (res', used')" "length res = length gs"
    and "\<forall>g\<in>set gs. ug_id g \<noteq> []" "length (filled res') = length (filled res) + length ps"
  shows "(\<forall>(pos, idx)\<in>set ps. res' ! nat (pos - 1) = gs ! nat idx \<and> ug_id (res' ! nat (pos - 1)) \<noteq> [] \<and>
      nat (pos - 1) < length gs) \<and>
    (\<forall>i<length gs. ug_id (res ! i) \<noteq> [] \<longrightarrow> res' ! i = res ! i)"
  using assms
proof (induction gs ps used res arbitrary: res' used' rule: place_pairs.induct)
  case (2 gs pos idx ps used res)
  let ?i = "nat (pos - 1)" and ?g = "gs ! nat idx"
  from "2.prems"(1) have b: "\<not> (pos < 1 \<or> pos > int (length gs))" "\<not> (idx < 0 \<or> idx \<ge> int (length gs))"
    "nat idx \<notin> set used" "place_pairs gs ps (nat idx # used) (res[?i := ?g]) = Inr (res', used')"
    by (auto split: if_splits)
  have i: "?i < length res" using b(1) "2.prems"(2) by auto
  have n: "nat idx < length gs" using b(2) by auto
  have g: "ug_id ?g \<noteq> []" using "2.prems"(3) n by simp
  have "length (filled res') \<le> length (filled (res[?i := ?g])) + length ps"
    by (rule place_pairs_grow [OF b(4)]) (use "2.prems"(2,3) in simp_all)
  then have blank: "ug_id (res ! ?i) = []" "length (filled res') = length (filled (res[?i := ?g])) + length ps"
    using filled_update(2,3) [OF i g] "2.prems"(4) by fastforce+
  from "2.IH" [OF b(1,2,3,4) _ _ blank(2)] "2.prems"(2,3)
  have ih: "\<forall>(pos, idx)\<in>set ps. res' ! nat (pos - 1) = gs ! nat idx \<and> ug_id (res' ! nat (pos - 1)) \<noteq> [] \<and> nat (pos - 1) < length gs"
    "\<forall>k<length gs. ug_id (res[?i := ?g] ! k) \<noteq> [] \<longrightarrow> res' ! k = res[?i := ?g] ! k" by auto
  have "res' ! ?i = ?g" using ih(2) i g "2.prems"(2) by auto
  moreover have "res' ! k = res ! k" if "k < length gs" "ug_id (res ! k) \<noteq> []" for k
    using ih(2) that blank(1) by (cases "k = ?i") auto
  ultimately show ?case using ih(1) g i "2.prems"(2) by auto
qed simp

lemma fill_remaining_mset:
  assumes "fill_remaining rest res = Inr xs"
  shows "length xs = length res \<and> length (filter (\<lambda>g. ug_id g = []) res) \<le> length rest \<and>
    mset xs = mset (filled res) + mset (take (length (filter (\<lambda>g. ug_id g = []) res)) rest) \<and>
    (\<forall>i<length res. ug_id (res ! i) \<noteq> [] \<longrightarrow> xs ! i = res ! i)"
  using assms
proof (induction rest res arbitrary: xs rule: fill_remaining.induct)
  case (2 rest r rs)
  show ?case
  proof (cases "ug_id r = []")
    case False
    with "2.prems" obtain ys where ys: "fill_remaining rest rs = Inr ys" "xs = r # ys"
      by (cases "fill_remaining rest rs") auto
    from "2.IH"(1) [OF False ys(1)] ys False show ?thesis by (auto simp: less_Suc_eq_0_disj)
  next
    case True
    with "2.prems" obtain x rest' where rest: "rest = x # rest'" by (cases rest) auto
    with True "2.prems" obtain ys where ys: "fill_remaining rest' rs = Inr ys" "xs = x # ys"
      by (cases "fill_remaining rest' rs") auto
    from "2.IH"(2) [OF _ rest ys(1)] ys True rest show ?thesis by (auto simp: less_Suc_eq_0_disj)
  qed
qed simp

lemma unused_mset:
  assumes "distinct used" "set used \<subseteq> {..<length gs}"
  shows "mset (unused gs used) + image_mset ((!) gs) (mset used) = mset gs"
    and "length (unused gs used) + length used = length gs"
proof -
  have "mset (filter (\<lambda>i. i \<notin> set used) [0..<length gs]) + mset used = mset [0..<length gs]"
  proof -
    have "mset used = mset (filter (\<lambda>i. i \<in> set used) [0..<length gs])"
    proof -
      have "set used = set (filter (\<lambda>i. i \<in> set used) [0..<length gs])" using assms(2) by auto
      then show ?thesis using assms(1) by (metis distinct_filter distinct_upt set_eq_iff_mset_eq_distinct)
    qed
    then show ?thesis by (metis mset_filter multiset_partition add.commute)
  qed
  then have "image_mset ((!) gs) (mset (filter (\<lambda>i. i \<notin> set used) [0..<length gs])) + image_mset ((!) gs) (mset used) =
      image_mset ((!) gs) (mset [0..<length gs])" by (metis image_mset_union)
  moreover have "image_mset ((!) gs) (mset [0..<length gs]) = mset gs" by (metis map_nth mset_map)
  ultimately show m: "mset (unused gs used) + image_mset ((!) gs) (mset used) = mset gs"
    by (simp add: unused_def)
  from arg_cong [OF m, of size] show "length (unused gs used) + length used = length gs" by simp
qed

text \<open>A mapping that is accepted permutes the queue: no queued goal is lost or duplicated, and the
  goal of every letter stands at its position.\<close>

theorem reorder_mapping_permutes:
  assumes "\<forall>g\<in>set gs. ug_id g \<noteq> []" "gs \<noteq> []"
    and "ReorderByMapping mapping gs = Inr xs" "parseReorderMapping mapping = Inr ps"
  shows "mset xs = mset gs \<and> (\<forall>(pos, idx)\<in>set ps. xs ! nat (pos - 1) = gs ! nat idx)"
proof -
  let ?zero = "replicate (length gs) zero_goal"
  from assms obtain res used where pl: "place_pairs gs ps [] ?zero = Inr (res, used)"
    and fl: "fill_remaining (unused gs used) res = Inr xs"
    by (auto simp: ReorderByMapping_def applyReorderPairs_def split: sum.splits)
  have z: "filled ?zero = []" by (simp add: zero_goal_def filter_empty_conv)
  have inv: "length res = length gs" "distinct used" "set used \<subseteq> {..<length gs}" "length used = length ps"
    "mset (filled res) \<subseteq># image_mset ((!) gs) (mset used)" "length (filled res) \<le> length ps"
    using place_pairs_inv [OF pl _ assms(1)] by (auto simp: z)
  note u = unused_mset [OF inv(2,3)]
  note f = fill_remaining_mset [OF fl]
  let ?k = "length (filter (\<lambda>g. ug_id g = []) res)"
  have split: "length (filled res) + ?k = length res"
    using sum_length_filter_compl [of "\<lambda>g. ug_id g \<noteq> []" res] by simp
  have full: "length (filled res) = length ps" "?k = length (unused gs used)"
    using split f u(2) inv(1,4,6) by auto
  have "mset (filled res) = image_mset ((!) gs) (mset used)"
    using inv(5) full(1) inv(4) by (metis mset_subset_size nless_le size_image_mset size_mset subset_mset.le_less)
  with f full(2) u(1) have ms: "mset xs = mset gs" by (simp add: add.commute)
  have "\<forall>(pos, idx)\<in>set ps. res ! nat (pos - 1) = gs ! nat idx \<and> ug_id (res ! nat (pos - 1)) \<noteq> [] \<and> nat (pos - 1) < length gs"
    using place_pairs_kept [OF pl _ assms(1)] full(1) z by simp
  then have "\<forall>(pos, idx)\<in>set ps. xs ! nat (pos - 1) = gs ! nat idx"
    using f inv(1) by auto
  with ms show ?thesis by blast
qed

definition demo_queued :: "string \<Rightarrow> upcoming" where
  "demo_queued i = zero_goal\<lparr>ug_id := i\<rparr>"

lemmas demo_queue_defs = demo_queued_def zero_goal_def

lemma demo_mapping: "parseReorderMapping ''1B'' = Inr [(1, 1)]"
  by (simp add: parseReorderMapping_def parse_token_def is_digit_def wrap64_def)

theorem reorder_mapping_permutes_witness:
  "\<exists>xs. ReorderByMapping ''1B'' (map demo_queued [''a'', ''b'', ''c'']) = Inr xs \<and>
    mset xs = mset (map demo_queued [''a'', ''b'', ''c'']) \<and> xs ! 0 = demo_queued ''b''"
proof -
  let ?gs = "map demo_queued [''a'', ''b'', ''c'']"
  have "\<exists>xs. ReorderByMapping ''1B'' ?gs = Inr xs"
    by (simp add: ReorderByMapping_def demo_mapping applyReorderPairs_def demo_queue_defs unused_def upt_rec)
  then obtain xs where xs: "ReorderByMapping ''1B'' ?gs = Inr xs" by blast
  from reorder_mapping_permutes [OF _ _ xs demo_mapping] xs show ?thesis
    by (simp add: demo_queue_defs)
qed

section \<open>Names, moves and removals\<close>

lemma mset_swap_at: "i < length xs \<Longrightarrow> j < length xs \<Longrightarrow> mset (swap_at i j xs) = mset xs"
  unfolding swap_at_def by (metis mset_swap)

text \<open>Moving a goal keeps the goals of the queue and changes the places of two neighbours at most;
  removing one takes out exactly the goal that is returned.\<close>

theorem queue_conserves_goals:
  assumes "distinct (map ug_id gs)"
  shows "(\<forall>xs. Move i dir gs = Inr xs \<longrightarrow> mset xs = mset gs) \<and>
    (\<forall>xs g. Remove i gs = Inr (xs, g) \<longrightarrow> mset gs = add_mset g (mset xs) \<and> ug_id g = i)"
proof (intro conjI allI impI)
  fix xs assume mv: "Move i dir gs = Inr xs"
  then obtain k where k: "index_where (\<lambda>g. ug_id g = i) gs = Some k" by (auto simp: Move_def split: option.splits)
  from index_where_Some [OF k] have "k < length gs" by simp
  with mv k show "mset xs = mset gs"
    by (auto simp: Move_def mset_swap_at split: if_splits)
next
  fix xs g assume rm: "Remove i gs = Inr (xs, g)"
  then have xs: "xs = filter (\<lambda>g. ug_id g \<noteq> i) gs" and g: "g \<in> set gs" "ug_id g = i"
    by (auto simp: Remove_def split: option.splits dest!: find_SomeD)
  show "ug_id g = i" by (rule g(2))
  have "mset (filter (\<lambda>g. ug_id g = i) gs) = {#g#}"
    using assms g
  proof (induction gs)
    case (Cons a gs)
    show ?case
    proof (cases "a = g")
      case True
      with Cons.prems have "\<forall>x\<in>set gs. ug_id x \<noteq> i" by (metis distinct.simps(2) imageI list.simps(9) set_map)
      with True Cons.prems show ?thesis by (simp add: filter_empty_conv)
    next
      case False
      with Cons.prems have "g \<in> set gs" "ug_id a \<noteq> i" by (auto simp: image_iff)
      with Cons show ?thesis by simp
    qed
  qed simp
  moreover have "mset (filter (\<lambda>g. ug_id g = i) gs) + mset xs = mset gs"
    unfolding xs by (metis mset_filter multiset_partition)
  ultimately show "mset gs = add_mset g (mset xs)" by (metis add_mset_add_single union_commute)
qed

theorem queue_conserves_goals_witness:
  "\<exists>xs. Move ''b'' ''up'' (map demo_queued [''a'', ''b'']) = Inr xs \<and> mset xs = mset (map demo_queued [''a'', ''b''])"
proof -
  have d: "distinct (map ug_id (map demo_queued [''a'', ''b'']))" by (simp add: demo_queue_defs)
  obtain xs where "Move ''b'' ''up'' (map demo_queued [''a'', ''b'']) = Inr xs"
    by (simp add: Move_def demo_queue_defs)
  with queue_conserves_goals [OF d] show ?thesis by blast
qed

text \<open>A new queued goal gets a name no queued goal has, unless eighty random draws in a row were
  taken.\<close>

theorem friendly_name_fresh:
  assumes "\<exists>k<80. draws k \<notin> taken"
  shows "FriendlyNameUnique draws taken \<notin> taken"
proof (cases "List.find (\<lambda>n. n \<notin> taken) (map draws [0..<80])")
  case None
  with assms show ?thesis by (auto simp: find_None_iff_all)
next
  case (Some n)
  from find_SomeD [OF this] Some show ?thesis by (simp add: FriendlyNameUnique_def)
qed

theorem friendly_name_fresh_witness:
  "FriendlyNameUnique (\<lambda>k. if k = 0 then ''calm.owl'' else ''happy.fox'') {''calm.owl''} \<notin> {''calm.owl''}"
  by (rule friendly_name_fresh) (rule exI [of _ 1], simp)

text \<open>Editing a queued goal does not check its length, although appending does: a goal longer
  than the cap can be stored.\<close>

theorem update_skips_validation:
  assumes "i \<in> ug_id ` set gs" "\<not> ValidateObjective (trim_space objective)"
  shows "\<exists>xs g. Update t i objective gs = Inr xs \<and> g \<in> set xs \<and> ug_id g = i \<and>
    \<not> ValidateObjective (ug_objective g)"
proof -
  let ?f = "\<lambda>g. g\<lparr>ug_objective := trim_space objective, ug_updatedAt := t\<rparr>"
  have "\<exists>g\<in>set (update_first (\<lambda>g. ug_id g = i) ?f gs). ug_id g = i \<and> ug_objective g = trim_space objective"
    using assms(1) by (induction gs) auto
  with assms show ?thesis by (auto simp: Update_def)
qed

theorem update_skips_validation_witness:
  "\<exists>xs g. Update 5 ''a'' (replicate 5000 (CHR ''x'')) [demo_queued ''a''] = Inr xs \<and> g \<in> set xs \<and>
    \<not> ValidateObjective (ug_objective g)"
proof -
  have "trim_space (replicate 5000 (CHR ''x'')) = replicate 5000 (CHR ''x'')" using trim_xs [of 4999] by simp
  then have "\<not> ValidateObjective (trim_space (replicate 5000 (CHR ''x'')))"
    by (simp add: ValidateObjective_def rune_count_def runes_replicate MaxObjectiveLength_def)
  from update_skips_validation [OF _ this, of "''a''" "[demo_queued ''a'']" 5] show ?thesis
    by (auto simp: demo_queue_defs)
qed

end
