(* ===== verification/Loop_Text.thy ===== *)
theory Loop_Text
  imports Go_Strings
begin

text \<open>
  The text analysis of core/loopdetector.go: what counts as code, markup or a structural line in
  streamed reasoning, the canonical form of a prose line and the word count. All functions are
  pure and work on bytes, as in the code.
\<close>

section \<open>White space and words\<close>

definition isSpace :: "char \<Rightarrow> bool" where
  "isSpace c \<longleftrightarrow> byte c \<in> {32, 9, 10, 13, 11, 12}"

text \<open>The local \<open>trimSpace\<close> knows the ASCII white space only.\<close>

definition trimSpace :: "string \<Rightarrow> string" where
  "trimSpace s = rev (dropWhile isSpace (rev (dropWhile isSpace s)))"

definition word_sep :: "char \<Rightarrow> bool" where
  "word_sep c \<longleftrightarrow> byte c \<in> {32, 9, 10, 13}"

text \<open>The loop of \<open>wordCount\<close>: \<open>inWord\<close> and the count so far, which starts at one.\<close>

fun word_loop :: "string \<Rightarrow> bool \<Rightarrow> nat \<Rightarrow> nat" where
  "word_loop [] inWord n = n"
| "word_loop (c # s) inWord n =
     (if word_sep c then word_loop s False n
      else if \<not> inWord then word_loop s True (Suc n) else word_loop s inWord n)"

definition wordCount :: "string \<Rightarrow> nat" where
  "wordCount s = (if s = [] then 0 else word_loop s False 1)"

text \<open>The words of a text: its maximal runs of other bytes.\<close>

fun words_from :: "string \<Rightarrow> string \<Rightarrow> string list" where
  "words_from cur [] = (if cur = [] then [] else [rev cur])"
| "words_from cur (c # s) = (if word_sep c then (if cur = [] then [] else [rev cur]) @ words_from [] s
     else words_from (c # cur) s)"

definition words_of :: "string \<Rightarrow> string list" where "words_of s = words_from [] s"

lemma word_loop_words: "word_loop s (cur \<noteq> []) n + (if cur = [] then 0 else 1) = n + length (words_from cur s)"
proof (induction s arbitrary: cur n)
  case (Cons c s)
  show ?case
  proof (cases "word_sep c")
    case True
    with Cons.IH [of "[]" n] show ?thesis by simp
  next
    case False
    with Cons.IH [of "c # cur" n] Cons.IH [of "c # cur" "Suc n"] show ?thesis by (cases "cur = []") auto
  qed
qed simp

text \<open>The word count of a non-empty text is one more than its number of words, so lines with nine
  words pass a filter that asks for ten.\<close>

theorem wordCount_off_by_one: "wordCount s = (if s = [] then 0 else length (words_of s) + 1)"
  using word_loop_words [of s "[]" 1] by (simp add: wordCount_def words_of_def)

section \<open>Code and tool calls\<close>

definition code_fence :: string where
  "code_fence = bytes [96, 96, 96]"

function stripCodeBlocks :: "string \<Rightarrow> string" where
  "stripCodeBlocks body = (case str_index code_fence body of None \<Rightarrow> body
     | Some st \<Rightarrow> let rest = drop (st + 3) body in
         take st body @ (case str_index code_fence rest of None \<Rightarrow> rest
           | Some en \<Rightarrow> stripCodeBlocks (drop (en + 3) rest)))"
  by pat_completeness auto
termination
proof (relation "measure length")
  fix body st rest en
  assume "str_index code_fence body = Some st" "rest = drop (st + 3) body"
  from str_index_Some [OF this(1)] this(2)
  show "(drop (en + 3) rest, body) \<in> measure length" by (auto simp: code_fence_def bytes_def)
qed simp

declare stripCodeBlocks.simps [simp del]

text \<open>The callers pass two fixed non-empty end tags; with an empty one the loop of the code would
  not end.\<close>

function stripXMLBlock :: "string \<Rightarrow> string \<Rightarrow> string \<Rightarrow> string" where
  "stripXMLBlock tag endTag body = (if endTag = [] then body else
     case str_index tag body of None \<Rightarrow> body
     | Some st \<Rightarrow> (case str_index endTag (drop st body) of None \<Rightarrow> take st body
         | Some en \<Rightarrow> stripXMLBlock tag endTag (take st body @ drop (st + en + length endTag) body)))"
  by pat_completeness auto
termination
proof (relation "measure (\<lambda>(_, _, t). length t)")
  fix tag endTag body :: string and st en
  assume a: "endTag \<noteq> []" "str_index tag body = Some st" "str_index endTag (drop st body) = Some en"
  from str_index_Some [OF a(2)] str_index_Some [OF a(3)] a(1)
  have "st + en + length endTag \<le> length body" "0 < length endTag" by auto
  then show "((tag, endTag, take st body @ drop (st + en + length endTag) body), tag, endTag, body)
      \<in> measure (\<lambda>(_, _, t). length t)" by (cases body) auto
qed simp

declare stripXMLBlock.simps [simp del]

definition isJSONToolCallStart :: "string \<Rightarrow> bool" where
  "isJSONToolCallStart s \<longleftrightarrow> has_prefix ''{\"name\":'' s \<or> has_prefix ''{\"function\":'' s \<or>
     has_prefix ''{\"tool_name\":'' s"

definition countBraceDepth :: "string \<Rightarrow> int" where
  "countBraceDepth s = foldl (\<lambda>d c. if c = CHR ''{'' then d + 1 else if c = CHR ''}'' then d - 1 else d) 0 s"

text \<open>The line loop of \<open>stripJSONToolCalls\<close>: in a block or not, and the brace depth.\<close>

fun json_lines :: "string list \<Rightarrow> bool \<Rightarrow> int \<Rightarrow> string list" where
  "json_lines [] inB d = []"
| "json_lines (l # ls) inB d = (let t = trim_space l in
     if \<not> inB \<and> isJSONToolCallStart t then json_lines ls True (countBraceDepth t)
     else if inB then (let d' = d + countBraceDepth t in json_lines ls (0 < d') d')
     else l # json_lines ls inB d)"

definition stripJSONToolCalls :: "string \<Rightarrow> string" where
  "stripJSONToolCalls body = (let ls = split_on (char_of (10 :: nat)) body in
     if length ls \<le> 1 then body else join_with (bytes [10]) (json_lines ls False 0))"

definition stripToolCallBlocks :: "string \<Rightarrow> string" where
  "stripToolCallBlocks body = stripJSONToolCalls
     (stripXMLBlock ''<function_call>'' ''</function_call>''
       (stripXMLBlock ''<tool_use>'' ''</tool_use>'' body))"

section \<open>Structural lines\<close>

definition isIdentStart :: "char \<Rightarrow> bool" where
  "isIdentStart c \<longleftrightarrow> (97 \<le> byte c \<and> byte c \<le> 122) \<or> (65 \<le> byte c \<and> byte c \<le> 90) \<or> c = CHR ''_''"

definition isIdentCont :: "char \<Rightarrow> bool" where
  "isIdentCont c \<longleftrightarrow> isIdentStart c \<or> is_digit c"

definition isCodeOp :: "char \<Rightarrow> string \<Rightarrow> bool" where
  "isCodeOp b rest =
     (if b = CHR ''('' then True
      else if b = CHR '':'' then (case rest of [] \<Rightarrow> False | c # _ \<Rightarrow> isSpace c \<or> c = CHR ''='')
      else if b = CHR ''='' then (case rest of [] \<Rightarrow> True | c # _ \<Rightarrow> c \<noteq> CHR ''='') else False)"

definition startsWithIdentifierAndCode :: "string \<Rightarrow> bool" where
  "startsWithIdentifierAndCode s = (case s of [] \<Rightarrow> False
     | c # r \<Rightarrow> if \<not> isIdentStart c then False
         else (case dropWhile isSpace (dropWhile isIdentCont r) of [] \<Rightarrow> False
           | b # rest \<Rightarrow> isCodeOp b rest))"

definition code_keywords :: "string list" where
  "code_keywords = [''func '', ''def '', ''class '', ''interface '', ''struct '', ''enum '', ''union '',
     ''typedef '', ''package '', ''import '', ''const '', ''var '', ''public '', ''private '',
     ''protected '', ''static '', ''void '', ''return '', ''if '', ''else '', ''for '', ''while '',
     ''switch '', ''case '', ''default '', ''break '', ''continue '', ''try '', ''catch '',
     ''finally '', ''throw '', ''delete '', ''async '', ''await '', ''function '', ''module '',
     ''export '', ''extends '', ''implements '', ''namespace '', ''include '', ''require '']"

definition structural_start :: "char \<Rightarrow> bool" where
  "structural_start c \<longleftrightarrow> byte c \<in> {123, 125, 91, 93, 40, 41, 60, 62, 34, 39, 96, 47, 92}"

definition isStructuralLine :: "string \<Rightarrow> bool" where
  "isStructuralLine line = (let s = trimSpace line in
     case s of [] \<Rightarrow> False
     | c # _ \<Rightarrow> structural_start c \<or> (\<exists>kw\<in>set code_keywords. has_prefix kw (to_lower s)) \<or>
         startsWithIdentifierAndCode s)"

section \<open>Canonical prose\<close>

text \<open>Letters and digits are kept, blanks and tabs collapse to one blank, the rest is dropped.\<close>

fun prose_loop :: "string \<Rightarrow> bool \<Rightarrow> string" where
  "prose_loop [] lastSpace = []"
| "prose_loop (c # s) lastSpace =
     (if (97 \<le> byte c \<and> byte c \<le> 122) \<or> is_digit c then c # prose_loop s False
      else if byte c = 32 \<or> byte c = 9
        then (if \<not> lastSpace then CHR '' '' # prose_loop s True else prose_loop s True)
      else prose_loop s lastSpace)"

definition normalizeProseLine :: "string \<Rightarrow> string" where
  "normalizeProseLine s = trimSpace (prose_loop (to_lower s) True)"

definition minThinkWordCount :: nat where "minThinkWordCount = 10"

definition processThinkingLine :: "string \<Rightarrow> string" where
  "processThinkingLine line = (let l = trim_space (stripToolCallBlocks (stripCodeBlocks line)) in
     if wordCount l < minThinkWordCount then [] else l)"

end
