(* ===== verification/Loop_Detector.thy ===== *)
theory Loop_Detector
  imports Loop_Text "HOL-Library.AList" "HOL-Library.Multiset"
begin

text \<open>
  The loop detector of core/loopdetector.go: consecutive tool calls, repeated lines of reasoning
  and the diversity of recent prose. Each method runs under the mutex and is one function. A Go
  map from strings to counts is an association list with distinct keys; the truncated SHA-256 of
  \<open>hashInput\<close> is the parameter \<open>hash\<close>.
\<close>

section \<open>Levels\<close>

datatype loop_level = LoopOK | LoopWarning | LoopCritical | LoopInterrupt

fun level_rank :: "loop_level \<Rightarrow> nat" where
  "level_rank LoopOK = 0"
| "level_rank LoopWarning = 1"
| "level_rank LoopCritical = 2"
| "level_rank LoopInterrupt = 3"

instantiation loop_level :: linorder
begin

definition less_eq_loop_level :: "loop_level \<Rightarrow> loop_level \<Rightarrow> bool" where
  "less_eq_loop_level a b \<longleftrightarrow> level_rank a \<le> level_rank b"

definition less_loop_level :: "loop_level \<Rightarrow> loop_level \<Rightarrow> bool" where
  "less_loop_level a b \<longleftrightarrow> level_rank a < level_rank b"

instance
proof
  fix a b c :: loop_level
  show "a < b \<longleftrightarrow> a \<le> b \<and> \<not> b \<le> a" by (auto simp: less_eq_loop_level_def less_loop_level_def)
  show "a \<le> a" by (simp add: less_eq_loop_level_def)
  show "a \<le> b \<Longrightarrow> b \<le> c \<Longrightarrow> a \<le> c" by (simp add: less_eq_loop_level_def)
  show "a \<le> b \<Longrightarrow> b \<le> a \<Longrightarrow> a = b" by (cases a; cases b) (simp_all add: less_eq_loop_level_def)
  show "a \<le> b \<or> b \<le> a" by (auto simp: less_eq_loop_level_def)
qed

end

section \<open>The detector's state\<close>

datatype detect_kind = KThink | KTool | KStream | KStall

type_synonym counts = "(string \<times> nat) list"

record loop_detector =
  ld_streaks :: counts
  ld_lastKey :: string
  ld_warn :: int
  ld_interrupt :: int
  ld_pending :: string
  ld_lineCounts :: counts
  ld_maxRepeat :: nat
  ld_thinkWarn :: int
  ld_thinkInterrupt :: int
  ld_inCode :: bool
  ld_recent :: "string list"
  ld_recentCounts :: counts
  ld_head :: nat
  ld_len :: nat
  ld_full :: bool
  ld_errors :: "bool list"
  ld_errorIdx :: nat
  ld_temp :: "detect_kind \<Rightarrow> bool"
  ld_persist :: "detect_kind \<Rightarrow> bool"
  ld_maxStream :: int
  ld_minStream :: int

record loop_config =
  lc_warn :: int
  lc_interrupt :: int
  lc_thinkWarn :: int
  lc_thinkInterrupt :: int
  lc_disabled :: "detect_kind \<Rightarrow> bool"
  lc_maxStream :: int
  lc_minStream :: int

definition thinkWindowSize :: nat where "thinkWindowSize = 24"
definition thinkMinWindowFill :: nat where "thinkMinWindowFill = 12"
definition thinkMaxDistinctLines :: nat where "thinkMaxDistinctLines = 3"
definition loopErrorHistorySize :: nat where "loopErrorHistorySize = 10"

definition NewLoopDetector :: "loop_config \<Rightarrow> loop_detector" where
  "NewLoopDetector c = \<lparr>ld_streaks = [], ld_lastKey = [], ld_warn = lc_warn c,
     ld_interrupt = lc_interrupt c, ld_pending = [], ld_lineCounts = [], ld_maxRepeat = 0,
     ld_thinkWarn = (if lc_thinkWarn c \<le> 0 then 4 else lc_thinkWarn c),
     ld_thinkInterrupt = (if lc_thinkInterrupt c \<le> 0 then 6 else lc_thinkInterrupt c),
     ld_inCode = False, ld_recent = replicate thinkWindowSize [], ld_recentCounts = [],
     ld_head = 0, ld_len = 0, ld_full = False,
     ld_errors = replicate loopErrorHistorySize False, ld_errorIdx = 0,
     ld_temp = (\<lambda>_. False), ld_persist = lc_disabled c,
     ld_maxStream = (if lc_maxStream c < 2 then 5 else lc_maxStream c),
     ld_minStream = (if lc_minStream c < 8 then 50 else lc_minStream c)\<rparr>"

definition DefaultLoopDetectorConfig :: loop_config where
  "DefaultLoopDetectorConfig = \<lparr>lc_warn = 7, lc_interrupt = 10, lc_thinkWarn = 4,
     lc_thinkInterrupt = 6, lc_disabled = (\<lambda>_. False), lc_maxStream = 5, lc_minStream = 0\<rparr>"

text \<open>Counters in a map: a missing key counts zero.\<close>

definition count_of :: "string \<Rightarrow> counts \<Rightarrow> nat" where
  "count_of k m = (case map_of m k of None \<Rightarrow> 0 | Some n \<Rightarrow> n)"

definition bump :: "string \<Rightarrow> counts \<Rightarrow> counts" where
  "bump k m = AList.update k (Suc (count_of k m)) m"

lemma count_of_bump: "count_of k (bump k' m) = (if k = k' then Suc (count_of k m) else count_of k m)"
  by (simp add: bump_def count_of_def update_conv)

section \<open>Tool calls\<close>

definition Disabled :: "detect_kind \<Rightarrow> loop_detector \<Rightarrow> bool" where
  "Disabled k ld \<longleftrightarrow> ld_temp ld k \<or> ld_persist ld k"

definition tool_key :: "(string \<Rightarrow> string) \<Rightarrow> string \<times> string \<Rightarrow> string" where
  "tool_key hash call = fst call @ '':'' @ hash (snd call)"

definition streak_level :: "loop_detector \<Rightarrow> nat \<Rightarrow> loop_level" where
  "streak_level ld n = (if int n \<ge> ld_interrupt ld then LoopInterrupt
     else if int n \<ge> ld_warn ld then LoopWarning else LoopOK)"

definition RecordToolCall :: "(string \<Rightarrow> string) \<Rightarrow> string \<times> string \<Rightarrow> loop_detector
    \<Rightarrow> loop_level \<times> loop_detector" where
  "RecordToolCall hash call ld =
     (if Disabled KTool ld then (LoopOK, ld)
      else let key = tool_key hash call;
               ld1 = (if key \<noteq> ld_lastKey ld then ld\<lparr>ld_streaks := [], ld_lastKey := key\<rparr> else ld);
               ld2 = ld1\<lparr>ld_streaks := bump key (ld_streaks ld1)\<rparr>
           in (streak_level ld2 (count_of key (ld_streaks ld2)), ld2))"

definition RecordToolResult :: "bool \<Rightarrow> loop_detector \<Rightarrow> loop_detector" where
  "RecordToolResult err ld = ld\<lparr>ld_errors := (ld_errors ld)[ld_errorIdx ld mod length (ld_errors ld) := err],
     ld_errorIdx := Suc (ld_errorIdx ld)\<rparr>"

text \<open>The abstract view: the length of the run of equal keys at the end of the history.\<close>

definition run_length :: "'a list \<Rightarrow> nat" where
  "run_length xs = length (takeWhile (\<lambda>x. x = last xs) (rev xs))"

fun record_calls :: "(string \<Rightarrow> string) \<Rightarrow> (string \<times> string) list \<Rightarrow> loop_detector \<Rightarrow> loop_detector" where
  "record_calls hash [] ld = ld"
| "record_calls hash (c # cs) ld = record_calls hash cs (snd (RecordToolCall hash c ld))"

lemma record_calls_append: "record_calls hash (xs @ ys) ld = record_calls hash ys (record_calls hash xs ld)"
  by (induction xs arbitrary: ld) auto

lemma run_length_snoc:
  "run_length (xs @ [x]) = (if xs \<noteq> [] \<and> last xs = x then Suc (run_length xs) else 1)"
  by (cases xs rule: rev_cases) (simp_all add: run_length_def)

definition streaks_of :: "(string \<Rightarrow> string) \<Rightarrow> (string \<times> string) list \<Rightarrow> loop_detector \<Rightarrow> bool" where
  "streaks_of hash cs ld \<longleftrightarrow> (let ks = map (tool_key hash) cs in
     (cs = [] \<longrightarrow> ld_lastKey ld = [] \<and> ld_streaks ld = []) \<and>
     (cs \<noteq> [] \<longrightarrow> ld_lastKey ld = last ks \<and>
        (\<forall>k. count_of k (ld_streaks ld) = (if k = last ks then run_length ks else 0))))"

lemma tool_key_nonempty [simp]: "tool_key hash c \<noteq> []"
  by (simp add: tool_key_def)

lemma count_of_Nil [simp]: "count_of k [] = 0"
  by (simp add: count_of_def)

lemma streaks_of_step:
  assumes "streaks_of hash cs ld" "\<not> Disabled KTool ld"
  shows "streaks_of hash (cs @ [c]) (snd (RecordToolCall hash c ld))"
proof -
  let ?k = "tool_key hash c" and ?ks = "map (tool_key hash) cs"
  have run: "run_length (?ks @ [?k]) = (if cs \<noteq> [] \<and> last ?ks = ?k then Suc (run_length ?ks) else 1)"
    by (simp add: run_length_snoc)
  show ?thesis
  proof (cases "?k = ld_lastKey ld")
    case True
    with assms(1) have "cs \<noteq> []" "last ?ks = ?k" by (auto simp: streaks_of_def Let_def)
    with assms True run show ?thesis
      by (auto simp: streaks_of_def Let_def RecordToolCall_def count_of_bump)
  next
    case False
    with assms(1) have "cs = [] \<or> last ?ks \<noteq> ?k" by (auto simp: streaks_of_def Let_def)
    with assms False run show ?thesis
      by (auto simp: streaks_of_def Let_def RecordToolCall_def count_of_bump)
  qed
qed

lemma record_call_config [simp]:
  "ld_warn (snd (RecordToolCall hash c ld)) = ld_warn ld"
  "ld_interrupt (snd (RecordToolCall hash c ld)) = ld_interrupt ld"
  "Disabled k (snd (RecordToolCall hash c ld)) = Disabled k ld"
  by (simp_all add: RecordToolCall_def Let_def Disabled_def)

lemma record_calls_streaks:
  "\<not> Disabled KTool ld \<Longrightarrow> ld_lastKey ld = [] \<Longrightarrow> ld_streaks ld = [] \<Longrightarrow>
   streaks_of hash cs (record_calls hash cs ld) \<and> \<not> Disabled KTool (record_calls hash cs ld) \<and>
   ld_warn (record_calls hash cs ld) = ld_warn ld \<and> ld_interrupt (record_calls hash cs ld) = ld_interrupt ld"
proof (induction cs rule: rev_induct)
  case Nil
  then show ?case by (simp add: streaks_of_def Let_def)
next
  case (snoc c cs)
  then show ?case by (simp add: record_calls_append streaks_of_step)
qed

text \<open>After any history of tool calls the level of the next call is decided by the length of the
  run of identical calls it ends: other calls in between start the count again.\<close>

theorem tool_level_is_run_length:
  assumes "\<not> lc_disabled cfg KTool"
  shows "fst (RecordToolCall hash c (record_calls hash cs (NewLoopDetector cfg))) =
    (let n = int (run_length (map (tool_key hash) (cs @ [c]))) in
     if n \<ge> lc_interrupt cfg then LoopInterrupt else if n \<ge> lc_warn cfg then LoopWarning else LoopOK)"
proof -
  let ?ld = "record_calls hash cs (NewLoopDetector cfg)"
  have new: "\<not> Disabled KTool (NewLoopDetector cfg)" "ld_lastKey (NewLoopDetector cfg) = []"
    "ld_streaks (NewLoopDetector cfg) = []"
    using assms by (simp_all add: NewLoopDetector_def Disabled_def)
  note r = record_calls_streaks [OF new, of hash cs]
  have s: "streaks_of hash (cs @ [c]) (snd (RecordToolCall hash c ?ld))"
    using r by (intro streaks_of_step) auto
  then have n: "count_of (tool_key hash c) (ld_streaks (snd (RecordToolCall hash c ?ld))) =
      run_length (map (tool_key hash) (cs @ [c]))"
    by (simp add: streaks_of_def Let_def)
  have "fst (RecordToolCall hash c ?ld) = streak_level ?ld
      (count_of (tool_key hash c) (ld_streaks (snd (RecordToolCall hash c ?ld))))"
    using r by (simp add: RecordToolCall_def Let_def streak_level_def)
  with n r show ?thesis
    by (simp add: streak_level_def Let_def NewLoopDetector_def)
qed

theorem tool_level_is_run_length_witness:
  "fst (RecordToolCall (\<lambda>s. s) (''go'', ''build'')
     (record_calls (\<lambda>s. s) (replicate 6 (''go'', ''build'')) (NewLoopDetector DefaultLoopDetectorConfig))) = LoopWarning"
  using tool_level_is_run_length [of DefaultLoopDetectorConfig "\<lambda>s. s" "(''go'', ''build'')" "replicate 6 (''go'', ''build'')"]
  by (simp add: DefaultLoopDetectorConfig_def run_length_def numeral_eq_Suc)

section \<open>Settings\<close>

definition SetTempOverride :: "detect_kind \<Rightarrow> bool \<Rightarrow> loop_detector \<Rightarrow> loop_detector" where
  "SetTempOverride k b ld = ld\<lparr>ld_temp := (ld_temp ld)(k := b)\<rparr>"

definition SetPersistOverride :: "detect_kind \<Rightarrow> bool \<Rightarrow> loop_detector \<Rightarrow> loop_detector" where
  "SetPersistOverride k b ld = ld\<lparr>ld_persist := (ld_persist ld)(k := b)\<rparr>"

definition TempOverride :: "detect_kind \<Rightarrow> loop_detector \<Rightarrow> bool" where
  "TempOverride k ld = ld_temp ld k"

definition SetStreamMinPeriod :: "int \<Rightarrow> loop_detector \<Rightarrow> loop_detector" where
  "SetStreamMinPeriod n ld = ld\<lparr>ld_minStream := (if n < 8 then 50 else n)\<rparr>"

definition SetStreamMaxRepeats :: "int \<Rightarrow> loop_detector \<Rightarrow> loop_detector" where
  "SetStreamMaxRepeats n ld = ld\<lparr>ld_maxStream := (if n < 2 then 5 else n)\<rparr>"

definition SetLoopThresholds :: "int \<Rightarrow> int \<Rightarrow> loop_detector \<Rightarrow> loop_detector" where
  "SetLoopThresholds w i ld = ld\<lparr>ld_warn := (if 0 < w then w else ld_warn ld),
     ld_interrupt := (if 0 < i then i else ld_interrupt ld)\<rparr>"

definition ResetThinking :: "loop_detector \<Rightarrow> loop_detector" where
  "ResetThinking ld = ld\<lparr>ld_pending := [], ld_lineCounts := [], ld_maxRepeat := 0, ld_inCode := False,
     ld_recent := replicate thinkWindowSize [], ld_recentCounts := [], ld_head := 0, ld_len := 0,
     ld_full := False\<rparr>"

definition Reset :: "loop_detector \<Rightarrow> loop_detector" where
  "Reset ld = ld\<lparr>ld_streaks := [], ld_lastKey := [],
     ld_errors := replicate (length (ld_errors ld)) False, ld_errorIdx := 0,
     ld_pending := [], ld_lineCounts := [], ld_maxRepeat := 0\<rparr>"

end
