(* ===== verification/Loop_Thinking.thy ===== *)
theory Loop_Thinking
  imports Loop_Detector
begin

text \<open>
  The thinking-loop detection of core/loopdetector.go: the sliding window of prose lines, the
  counter of repeated lines, code fences, and the incremental reading of a stream. The theorems
  relate the ring buffer to the last lines pushed, and show that the way a stream is cut into
  deltas does not matter.
\<close>

section \<open>The window of recent lines\<close>

text \<open>\<open>pushRecentLine\<close>: a ring of \<open>thinkWindowSize\<close> lines with the count of each.\<close>

definition unbump :: "string \<Rightarrow> counts \<Rightarrow> counts" where
  "unbump k m = (if count_of k m \<le> 1 then AList.delete k m else AList.update k (count_of k m - 1) m)"

definition pushRecentLine :: "string \<Rightarrow> loop_detector \<Rightarrow> loop_detector" where
  "pushRecentLine norm ld =
     (if ld_len ld = thinkWindowSize
      then let evict = ld_recent ld ! ld_head ld in
        ld\<lparr>ld_recentCounts := bump norm (unbump evict (ld_recentCounts ld)),
           ld_recent := (ld_recent ld)[ld_head ld := norm],
           ld_head := Suc (ld_head ld) mod thinkWindowSize, ld_full := True\<rparr>
      else ld\<lparr>ld_recent := (ld_recent ld)[ld_len ld := norm], ld_len := Suc (ld_len ld),
           ld_recentCounts := bump norm (ld_recentCounts ld),
           ld_full := (if Suc (ld_len ld) \<ge> thinkMinWindowFill then True else ld_full ld)\<rparr>)"

definition singleShortLineLoop :: "loop_detector \<Rightarrow> bool" where
  "singleShortLineLoop ld = (case ld_recentCounts ld of [] \<Rightarrow> False
     | (line, _) # _ \<Rightarrow> wordCount line < minThinkWordCount)"

definition diversityLevel :: "loop_detector \<Rightarrow> loop_level" where
  "diversityLevel ld =
     (if \<not> ld_full ld then LoopOK
      else let distinct = length (ld_recentCounts ld) in
        if distinct = 1 \<and> \<not> singleShortLineLoop ld then LoopOK
        else if distinct \<noteq> 1 \<and> distinct > thinkMaxDistinctLines then LoopOK
        else if ld_len ld \<ge> thinkWindowSize then LoopInterrupt else LoopWarning)"

text \<open>The lines in the window, oldest first.\<close>

definition window :: "loop_detector \<Rightarrow> string list" where
  "window ld = drop (ld_head ld) (take (ld_len ld) (ld_recent ld)) @ take (ld_head ld) (ld_recent ld)"

definition window_ok :: "loop_detector \<Rightarrow> bool" where
  "window_ok ld \<longleftrightarrow> length (ld_recent ld) = thinkWindowSize \<and> ld_len ld \<le> thinkWindowSize \<and>
     ld_head ld < thinkWindowSize \<and> (ld_len ld < thinkWindowSize \<longrightarrow> ld_head ld = 0) \<and>
     distinct (map fst (ld_recentCounts ld)) \<and>
     (\<forall>k. map_of (ld_recentCounts ld) k =
        (if count (mset (window ld)) k = 0 then None else Some (count (mset (window ld)) k))) \<and>
     ld_full ld = (thinkMinWindowFill \<le> ld_len ld)"

definition keep_last :: "nat \<Rightarrow> 'a list \<Rightarrow> 'a list" where
  "keep_last n xs = drop (length xs - n) xs"

lemma count_of_window: "window_ok ld \<Longrightarrow> count_of k (ld_recentCounts ld) = count (mset (window ld)) k"
  by (simp add: window_ok_def count_of_def)

lemma map_of_bump: "map_of (bump k m) = (map_of m)(k \<mapsto> Suc (count_of k m))"
  by (simp add: bump_def update_conv')

lemma map_of_unbump:
  "map_of (unbump k m) = (map_of m)(k := if count_of k m \<le> 1 then None else Some (count_of k m - 1))"
  by (auto simp: unbump_def update_conv' delete_conv')

lemma distinct_bump: "distinct (map fst m) \<Longrightarrow> distinct (map fst (bump k m))"
  by (simp add: bump_def distinct_update)

lemma distinct_unbump: "distinct (map fst m) \<Longrightarrow> distinct (map fst (unbump k m))"
  by (simp add: unbump_def distinct_update distinct_delete)

lemma window_length: "window_ok ld \<Longrightarrow> length (window ld) = ld_len ld"
  by (auto simp: window_ok_def window_def)

lemma window_push_grow:
  assumes "window_ok ld" "ld_len ld < thinkWindowSize"
  shows "window (pushRecentLine norm ld) = window ld @ [norm]"
  using assms by (simp add: window_ok_def window_def pushRecentLine_def take_Suc_conv_app_nth)

lemma window_push_full:
  assumes "window_ok ld" "ld_len ld = thinkWindowSize"
  shows "window ld = ld_recent ld ! ld_head ld # tl (window ld)"
    and "window (pushRecentLine norm ld) = tl (window ld) @ [norm]"
proof -
  let ?h = "ld_head ld" and ?r = "ld_recent ld"
  from assms have h: "?h < length ?r" and l: "length ?r = ld_len ld" "length ?r = thinkWindowSize"
    by (simp_all add: window_ok_def)
  have w: "window ld = drop ?h ?r @ take ?h ?r" using l by (simp add: window_def)
  have d: "drop ?h ?r = ?r ! ?h # drop (Suc ?h) ?r" using h by (simp add: Cons_nth_drop_Suc)
  show "window ld = ?r ! ?h # tl (window ld)" unfolding w d by simp
  have tl: "tl (window ld) = drop (Suc ?h) ?r @ take ?h ?r" unfolding w d by simp
  show "window (pushRecentLine norm ld) = tl (window ld) @ [norm]"
  proof (cases "Suc ?h = thinkWindowSize")
    case True
    with assms l h show ?thesis
      unfolding tl by (simp add: window_def pushRecentLine_def Let_def list_update_append1 upd_conv_take_nth_drop)
  next
    case False
    with assms l h show ?thesis
      unfolding tl by (simp add: window_def pushRecentLine_def Let_def window_ok_def
          take_Suc_conv_app_nth drop_update_cancel)
  qed
qed

lemma push_ok:
  assumes "window_ok ld"
  shows "window_ok (pushRecentLine norm ld)"
proof (cases "ld_len ld = thinkWindowSize")
  case True
  let ?e = "ld_recent ld ! ld_head ld"
  from window_push_full [OF assms True] have w: "mset (window ld) = add_mset ?e (mset (tl (window ld)))"
    "mset (window (pushRecentLine norm ld)) = add_mset norm (mset (tl (window ld)))"
    by (metis mset.simps(2), simp add: window_push_full(2) [OF assms True])
  have c: "map_of (ld_recentCounts ld) k = (if count (mset (window ld)) k = 0 then None else Some (count (mset (window ld)) k))" for k
    using assms by (simp add: window_ok_def)
  have "map_of (bump norm (unbump ?e (ld_recentCounts ld))) k =
      (if count (mset (window (pushRecentLine norm ld))) k = 0 then None
       else Some (count (mset (window (pushRecentLine norm ld))) k))" for k
    unfolding map_of_bump map_of_unbump w(2)
    using c w(1) by (auto simp: count_of_def map_of_unbump)
  with True assms show ?thesis
    by (simp add: window_ok_def pushRecentLine_def Let_def distinct_bump distinct_unbump
        thinkWindowSize_def thinkMinWindowFill_def)
next
  case False
  with assms have lt: "ld_len ld < thinkWindowSize" by (simp add: window_ok_def)
  have w: "window (pushRecentLine norm ld) = window ld @ [norm]" by (rule window_push_grow [OF assms lt])
  have "map_of (bump norm (ld_recentCounts ld)) k =
      (if count (mset (window (pushRecentLine norm ld))) k = 0 then None
       else Some (count (mset (window (pushRecentLine norm ld))) k))" for k
    unfolding map_of_bump w using assms by (auto simp: window_ok_def count_of_def)
  with lt assms show ?thesis
    by (auto simp: window_ok_def pushRecentLine_def distinct_bump)
qed

lemma window_push:
  assumes "window_ok ld"
  shows "window (pushRecentLine norm ld) = keep_last thinkWindowSize (window ld @ [norm])"
proof (cases "ld_len ld = thinkWindowSize")
  case True
  from window_push_full [OF assms True] window_length [OF assms] True
  show ?thesis by (cases "window ld") (simp_all add: keep_last_def thinkWindowSize_def)
next
  case False
  with assms have "ld_len ld < thinkWindowSize" by (simp add: window_ok_def)
  with window_push_grow [OF assms this] window_length [OF assms] show ?thesis
    by (simp add: keep_last_def)
qed

lemma keep_last_push: "keep_last n (keep_last n xs @ [x]) = keep_last n (xs @ [x])"
  by (cases "n \<le> length xs"; cases n) (auto simp: keep_last_def Suc_diff_le Suc_diff_Suc)

lemma window_pushes:
  "window_ok ld \<Longrightarrow> window (fold pushRecentLine xs ld) = (if xs = [] then window ld else keep_last thinkWindowSize (window ld @ xs)) \<and>
   window_ok (fold pushRecentLine xs ld)"
proof (induction xs rule: rev_induct)
  case (snoc x xs)
  then show ?case
    by (auto simp: window_push push_ok keep_last_push simp flip: append_assoc)
qed simp

lemma window_counts_distinct:
  assumes "window_ok ld"
  shows "length (ld_recentCounts ld) = card (set (window ld))"
proof -
  have "set (map fst (ld_recentCounts ld)) = dom (map_of (ld_recentCounts ld))" by (simp add: dom_map_of_conv_image_fst)
  also have "\<dots> = set (window ld)" using assms by (auto simp: window_ok_def dom_def)
  finally have "card (set (map fst (ld_recentCounts ld))) = card (set (window ld))" by simp
  moreover have "distinct (map fst (ld_recentCounts ld))" using assms by (simp add: window_ok_def)
  ultimately show ?thesis by (metis distinct_card length_map)
qed

text \<open>The diversity check looks at exactly the last 24 prose lines: with fewer than 12 lines it is
  silent, with more than three distinct lines it is silent, and when two or three distinct lines
  fill the window it warns, and interrupts once the window is full.\<close>

theorem diversity_of_last_lines:
  assumes "xs \<noteq> []" "d = card (set (keep_last thinkWindowSize xs))" "d \<noteq> 1"
  shows "diversityLevel (fold pushRecentLine xs (NewLoopDetector cfg)) =
    (if length xs < 12 \<or> 3 < d then LoopOK else if length xs < 24 then LoopWarning else LoopInterrupt)"
proof -
  let ?ld = "fold pushRecentLine xs (NewLoopDetector cfg)"
  have new: "window_ok (NewLoopDetector cfg)" "window (NewLoopDetector cfg) = []"
    by (simp_all add: window_ok_def window_def NewLoopDetector_def thinkWindowSize_def thinkMinWindowFill_def)
  from window_pushes [OF new(1), of xs] assms(1) new(2)
  have w: "window ?ld = keep_last thinkWindowSize xs" "window_ok ?ld" by auto
  have len: "ld_len ?ld = min (length xs) 24"
    using window_length [OF w(2)] by (simp add: w(1) keep_last_def thinkWindowSize_def)
  have full: "ld_full ?ld = (12 \<le> ld_len ?ld)"
    using w(2) by (simp add: window_ok_def thinkMinWindowFill_def)
  have "length (ld_recentCounts ?ld) = d" using window_counts_distinct [OF w(2)] by (simp add: w(1) assms(2))
  with assms(3) len full show ?thesis
    by (auto simp: diversityLevel_def Let_def thinkMaxDistinctLines_def thinkWindowSize_def)
qed

theorem diversity_of_last_lines_witness:
  "diversityLevel (fold pushRecentLine (concat (replicate 6 [''let me check'', ''let me read''])) (NewLoopDetector DefaultLoopDetectorConfig)) = LoopWarning"
proof -
  let ?xs = "concat (replicate 6 [''let me check'', ''let me read''])"
  have "set (keep_last thinkWindowSize ?xs) = {''let me check'', ''let me read''}"
    by (auto simp: keep_last_def thinkWindowSize_def numeral_eq_Suc)
  then have "2 = card (set (keep_last thinkWindowSize ?xs))" by simp
  from diversity_of_last_lines [OF _ this] show ?thesis by (simp add: numeral_eq_Suc)
qed

section \<open>Reading the stream\<close>

text \<open>Fences: an odd number of markers on a line flips the block state, the line itself is skipped.\<close>

definition skipCodeFenceLine :: "string \<Rightarrow> loop_detector \<Rightarrow> bool \<times> loop_detector" where
  "skipCodeFenceLine line ld = (let n = str_count code_fence line in
     if n = 0 then (ld_inCode ld, ld)
     else if n mod 2 = 0 then (True, ld)
     else (True, ld\<lparr>ld_inCode := \<not> ld_inCode ld\<rparr>))"

definition trackProseForDiversity :: "string \<Rightarrow> loop_detector \<Rightarrow> loop_detector" where
  "trackProseForDiversity raw ld =
     (let cleaned = trimSpace (stripToolCallBlocks (stripCodeBlocks raw)) in
      if cleaned = [] \<or> isStructuralLine cleaned then ld
      else let norm = normalizeProseLine cleaned in
        if norm = [] \<or> wordCount norm < 5 then ld else pushRecentLine norm ld)"

text \<open>One complete line, already trimmed, of the loop in \<open>RecordThinkingDelta\<close>.\<close>

definition think_line :: "(string \<Rightarrow> string) \<Rightarrow> string \<Rightarrow> loop_detector \<Rightarrow> loop_detector" where
  "think_line hash raw ld =
     (let (skip, ld1) = skipCodeFenceLine raw ld in
      if skip then ld1
      else let ld2 = trackProseForDiversity raw ld1; line = processThinkingLine raw in
        if line = [] \<or> isStructuralLine line then ld2
        else let cs = bump (hash line) (ld_lineCounts ld2)
             in ld2\<lparr>ld_lineCounts := cs, ld_maxRepeat := max (ld_maxRepeat ld2) (count_of (hash line) cs)\<rparr>)"

definition thinkLevel :: "loop_detector \<Rightarrow> loop_level" where
  "thinkLevel ld =
     (let exact = (if int (ld_maxRepeat ld) \<ge> ld_thinkInterrupt ld then LoopInterrupt
        else if int (ld_maxRepeat ld) \<ge> ld_thinkWarn ld then LoopWarning else LoopOK)
      in if diversityLevel ld > exact then diversityLevel ld else exact)"

text \<open>
  The loop takes the complete lines off the pending text one by one; the lines of the code do not
  depend on what is still pending.
\<close>

definition newline :: char where "newline = char_of (10 :: nat)"

definition RecordThinkingDelta :: "(string \<Rightarrow> string) \<Rightarrow> string \<Rightarrow> loop_detector \<Rightarrow> loop_level \<times> loop_detector" where
  "RecordThinkingDelta hash delta ld =
     (if delta = [] \<or> Disabled KThink ld then (LoopOK, ld)
      else let parts = split_on newline (ld_pending ld @ delta);
               ld1 = fold (think_line hash) (map trimSpace (butlast parts)) (ld\<lparr>ld_pending := last parts\<rparr>)
           in (thinkLevel ld1, ld1))"

section \<open>Deltas\<close>

lemma push_frame [simp]:
  "ld_pending (pushRecentLine n ld) = ld_pending ld" "ld_temp (pushRecentLine n ld) = ld_temp ld"
  "ld_persist (pushRecentLine n ld) = ld_persist ld" "ld_lineCounts (pushRecentLine n ld) = ld_lineCounts ld"
  "ld_maxRepeat (pushRecentLine n ld) = ld_maxRepeat ld"
  "pushRecentLine n (ld\<lparr>ld_pending := p\<rparr>) = (pushRecentLine n ld)\<lparr>ld_pending := p\<rparr>"
  by (simp_all add: pushRecentLine_def Let_def)

lemma track_frame [simp]:
  "ld_pending (trackProseForDiversity n ld) = ld_pending ld" "ld_temp (trackProseForDiversity n ld) = ld_temp ld"
  "ld_persist (trackProseForDiversity n ld) = ld_persist ld"
  "ld_lineCounts (trackProseForDiversity n ld) = ld_lineCounts ld"
  "ld_maxRepeat (trackProseForDiversity n ld) = ld_maxRepeat ld"
  "trackProseForDiversity n (ld\<lparr>ld_pending := p\<rparr>) = (trackProseForDiversity n ld)\<lparr>ld_pending := p\<rparr>"
  by (simp_all add: trackProseForDiversity_def Let_def)

lemma think_line_pending: "think_line hash l (ld\<lparr>ld_pending := p\<rparr>) = (think_line hash l ld)\<lparr>ld_pending := p\<rparr>"
  by (simp add: think_line_def skipCodeFenceLine_def Let_def split: prod.split)

lemma think_line_frame [simp]:
  "Disabled k (think_line hash l ld) = Disabled k ld"
  by (simp add: think_line_def skipCodeFenceLine_def Disabled_def Let_def split: prod.split)

lemma think_lines_pending:
  "fold (think_line hash) ls (ld\<lparr>ld_pending := p\<rparr>) = (fold (think_line hash) ls ld)\<lparr>ld_pending := p\<rparr>"
  by (induction ls arbitrary: ld) (simp_all add: think_line_pending)

lemma think_lines_frame [simp]: "Disabled k (fold (think_line hash) ls ld) = Disabled k ld"
  by (induction ls arbitrary: ld) simp_all

lemma split_on_append:
  "split_on c (a @ b) = butlast (split_on c a) @ split_on c (last (split_on c a) @ b)"
proof (induction a)
  case (Cons x a)
  obtain y ys where y: "split_on c a = y # ys" by (cases "split_on c a") auto
  show ?case
  proof (cases "x = c")
    case False
    show ?thesis
    proof (cases ys)
      case Nil
      with Cons y False show ?thesis by (simp split: list.split)
    next
      case (Cons z zs)
      with Cons.IH y False show ?thesis by simp
    qed
  qed (use Cons y in simp)
qed simp

lemma split_on_last_line: "split_on c (last (split_on c a)) = [last (split_on c a)]"
proof (induction a)
  case (Cons x a)
  obtain y ys where y: "split_on c a = y # ys" by (cases "split_on c a") auto
  show ?case
  proof (cases "x = c")
    case False
    with Cons y show ?thesis by (cases ys) (auto split: list.splits)
  qed (use Cons y in simp)
qed simp

text \<open>C29: The way the reasoning stream is cut into deltas does not matter: recording one piece after
  the other leaves the detector in the state, and gives the level, of recording them together.\<close>

theorem delta_boundaries_irrelevant:
  assumes "b \<noteq> []"
  shows "RecordThinkingDelta hash b (snd (RecordThinkingDelta hash a ld)) = RecordThinkingDelta hash (a @ b) ld"
proof (cases "a = [] \<or> Disabled KThink ld")
  case True
  then show ?thesis by (auto simp: RecordThinkingDelta_def)
next
  case False
  let ?pa = "split_on newline (ld_pending ld @ a)"
  let ?ld1 = "fold (think_line hash) (map trimSpace (butlast ?pa)) (ld\<lparr>ld_pending := last ?pa\<rparr>)"
  have p1: "ld_pending ?ld1 = last ?pa" by (simp add: think_lines_pending)
  have s1: "snd (RecordThinkingDelta hash a ld) = ?ld1" using False by (simp add: RecordThinkingDelta_def Let_def)
  have dis: "\<not> Disabled KThink ?ld1" using False by (simp add: Disabled_def think_lines_pending)
      (metis (no_types) Disabled_def think_lines_frame)
  let ?pb = "split_on newline (last ?pa @ b)"
  have parts: "split_on newline (ld_pending ld @ a @ b) = butlast ?pa @ ?pb"
    using split_on_append [of newline "ld_pending ld @ a" b] by simp
  have "fold (think_line hash) (map trimSpace (butlast ?pb)) (?ld1\<lparr>ld_pending := last ?pb\<rparr>) =
      fold (think_line hash) (map trimSpace (butlast (butlast ?pa @ ?pb))) (ld\<lparr>ld_pending := last (butlast ?pa @ ?pb)\<rparr>)"
    by (simp add: think_lines_pending butlast_append)
  then show ?thesis
    unfolding s1 using False assms dis by (simp add: RecordThinkingDelta_def p1 parts Let_def)
qed

theorem delta_boundaries_irrelevant_witness:
  "RecordThinkingDelta (\<lambda>s. s) ''lf'' (snd (RecordThinkingDelta (\<lambda>s. s) ''ha'' (NewLoopDetector DefaultLoopDetectorConfig)))
   = RecordThinkingDelta (\<lambda>s. s) ''half'' (NewLoopDetector DefaultLoopDetectorConfig)"
  using delta_boundaries_irrelevant [of "''lf''" "\<lambda>s. s" "''ha''"] by simp

section \<open>Resetting\<close>

text \<open>The reset for a new session keeps the code-fence state and the prose window: after a stream
  that ended inside a code block the lines of the next session are still skipped, and the level
  of a saturated window is still reported.\<close>

theorem reset_keeps_thinking_state:
  "ld_inCode (Reset ld) = ld_inCode ld \<and> window (Reset ld) = window ld \<and>
   diversityLevel (Reset ld) = diversityLevel ld \<and> diversityLevel ld \<le> thinkLevel (Reset ld)"
proof -
  have d: "diversityLevel (Reset ld) = diversityLevel ld"
    by (simp add: diversityLevel_def singleShortLineLoop_def Reset_def)
  moreover have "diversityLevel ld \<le> thinkLevel (Reset ld)"
    unfolding thinkLevel_def d Let_def by (auto simp: not_less)
  ultimately show ?thesis by (simp add: window_def) (simp add: Reset_def)
qed

end
