(* ===== verification/Perms_Match.thy ===== *)
theory Perms_Match
  imports Go_Strings
begin

text \<open>
  Permission rules (internal/perms: rule.go, matcher.go, engine.go): patterns over tool names,
  their specificity, and the engine that answers with the most specific rule.
\<close>

section \<open>Rules\<close>

type_synonym decision = string

definition DecisionAllow :: decision where "DecisionAllow = ''allow''"
definition DecisionDeny :: decision where "DecisionDeny = ''deny''"
definition DecisionAsk :: decision where "DecisionAsk = ''ask''"

definition IsValidDecision :: "decision \<Rightarrow> bool" where
  "IsValidDecision d \<longleftrightarrow> d \<in> {DecisionAllow, DecisionDeny, DecisionAsk}"

record rule =
  r_pattern :: string
  r_decision :: decision
  r_mode :: string
  r_description :: string

definition IsScopedToMode :: "rule \<Rightarrow> string \<Rightarrow> bool" where
  "IsScopedToMode r mode \<longleftrightarrow> r_mode r = [] \<or> r_mode r = mode"

section \<open>Patterns\<close>

text \<open>The loop of \<open>splitSegments\<close> over the runes of the text; \<open>cur\<close> is the segment begun.\<close>

fun segment_loop :: "string list \<Rightarrow> string \<Rightarrow> string list" where
  "segment_loop [] cur = (if cur = [] then [] else [cur])"
| "segment_loop (r # rs) cur =
     (if r = ''/'' then (if cur = [] then segment_loop rs [] else cur # segment_loop rs [])
      else segment_loop rs (cur @ rune_text r))"

definition splitSegments :: "string \<Rightarrow> string list" where
  "splitSegments s = segment_loop (runes (replace_all ''__'' ''/'' s)) []"

text \<open>\<open>matchDoubleStar\<close> tries the suffixes of the name, the longest first.\<close>

function matchSegments :: "string list \<Rightarrow> string list \<Rightarrow> bool"
  and matchDoubleStar :: "string list \<Rightarrow> string list \<Rightarrow> bool" where
  "matchSegments [] name = (name = [])"
| "matchSegments (p # pat) name =
     (if p = ''*'' then (case name of [] \<Rightarrow> False | _ # name' \<Rightarrow> matchSegments pat name')
      else if p = ''**'' then matchDoubleStar pat name
      else (case name of [] \<Rightarrow> False | n # name' \<Rightarrow> p = n \<and> matchSegments pat name'))"
| "matchDoubleStar pat [] = matchSegments pat []"
| "matchDoubleStar pat (n # name) = (matchSegments pat (n # name) \<or> matchDoubleStar pat name)"
  by pat_completeness auto
termination
  by (relation "measures [\<lambda>x. case x of Inl (pat, _) \<Rightarrow> length pat | Inr (pat, _) \<Rightarrow> length pat,
                          \<lambda>x. case x of Inl _ \<Rightarrow> 0 | Inr (_, name) \<Rightarrow> Suc (length name)]") auto

definition Match :: "string \<Rightarrow> string \<Rightarrow> bool" where
  "Match pat name =
     (if pat = [] then False
      else if pat = ''*'' \<or> pat = ''**'' then True
      else matchSegments (splitSegments pat) (splitSegments name))"

text \<open>What the documentation says of a pattern, as a relation.\<close>

inductive covers :: "string list \<Rightarrow> string list \<Rightarrow> bool" where
  covers_end: "covers [] []"
| covers_one: "covers pat name \<Longrightarrow> covers (''*'' # pat) (n # name)"
| covers_many: "covers pat name \<Longrightarrow> covers (''**'' # pat) (ns @ name)"
| covers_same: "p \<noteq> ''*'' \<Longrightarrow> p \<noteq> ''**'' \<Longrightarrow> covers pat name \<Longrightarrow> covers (p # pat) (p # name)"

inductive_cases covers_NilE: "covers [] name"
inductive_cases covers_ConsE: "covers (p # pat) name"

lemma matchDoubleStar_iff: "matchDoubleStar pat name \<longleftrightarrow> (\<exists>ns name'. name = ns @ name' \<and> matchSegments pat name')"
proof (induction name)
  case (Cons n name)
  show ?case
  proof
    assume "matchDoubleStar pat (n # name)"
    then consider "matchSegments pat (n # name)" | "matchDoubleStar pat name" by auto
    then show "\<exists>ns name'. n # name = ns @ name' \<and> matchSegments pat name'"
    proof cases
      case 1
      then show ?thesis by (metis append_Nil)
    next
      case 2
      with Cons.IH show ?thesis by (metis append_Cons)
    qed
  next
    assume "\<exists>ns name'. n # name = ns @ name' \<and> matchSegments pat name'"
    then obtain ns name' where e: "n # name = ns @ name'" "matchSegments pat name'" by blast
    then show "matchDoubleStar pat (n # name)" using Cons.IH by (cases ns) auto
  qed
qed simp

lemma matchSegments_covers: "matchSegments pat name \<longleftrightarrow> covers pat name"
proof
  show "matchSegments pat name \<Longrightarrow> covers pat name"
  proof (induction pat arbitrary: name)
    case (Cons p pat)
    then show ?case
      by (auto simp: matchDoubleStar_iff split: if_splits list.splits intro: covers.intros)
  qed (auto intro: covers.intros)
  show "covers pat name \<Longrightarrow> matchSegments pat name"
    by (induction rule: covers.induct) (auto simp: matchDoubleStar_iff)
qed

text \<open>C30: A pattern matches a tool name exactly when its segments cover those of the name: a star
  one segment, a double star any number, anything else itself; a lone star matches every name
  and the empty pattern none.\<close>

theorem Match_iff_covers:
  "Match pat name = (pat \<noteq> [] \<and> (pat = ''*'' \<or> pat = ''**'' \<or> covers (splitSegments pat) (splitSegments name)))"
  by (simp add: Match_def matchSegments_covers)

section \<open>The engine\<close>

definition seg_score :: "string \<Rightarrow> nat" where
  "seg_score s = (if s = ''**'' then 0 else if s = ''*'' then 1 else 2)"

definition specificity :: "string \<Rightarrow> nat" where
  "specificity pat = sum_list (map seg_score (splitSegments pat))"

text \<open>\<open>sort.SliceStable\<close> by decreasing specificity.\<close>

definition NewEngine :: "rule list \<Rightarrow> rule list" where
  "NewEngine rules = sort_key (\<lambda>r. - int (specificity (r_pattern r))) rules"

text \<open>The reason names the pattern and the decision of the rule that matched.\<close>

record eval_result =
  er_decision :: decision
  er_reason :: "(string \<times> decision) option"
  er_matched :: bool

definition applies :: "string \<Rightarrow> string \<Rightarrow> rule \<Rightarrow> bool" where
  "applies tool mode r \<longleftrightarrow> IsScopedToMode r mode \<and> Match (r_pattern r) tool"

definition no_rule :: eval_result where
  "no_rule = \<lparr>er_decision = [], er_reason = None, er_matched = False\<rparr>"

definition answer :: "rule \<Rightarrow> eval_result" where
  "answer r = \<lparr>er_decision = r_decision r, er_reason = Some (r_pattern r, r_decision r), er_matched = True\<rparr>"

fun Evaluate :: "rule list \<Rightarrow> string \<Rightarrow> string \<Rightarrow> eval_result" where
  "Evaluate [] tool mode = no_rule"
| "Evaluate (r # rules) tool mode =
     (if \<not> IsScopedToMode r mode then Evaluate rules tool mode
      else if \<not> Match (r_pattern r) tool then Evaluate rules tool mode
      else answer r)"

lemma Evaluate_filter:
  "Evaluate rules tool mode = (case filter (applies tool mode) rules of [] \<Rightarrow> no_rule | r # _ \<Rightarrow> answer r)"
  by (induction rules) (auto simp: applies_def)

text \<open>The head of a stable sort is the first element whose key is minimal.\<close>

lemma sort_key_hd_Cons: "xs \<noteq> [] \<Longrightarrow> \<exists>ys. sort_key k xs = hd (sort_key k xs) # ys"
proof -
  assume "xs \<noteq> []"
  then have "length (sort_key k xs) \<noteq> 0" by simp
  then show ?thesis by (cases "sort_key k xs") simp_all
qed

lemma sort_key_hd:
  assumes "xs \<noteq> []"
  shows "\<exists>as x bs. xs = as @ x # bs \<and> hd (sort_key k xs) = x \<and> (\<forall>y\<in>set as. k x < k y) \<and> (\<forall>y\<in>set bs. k x \<le> k y)"
  using assms
proof (induction xs)
  case (Cons a xs)
  show ?case
  proof (cases "xs = []")
    case False
    with Cons.IH obtain as x bs where ih: "xs = as @ x # bs" "hd (sort_key k xs) = x"
      "\<forall>y\<in>set as. k x < k y" "\<forall>y\<in>set bs. k x \<le> k y" by blast
    obtain ys where ys: "sort_key k xs = x # ys"
      using ih(2) sort_key_hd_Cons [OF False, of k] by auto
    show ?thesis
    proof (cases "k a \<le> k x")
      case True
      then have "hd (sort_key k (a # xs)) = a" using ys by simp
      moreover have "\<forall>y\<in>set xs. k a \<le> k y" using ih True by force
      ultimately show ?thesis by (intro exI [of _ "[]"] exI [of _ a] exI [of _ xs]) simp
    next
      case F: False
      then have "hd (sort_key k (a # xs)) = x" using ys by simp
      with ih F show ?thesis by (intro exI [of _ "a # as"] exI [of _ x] exI [of _ bs]) simp
    qed
  next
    case True
    then show ?thesis by (intro exI [of _ "[]"] exI [of _ a] exI [of _ "[]"]) simp
  qed
qed simp

lemma filter_split:
  "filter P ys = as @ r # bs \<Longrightarrow> \<exists>us vs. ys = us @ r # vs \<and> filter P us = as \<and> P r \<and> filter P vs = bs"
proof (induction ys arbitrary: as)
  case (Cons y ys)
  show ?case
  proof (cases "P y")
    case True
    show ?thesis
    proof (cases as)
      case Nil
      with True Cons.prems show ?thesis by (intro exI [of _ "[]"] exI [of _ ys]) simp
    next
      case (Cons a as')
      with True Cons.prems have "filter P ys = as' @ r # bs" "a = y" by simp_all
      from Cons.IH [OF this(1)] obtain us vs where
        "ys = us @ r # vs" "filter P us = as'" "P r" "filter P vs = bs" by blast
      with True Cons \<open>a = y\<close> show ?thesis by (intro exI [of _ "y # us"] exI [of _ vs]) simp
    qed
  next
    case False
    with Cons.prems have "filter P ys = as @ r # bs" by simp
    from Cons.IH [OF this] obtain us vs where
      "ys = us @ r # vs" "filter P us = as" "P r" "filter P vs = bs" by blast
    with False show ?thesis by (intro exI [of _ "y # us"] exI [of _ vs]) simp
  qed
qed simp

text \<open>The engine answers with the most specific rule that applies to the tool and the mode, the
  one declared first among equals, and with no decision exactly when no rule applies.\<close>

theorem engine_most_specific:
  "if \<exists>r\<in>set rules. applies tool mode r
   then \<exists>as r bs. rules = as @ r # bs \<and> applies tool mode r \<and> Evaluate (NewEngine rules) tool mode = answer r \<and>
      (\<forall>r'\<in>set as. applies tool mode r' \<longrightarrow> specificity (r_pattern r') < specificity (r_pattern r)) \<and>
      (\<forall>r'\<in>set bs. applies tool mode r' \<longrightarrow> specificity (r_pattern r') \<le> specificity (r_pattern r))
   else Evaluate (NewEngine rules) tool mode = no_rule"
proof (cases "\<exists>r\<in>set rules. applies tool mode r")
  case True
  let ?k = "\<lambda>r. - int (specificity (r_pattern r))" and ?f = "filter (applies tool mode) rules"
  have ne: "?f \<noteq> []" using True by (simp add: filter_empty_conv)
  from sort_key_hd [OF ne, of ?k] obtain as r bs where d: "?f = as @ r # bs" "hd (sort_key ?k ?f) = r"
    "\<forall>y\<in>set as. ?k r < ?k y" "\<forall>y\<in>set bs. ?k r \<le> ?k y" by blast
  from filter_split [OF d(1)] obtain us vs where uv: "rules = us @ r # vs" "filter (applies tool mode) us = as"
    "applies tool mode r" "filter (applies tool mode) vs = bs"
    by blast
  have "filter (applies tool mode) (NewEngine rules) = sort_key ?k ?f" by (simp add: NewEngine_def filter_sort)
  moreover obtain ys where "sort_key ?k ?f = r # ys"
    using d(2) sort_key_hd_Cons [OF ne, of ?k] by auto
  ultimately have "Evaluate (NewEngine rules) tool mode = answer r" by (simp add: Evaluate_filter)
  moreover have "\<forall>r'\<in>set us. applies tool mode r' \<longrightarrow> specificity (r_pattern r') < specificity (r_pattern r)"
    using d(3) uv(2) by auto
  moreover have "\<forall>r'\<in>set vs. applies tool mode r' \<longrightarrow> specificity (r_pattern r') \<le> specificity (r_pattern r)"
    using d(4) uv(4) by auto
  ultimately show ?thesis using True uv(1,3) by auto
next
  case False
  then have "filter (applies tool mode) (NewEngine rules) = []" by (simp add: NewEngine_def filter_empty_conv)
  with False show ?thesis by (simp add: Evaluate_filter)
qed

text \<open>A deny rule for one family of tools beats an earlier rule for all of them.\<close>

definition demo_rules :: "rule list" where
  "demo_rules =
     [\<lparr>r_pattern = ''**'', r_decision = DecisionAllow, r_mode = [], r_description = []\<rparr>,
      \<lparr>r_pattern = ''mcp__*'', r_decision = DecisionDeny, r_mode = [], r_description = []\<rparr>]"

lemma demo_match: "Match ''mcp__*'' ''mcp__fs'' \<and> Match ''**'' ''mcp__fs''"
  by code_simp

theorem engine_most_specific_witness:
  "Evaluate (NewEngine demo_rules) ''mcp__fs'' [] = answer (demo_rules ! 1) \<and>
   (\<exists>as r bs. demo_rules = as @ r # bs \<and> Evaluate (NewEngine demo_rules) ''mcp__fs'' [] = answer r)"
proof -
  have "\<exists>r\<in>set demo_rules. applies ''mcp__fs'' [] r"
    using demo_match by (simp add: demo_rules_def applies_def IsScopedToMode_def)
  with engine_most_specific [of demo_rules "''mcp__fs''" "[]"] obtain as r bs where
    "demo_rules = as @ r # bs" "Evaluate (NewEngine demo_rules) ''mcp__fs'' [] = answer r" by auto
  moreover have "specificity ''**'' = 0 \<and> specificity ''mcp__*'' = 3" by code_simp
  then have "Evaluate (NewEngine demo_rules) ''mcp__fs'' [] = answer (demo_rules ! 1)"
    using demo_match by (simp add: demo_rules_def NewEngine_def IsScopedToMode_def)
  ultimately show ?thesis by blast
qed

end
