(* ===== verification/Go_Path.thy ===== *)
theory Go_Path
  imports Go_Strings "HOL-Library.Sublist"
begin

text \<open>
  The part of Go's \<open>path/filepath\<close> (Unix) the modelled code calls. A path is cut at its
  slashes into elements; \<open>Clean\<close> is a stack machine over them. Each definition names the
  library function it stands for; nothing in this theory comes from the repository.
\<close>

section \<open>Elements\<close>

abbreviation slash :: char where "slash \<equiv> CHR 0x2F"
abbreviation dot :: string where "dot \<equiv> [CHR 0x2E]"
abbreviation dotdot :: string where "dotdot \<equiv> [CHR 0x2E, CHR 0x2E]"

definition elems :: "string \<Rightarrow> string list" where
  "elems p = filter (\<lambda>e. e \<noteq> []) (split_on slash p)"

definition IsAbs :: "string \<Rightarrow> bool" where
  "IsAbs p \<longleftrightarrow> has_prefix [slash] p"

text \<open>An element that names something: not empty, no slash, neither dot nor dot-dot.\<close>

definition real_elem :: "string \<Rightarrow> bool" where
  "real_elem e \<longleftrightarrow> e \<noteq> [] \<and> slash \<notin> set e \<and> e \<noteq> dot \<and> e \<noteq> dotdot"

lemma split_on_no_sep: "e \<in> set (split_on c s) \<Longrightarrow> c \<notin> set e"
  by (induction s arbitrary: e) (auto split: if_splits list.splits)

lemma split_on_id [simp]: "c \<notin> set s \<Longrightarrow> split_on c s = [s]"
  by (induction s) auto

lemma split_on_append_sep [simp]: "split_on c (s @ c # t) = split_on c s @ split_on c t"
  by (induction s) (auto split: list.split simp: append_eq_Cons_conv)

lemma split_on_Cons_sep [simp]: "split_on c (c # t) = [] # split_on c t"
  by simp

lemma elems_no_sep: "e \<in> set (elems p) \<Longrightarrow> slash \<notin> set e \<and> e \<noteq> []"
  by (auto simp: elems_def dest: split_on_no_sep)

lemma elems_Nil [simp]: "elems [] = []"
  by (simp add: elems_def)

lemma elems_single [simp]: "slash \<notin> set e \<Longrightarrow> e \<noteq> [] \<Longrightarrow> elems e = [e]"
  by (simp add: elems_def)

lemma elems_append_slash [simp]: "elems (p @ slash # q) = elems p @ elems q"
  by (simp add: elems_def)

lemma elems_slash [simp]: "elems (slash # q) = elems q"
  by (simp add: elems_def)

lemma elems_join:
  "\<forall>e\<in>set es. slash \<notin> set e \<and> e \<noteq> [] \<Longrightarrow> elems (join_with [slash] es) = es"
  by (induction "[slash]" es rule: join_with.induct) auto

section \<open>Clean\<close>

text \<open>One element of \<open>filepath.Clean\<close>; the elements written so far are a stack. In a relative
  path leading dot-dots stay, in a rooted one they disappear.\<close>

definition clean_step :: "bool \<Rightarrow> string \<Rightarrow> string list \<Rightarrow> string list" where
  "clean_step rooted e st =
     (if e = dot then st
      else if e = dotdot then
        (case st of
           [] \<Rightarrow> if rooted then [] else [dotdot]
         | x # st' \<Rightarrow> if x = dotdot then dotdot # st else st')
      else e # st)"

definition clean_elems :: "bool \<Rightarrow> string list \<Rightarrow> string list" where
  "clean_elems rooted es = rev (fold (clean_step rooted) es [])"

definition Clean :: "string \<Rightarrow> string" where
  "Clean p =
     (let es = clean_elems (IsAbs p) (elems p) in
      if IsAbs p then slash # join_with [slash] es
      else if es = [] then dot else join_with [slash] es)"

text \<open>\<open>filepath.Join\<close> of two parts; empty parts are left out.\<close>

definition Join :: "string \<Rightarrow> string \<Rightarrow> string" where
  "Join a b = (if a = [] \<and> b = [] then [] else if a = [] then Clean b
     else if b = [] then Clean a else Clean (a @ slash # b))"

text \<open>\<open>filepath.Abs\<close>, with the working directory (\<open>None\<close>: it cannot be determined).\<close>

definition Abs :: "string option \<Rightarrow> string \<Rightarrow> string option" where
  "Abs cwd p = (if IsAbs p then Some (Clean p) else map_option (\<lambda>d. Join d p) cwd)"

text \<open>
  \<open>filepath.Rel\<close> for an absolute target, the only way the modelled code calls it: an error
  (\<open>None\<close>) when the base is relative, otherwise one dot-dot for every element of the cleaned base
  after the common part, and then the rest of the target.
\<close>

fun strip_common :: "string list \<Rightarrow> string list \<Rightarrow> string list \<times> string list" where
  "strip_common (b # bs) (t # ts) = (if b = t then strip_common bs ts else (b # bs, t # ts))"
| "strip_common bs ts = (bs, ts)"

definition Rel :: "string \<Rightarrow> string \<Rightarrow> string option" where
  "Rel base targ =
     (if \<not> IsAbs base then None
      else let (bs, ts) = strip_common (clean_elems True (elems base)) (clean_elems True (elems targ))
           in Some (if bs = [] \<and> ts = [] then dot
                    else join_with [slash] (map (\<lambda>_. dotdot) bs @ ts)))"

lemma IsAbs_simps [simp]: "IsAbs (slash # p)" "\<not> IsAbs []"
  by (simp_all add: IsAbs_def has_prefix_def)

lemma IsAbs_append [simp]: "a \<noteq> [] \<Longrightarrow> IsAbs (a @ b) = IsAbs a"
  by (cases a) (simp_all add: IsAbs_def has_prefix_def)

lemma clean_step_real [simp]: "real_elem e \<Longrightarrow> clean_step r e st = e # st"
  by (simp add: clean_step_def real_elem_def)

lemma clean_fold_real:
  assumes "\<forall>e\<in>set es. slash \<notin> set e \<and> e \<noteq> []" "\<forall>e\<in>set st. real_elem e"
  shows "\<forall>e\<in>set (fold (clean_step True) es st). real_elem e"
  using assms
proof (induction es arbitrary: st)
  case (Cons e es)
  have "clean_step True e st = (if e = dot then st else if e = dotdot then tl st else e # st)"
    using Cons.prems(2) by (cases st) (simp_all add: clean_step_def real_elem_def)
  moreover have "real_elem e" if "e \<noteq> dot" "e \<noteq> dotdot"
    using that Cons.prems(1) by (simp add: real_elem_def)
  ultimately have "\<forall>x\<in>set (clean_step True e st). real_elem x"
    using Cons.prems(2) by (metis list.set_sel(2) set_ConsD tl_Nil)
  moreover have "\<forall>e\<in>set es. slash \<notin> set e \<and> e \<noteq> []" using Cons.prems(1) by simp
  ultimately show ?case unfolding fold_simps by (intro Cons.IH)
qed simp

lemma clean_elems_real: "e \<in> set (clean_elems True (elems p)) \<Longrightarrow> real_elem e"
proof -
  have "\<forall>e\<in>set (elems p). slash \<notin> set e \<and> e \<noteq> []" using elems_no_sep by blast
  from clean_fold_real [OF this, of "[]"]
  show "e \<in> set (clean_elems True (elems p)) \<Longrightarrow> real_elem e" by (simp add: clean_elems_def)
qed

lemma clean_fold_of_real: "\<forall>e\<in>set es. real_elem e \<Longrightarrow> fold (clean_step r) es st = rev es @ st"
  by (induction es arbitrary: st) auto

lemma elems_Clean_abs: "IsAbs p \<Longrightarrow> elems (Clean p) = clean_elems True (elems p)"
proof -
  assume a: "IsAbs p"
  have "elems (Clean p) = elems (join_with [slash] (clean_elems True (elems p)))"
    using a by (simp only: Clean_def Let_def if_True elems_slash)
  also have "\<dots> = clean_elems True (elems p)"
    using clean_elems_real [of _ p] by (intro elems_join) (simp add: real_elem_def)
  finally show ?thesis .
qed

lemma clean_elems_idem [simp]: "clean_elems True (clean_elems True (elems p)) = clean_elems True (elems p)"
proof -
  have "\<forall>e\<in>set (clean_elems True (elems p)). real_elem e" using clean_elems_real by blast
  from clean_fold_of_real [OF this, of True "[]"]
  have "rev (fold (clean_step True) (clean_elems True (elems p)) []) = clean_elems True (elems p)" by simp
  then show ?thesis by (simp only: clean_elems_def [of True "clean_elems True (elems p)"])
qed

lemma IsAbs_Clean: "IsAbs p \<Longrightarrow> IsAbs (Clean p)"
  by (simp add: Clean_def Let_def)

lemma Clean_idem: "IsAbs p \<Longrightarrow> Clean (Clean p) = Clean p"
  by (simp add: Clean_def [of "Clean p"] IsAbs_Clean elems_Clean_abs) (simp add: Clean_def)

section \<open>Containment\<close>

text \<open>Where an absolute path points, lexically.\<close>

definition loc :: "string \<Rightarrow> string list" where
  "loc p = clean_elems True (elems p)"

lemma loc_Clean [simp]: "IsAbs p \<Longrightarrow> loc (Clean p) = loc p"
  by (simp add: loc_def elems_Clean_abs)

lemma strip_common_spec:
  "strip_common bs ts = (bs', ts') \<Longrightarrow>
     \<exists>cs. bs = cs @ bs' \<and> ts = cs @ ts' \<and> (bs' = [] \<or> ts' = [] \<or> hd bs' \<noteq> hd ts')"
proof (induction bs ts rule: strip_common.induct)
  case (1 b bs t ts)
  show ?case
  proof (cases "b = t")
    case True
    with 1 obtain cs where "bs = cs @ bs'" "ts = cs @ ts'" "bs' = [] \<or> ts' = [] \<or> hd bs' \<noteq> hd ts'" by auto
    with True show ?thesis by (intro exI [of _ "b # cs"]) simp
  next
    case False
    with "1.prems" show ?thesis by (intro exI [of _ "[]"]) auto
  qed
qed auto

lemma strip_common_prefix: "fst (strip_common bs ts) = [] \<longleftrightarrow> prefix bs ts"
  by (induction bs ts rule: strip_common.induct) auto

lemma join_with_eq_single:
  "\<forall>e\<in>set (x # es). sep \<notin> set e \<Longrightarrow> sep \<notin> set y \<Longrightarrow> join_with [sep] (x # es) = y \<longleftrightarrow> x = y \<and> es = []"
  by (cases es) auto

text \<open>The test the guards make on the result: it does not climb.\<close>

definition stays :: "string \<Rightarrow> bool" where
  "stays rel \<longleftrightarrow> rel \<noteq> dotdot \<and> \<not> has_prefix (dotdot @ [slash]) rel \<and> rel \<noteq> []"

lemma stays_join:
  assumes "es \<noteq> []" "\<forall>e\<in>set es. slash \<notin> set e \<and> e \<noteq> []"
  shows "stays (join_with [slash] es) \<longleftrightarrow> hd es \<noteq> dotdot"
proof -
  obtain e r where es: "es = e # r" using assms(1) by (cases es) auto
  show ?thesis
  proof (cases r)
    case Nil
    with es assms(2) show ?thesis by (auto simp: stays_def has_prefix_iff)
  next
    case (Cons f r')
    have ns: "slash \<notin> set e" using assms(2) es by simp
    have "has_prefix (dotdot @ [slash]) (e @ slash # x) \<longleftrightarrow> e = dotdot" for x
      using cut_at_sep [OF ns, of dotdot] by (auto simp: has_prefix_iff)
    moreover have "e @ slash # x \<noteq> dotdot" for x
    proof
      assume "e @ slash # x = dotdot"
      then have "slash \<in> set dotdot" by (metis in_set_conv_decomp)
      then show False by simp
    qed
    ultimately show ?thesis using es Cons by (simp add: stays_def)
  qed
qed

text \<open>\<open>Rel\<close> answers a path that stays exactly when the base is a prefix of the target.\<close>

lemma Rel_stays_iff:
  "(\<exists>rel. Rel base targ = Some rel \<and> stays rel) \<longleftrightarrow> IsAbs base \<and> prefix (loc base) (loc targ)"
proof (cases "IsAbs base")
  case True
  obtain bs ts where st: "strip_common (loc base) (loc targ) = (bs, ts)" by fastforce
  from strip_common_spec [OF this] obtain cs where t: "loc targ = cs @ ts" by blast
  have ts: "\<forall>e\<in>set ts. slash \<notin> set e \<and> e \<noteq> [] \<and> e \<noteq> dotdot"
    using clean_elems_real [of _ targ] t by (auto simp: loc_def real_elem_def)
  have pre: "bs = [] \<longleftrightarrow> prefix (loc base) (loc targ)" using strip_common_prefix [of "loc base" "loc targ"] st by simp
  have dd: "stays dot" by (simp add: stays_def has_prefix_def)
  show ?thesis
  proof (cases "bs = [] \<and> ts = []")
    case True
    with \<open>IsAbs base\<close> st pre dd show ?thesis by (simp add: Rel_def loc_def)
  next
    case False
    have j: "stays (join_with [slash] (map (\<lambda>_. dotdot) bs @ ts)) \<longleftrightarrow> bs = []"
      using False ts by (subst stays_join) (auto simp: hd_append hd_map neq_Nil_conv)
    from False \<open>IsAbs base\<close> st pre j show ?thesis by (auto simp: Rel_def loc_def)
  qed
qed (simp add: Rel_def)

end
