(* ===== verification/Perms_Guard.thy ===== *)
theory Perms_Guard
  imports Perms_Match Go_Path
begin

text \<open>
  The path guards (internal/perms: path.go, solo_guard.go, path_policy.go, access_guard.go,
  guard_config.go). What \<open>encoding/json\<close> reads from a tool input, the regular expressions and the
  expression language are parameters; the working directory of the process is one too.
\<close>

section \<open>Reading paths from tool inputs\<close>

abbreviation dquote :: char where "dquote \<equiv> CHR 0x22"
abbreviation squote :: char where "squote \<equiv> CHR 0x27"

text \<open>
  What the guards read with the JSON decoder: the text of the path field and of the command field
  (empty when absent; \<open>None\<close> when the input does not decode), and the string-valued fields.
\<close>

record json_reader =
  jr_path :: "string \<Rightarrow> string option"
  jr_command :: "string \<Rightarrow> string option"
  jr_fields :: "string \<Rightarrow> (string \<times> string) list option"

text \<open>Text that begins and ends with printable ASCII is its own trimming.\<close>

definition printable :: "char \<Rightarrow> bool" where
  "printable c \<longleftrightarrow> 32 < byte c \<and> byte c < 127"

lemma no_space_at: "printable c \<Longrightarrow> space_at (c # s) = None"
  by (auto simp: space_at_def find_None_iff_all spaces_def ascii_spaces_def unicode_spaces_def bytes_def
      has_prefix_def printable_def eq_char_of)

lemma no_space_before: "printable c \<Longrightarrow> space_before (c # s) = None"
  by (auto simp: space_before_def find_None_iff_all spaces_def ascii_spaces_def unicode_spaces_def bytes_def
      has_prefix_def printable_def eq_char_of)

lemma trim_space_printable:
  assumes "s \<noteq> []" "printable (hd s)" "printable (last s)"
  shows "trim_space s = s"
proof -
  have "space_at s = None" using assms no_space_at by (cases s) auto
  moreover have "space_before (rev s) = None"
    using assms(1,3) no_space_before by (cases s rule: rev_cases) auto
  ultimately show ?thesis by (simp add: trim_space_def trim_right_def trim_left_id trim_left_rev_id)
qed

definition extractPath :: "json_reader \<Rightarrow> string \<Rightarrow> string" where
  "extractPath js input =
     (let trimmed = trim_space input;
          fallback = (if trimmed = [] \<or> has_prefix ''{'' trimmed then [] else trimmed)
      in case jr_path js input of None \<Rightarrow> fallback | Some p \<Rightarrow> if p \<noteq> [] then p else fallback)"

fun strip_loop :: "bool \<Rightarrow> bool \<Rightarrow> string \<Rightarrow> string" where
  "strip_loop inSingle inDouble [] = []"
| "strip_loop inSingle inDouble (ch # cmd) =
     (if ch = squote \<and> \<not> inDouble then CHR '' '' # strip_loop (\<not> inSingle) inDouble cmd
      else if ch = dquote \<and> \<not> inSingle then CHR '' '' # strip_loop inSingle (\<not> inDouble) cmd
      else if inSingle \<or> inDouble then CHR '' '' # strip_loop inSingle inDouble cmd
      else ch # strip_loop inSingle inDouble cmd)"

definition stripQuoted :: "string \<Rightarrow> string" where
  "stripQuoted cmd = strip_loop False False cmd"

definition looksLikePath :: "string \<Rightarrow> string" where
  "looksLikePath s0 =
     (let s = trim_space s0 in
      if s = [] then []
      else if s = dot \<or> s = dotdot then s
      else if has_prefix ''/'' s \<or> has_prefix ''./'' s \<or> has_prefix ''../'' s then s
      else [])"

text \<open>The absolute path a path-like text stands for, and the test on its relative form.\<close>

definition resolve_in :: "string option \<Rightarrow> string \<Rightarrow> string \<Rightarrow> string option" where
  "resolve_in cwd p base = (if IsAbs p then Some p else Abs cwd (Join base p))"

definition underDir :: "string option \<Rightarrow> string \<Rightarrow> string \<Rightarrow> bool" where
  "underDir cwd path base =
     (let p = looksLikePath path in
      if p = [] then True
      else case resolve_in cwd p base of None \<Rightarrow> False
      | Some a \<Rightarrow> (case Rel base a of None \<Rightarrow> False | Some rel \<Rightarrow> stays rel))"

definition referencesOutsidePath :: "string option \<Rightarrow> string \<Rightarrow> string \<Rightarrow> bool" where
  "referencesOutsidePath cwd cmd0 base =
     (let cmd = trim_space cmd0 in
      if cmd = [] then False
      else if has_prefix ''cd '' cmd \<and> trim_space (drop 3 cmd) \<noteq> [] \<and>
              \<not> underDir cwd (trim_space (drop 3 cmd)) base then True
      else list_ex (\<lambda>tok. looksLikePath tok \<noteq> [] \<and> \<not> underDir cwd tok base) (Go_Strings.fields (stripQuoted cmd)))"

section \<open>Protected directories\<close>

definition protectedDirNames :: "string list" where
  "protectedDirNames = [''.goa'', ''.git'']"

definition pathMatchesProtected :: "string \<Rightarrow> string \<Rightarrow> bool" where
  "pathMatchesProtected clean protected \<longleftrightarrow>
     clean = protected \<or> has_prefix (protected @ ''/'') clean \<or>
     str_index (''/'' @ protected @ ''/'') clean \<noteq> None"

definition IsProtectedPath :: "string \<Rightarrow> bool" where
  "IsProtectedPath path = list_ex (pathMatchesProtected (Clean path)) protectedDirNames"

section \<open>The SOLO guard\<close>

text \<open>The refusals, by what their message says.\<close>

datatype guard_err =
    SoloNoBase
  | SoloProtected string string
  | SoloOutside string string
  | SoloBash
  | SoloGit string
  | ModeRestriction string

definition validateFileTool :: "string option \<Rightarrow> json_reader \<Rightarrow> string \<Rightarrow> string \<Rightarrow> string \<Rightarrow> guard_err option" where
  "validateFileTool cwd js tool input base =
     (let path = extractPath js input in
      if path = [] then None
      else if IsProtectedPath path then Some (SoloProtected tool path)
      else if \<not> underDir cwd path base then Some (SoloOutside tool base)
      else None)"

definition validateBash :: "string option \<Rightarrow> string \<Rightarrow> string \<Rightarrow> guard_err option" where
  "validateBash cwd input base = (if referencesOutsidePath cwd input base then Some SoloBash else None)"

definition validateGit :: "string \<Rightarrow> guard_err option" where
  "validateGit input =
     (let args0 = Go_Strings.fields input;
          args = (if args0 \<noteq> [] \<and> hd args0 = ''git'' then tl args0 else args0)
      in if args = [] then None
         else if hd args = ''commit'' \<or> hd args = ''diff'' then None
         else Some (SoloGit (hd args)))"

definition solo_Validate :: "string option \<Rightarrow> json_reader \<Rightarrow> string \<Rightarrow> string \<Rightarrow> string \<Rightarrow> guard_err option" where
  "solo_Validate cwd js codebase tool input =
     (if codebase = [] then None
      else case Abs cwd codebase of None \<Rightarrow> Some SoloNoBase
      | Some base \<Rightarrow>
          if tool \<in> {''read'', ''write'', ''edit''} then validateFileTool cwd js tool input base
          else if tool = ''bash'' then validateBash cwd input base
          else if tool = ''git'' then validateGit input
          else None)"

section \<open>The path policy\<close>

datatype path_decision = PathAllow | PathDeny | PathAsk

record path_policy =
  pp_projectDir :: string
  pp_autonomy :: string

definition isUnderDir :: "string option \<Rightarrow> string \<Rightarrow> string \<Rightarrow> bool" where
  "isUnderDir cwd path base =
     (let p = looksLikePath path in
      if p = [] then True
      else case resolve_in cwd p base of None \<Rightarrow> False
      | Some a \<Rightarrow> (case Rel base a of None \<Rightarrow> False | Some rel \<Rightarrow> stays rel))"

definition extractJSONPaths :: "json_reader \<Rightarrow> string \<Rightarrow> string list \<Rightarrow> string list" where
  "extractJSONPaths js input keys =
     (case jr_fields js input of None \<Rightarrow> []
      | Some fs \<Rightarrow> map snd (filter (\<lambda>(k, v). k \<in> set keys \<and> v \<noteq> []) fs))"

definition extractBashPaths :: "json_reader \<Rightarrow> string \<Rightarrow> string list" where
  "extractBashPaths js input =
     (case jr_command js input of None \<Rightarrow> []
      | Some c \<Rightarrow> (let cmd = trim_space c in
          if cmd = [] then [] else filter (\<lambda>tok. looksLikePath tok \<noteq> []) (Go_Strings.fields cmd)))"

definition extractToolPaths :: "json_reader \<Rightarrow> string \<Rightarrow> string \<Rightarrow> string list" where
  "extractToolPaths js tool input =
     (if tool \<in> {''read'', ''write'', ''edit'', ''read_media_file''}
      then extractJSONPaths js input [''path'', ''file_path'', ''target_path'']
      else if tool = ''bash'' then extractBashPaths js input
      else [])"

definition decideSolo :: "string option \<Rightarrow> json_reader \<Rightarrow> path_policy \<Rightarrow> string \<Rightarrow> string \<Rightarrow> path_decision" where
  "decideSolo cwd js p tool input =
     (if list_ex (\<lambda>path. IsProtectedPath path \<or> (pp_projectDir p \<noteq> [] \<and> \<not> isUnderDir cwd path (pp_projectDir p)))
           (extractToolPaths js tool input)
      then PathDeny else PathAllow)"

definition decideAsk :: "string option \<Rightarrow> json_reader \<Rightarrow> path_policy \<Rightarrow> string \<Rightarrow> string \<Rightarrow> path_decision" where
  "decideAsk cwd js p tool input =
     (if tool = ''bash'' \<or> tool = ''write'' \<or> tool = ''edit'' then PathAsk
      else if list_ex (\<lambda>path. pp_projectDir p \<noteq> [] \<and> \<not> isUnderDir cwd path (pp_projectDir p))
           (extractToolPaths js tool input)
      then PathAsk else PathAllow)"

definition Decide :: "string option \<Rightarrow> json_reader \<Rightarrow> path_policy \<Rightarrow> string \<Rightarrow> string \<Rightarrow> path_decision" where
  "Decide cwd js p tool input =
     (if pp_autonomy p = ''solo'' then decideSolo cwd js p tool input
      else if pp_autonomy p = ''yolo'' then PathAllow
      else decideAsk cwd js p tool input)"

section \<open>The mode guard\<close>

record guard_rule =
  g_tools :: "string list"
  g_allow :: "string list"
  g_expr :: string
  g_message :: string

text \<open>
  Compiled regular expressions (\<open>None\<close>: the pattern does not compile) and the expression language
  (the outcome is false when the expression does not compile, fails or is not a boolean).
\<close>

record matchers =
  re_match :: "string \<Rightarrow> (string \<Rightarrow> bool) option"
  expr_eval :: "string \<Rightarrow> string \<Rightarrow> string \<Rightarrow> bool"

definition ruleAppliesToTool :: "guard_rule \<Rightarrow> string \<Rightarrow> bool" where
  "ruleAppliesToTool r tool \<longleftrightarrow> g_tools r = [] \<or> list_ex (\<lambda>t. Match t tool) (g_tools r)"

definition pathsFromBash :: "string \<Rightarrow> string list" where
  "pathsFromBash cmd0 =
     (let cmd = trim_space cmd0 in
      if cmd = [] then []
      else (if has_prefix ''cd '' cmd \<and> trim_space (drop 3 cmd) \<noteq> [] then [trim_space (drop 3 cmd)] else [])
           @ filter (\<lambda>p. p \<noteq> []) (map looksLikePath (Go_Strings.fields (stripQuoted cmd))))"

definition pathsFromInput :: "json_reader \<Rightarrow> string \<Rightarrow> string \<Rightarrow> string list" where
  "pathsFromInput js tool input =
     (if tool = ''bash'' then pathsFromBash input
      else let p = extractPath js input in if p = [] then [] else [p])"

definition matchesAnyRegex :: "matchers \<Rightarrow> string \<Rightarrow> string list \<Rightarrow> bool" where
  "matchesAnyRegex mt path pats =
     list_ex (\<lambda>pat. pat \<noteq> [] \<and> (case re_match mt pat of None \<Rightarrow> False | Some f \<Rightarrow> f path)) pats"

definition matchesRule :: "matchers \<Rightarrow> json_reader \<Rightarrow> guard_rule \<Rightarrow> string \<Rightarrow> string \<Rightarrow> bool" where
  "matchesRule mt js r tool input =
     (let paths = pathsFromInput js tool input in
      if paths = [] then True
      else if g_expr r \<noteq> [] then list_all (expr_eval mt (g_expr r) tool) paths
      else if g_allow r = [] then True
      else list_all (\<lambda>p. matchesAnyRegex mt p (g_allow r)) paths)"

fun guard_Validate :: "matchers \<Rightarrow> json_reader \<Rightarrow> guard_rule list \<Rightarrow> string \<Rightarrow> string \<Rightarrow> guard_err option" where
  "guard_Validate mt js [] tool input = None"
| "guard_Validate mt js (r # rs) tool input =
     (if \<not> ruleAppliesToTool r tool then guard_Validate mt js rs tool input
      else if matchesRule mt js r tool input then guard_Validate mt js rs tool input
      else Some (ModeRestriction (trim_space
        (if g_message r = [] then ''mode restriction: '' @ tool @ '' is not allowed here'' else g_message r))))"

lemma guard_Validate_None:
  "guard_Validate mt js rs tool input = None \<longleftrightarrow> (\<forall>r\<in>set rs. ruleAppliesToTool r tool \<longrightarrow> matchesRule mt js r tool input)"
  by (induction rs) auto

lemma isUnderDir_underDir: "isUnderDir = underDir"
  by (intro ext) (simp add: isUnderDir_def underDir_def)

section \<open>What the containment test decides\<close>

lemma underDir_iff:
  assumes "IsAbs base"
  shows "underDir cwd path base \<longleftrightarrow> (let p = looksLikePath path in
     p = [] \<or> prefix (loc base) (loc (if IsAbs p then p else base @ slash # p)))"
proof (cases "looksLikePath path = []")
  case False
  let ?p = "looksLikePath path"
  have base: "base \<noteq> []" "IsAbs (base @ slash # ?p)" using assms by (cases base; simp add: IsAbs_def has_prefix_def)+
  have "resolve_in cwd ?p base = Some (if IsAbs ?p then ?p else Clean (base @ slash # ?p))"
    using False base by (auto simp: resolve_in_def Abs_def Join_def IsAbs_Clean Clean_idem)
  moreover have "(case Rel base a of None \<Rightarrow> False | Some rel \<Rightarrow> stays rel) \<longleftrightarrow> prefix (loc base) (loc a)" for a
    using Rel_stays_iff [of base a] assms by (auto split: option.splits)
  ultimately show ?thesis using False base by (simp add: underDir_def Let_def)
qed (simp add: underDir_def)

lemma file_access:
  assumes "IsAbs base" "tool \<in> {''read'', ''write'', ''edit''}" "extractPath js input = path" "path \<noteq> []"
  shows "solo_Validate cwd js base tool input = None \<longleftrightarrow> \<not> IsProtectedPath path \<and>
    (let p = looksLikePath path in
     p = [] \<or> prefix (loc base) (loc (if IsAbs p then p else base @ slash # p)))"
proof -
  have base: "base \<noteq> []" "Abs cwd base = Some (Clean base)" using assms(1) by (auto simp: Abs_def)
  have p: "looksLikePath path = [] \<or> IsAbs (looksLikePath path) \<or>
      loc (Clean base @ slash # looksLikePath path) = loc (base @ slash # looksLikePath path)"
  proof -
    have "elems (Clean base) = clean_elems True (elems base)" by (rule elems_Clean_abs [OF assms(1)])
    moreover have "fold (clean_step True) (clean_elems True (elems base)) [] = fold (clean_step True) (elems base) []"
      by (metis clean_elems_def clean_elems_idem rev_rev_ident)
    ultimately show ?thesis by (simp add: loc_def clean_elems_def [of True "_ @ _"])
  qed
  have "solo_Validate cwd js base tool input = None \<longleftrightarrow> \<not> IsProtectedPath path \<and> underDir cwd path (Clean base)"
    using assms(2,3,4) base by (auto simp: solo_Validate_def validateFileTool_def Let_def)
  also have "underDir cwd path (Clean base) \<longleftrightarrow> (let p = looksLikePath path in
     p = [] \<or> prefix (loc base) (loc (if IsAbs p then p else base @ slash # p)))"
    using p by (auto simp: underDir_iff [OF IsAbs_Clean [OF assms(1)]] loc_Clean [OF assms(1)] Let_def)
  finally show ?thesis .
qed

text \<open>C23: With an absolute codebase directory the SOLO guard lets a file tool touch a path exactly
  when the path is not in a protected directory and, if it starts with a slash, ./ or ../ (or is
  . or ..), points below the codebase after its dots are resolved. Other paths are not looked at.\<close>

theorem solo_file_access_iff:
  assumes "IsAbs base" "tool \<in> {''read'', ''write'', ''edit''}" "extractPath js input = path" "path \<noteq> []"
  shows "solo_Validate cwd js base tool input = None \<longleftrightarrow> \<not> IsProtectedPath path \<and>
    (let p = looksLikePath path in
     p = [] \<or> prefix (loc base) (loc (if IsAbs p then p else base @ slash # p)))"
  using assms by (rule file_access)

definition plain_reader :: json_reader where
  "plain_reader = \<lparr>jr_path = \<lambda>_. None, jr_command = \<lambda>_. None, jr_fields = \<lambda>_. None\<rparr>"

theorem solo_file_access_iff_witness:
  "solo_Validate None plain_reader ''/w'' ''read'' ''/w/a'' = None \<and>
   solo_Validate None plain_reader ''/w'' ''read'' ''/w/../a'' \<noteq> None"
proof -
  have e: "extractPath plain_reader s = s" if "s \<noteq> []" "printable (hd s)" "printable (last s)" "\<not> has_prefix ''{'' s" for s
    using that by (simp add: extractPath_def plain_reader_def trim_space_printable)
  have 1: "extractPath plain_reader ''/w/a'' = ''/w/a''" "extractPath plain_reader ''/w/../a'' = ''/w/../a''"
    by (intro e; simp add: printable_def has_prefix_def)+
  have 2: "\<not> IsProtectedPath ''/w/a''" by code_simp
  have 3: "looksLikePath ''/w/a'' = ''/w/a''" "looksLikePath ''/w/../a'' = ''/w/../a''"
    by (simp_all add: looksLikePath_def trim_space_printable printable_def has_prefix_def)
  have 4: "loc ''/w'' = [''w'']" "loc ''/w/a'' = [''w'', ''a'']" "loc ''/w/../a'' = [''a'']" by code_simp+
  show ?thesis
    using solo_file_access_iff [of "''/w''" "''read''" plain_reader "''/w/a''", OF _ _ 1(1)]
      solo_file_access_iff [of "''/w''" "''read''" plain_reader "''/w/../a''", OF _ _ 1(2)] 2 3 4
    by (simp add: Let_def)
qed

section \<open>What it does not see\<close>

lemma count_str_index: "str_index sub s \<noteq> None \<Longrightarrow> count_list sub c \<le> count_list s c"
proof -
  assume "str_index sub s \<noteq> None"
  then obtain i where "str_index sub s = Some i" by blast
  from str_index_Some [OF this] obtain t where "drop i s = sub @ t" by (auto simp: has_prefix_iff)
  then have "s = take i s @ sub @ t" by (metis append_take_drop_id)
  then have "count_list s c = count_list (take i s) c + count_list sub c + count_list t c"
    by (metis count_list_append add.assoc)
  then show ?thesis by simp
qed

lemma climbing_elems:
  assumes "real_elem d" "real_elem n"
  shows "elems (d @ ''/../../'' @ n) = [d, dotdot, dotdot, n]"
proof -
  have "elems (d @ ''/../../'' @ n) = elems d @ elems dotdot @ elems dotdot @ elems n"
    using elems_append_slash [of d "dotdot @ slash # dotdot @ slash # n"]
      elems_append_slash [of dotdot "dotdot @ slash # n"] elems_append_slash [of dotdot n] by simp
  with assms show ?thesis by (simp add: real_elem_def)
qed

lemma climbing_not_protected:
  assumes "real_elem d" "real_elem n"
  shows "\<not> IsProtectedPath (d @ ''/../../'' @ n)"
proof -
  have r: "\<not> IsAbs (d @ ''/../../'' @ n)"
    using assms(1) by (cases d) (auto simp: real_elem_def IsAbs_def has_prefix_def)
  have "d \<noteq> dot" "d \<noteq> dotdot" "n \<noteq> dot" "n \<noteq> dotdot" using assms by (simp_all add: real_elem_def)
  then have "clean_elems False [d, dotdot, dotdot, n] = [dotdot, n]"
    by (simp add: clean_elems_def) (simp add: clean_step_def)
  then have c: "Clean (d @ ''/../../'' @ n) = ''../'' @ n"
    unfolding Clean_def climbing_elems [OF assms] using r by simp
  have cnt: "count_list (''../'' @ n) slash = 1" using assms(2) by (simp add: real_elem_def count_notin)
  have no: "str_index (''/'' @ (x # y # q) @ ''/'') (''../'' @ n) = None" for x y q
  proof (rule ccontr)
    assume "str_index (''/'' @ (x # y # q) @ ''/'') (''../'' @ n) \<noteq> None"
    from count_str_index [OF this, of slash]
    have "count_list (''/'' @ (x # y # q) @ ''/'') slash \<le> 1" unfolding cnt .
    then show False by (simp split: if_splits)
  qed
  have "\<not> pathMatchesProtected (''../'' @ n) (x # y # q)" if "y \<noteq> CHR 0x2E" for x y q
    unfolding pathMatchesProtected_def has_prefix_iff no using that by simp
  then show ?thesis unfolding IsProtectedPath_def c protectedDirNames_def by simp
qed

text \<open>A file tool in SOLO mode may climb out of the codebase: a relative path that enters a
  directory and then climbs twice is accepted although it points to a sibling of the codebase.\<close>

theorem solo_guard_traversal:
  assumes "IsAbs base" "loc base \<noteq> []" "real_elem d" "real_elem n" "n \<noteq> last (loc base)"
    and "path = d @ ''/../../'' @ n" "trim_space path = path" "extractPath js input = path"
    and "tool \<in> {''read'', ''write'', ''edit''}"
  shows "solo_Validate cwd js base tool input = None \<and> loc (base @ slash # path) = butlast (loc base) @ [n] \<and>
    \<not> prefix (loc base) (loc (base @ slash # path))"
proof -
  have d: "d \<noteq> []" "slash \<notin> set d" "d \<noteq> dot" "d \<noteq> dotdot" using assms(3) by (simp_all add: real_elem_def)
  have cut: "d @ slash # x = e @ slash # y \<longrightarrow> d = e" if "slash \<notin> set e" for e x y
    using cut_at_sep [OF d(2) that] by blast
  have ps: "path = d @ slash # dotdot @ slash # dotdot @ slash # n" by (simp add: assms(6))
  have "slash \<in> set path" by (simp add: ps)
  then have path: "path \<noteq> []" "path \<noteq> dot" "path \<noteq> dotdot" by auto
  have "\<not> has_prefix (e @ [slash]) path" if "slash \<notin> set e" "d \<noteq> e" for e
    using cut [OF that(1)] that(2) by (auto simp: ps has_prefix_iff)
  from this [of "[]"] this [of dot] this [of dotdot] d path assms(7)
  have "looksLikePath path = []" by (simp add: looksLikePath_def Let_def)
  then have "solo_Validate cwd js base tool input = None"
    using file_access [OF assms(1,9,8) path(1)] climbing_not_protected [OF assms(3,4)] assms(6) by simp
  moreover have l: "loc (base @ slash # path) = butlast (loc base) @ [n]"
  proof -
    have es: "elems path = [d, dotdot, dotdot, n]"
      unfolding assms(6) by (rule climbing_elems [OF assms(3,4)])
    obtain x st where st: "fold (clean_step True) (elems base) [] = x # st"
      using assms(2) by (auto simp: loc_def clean_elems_def neq_Nil_conv)
    have "x \<noteq> dotdot" "d \<noteq> dotdot"
      using clean_elems_real [of x base] st assms(3) by (auto simp: clean_elems_def real_elem_def)
    then have "clean_step True dotdot (clean_step True dotdot (d # x # st)) = st" by (simp add: clean_step_def)
    then show ?thesis using st assms(3,4) by (simp add: loc_def clean_elems_def es)
  qed
  moreover have "\<not> prefix (loc base) (butlast (loc base) @ [n])"
  proof
    assume "prefix (loc base) (butlast (loc base) @ [n])"
    then have "loc base = butlast (loc base) @ [n]"
      using assms(2) by (metis append_butlast_last_id last_snoc prefix_append prefix_order.eq_iff same_prefix_prefix prefix_Cons prefix_Nil not_Cons_self2)
    then show False using assms(2,5) by (metis last_snoc)
  qed
  ultimately show ?thesis by simp
qed

theorem solo_guard_traversal_witness:
  "solo_Validate None (plain_reader\<lparr>jr_path := \<lambda>_. Some ''a/../../secret''\<rparr>) ''/home/u/w'' ''read'' ''{}'' = None \<and>
   loc ''/home/u/w/a/../../secret'' = [''home'', ''u'', ''secret'']"
proof -
  let ?js = "plain_reader\<lparr>jr_path := \<lambda>_. Some ''a/../../secret''\<rparr>"
  have l: "loc ''/home/u/w'' = [''home'', ''u'', ''w'']" by code_simp
  have "solo_Validate None ?js ''/home/u/w'' ''read'' ''{}'' = None \<and>
    loc (''/home/u/w'' @ slash # ''a/../../secret'') = butlast (loc ''/home/u/w'') @ [''secret''] \<and>
    \<not> prefix (loc ''/home/u/w'') (loc (''/home/u/w'' @ slash # ''a/../../secret''))"
    by (rule solo_guard_traversal [where d = "''a''" and n = "''secret''"])
       (simp_all add: l real_elem_def trim_space_printable printable_def extractPath_def)
  then show ?thesis unfolding l by simp
qed

section \<open>Commands arrive as JSON\<close>

text \<open>The input the bash tool gets: an object whose command field is the command. The command has no
  character that JSON writes with an escape.\<close>

definition bash_input :: "string \<Rightarrow> string" where
  "bash_input cmd = ''{'' @ [dquote] @ ''command'' @ [dquote] @ '':'' @ [dquote] @ cmd @ [dquote] @ ''}''"

lemma strip_in_double: "dquote \<notin> set cmd \<Longrightarrow> strip_loop False True (cmd @ s) = replicate (length cmd) (CHR '' '') @ strip_loop False True s"
  by (induction cmd) auto

lemma stripped_bash_input:
  assumes "dquote \<notin> set cmd"
  shows "stripQuoted (bash_input cmd) =
    ''{'' @ replicate 9 (CHR '' '') @ '':'' @ replicate (length cmd + 2) (CHR '' '') @ ''}''"
  using strip_in_double [OF assms, of "[dquote] @ ''}''"]
  by (simp add: stripQuoted_def bash_input_def replicate_append_same numeral_eq_Suc)

lemma space_at_space: "space_at (CHR '' '' # s) = Some [CHR '' '']"
proof -
  have "bytes [32] = [CHR '' '']" using eq_char_of [of "CHR '' ''" 32] by (simp add: bytes_def)
  then show ?thesis by (simp add: space_at_def spaces_def ascii_spaces_def has_prefix_def)
qed

lemma fields_spaces: "fields_from cur (replicate (Suc n) (CHR '' '') @ s) = flush_field cur @ fields_from [] s"
proof (induction n arbitrary: cur)
  case (Suc n)
  from Suc.IH [of "[]"] show ?case by (simp add: space_at_space flush_field_def)
qed (simp add: space_at_space)

lemma fields_printable: "printable c \<Longrightarrow> fields_from cur (c # s) = fields_from (c # cur) s"
  by (simp add: no_space_at)

lemma fields_bash_input:
  assumes "dquote \<notin> set cmd"
  shows "Go_Strings.fields (stripQuoted (bash_input cmd)) = [''{'', '':'', ''}'']"
proof -
  have p: "printable (CHR ''{'')" "printable (CHR '':'')" "printable (CHR ''}'')" by (simp_all add: printable_def)
  note f = fields_printable [OF p(1)] fields_printable [OF p(2)] fields_printable [OF p(3)]
    fields_spaces [of _ 8] fields_spaces [of _ "Suc (length cmd)"]
  show ?thesis unfolding stripped_bash_input [OF assms] Go_Strings.fields_def
    using f by (simp add: flush_field_def numeral_eq_Suc)
qed

text \<open>The SOLO guard accepts every shell command as the bash tool receives it: the guard takes the
  command inside the JSON object for quoted text and does not look for paths in it.\<close>

theorem solo_bash_unchecked:
  assumes "dquote \<notin> set cmd" "IsAbs base"
  shows "solo_Validate cwd js base ''bash'' (bash_input cmd) = None"
proof -
  have t: "trim_space (bash_input cmd) = bash_input cmd"
    by (rule trim_space_printable) (simp_all add: bash_input_def printable_def)
  have "looksLikePath tok = []" if "tok \<in> {''{'', '':'', ''}''}" for tok
    using that by (auto simp: looksLikePath_def trim_space_printable printable_def has_prefix_def)
  then have "\<not> referencesOutsidePath cwd (bash_input cmd) b" for b
    unfolding referencesOutsidePath_def Let_def t fields_bash_input [OF assms(1)]
    by (simp add: bash_input_def has_prefix_def)
  moreover have "base \<noteq> []" "Abs cwd base = Some (Clean base)" using assms(2) by (auto simp: Abs_def)
  ultimately show ?thesis by (simp add: solo_Validate_def validateBash_def)
qed

theorem solo_bash_unchecked_witness:
  "solo_Validate None plain_reader ''/w'' ''bash'' (bash_input ''rm -rf /etc'') = None"
  by (rule solo_bash_unchecked) simp_all

end
