(* ===== verification/Tool_Gate.thy ===== *)
theory Tool_Gate
  imports Perms_Guard
begin

text \<open>
  What stands between the model and a tool: the execution controller with its confirmation flow
  (core/execution.go), and the checks an agent makes before it runs a tool
  (internal/agentic/agent_tools.go), which use the guards of \<open>Perms_Guard\<close>.
\<close>

section \<open>The execution controller\<close>

datatype confirm_response = ConfirmYes | ConfirmNo | ConfirmAlways | ConfirmEdit

record review_item =
  ri_turnID :: int
  ri_toolName :: string
  ri_filePath :: string
  ri_diff :: string
  ri_approved :: "bool option"

text \<open>The session state is given by its autonomy level (\<open>None\<close>: no session state).\<close>

record exec_ctrl =
  ec_mode :: string
  ec_reviewQueue :: "review_item list"
  ec_session :: "string option"
  ec_rules :: "rule list"

definition autonomyFromMode :: "string \<Rightarrow> string" where
  "autonomyFromMode mode =
     (if mode = ''yolo'' then ''yolo'' else if mode = ''solo'' then ''solo''
      else if mode = ''confirm'' then ''confirm'' else if mode = ''review'' then ''review'' else ''solo'')"

definition Autonomy :: "exec_ctrl \<Rightarrow> string" where
  "Autonomy ec = (case ec_session ec of Some a \<Rightarrow> a | None \<Rightarrow> autonomyFromMode (ec_mode ec))"

definition SetMode :: "string \<Rightarrow> exec_ctrl \<Rightarrow> exec_ctrl" where
  "SetMode mode ec = ec\<lparr>ec_mode := mode\<rparr>"

definition SetPermissionRules :: "rule list \<Rightarrow> exec_ctrl \<Rightarrow> exec_ctrl" where
  "SetPermissionRules rules ec = ec\<lparr>ec_rules := rules\<rparr>"

text \<open>The empty decision says that no rule decides.\<close>

definition evaluatePermissionRules :: "exec_ctrl \<Rightarrow> string \<Rightarrow> decision" where
  "evaluatePermissionRules ec tool =
     (if ec_rules ec = [] then []
      else let res = Evaluate (NewEngine (ec_rules ec)) tool [] in
        if \<not> er_matched res then [] else er_decision res)"

definition ShouldConfirm :: "exec_ctrl \<Rightarrow> string \<Rightarrow> bool" where
  "ShouldConfirm ec tool =
     (let d = evaluatePermissionRules ec tool in
      if d \<noteq> [] then d = DecisionAsk
      else if Autonomy ec = ''yolo'' \<or> Autonomy ec = ''solo'' then False
      else if Autonomy ec = ''confirm'' then True
      else if Autonomy ec = ''review'' then tool = ''edit'' \<or> tool = ''write''
      else False)"

text \<open>\<open>RequestConfirm\<close>; the last argument is the answer of \<open>waitForConsumerResponse\<close>, used when the
  call asks.\<close>

definition RequestConfirm :: "exec_ctrl \<Rightarrow> string \<Rightarrow> confirm_response \<Rightarrow> confirm_response" where
  "RequestConfirm ec tool reply =
     (let d = evaluatePermissionRules ec tool in
      if d = DecisionDeny then ConfirmNo
      else if d = DecisionAllow then ConfirmYes
      else if \<not> ShouldConfirm ec tool then ConfirmYes
      else reply)"

text \<open>
  A confirmation that is asked: the answers \<open>waitForConsumerResponse\<close> may give. The first argument
  says whether a consumer is installed, the second what it sent before it returned (its first
  value), the third whether the request was cancelled. The slot keeps the first value put in it;
  when several events are ready the select may take any.
\<close>

inductive wait_answer :: "bool \<Rightarrow> confirm_response option \<Rightarrow> bool \<Rightarrow> confirm_response \<Rightarrow> bool" where
  no_consumer: "wait_answer False sent cancelled ConfirmNo"
| routed: "wait_answer True (Some r) cancelled r"
| silent: "wait_answer True None cancelled ConfirmNo"
| cancelled: "wait_answer True sent True ConfirmNo"

inductive_cases wait_answerE: "wait_answer consumer sent cancelled r"
inductive_simps wait_answer_simps: "wait_answer consumer sent cancelled r"

definition QueueEdit :: "string \<Rightarrow> string \<Rightarrow> exec_ctrl \<Rightarrow> exec_ctrl \<times> review_item" where
  "QueueEdit tool file ec =
     (let item = \<lparr>ri_turnID = int (length (ec_reviewQueue ec)) + 1, ri_toolName = tool, ri_filePath = file,
                  ri_diff = [], ri_approved = None\<rparr>
      in (ec\<lparr>ec_reviewQueue := ec_reviewQueue ec @ [item]\<rparr>, item))"

definition ApplyReviewQueue :: "(int \<Rightarrow> bool option) \<Rightarrow> exec_ctrl \<Rightarrow> exec_ctrl" where
  "ApplyReviewQueue approvals ec = ec\<lparr>ec_reviewQueue := map (\<lambda>(i, item).
       case approvals (int i) of None \<Rightarrow> item | Some b \<Rightarrow> item\<lparr>ri_approved := Some b\<rparr>)
     (enumerate 0 (ec_reviewQueue ec))\<rparr>"

lemma applies_unscoped: "applies tool [] r \<longleftrightarrow> r_mode r = [] \<and> Match (r_pattern r) tool"
  by (auto simp: applies_def IsScopedToMode_def)

text \<open>The controller asks the engine without a mode, so rules scoped to one are never used.\<close>

lemma scoped_rules_ignored:
  "evaluatePermissionRules ec tool =
   evaluatePermissionRules (SetPermissionRules (filter (\<lambda>r. r_mode r = []) (ec_rules ec)) ec) tool"
proof -
  have f: "filter (applies tool []) (NewEngine rs) = filter (applies tool []) (NewEngine (filter (\<lambda>r. r_mode r = []) rs))" for rs
    by (simp add: NewEngine_def filter_sort conj_commute applies_unscoped cong: filter_cong)
  then have e: "Evaluate (NewEngine rs) tool [] = Evaluate (NewEngine (filter (\<lambda>r. r_mode r = []) rs)) tool []" for rs
    by (simp add: Evaluate_filter)
  have "evaluatePermissionRules ec' tool = (let res = Evaluate (NewEngine (ec_rules ec')) tool [] in
      if \<not> er_matched res then [] else er_decision res)" for ec'
    by (simp add: evaluatePermissionRules_def NewEngine_def no_rule_def)
  then show ?thesis using e [of "ec_rules ec"] by (simp add: SetPermissionRules_def)
qed

text \<open>A confirmation request ends in a yes only if a rule allows the tool, if no confirmation is
  due, or if the consumer sent the yes; a missing, silent or cancelled consumer means no.\<close>

theorem confirm_yes_only_if:
  assumes "wait_answer consumer sent cancelled reply" "RequestConfirm ec tool reply = ConfirmYes"
  shows "evaluatePermissionRules ec tool = DecisionAllow \<or> \<not> ShouldConfirm ec tool \<or>
    (consumer \<and> sent = Some ConfirmYes)"
  using assms by (auto simp: RequestConfirm_def Let_def wait_answer_simps split: if_splits)

definition demo_ctrl :: exec_ctrl where
  "demo_ctrl = \<lparr>ec_mode = ''confirm'', ec_reviewQueue = [], ec_session = None, ec_rules = []\<rparr>"

theorem confirm_yes_only_if_witness:
  "RequestConfirm demo_ctrl ''bash'' ConfirmYes = ConfirmYes \<and> ShouldConfirm demo_ctrl ''bash'' \<and>
   (evaluatePermissionRules demo_ctrl ''bash'' = DecisionAllow \<or> \<not> ShouldConfirm demo_ctrl ''bash'' \<or>
    Some ConfirmYes = Some ConfirmYes)"
proof -
  have s: "ShouldConfirm demo_ctrl ''bash''" "RequestConfirm demo_ctrl ''bash'' ConfirmYes = ConfirmYes"
    by (simp_all add: ShouldConfirm_def RequestConfirm_def evaluatePermissionRules_def demo_ctrl_def Autonomy_def
        autonomyFromMode_def DecisionDeny_def DecisionAllow_def Let_def)
  from confirm_yes_only_if [OF routed [of ConfirmYes False] s(2)] s show ?thesis by blast
qed

text \<open>A rule with an unknown decision lets the tool run without asking, even in confirm mode.\<close>

lemma unknown_decision_runs:
  assumes "d = evaluatePermissionRules ec tool" "d \<noteq> []" "\<not> IsValidDecision d"
  shows "RequestConfirm ec tool reply = ConfirmYes"
  using assms by (simp add: RequestConfirm_def ShouldConfirm_def IsValidDecision_def Let_def)

section \<open>The checks before a tool runs\<close>

text \<open>What a call may return, the errors in the order of the checks.\<close>

datatype tool_err =
    GuardRefused guard_err
  | ConfirmFailed string
  | NotApproved string
  | NotLoaded string string
  | UnknownTool string

text \<open>The configuration of an agent, as far as the checks read it (\<open>None\<close>: the callback is not set).\<close>

record tool_config =
  tc_autonomy :: "string option"
  tc_projectDir :: string
  tc_guardRules :: "guard_rule list option"
  tc_confirm :: "(string \<Rightarrow> string \<Rightarrow> string + bool) option"
  tc_deferred :: "string \<Rightarrow> string option"
  tc_registered :: "string \<Rightarrow> bool"

definition enforceSoloPolicy :: "string option \<Rightarrow> json_reader \<Rightarrow> tool_config \<Rightarrow> string \<Rightarrow> string \<Rightarrow> guard_err option" where
  "enforceSoloPolicy cwd js c name input =
     (if tc_autonomy c = None \<or> tc_projectDir c = [] then None
      else if tc_autonomy c \<noteq> Some ''solo'' then None
      else solo_Validate cwd js (tc_projectDir c) name input)"

definition enforceGuardPolicy :: "matchers \<Rightarrow> json_reader \<Rightarrow> tool_config \<Rightarrow> string \<Rightarrow> string \<Rightarrow> guard_err option" where
  "enforceGuardPolicy mt js c name input =
     (case tc_guardRules c of None \<Rightarrow> None
      | Some rules \<Rightarrow> if rules = [] then None else guard_Validate mt js rules name input)"

definition confirmToolIfNeeded :: "string option \<Rightarrow> json_reader \<Rightarrow> tool_config \<Rightarrow> string \<Rightarrow> string \<Rightarrow> tool_err option" where
  "confirmToolIfNeeded cwd js c name input =
     (case tc_confirm c of None \<Rightarrow> None
      | Some ask \<Rightarrow>
         let autonomy = (case tc_autonomy c of None \<Rightarrow> ''yolo'' | Some a \<Rightarrow> a);
             policy = \<lparr>pp_projectDir = tc_projectDir c, pp_autonomy = autonomy\<rparr> in
         if autonomy = ''solo'' \<or> autonomy = ''yolo'' then None
         else if Decide cwd js policy name input \<noteq> PathAsk then None
         else (case ask name input of Inl e \<Rightarrow> Some (ConfirmFailed e)
               | Inr allowed \<Rightarrow> if allowed then None else Some (NotApproved name)))"

text \<open>The front of \<open>runTool\<close>: \<open>None\<close> means that the tool is executed.\<close>

definition runTool_check :: "string option \<Rightarrow> matchers \<Rightarrow> json_reader \<Rightarrow> tool_config \<Rightarrow> string \<Rightarrow> string \<Rightarrow> tool_err option" where
  "runTool_check cwd mt js c name input =
     (case enforceGuardPolicy mt js c name input of Some e \<Rightarrow> Some (GuardRefused e)
      | None \<Rightarrow> (case enforceSoloPolicy cwd js c name input of Some e \<Rightarrow> Some (GuardRefused e)
      | None \<Rightarrow> (case confirmToolIfNeeded cwd js c name input of Some e \<Rightarrow> Some e
      | None \<Rightarrow> (case tc_deferred c name of Some loader \<Rightarrow> Some (NotLoaded name loader)
      | None \<Rightarrow> if tc_registered c name then None else Some (UnknownTool name)))))"


text \<open>An agent in confirm mode whose user says no to everything.\<close>

definition demo_agent :: tool_config where
  "demo_agent = \<lparr>tc_autonomy = Some ''confirm'', tc_projectDir = ''/w'', tc_guardRules = None,
     tc_confirm = Some (\<lambda>_ _. Inr False), tc_deferred = (\<lambda>_. None), tc_registered = (\<lambda>_. True)\<rparr>"

definition no_matchers :: matchers where
  "no_matchers = \<lparr>re_match = \<lambda>_. None, expr_eval = \<lambda>_ _ _. False\<rparr>"


end
