(* ===== verification/Session_Modes.thy ===== *)
theory Session_Modes
  imports Perms_Guard
begin

text \<open>
  The live mode of a session and what is kept of it between sessions: the mode value
  (internal/types.go), the mode stack (core/sessionstate.go), the mode manager with its
  agent-driven gate (core/modemanager.go, core/agentdriven.go), the state file
  (core/state_store.go, core/agentmanager_state.go) and the approvals of tool calls the
  application keeps in the same file (internal/app/tool_confirmation.go). The JSON text of the
  file is its decoded value; reading and writing it does not fail.
\<close>

section \<open>Modes\<close>

record mode_state =
  ms_major :: string
  ms_skills :: "string list"
  ms_autonomy :: string

definition mode_String :: "mode_state \<Rightarrow> string" where
  "mode_String m = ms_major m
     @ (if ms_skills m \<noteq> [] then ''+'' @ join_with '','' (ms_skills m) else [])
     @ (if ms_autonomy m \<noteq> [] then '' ('' @ ms_autonomy m @ '')'' else [])"

definition WithMajor :: "string \<Rightarrow> mode_state \<Rightarrow> mode_state" where
  "WithMajor major m = m\<lparr>ms_major := major\<rparr>"

definition WithSkills :: "string list \<Rightarrow> mode_state \<Rightarrow> mode_state" where
  "WithSkills skills m = m\<lparr>ms_skills := skills\<rparr>"

definition WithAutonomy :: "string \<Rightarrow> mode_state \<Rightarrow> mode_state" where
  "WithAutonomy a m = m\<lparr>ms_autonomy := a\<rparr>"

definition AddSkill :: "string \<Rightarrow> mode_state \<Rightarrow> mode_state" where
  "AddSkill skill m = (if skill \<in> set (ms_skills m) then m else m\<lparr>ms_skills := ms_skills m @ [skill]\<rparr>)"

definition RemoveSkill :: "string \<Rightarrow> mode_state \<Rightarrow> mode_state" where
  "RemoveSkill skill m = (case index_where (\<lambda>s. s = skill) (ms_skills m) of None \<Rightarrow> m
     | Some i \<Rightarrow> m\<lparr>ms_skills := take i (ms_skills m) @ drop (Suc i) (ms_skills m)\<rparr>)"

definition IsZero :: "mode_state \<Rightarrow> bool" where
  "IsZero m \<longleftrightarrow> ms_major m = []"

lemma AddSkill_distinct: "distinct (ms_skills m) \<Longrightarrow> distinct (ms_skills (AddSkill s m))"
  by (simp add: AddSkill_def)

section \<open>The mode stack\<close>

record session_state =
  ss_current :: mode_state
  ss_stack :: "mode_state list"
  ss_modeSource :: string
  ss_skillSource :: string

definition NewSessionState :: "mode_state \<Rightarrow> session_state" where
  "NewSessionState defaults = \<lparr>ss_current = defaults, ss_stack = [], ss_modeSource = [], ss_skillSource = []\<rparr>"

definition ss_SetMode :: "mode_state \<Rightarrow> session_state \<Rightarrow> session_state" where
  "ss_SetMode ms s = s\<lparr>ss_current := ms, ss_modeSource := [], ss_skillSource := []\<rparr>"

definition ss_PushMode :: "mode_state \<Rightarrow> string \<Rightarrow> session_state \<Rightarrow> session_state" where
  "ss_PushMode ms source s = s\<lparr>ss_stack := ss_stack s @ [ss_current s], ss_current := ms, ss_modeSource := source\<rparr>"

definition ss_PopMode :: "session_state \<Rightarrow> session_state" where
  "ss_PopMode s = (if ss_stack s = [] then s
     else s\<lparr>ss_current := last (ss_stack s), ss_stack := butlast (ss_stack s), ss_modeSource := []\<rparr>)"

definition SetSource :: "string \<Rightarrow> session_state \<Rightarrow> session_state" where
  "SetSource source s = s\<lparr>ss_modeSource := source\<rparr>"

definition SetSkillSource :: "string \<Rightarrow> session_state \<Rightarrow> session_state" where
  "SetSkillSource skill s = s\<lparr>ss_skillSource := skill\<rparr>"

definition ss_PreviousMode :: "session_state \<Rightarrow> mode_state option" where
  "ss_PreviousMode s = (if ss_stack s = [] then None else Some (last (ss_stack s)))"

text \<open>Commands between a push and its pop: every bracketed run leaves the mode and the stack.\<close>

datatype mode_cmd = CPush mode_state string | CPop

fun mode_run :: "mode_cmd list \<Rightarrow> session_state \<Rightarrow> session_state" where
  "mode_run [] s = s"
| "mode_run (CPush ms src # cs) s = mode_run cs (ss_PushMode ms src s)"
| "mode_run (CPop # cs) s = mode_run cs (ss_PopMode s)"

inductive bracketed :: "mode_cmd list \<Rightarrow> bool" where
  bracketed_Nil: "bracketed []"
| bracketed_wrap: "bracketed cs \<Longrightarrow> bracketed (CPush ms src # cs @ [CPop])"
| bracketed_append: "bracketed cs \<Longrightarrow> bracketed ds \<Longrightarrow> bracketed (cs @ ds)"

lemma mode_run_append: "mode_run (cs @ ds) s = mode_run ds (mode_run cs s)"
  by (induction cs s rule: mode_run.induct) auto

lemma bracketed_restores:
  "bracketed cs \<Longrightarrow> ss_current (mode_run cs s) = ss_current s \<and> ss_stack (mode_run cs s) = ss_stack s"
proof (induction arbitrary: s rule: bracketed.induct)
  case (bracketed_wrap cs ms src)
  from bracketed_wrap.IH [of "ss_PushMode ms src s"] show ?case
    by (simp add: mode_run_append ss_PopMode_def) (simp add: ss_PushMode_def)
qed (simp_all add: mode_run_append)

text \<open>The source of an outer push is not restored.\<close>

lemma nested_pop_loses_source:
  "ss_modeSource (ss_PopMode (ss_PushMode b inner (ss_PushMode a outer s))) = [] \<and>
   ss_current (ss_PopMode (ss_PushMode b inner (ss_PushMode a outer s))) = a"
  by (simp add: ss_PopMode_def ss_PushMode_def)

section \<open>The state file\<close>

record state_file =
  sf_mode :: mode_state
  sf_minor :: string
  sf_agentDriven :: bool
  sf_thinking :: string
  sf_companion :: "string list"
  sf_approved :: "string list"
  sf_denied :: "string list"

definition zero_state :: state_file where
  "zero_state = \<lparr>sf_mode = \<lparr>ms_major = [], ms_skills = [], ms_autonomy = []\<rparr>, sf_minor = [], sf_agentDriven = False,
     sf_thinking = [], sf_companion = [], sf_approved = [], sf_denied = []\<rparr>"

definition state_Load :: "state_file option \<Rightarrow> state_file" where
  "state_Load f = (case f of None \<Rightarrow> zero_state | Some s \<Rightarrow> s)"

definition state_Save :: "state_file \<Rightarrow> state_file option \<Rightarrow> state_file option" where
  "state_Save s f = Some s"

section \<open>The mode manager\<close>

text \<open>The gate's prompt is loaded on first use (\<open>Inl\<close>: it cannot be read).\<close>

record agent_gate =
  ag_enabled :: bool
  ag_prompt :: string

record mode_manager =
  mm_session :: "session_state option"
  mm_thinking :: string
  mm_gate :: agent_gate
  mm_minor :: string

definition no_mode :: mode_state where
  "no_mode = \<lparr>ms_major = [], ms_skills = [], ms_autonomy = []\<rparr>"

definition CurrentMode :: "mode_manager \<Rightarrow> mode_state" where
  "CurrentMode m = (case mm_session m of None \<Rightarrow> no_mode | Some s \<Rightarrow> ss_current s)"

text \<open>The change information: old mode, new mode, source.\<close>

type_synonym change_info = "mode_state \<times> mode_state \<times> string"

definition mm_SetMode :: "mode_state \<Rightarrow> mode_manager \<Rightarrow> change_info option \<times> mode_manager" where
  "mm_SetMode ms m = (case mm_session m of None \<Rightarrow> (None, m)
     | Some s \<Rightarrow> (Some (ss_current s, ms, ''user''), m\<lparr>mm_session := Some (ss_SetMode ms s)\<rparr>))"

definition mm_PushMode :: "mode_state \<Rightarrow> string \<Rightarrow> mode_manager \<Rightarrow> change_info option \<times> mode_manager" where
  "mm_PushMode ms source m = (case mm_session m of None \<Rightarrow> (None, m)
     | Some s \<Rightarrow> (Some (ss_current s, ms, source), m\<lparr>mm_session := Some (ss_PushMode ms source s)\<rparr>))"

definition mm_PopMode :: "mode_manager \<Rightarrow> change_info option \<times> mode_manager" where
  "mm_PopMode m = (case mm_session m of None \<Rightarrow> (None, m)
     | Some s \<Rightarrow> (Some (ss_current s, ss_current (ss_PopMode s), ''user''), m\<lparr>mm_session := Some (ss_PopMode s)\<rparr>))"

definition mm_PreviousMode :: "mode_manager \<Rightarrow> mode_state option" where
  "mm_PreviousMode m = (case mm_session m of None \<Rightarrow> None | Some s \<Rightarrow> ss_PreviousMode s)"

definition SetThinkingLevel :: "string \<Rightarrow> mode_manager \<Rightarrow> mode_manager" where
  "SetThinkingLevel level m = m\<lparr>mm_thinking := level\<rparr>"

definition SetAgentDrivenEnabled :: "string + string \<Rightarrow> bool \<Rightarrow> mode_manager \<Rightarrow> (string + unit) \<times> mode_manager" where
  "SetAgentDrivenEnabled loaded enabled m =
     (let g = (mm_gate m)\<lparr>ag_enabled := enabled\<rparr> in
      if \<not> enabled then (Inr (), m\<lparr>mm_gate := g\<lparr>ag_prompt := []\<rparr>\<rparr>)
      else if ag_prompt g \<noteq> [] then (Inr (), m\<lparr>mm_gate := g\<rparr>)
      else case loaded of Inl e \<Rightarrow> (Inl e, m\<lparr>mm_gate := g\<rparr>)
           | Inr p \<Rightarrow> (Inr (), m\<lparr>mm_gate := g\<lparr>ag_prompt := p\<rparr>\<rparr>))"

definition SetCurrentMinorMode :: "string \<Rightarrow> mode_manager \<Rightarrow> mode_manager" where
  "SetCurrentMinorMode mode m = m\<lparr>mm_minor := mode\<rparr>"

definition snapshot_of :: "mode_manager \<Rightarrow> state_file" where
  "snapshot_of m = zero_state\<lparr>sf_mode := CurrentMode m, sf_minor := mm_minor m,
     sf_agentDriven := ag_enabled (mm_gate m), sf_thinking := mm_thinking m\<rparr>"

definition mm_PersistState :: "mode_manager \<Rightarrow> state_file option \<Rightarrow> state_file option" where
  "mm_PersistState m f = state_Save (snapshot_of m) f"

definition RestoreFromSnapshot :: "state_file \<Rightarrow> mode_manager \<Rightarrow> mode_manager" where
  "RestoreFromSnapshot s m =
     (let m1 = (case mm_session m of None \<Rightarrow> m
                | Some ses \<Rightarrow> if ms_major (sf_mode s) \<noteq> [] then m\<lparr>mm_session := Some (ss_SetMode (sf_mode s) ses)\<rparr> else m)
      in m1\<lparr>mm_thinking := sf_thinking s, mm_minor := sf_minor s,
            mm_gate := (mm_gate m1)\<lparr>ag_enabled := sf_agentDriven s\<rparr>\<rparr>)"

text \<open>The persistence of the agent manager adds the companion's history.\<close>

definition am_persistState :: "string list \<Rightarrow> mode_manager \<Rightarrow> state_file option \<Rightarrow> state_file option" where
  "am_persistState hist m f =
     state_Save (if hist \<noteq> [] then (snapshot_of m)\<lparr>sf_companion := hist\<rparr> else snapshot_of m) f"

definition am_SetMode :: "string list \<Rightarrow> mode_state \<Rightarrow> mode_manager \<Rightarrow> state_file option \<Rightarrow> mode_manager \<times> state_file option" where
  "am_SetMode hist ms m f = (let m' = snd (mm_SetMode ms m) in (m', am_persistState hist m' f))"

lemma mode_survives_restart:
  assumes "ms_major (CurrentMode m) \<noteq> []" "mm_session fresh = Some s0"
  shows "CurrentMode (RestoreFromSnapshot (state_Load (am_persistState hist m f)) fresh) = CurrentMode m"
  using assms by (simp add: am_persistState_def state_Save_def state_Load_def RestoreFromSnapshot_def
      snapshot_of_def Let_def CurrentMode_def [of "_\<lparr>mm_session := _\<rparr>"] CurrentMode_def [of "mm_thinking_update _ _"]
      CurrentMode_def [of "mm_gate_update _ _"] ss_SetMode_def)

section \<open>Approvals of tool calls\<close>

definition looksLikeApprovalPath :: "string \<Rightarrow> bool" where
  "looksLikeApprovalPath s0 =
     (let s = trim_space s0 in
      if s = [] then False else has_prefix ''/'' s \<or> has_prefix ''./'' s \<or> has_prefix ''../'' s)"

definition permsExtractBashPaths :: "json_reader \<Rightarrow> string \<Rightarrow> string list" where
  "permsExtractBashPaths js input =
     (case jr_command js input of None \<Rightarrow> []
      | Some c \<Rightarrow> (let cmd = trim_space c in
          if cmd = [] then [] else filter looksLikeApprovalPath (Go_Strings.fields cmd)))"

definition permsExtractJSONPaths :: "json_reader \<Rightarrow> string \<Rightarrow> string list \<Rightarrow> string list" where
  "permsExtractJSONPaths js input keys =
     (case jr_fields js input of None \<Rightarrow> []
      | Some fs \<Rightarrow> map snd (filter (\<lambda>(k, v). k \<in> set keys \<and> v \<noteq> []) fs))"

definition extractApprovalPaths :: "json_reader \<Rightarrow> string \<Rightarrow> string \<Rightarrow> string list" where
  "extractApprovalPaths js tool input =
     (if tool \<in> {''read'', ''write'', ''edit'', ''read_media_file''}
      then permsExtractJSONPaths js input [''path'', ''file_path'', ''target_path'']
      else if tool = ''bash'' then permsExtractBashPaths js input
      else [])"

definition approvalKey :: "json_reader \<Rightarrow> string \<Rightarrow> string \<Rightarrow> string \<Rightarrow> string" where
  "approvalKey js tool input projectDir =
     (let paths = extractApprovalPaths js tool input in
      if paths = [] then tool @ '':*''
      else tool @ '':'' @ join_with '',''
        (map (\<lambda>p. Clean (if \<not> IsAbs p \<and> projectDir \<noteq> [] then Join projectDir p else p)) paths))"

record approvals =
  ap_approved :: "string set"
  ap_denied :: "string set"

definition appendUnique :: "string list \<Rightarrow> string \<Rightarrow> string list" where
  "appendUnique xs s = (if s \<in> set xs then xs else xs @ [s])"

definition removeString :: "string list \<Rightarrow> string \<Rightarrow> string list" where
  "removeString xs s = filter (\<lambda>v. v \<noteq> s) xs"

definition persistPathApproval :: "string \<Rightarrow> bool \<Rightarrow> state_file option \<Rightarrow> state_file option" where
  "persistPathApproval key approved f =
     (let s = state_Load f in
      state_Save (if approved
        then s\<lparr>sf_approved := appendUnique (sf_approved s) key, sf_denied := removeString (sf_denied s) key\<rparr>
        else s\<lparr>sf_denied := appendUnique (sf_denied s) key, sf_approved := removeString (sf_approved s) key\<rparr>) f)"

definition recordPathApproval :: "string \<Rightarrow> bool \<Rightarrow> approvals \<times> state_file option \<Rightarrow> approvals \<times> state_file option" where
  "recordPathApproval key persist = (\<lambda>(a, f). (a\<lparr>ap_approved := insert key (ap_approved a)\<rparr>,
     if persist then persistPathApproval key True f else f))"

definition recordPathDenial :: "string \<Rightarrow> bool \<Rightarrow> approvals \<times> state_file option \<Rightarrow> approvals \<times> state_file option" where
  "recordPathDenial key persist = (\<lambda>(a, f). (a\<lparr>ap_denied := insert key (ap_denied a)\<rparr>,
     if persist then persistPathApproval key False f else f))"

definition loadPersistedPathApprovals :: "state_file option \<Rightarrow> approvals \<Rightarrow> approvals" where
  "loadPersistedPathApprovals f a = a\<lparr>ap_approved := ap_approved a \<union> set (sf_approved (state_Load f)),
     ap_denied := ap_denied a \<union> set (sf_denied (state_Load f))\<rparr>"

text \<open>The dialog answers a choice or fails.\<close>

datatype tool_answer = Allowed | Refused | RejectedByPolicy | DialogFailed string

definition confirmTool :: "string option \<Rightarrow> json_reader \<Rightarrow> path_policy \<Rightarrow> string + string \<Rightarrow> string \<Rightarrow> string
    \<Rightarrow> approvals \<times> state_file option \<Rightarrow> tool_answer \<times> (approvals \<times> state_file option)" where
  "confirmTool cwd js policy dialog tool input = (\<lambda>(a, f).
     if Decide cwd js policy tool input \<noteq> PathAsk then (Allowed, (a, f))
     else let key = approvalKey js tool input (pp_projectDir policy) in
       if key \<in> ap_approved a then (Allowed, (a, f))
       else if key \<in> ap_denied a then (RejectedByPolicy, (a, f))
       else case dialog of Inl e \<Rightarrow> (DialogFailed e, (a, f))
       | Inr choice \<Rightarrow>
           if choice = ''authorize-once'' then (Allowed, recordPathApproval key False (a, f))
           else if choice = ''authorize-always'' then (Allowed, recordPathApproval key True (a, f))
           else if choice = ''reject-always'' then (Refused, recordPathDenial key True (a, f))
           else (Refused, (a, f)))"

definition no_approvals :: approvals where
  "no_approvals = \<lparr>ap_approved = {}, ap_denied = {}\<rparr>"

lemma always_survives_restart:
  assumes "recordPathDenial key True (a, f) = (a', f')"
  shows "key \<in> ap_denied (loadPersistedPathApprovals f' no_approvals) \<and>
    key \<notin> ap_approved (loadPersistedPathApprovals f' no_approvals)"
  using assms by (auto simp: recordPathDenial_def persistPathApproval_def state_Save_def state_Load_def
      loadPersistedPathApprovals_def no_approvals_def appendUnique_def removeString_def Let_def)

text \<open>A tool call the user rejected for good is asked about again after the mode was changed once
  and the program restarted: saving the mode writes a state file without the approvals.\<close>

theorem mode_change_forgets_approvals:
  assumes "recordPathDenial key True (a, f) = (a1, f1)" "am_SetMode hist ms m f1 = (m', f2)"
    and "approvalKey js tool input (pp_projectDir policy) = key" "Decide cwd js policy tool input = PathAsk"
  shows "fst (confirmTool cwd js policy dialog tool input (a1, f1)) \<in> {Allowed, RejectedByPolicy} \<and>
    loadPersistedPathApprovals f2 no_approvals = no_approvals \<and>
    confirmTool cwd js policy (Inr ''authorize-once'') tool input (loadPersistedPathApprovals f2 no_approvals, f2)
      = (Allowed, recordPathApproval key False (no_approvals, f2))"
proof -
  have l: "loadPersistedPathApprovals f2 no_approvals = no_approvals"
    using assms(2) by (auto simp: am_SetMode_def am_persistState_def state_Save_def state_Load_def snapshot_of_def
        loadPersistedPathApprovals_def no_approvals_def zero_state_def Let_def split: if_splits)
  moreover have "key \<in> ap_denied a1" using assms(1) by (auto simp: recordPathDenial_def)
  ultimately show ?thesis using assms(3,4) by (simp add: confirmTool_def Let_def no_approvals_def)
qed

definition demo_modes :: mode_manager where
  "demo_modes = \<lparr>mm_session = Some (NewSessionState no_mode), mm_thinking = [],
     mm_gate = \<lparr>ag_enabled = False, ag_prompt = []\<rparr>, mm_minor = []\<rparr>"

theorem mode_change_forgets_approvals_witness:
  "\<exists>a1 f1 m' f2. recordPathDenial ''bash:*'' True (no_approvals, None) = (a1, f1) \<and>
     am_SetMode [] no_mode demo_modes f1 = (m', f2) \<and> loadPersistedPathApprovals f2 no_approvals = no_approvals"
proof -
  let ?js = "plain_reader" and ?pol = "\<lparr>pp_projectDir = ''/w'', pp_autonomy = ''confirm''\<rparr>"
  obtain a1 f1 where 1: "recordPathDenial ''bash:*'' True (no_approvals, None) = (a1, f1)" by fastforce
  obtain m' f2 where 2: "am_SetMode [] no_mode demo_modes f1 = (m', f2)" by fastforce
  have "approvalKey ?js ''bash'' ''{}'' (pp_projectDir ?pol) = ''bash:*''" "Decide None ?js ?pol ''bash'' ''{}'' = PathAsk"
    by (simp_all add: approvalKey_def extractApprovalPaths_def permsExtractBashPaths_def plain_reader_def
        Decide_def decideAsk_def)
  from mode_change_forgets_approvals [OF 1 2 this] 1 2 show ?thesis by blast
qed

text \<open>Approving one shell command that names no path approves all of them for the session.\<close>

lemma path_free_commands_share_approval:
  assumes "permsExtractBashPaths js input = []" "permsExtractBashPaths js input' = []"
    and "Decide cwd js policy ''bash'' input = PathAsk"
    and "confirmTool cwd js policy (Inr ''authorize-once'') ''bash'' input (no_approvals, f) = (r, a, f')"
  shows "fst (confirmTool cwd js policy dialog ''bash'' input' (a, f')) = Allowed"
proof -
  have "approvalKey js ''bash'' i (pp_projectDir policy) = ''bash:*''" if "permsExtractBashPaths js i = []" for i
    using that by (simp add: approvalKey_def extractApprovalPaths_def)
  then show ?thesis using assms
    by (auto simp: confirmTool_def Let_def recordPathApproval_def no_approvals_def)
qed

end
