(* ===== verification/Agent_Pool.thy ===== *)
theory Agent_Pool
  imports Go_Strings
begin

text \<open>
  The bounded agent pool (core/orchestrator/pool.go) as a system of concurrent callers. Every
  piece of code the pool runs under its lock is one step; between the steps of one caller any
  step of the others can happen. A caller waits on a channel of its own: it is in the queue of
  waiters from the end of its locked section and can receive a signal only once its goroutine
  has reached the select.
\<close>

section \<open>State\<close>

type_synonym pid = nat

text \<open>Caps: 0 means unlimited, a missing model has cap 0. The map of live handles gives the role
  and model of a handle.\<close>

record pool =
  p_roles :: "string \<Rightarrow> string option"
  p_totalCap :: int
  p_perModelCap :: "string \<Rightarrow> int"
  p_total :: int
  p_perModel :: "string \<Rightarrow> int"
  p_live :: "string \<Rightarrow> (string \<times> string) option"
  p_nextID :: int
  p_waiters :: "pid list"

definition NewBoundedAgentPool :: "(string \<Rightarrow> string option) \<Rightarrow> int \<Rightarrow> (string \<Rightarrow> int) \<Rightarrow> pool" where
  "NewBoundedAgentPool roles tcap perModel = \<lparr>p_roles = roles, p_totalCap = tcap, p_perModelCap = perModel,
     p_total = 0, p_perModel = (\<lambda>_. 0), p_live = Map.empty, p_nextID = 0, p_waiters = []\<rparr>"

text \<open>Where a caller is in \<open>Acquire\<close> (or after it): the role and model are its local variables.\<close>

datatype phase =
    Idle
  | Trying string string       \<comment> \<open>before \<open>tryReserve\<close>\<close>
  | Queued string string       \<comment> \<open>its channel is in the queue, the select not reached\<close>
  | Receiving string string    \<comment> \<open>blocked in the select\<close>
  | Cancelling string string   \<comment> \<open>the context is done, before \<open>cancelWaiter\<close>\<close>
  | Building string string     \<comment> \<open>slot reserved, the factory runs\<close>
  | Holding string string string \<comment> \<open>\<open>Acquire\<close> returned the handle with this identifier\<close>
  | Finished

section \<open>The locked sections\<close>

definition underCapsLocked :: "string \<Rightarrow> pool \<Rightarrow> bool" where
  "underCapsLocked model p \<longleftrightarrow>
     \<not> (p_totalCap p \<noteq> 0 \<and> p_total p \<ge> p_totalCap p) \<and>
     \<not> (p_perModelCap p model \<noteq> 0 \<and> p_perModel p model \<ge> p_perModelCap p model)"

text \<open>\<open>tryReserve\<close>: true when the slot was reserved, false when the caller's channel was queued.\<close>

definition tryReserve :: "pid \<Rightarrow> string \<Rightarrow> pool \<Rightarrow> bool \<times> pool" where
  "tryReserve i model p =
     (if \<not> underCapsLocked model p then (False, p\<lparr>p_waiters := p_waiters p @ [i]\<rparr>)
      else (True, p\<lparr>p_total := p_total p + 1, p_perModel := (p_perModel p)(model := p_perModel p model + 1)\<rparr>))"

definition cancelWaiter :: "pid \<Rightarrow> pool \<Rightarrow> pool" where
  "cancelWaiter i p = p\<lparr>p_waiters := remove_first (\<lambda>w. w = i) (p_waiters p)\<rparr>"

text \<open>\<open>releaseLocked\<close>: the caller that receives the signal, if the head of the queue is receiving.\<close>

definition releaseLocked :: "(pid \<Rightarrow> bool) \<Rightarrow> string \<Rightarrow> pool \<Rightarrow> pid option \<times> pool" where
  "releaseLocked receiving model p =
     (let p1 = p\<lparr>p_total := (if p_total p > 0 then p_total p - 1 else p_total p),
                 p_perModel := (if p_perModel p model > 0
                   then (p_perModel p)(model := p_perModel p model - 1) else p_perModel p)\<rparr>
      in case p_waiters p1 of [] \<Rightarrow> (None, p1)
         | head # ws \<Rightarrow> (if receiving head then Some head else None, p1\<lparr>p_waiters := ws\<rparr>))"

definition handle_id :: "string \<Rightarrow> int \<Rightarrow> string" where
  "handle_id role n = role @ ''-'' @ dec_int n"

definition register_handle :: "string \<Rightarrow> string \<Rightarrow> pool \<Rightarrow> string \<times> pool" where
  "register_handle role model p =
     (let n = wrap64 (p_nextID p + 1); h = handle_id role n in
      (h, p\<lparr>p_nextID := n, p_live := (p_live p)(h \<mapsto> (role, model))\<rparr>))"

definition Release :: "(pid \<Rightarrow> bool) \<Rightarrow> string \<Rightarrow> string \<Rightarrow> pool \<Rightarrow> pid option \<times> pool" where
  "Release receiving h model p =
     (if p_live p h = None then (None, p)
      else releaseLocked receiving model (p\<lparr>p_live := (p_live p)(h := None)\<rparr>))"

definition Live :: "pool \<Rightarrow> string set" where
  "Live p = dom (p_live p)"

definition Counts :: "pool \<Rightarrow> int \<times> (string \<Rightarrow> int)" where
  "Counts p = (p_total p, p_perModel p)"

text \<open>Releasing a handle twice is releasing it once.\<close>

lemma Release_idempotent: "Release rcv' h model' (snd (Release rcv h model p)) = (None, snd (Release rcv h model p))"
proof -
  have "p_live (snd (Release rcv h model p)) h = None"
    by (auto simp: Release_def releaseLocked_def Let_def split: list.splits)
  then show ?thesis by (simp add: Release_def)
qed

section \<open>The callers\<close>

record sys =
  sy_pool :: pool
  sy_ph :: "phase list"

definition receiving :: "phase list \<Rightarrow> pid \<Rightarrow> bool" where
  "receiving ph i \<longleftrightarrow> i < length ph \<and> (\<exists>r m. ph ! i = Receiving r m)"

text \<open>The signal takes its receiver back to the loop of \<open>Acquire\<close>.\<close>

definition retry :: "phase \<Rightarrow> phase" where
  "retry x = (case x of Receiving r m \<Rightarrow> Trying r m | _ \<Rightarrow> x)"

definition wake :: "pid option \<Rightarrow> phase list \<Rightarrow> phase list" where
  "wake w ph = (case w of None \<Rightarrow> ph | Some j \<Rightarrow> ph[j := retry (ph ! j)])"

inductive pool_step :: "sys \<Rightarrow> sys \<Rightarrow> bool" where
  start: "i < length (sy_ph s) \<Longrightarrow> sy_ph s ! i = Idle \<Longrightarrow> p_roles (sy_pool s) r = Some m \<Longrightarrow>
    pool_step s (s\<lparr>sy_ph := (sy_ph s)[i := Trying r m]\<rparr>)"
| unknown_role: "i < length (sy_ph s) \<Longrightarrow> sy_ph s ! i = Idle \<Longrightarrow> p_roles (sy_pool s) r = None \<Longrightarrow>
    pool_step s (s\<lparr>sy_ph := (sy_ph s)[i := Finished]\<rparr>)"
| try_reserve: "i < length (sy_ph s) \<Longrightarrow> sy_ph s ! i = Trying r m \<Longrightarrow> tryReserve i m (sy_pool s) = (ok, p) \<Longrightarrow>
    pool_step s \<lparr>sy_pool = p, sy_ph = (sy_ph s)[i := if ok then Building r m else Queued r m]\<rparr>"
| enter_select: "i < length (sy_ph s) \<Longrightarrow> sy_ph s ! i = Queued r m \<Longrightarrow>
    pool_step s (s\<lparr>sy_ph := (sy_ph s)[i := Receiving r m]\<rparr>)"
| ctx_done: "i < length (sy_ph s) \<Longrightarrow> sy_ph s ! i = Receiving r m \<Longrightarrow>
    pool_step s (s\<lparr>sy_ph := (sy_ph s)[i := Cancelling r m]\<rparr>)"
| cancel: "i < length (sy_ph s) \<Longrightarrow> sy_ph s ! i = Cancelling r m \<Longrightarrow>
    pool_step s \<lparr>sy_pool = cancelWaiter i (sy_pool s), sy_ph = (sy_ph s)[i := Finished]\<rparr>"
| factory_failed: "i < length (sy_ph s) \<Longrightarrow> sy_ph s ! i = Building r m \<Longrightarrow>
    releaseLocked (receiving (sy_ph s)) m (sy_pool s) = (w, p) \<Longrightarrow>
    pool_step s \<lparr>sy_pool = p, sy_ph = wake w ((sy_ph s)[i := Finished])\<rparr>"
| factory_ok: "i < length (sy_ph s) \<Longrightarrow> sy_ph s ! i = Building r m \<Longrightarrow> p_nextID (sy_pool s) < max_int \<Longrightarrow>
    register_handle r m (sy_pool s) = (h, p) \<Longrightarrow>
    pool_step s \<lparr>sy_pool = p, sy_ph = (sy_ph s)[i := Holding h r m]\<rparr>"
| release: "i < length (sy_ph s) \<Longrightarrow> sy_ph s ! i = Holding h r m \<Longrightarrow>
    Release (receiving (sy_ph s)) h m (sy_pool s) = (w, p) \<Longrightarrow>
    pool_step s \<lparr>sy_pool = p, sy_ph = wake w ((sy_ph s)[i := Finished])\<rparr>"

inductive_cases pool_stepE: "pool_step s s'"

inductive pool_reach :: "sys \<Rightarrow> sys \<Rightarrow> bool" where
  reach_refl: "pool_reach s s"
| reach_step: "pool_reach s s' \<Longrightarrow> pool_step s' s'' \<Longrightarrow> pool_reach s s''"

definition init_sys :: "(string \<Rightarrow> string option) \<Rightarrow> int \<Rightarrow> (string \<Rightarrow> int) \<Rightarrow> nat \<Rightarrow> sys" where
  "init_sys roles tcap perModel n =
     \<lparr>sy_pool = NewBoundedAgentPool roles tcap perModel, sy_ph = replicate n Idle\<rparr>"

section \<open>Counting\<close>

definition billed :: "phase \<Rightarrow> bool" where
  "billed x \<longleftrightarrow> (case x of Building _ _ \<Rightarrow> True | Holding _ _ _ \<Rightarrow> True | _ \<Rightarrow> False)"

definition billed_for :: "string \<Rightarrow> phase \<Rightarrow> bool" where
  "billed_for m x \<longleftrightarrow> (case x of Building _ m' \<Rightarrow> m' = m | Holding _ _ m' \<Rightarrow> m' = m | _ \<Rightarrow> False)"

abbreviation count_ph :: "(phase \<Rightarrow> bool) \<Rightarrow> phase list \<Rightarrow> int" where
  "count_ph P ph \<equiv> int (length (filter P ph))"

lemma billed_simps [simp]:
  "\<not> billed Idle" "\<not> billed (Trying r m)" "\<not> billed (Queued r m)" "\<not> billed (Receiving r m)"
  "\<not> billed (Cancelling r m)" "billed (Building r m)" "billed (Holding h r m)" "\<not> billed Finished"
  "\<not> billed_for m' Idle" "\<not> billed_for m' (Trying r m)" "\<not> billed_for m' (Queued r m)" "\<not> billed_for m' (Receiving r m)"
  "\<not> billed_for m' (Cancelling r m)" "billed_for m' (Building r m) = (m = m')" "billed_for m' (Holding h r m) = (m = m')"
  "\<not> billed_for m' Finished"
  by (simp_all add: billed_def billed_for_def)

lemma billed_retry [simp]: "billed (retry x) = billed x" "billed_for m (retry x) = billed_for m x"
  by (cases x; simp add: retry_def)+

lemma retry_Holding [simp]: "retry x = Holding h r m \<longleftrightarrow> x = Holding h r m"
  by (cases x) (simp_all add: retry_def)

lemma length_wake [simp]: "length (wake w ph) = length ph"
  by (simp add: wake_def split: option.split)

lemma nth_wake: "i < length ph \<Longrightarrow> wake w ph ! i = (if w = Some i then retry (ph ! i) else ph ! i)"
  by (auto simp: wake_def split: option.split)

lemma count_wake [simp]:
  "count_ph billed (wake w ph) = count_ph billed ph" "count_ph (billed_for m) (wake w ph) = count_ph (billed_for m) ph"
proof -
  have "count_ph P (ph[j := retry (ph ! j)]) = count_ph P ph" if "P (retry (ph ! j)) = P (ph ! j)" for P and j
    using that by (cases "j < length ph") (simp_all add: count_update list_update_beyond)
  then show "count_ph billed (wake w ph) = count_ph billed ph" "count_ph (billed_for m) (wake w ph) = count_ph (billed_for m) ph"
    by (simp_all add: wake_def split: option.split)
qed

lemma handle_id_number:
  assumes "handle_id r n = handle_id r' n'" "0 \<le> n" "0 \<le> n'"
  shows "n = n'"
proof -
  let ?d = "dec (nat n)" and ?d' = "dec (nat n')"
  have "CHR ''-'' \<notin> set (dec k)" for k using dec_digits [of k] by (auto simp: is_digit_def)
  moreover have "rev ?d @ CHR ''-'' # rev r = rev ?d' @ CHR ''-'' # rev r'"
    using arg_cong [OF assms(1), of rev] assms(2,3) by (simp add: handle_id_def dec_int_def)
  ultimately have "rev ?d = rev ?d'" by (subst (asm) cut_at_sep) simp_all
  with assms(2,3) show ?thesis by simp
qed

section \<open>The invariant\<close>

definition within :: "int \<Rightarrow> int \<Rightarrow> bool" where
  "within cap n \<longleftrightarrow> (cap \<noteq> 0 \<longrightarrow> n \<le> max 0 cap)"

definition pool_inv :: "sys \<Rightarrow> bool" where
  "pool_inv s \<longleftrightarrow> (let p = sy_pool s; ph = sy_ph s in
     p_total p = count_ph billed ph \<and> (\<forall>m. p_perModel p m = count_ph (billed_for m) ph) \<and>
     within (p_totalCap p) (p_total p) \<and> (\<forall>m. within (p_perModelCap p m) (p_perModel p m)) \<and> 0 \<le> p_nextID p)"

text \<open>The handle a caller holds, with its role and model. The live handles are exactly those held,
  every one by a single caller, and their numbers are not above the counter.\<close>

definition held :: "phase list \<Rightarrow> pid \<Rightarrow> (string \<times> string \<times> string) option" where
  "held ph i = (if i < length ph then (case ph ! i of Holding h r m \<Rightarrow> Some (h, r, m) | _ \<Rightarrow> None) else None)"

definition live_ok :: "(string \<Rightarrow> (string \<times> string) option) \<Rightarrow> int \<Rightarrow> (pid \<Rightarrow> (string \<times> string \<times> string) option) \<Rightarrow> bool" where
  "live_ok live n f \<longleftrightarrow> 0 \<le> n \<and> n \<le> max_int \<and>
     (\<forall>h x. live h = Some x \<longleftrightarrow> (\<exists>i. f i = Some (h, x))) \<and>
     (\<forall>i j h x y. f i = Some (h, x) \<and> f j = Some (h, y) \<longrightarrow> i = j) \<and>
     (\<forall>i h r m. f i = Some (h, r, m) \<longrightarrow> (\<exists>k. 0 \<le> k \<and> k \<le> n \<and> h = handle_id r k))"

definition live_inv :: "sys \<Rightarrow> bool" where
  "live_inv s \<longleftrightarrow> live_ok (p_live (sy_pool s)) (p_nextID (sy_pool s)) (held (sy_ph s))"

lemma held_update: "i < length ph \<Longrightarrow> held (ph[i := x]) = (held ph)(i := case x of Holding h r m \<Rightarrow> Some (h, r, m) | _ \<Rightarrow> None)"
  by (auto simp: held_def fun_eq_iff nth_list_update)

lemma held_Some_iff: "held ph i = Some (h, r, m) \<longleftrightarrow> i < length ph \<and> ph ! i = Holding h r m"
  by (cases "ph ! i") (auto simp: held_def)

lemma held_wake [simp]: "held (wake w ph) = held ph"
proof
  fix i
  have "(case retry x of Holding h r m \<Rightarrow> Some (h, r, m) | _ \<Rightarrow> None) = (case x of Holding h r m \<Rightarrow> Some (h, r, m) | _ \<Rightarrow> None)" for x
    by (cases x) (simp_all add: retry_def)
  then show "held (wake w ph) i = held ph i" by (simp add: held_def nth_wake)
qed

lemma held_None: "i < length ph \<Longrightarrow> \<forall>h r m. ph ! i \<noteq> Holding h r m \<Longrightarrow> held ph i = None"
  by (auto simp: held_def split: phase.split)

lemma live_okI:
  "0 \<le> n \<Longrightarrow> n \<le> max_int \<Longrightarrow> (\<And>h x. live h = Some x \<longleftrightarrow> (\<exists>i. f i = Some (h, x))) \<Longrightarrow>
   (\<And>i j h x y. f i = Some (h, x) \<Longrightarrow> f j = Some (h, y) \<Longrightarrow> i = j) \<Longrightarrow>
   (\<And>i h r m. f i = Some (h, r, m) \<Longrightarrow> \<exists>k. 0 \<le> k \<and> k \<le> n \<and> h = handle_id r k) \<Longrightarrow> live_ok live n f"
  unfolding live_ok_def by blast

lemma live_ok_drop: "live_ok live n f \<Longrightarrow> f i = Some (h, x) \<Longrightarrow> live_ok (live(h := None)) n (f(i := None))"
  unfolding live_ok_def by (intro conjI allI impI; auto split: if_splits; metis option.inject prod.inject)

lemma live_ok_add:
  assumes "live_ok live n f" "f i = None" "n < max_int" "h = handle_id r (n + 1)"
  shows "live_ok (live(h \<mapsto> (r, m))) (n + 1) (f(i \<mapsto> (h, r, m)))"
proof -
  have fresh: "f j \<noteq> Some (h, x)" for j x
  proof
    assume "f j = Some (h, x)"
    then obtain r' m' k where "x = (r', m')" "0 \<le> k" "k \<le> n" "h = handle_id r' k"
      using assms(1) unfolding live_ok_def by (metis surj_pair)
    with handle_id_number [of r "n + 1" r' k] assms(1,4) show False by (simp add: live_ok_def)
  qed
  have old: "0 \<le> n" "\<And>h x. live h = Some x \<longleftrightarrow> (\<exists>i. f i = Some (h, x))"
    "\<And>i j h x y. f i = Some (h, x) \<Longrightarrow> f j = Some (h, y) \<Longrightarrow> i = j"
    "\<And>i h r m. f i = Some (h, r, m) \<Longrightarrow> \<exists>k. 0 \<le> k \<and> k \<le> n \<and> h = handle_id r k"
    using assms(1) unfolding live_ok_def by blast+
  have c1: "(live(h \<mapsto> (r, m))) h' = Some x \<longleftrightarrow> (\<exists>j. (f(i \<mapsto> (h, r, m))) j = Some (h', x))" for h' x
  proof (cases "h' = h")
    case True
    then show ?thesis using fresh by (cases x) auto
  next
    case False
    then have "(\<exists>j. (f(i \<mapsto> (h, r, m))) j = Some (h', x)) \<longleftrightarrow> (\<exists>j. f j = Some (h', x))"
      using assms(2) by (metis fst_conv fun_upd_apply option.distinct(1) option.inject)
    with False old(2) [of h' x] show ?thesis by simp
  qed
  have c3: "\<exists>k. 0 \<le> k \<and> k \<le> n + 1 \<and> h' = handle_id r' k" if "(f(i \<mapsto> (h, r, m))) j = Some (h', r', m')" for j h' r' m'
  proof (cases "j = i")
    case True
    with that old(1) assms(4) show ?thesis by (intro exI [of _ "n + 1"]) auto
  next
    case False
    with that have "f j = Some (h', r', m')" by simp
    from old(4) [OF this] show ?thesis by force
  qed
  have c2: "j = j'" if "(f(i \<mapsto> (h, r, m))) j = Some (h', x)" "(f(i \<mapsto> (h, r, m))) j' = Some (h', y)" for j j' h' x y
    using that old(3) [of j h' x j' y] fresh by (cases "j = i"; cases "j' = i") auto
  show ?thesis
  proof (rule live_okI)
    show "0 \<le> n + 1" "n + 1 \<le> max_int" using old(1) assms(3) by simp_all
  qed (rule c1, erule (1) c2, erule c3)
qed

lemma tryReserve_inv:
  assumes "pool_inv s" "i < length (sy_ph s)" "sy_ph s ! i = Trying r m" "tryReserve i m (sy_pool s) = (ok, p)"
  shows "pool_inv \<lparr>sy_pool = p, sy_ph = (sy_ph s)[i := if ok then Building r m else Queued r m]\<rparr>"
  using assms by (auto simp: pool_inv_def tryReserve_def underCapsLocked_def within_def Let_def count_update split: if_splits)

lemma within_mono: "within c n \<Longrightarrow> k \<le> n \<Longrightarrow> within c k"
  by (auto simp: within_def)

lemma releaseLocked_inv:
  assumes "pool_inv s" "i < length (sy_ph s)" "billed (sy_ph s ! i)" "\<And>m'. billed_for m' (sy_ph s ! i) = (m = m')"
    and "releaseLocked rcv m ((sy_pool s)\<lparr>p_live := l\<rparr>) = (w, p)"
  shows "pool_inv \<lparr>sy_pool = p, sy_ph = wake w ((sy_ph s)[i := Finished])\<rparr>"
proof -
  let ?ph = "sy_ph s" and ?q = "sy_pool s"
  have pos: "0 < count_ph billed ?ph" "0 < count_ph (billed_for m) ?ph"
    using assms(2,3,4) by (auto simp: filter_empty_conv intro: nth_mem)
  have p: "p_total p = p_total ?q - 1" "p_perModel p = (p_perModel ?q)(m := p_perModel ?q m - 1)"
    "p_totalCap p = p_totalCap ?q" "p_perModelCap p = p_perModelCap ?q" "p_nextID p = p_nextID ?q"
    using assms(1,5) pos by (auto simp: releaseLocked_def pool_inv_def Let_def split: list.splits)
  show ?thesis
    using assms(1-4) p by (auto simp: pool_inv_def Let_def count_update intro: within_mono)
qed

lemma releaseLocked_frame:
  "releaseLocked rcv m q = (w, p) \<Longrightarrow> p_live p = p_live q \<and> p_nextID p = p_nextID q"
  by (auto simp: releaseLocked_def Let_def split: list.splits)

lemma inv_step:
  assumes "pool_step s s'" "pool_inv s \<and> live_inv s"
  shows "pool_inv s' \<and> live_inv s'"
  using assms
proof (induction rule: pool_step.induct)
  case (try_reserve i s r m ok p)
  then have "live_inv \<lparr>sy_pool = p, sy_ph = (sy_ph s)[i := if ok then Building r m else Queued r m]\<rparr>"
    by (auto simp: live_inv_def held_update fun_upd_idem held_None tryReserve_def split: if_splits)
  with try_reserve show ?case using tryReserve_inv by blast
next
  case (cancel i s r m)
  then show ?case
    by (simp add: pool_inv_def live_inv_def cancelWaiter_def Let_def count_update held_update fun_upd_idem held_None) metis
next
  case (factory_failed i s r m w p)
  then have "live_inv \<lparr>sy_pool = p, sy_ph = wake w ((sy_ph s)[i := Finished])\<rparr>"
    using releaseLocked_frame [OF factory_failed(3)] by (simp add: live_inv_def held_update fun_upd_idem held_None)
  with factory_failed releaseLocked_inv [of s i m "receiving (sy_ph s)" "p_live (sy_pool s)" w p] show ?case by simp
next
  case (factory_ok i s r m h p)
  have n: "0 \<le> p_nextID (sy_pool s)" using factory_ok by (simp add: live_inv_def live_ok_def)
  have p: "h = handle_id r (p_nextID (sy_pool s) + 1)" "p_live p = (p_live (sy_pool s))(h \<mapsto> (r, m))"
    "p_nextID p = p_nextID (sy_pool s) + 1"
    using factory_ok(3,4) n by (auto simp: register_handle_def Let_def wrap64_id max_int_def)
  have "live_inv \<lparr>sy_pool = p, sy_ph = (sy_ph s)[i := Holding h r m]\<rparr>"
    using live_ok_add [of "p_live (sy_pool s)" "p_nextID (sy_pool s)" "held (sy_ph s)" i h r m] factory_ok p
    by (simp add: live_inv_def held_update held_None)
  moreover have "pool_inv \<lparr>sy_pool = p, sy_ph = (sy_ph s)[i := Holding h r m]\<rparr>"
    using factory_ok n by (auto simp: pool_inv_def register_handle_def Let_def count_update wrap64_id max_int_def)
  ultimately show ?case by blast
next
  case (release i s h r m w p)
  have f: "held (sy_ph s) i = Some (h, r, m)" using release by (simp add: held_def)
  then have "p_live (sy_pool s) h = Some (r, m)"
    using release unfolding live_inv_def live_ok_def by blast
  with release have rl: "releaseLocked (receiving (sy_ph s)) m ((sy_pool s)\<lparr>p_live := (p_live (sy_pool s))(h := None)\<rparr>) = (w, p)"
    by (simp add: Release_def)
  from releaseLocked_frame [OF rl] release live_ok_drop [where f = "held (sy_ph s)" and i = i, OF _ f]
  have "live_inv \<lparr>sy_pool = p, sy_ph = wake w ((sy_ph s)[i := Finished])\<rparr>"
    by (simp add: live_inv_def held_update)
  with releaseLocked_inv [OF _ _ _ _ rl] release show ?case by simp
qed (auto simp: pool_inv_def live_inv_def Let_def count_update held_update fun_upd_idem held_None)

lemma inv_reach: "pool_reach s s' \<Longrightarrow> pool_inv s \<and> live_inv s \<Longrightarrow> pool_inv s' \<and> live_inv s'"
  by (induction rule: pool_reach.induct) (auto dest: inv_step)

lemma inv_init: "pool_inv (init_sys roles tcap perModel n) \<and> live_inv (init_sys roles tcap perModel n)"
  by (auto simp: init_sys_def pool_inv_def live_inv_def live_ok_def NewBoundedAgentPool_def held_def within_def
      filter_replicate max_int_def Let_def)

lemma caps_constant: "pool_reach s s' \<Longrightarrow> p_totalCap (sy_pool s') = p_totalCap (sy_pool s) \<and>
    p_perModelCap (sy_pool s') = p_perModelCap (sy_pool s) \<and> p_roles (sy_pool s') = p_roles (sy_pool s)"
proof (induction rule: pool_reach.induct)
  case (reach_step s s' s'')
  from reach_step(2) have "p_totalCap (sy_pool s'') = p_totalCap (sy_pool s') \<and>
    p_perModelCap (sy_pool s'') = p_perModelCap (sy_pool s') \<and> p_roles (sy_pool s'') = p_roles (sy_pool s')"
    by (induction rule: pool_step.induct)
       (auto simp: tryReserve_def cancelWaiter_def releaseLocked_def register_handle_def Release_def Let_def split: if_splits list.splits)
  with reach_step.IH show ?case by simp
qed simp

text \<open>C21: However the callers interleave, the agents being built or held are never more than the caps
  allow, the counters say how many there are, and the live handles are exactly those held.\<close>

theorem pool_caps_respected:
  assumes "pool_reach (init_sys roles tcap perModel n) s"
  shows "fst (Counts (sy_pool s)) = count_ph billed (sy_ph s) \<and>
    (tcap > 0 \<longrightarrow> count_ph billed (sy_ph s) \<le> tcap) \<and>
    (\<forall>m. snd (Counts (sy_pool s)) m = count_ph (billed_for m) (sy_ph s) \<and>
       (perModel m > 0 \<longrightarrow> count_ph (billed_for m) (sy_ph s) \<le> perModel m)) \<and>
    Live (sy_pool s) = {h. \<exists>i<length (sy_ph s). \<exists>r m. sy_ph s ! i = Holding h r m}"
proof -
  have inv: "pool_inv s" "live_inv s" using inv_reach [OF assms inv_init] by simp_all
  have caps: "p_totalCap (sy_pool s) = tcap" "p_perModelCap (sy_pool s) = perModel"
    using caps_constant [OF assms] by (simp_all add: init_sys_def NewBoundedAgentPool_def)
  have "h \<in> Live (sy_pool s) \<longleftrightarrow> (\<exists>i<length (sy_ph s). \<exists>r m. sy_ph s ! i = Holding h r m)" for h
  proof -
    have "h \<in> Live (sy_pool s) \<longleftrightarrow> (\<exists>i x. held (sy_ph s) i = Some (h, x))"
      using inv(2) unfolding live_inv_def live_ok_def Live_def dom_def by blast
    also have "\<dots> \<longleftrightarrow> (\<exists>i<length (sy_ph s). \<exists>r m. sy_ph s ! i = Holding h r m)"
      by (auto simp: held_Some_iff)
    finally show ?thesis .
  qed
  moreover have "count_ph (billed_for m) (sy_ph s) \<le> perModel m" if "perModel m > 0" for m
  proof -
    have "within (perModel m) (count_ph (billed_for m) (sy_ph s))" using inv(1) caps by (simp add: pool_inv_def Let_def) metis
    with that show ?thesis by (simp add: within_def)
  qed
  moreover have "count_ph billed (sy_ph s) \<le> tcap" if "tcap > 0"
    using inv(1) caps that by (simp add: pool_inv_def Let_def within_def)
  ultimately show ?thesis using inv(1) by (auto simp: pool_inv_def Counts_def Let_def)
qed

section \<open>Waiting\<close>

text \<open>Runs in which every release that finds a waiter finds the first one listening.\<close>

inductive polite_reach :: "sys \<Rightarrow> sys \<Rightarrow> bool" where
  polite_refl: "polite_reach s s"
| polite_next: "polite_reach s s' \<Longrightarrow> pool_step s' s'' \<Longrightarrow>
    (p_total (sy_pool s'') < p_total (sy_pool s') \<Longrightarrow> p_waiters (sy_pool s') \<noteq> [] \<Longrightarrow>
       receiving (sy_ph s') (hd (p_waiters (sy_pool s')))) \<Longrightarrow>
    polite_reach s s''"

lemma polite_is_reach: "polite_reach s s' \<Longrightarrow> pool_reach s s'"
  by (induction rule: polite_reach.induct) (auto intro: pool_reach.intros)

text \<open>A run of the pool, given by its states.\<close>

definition one_role :: "string \<Rightarrow> string \<Rightarrow> string \<Rightarrow> string option" where
  "one_role r m = [r \<mapsto> m]"

definition pool_of :: "string \<Rightarrow> string \<Rightarrow> int \<Rightarrow> int \<Rightarrow> (string \<Rightarrow> (string \<times> string) option) \<Rightarrow> pid list \<Rightarrow> pool" where
  "pool_of r m k n live ws = \<lparr>p_roles = one_role r m, p_totalCap = 1, p_perModelCap = (\<lambda>_. 0), p_total = k,
     p_perModel = (\<lambda>x. if x = m then k else 0), p_live = live, p_nextID = n, p_waiters = ws\<rparr>"

lemma pool_of_init: "init_sys (one_role r m) 1 (\<lambda>_. 0) 2 = \<lparr>sy_pool = pool_of r m 0 0 Map.empty [], sy_ph = [Idle, Idle]\<rparr>"
  by (simp add: init_sys_def NewBoundedAgentPool_def pool_of_def numeral_2_eq_2 fun_eq_iff)

lemma holder_reached:
  "polite_reach (init_sys (one_role r m) 1 (\<lambda>_. 0) 2)
     \<lparr>sy_pool = pool_of r m 1 1 [handle_id r 1 \<mapsto> (r, m)] [], sy_ph = [Holding (handle_id r 1) r m, Idle]\<rparr>"
proof -
  let ?s = "\<lambda>k n l ph. \<lparr>sy_pool = pool_of r m k n l [], sy_ph = ph\<rparr>"
  have 1: "pool_step (?s 0 0 Map.empty [Idle, Idle]) (?s 0 0 Map.empty [Trying r m, Idle])"
    using start [of 0 "?s 0 0 Map.empty [Idle, Idle]" r m] by (simp add: pool_of_def one_role_def)
  have 2: "pool_step (?s 0 0 Map.empty [Trying r m, Idle]) (?s 1 0 Map.empty [Building r m, Idle])"
    using try_reserve [of 0 "?s 0 0 Map.empty [Trying r m, Idle]" r m True "pool_of r m 1 0 Map.empty []"]
    by (simp add: pool_of_def tryReserve_def underCapsLocked_def fun_eq_iff)
  have 3: "pool_step (?s 1 0 Map.empty [Building r m, Idle])
      (?s 1 1 [handle_id r 1 \<mapsto> (r, m)] [Holding (handle_id r 1) r m, Idle])"
  proof -
    have "register_handle r m (pool_of r m 1 0 Map.empty []) = (handle_id r 1, pool_of r m 1 1 [handle_id r 1 \<mapsto> (r, m)] [])"
      by (simp add: pool_of_def register_handle_def wrap64_def Let_def)
    with factory_ok [of 0 "?s 1 0 Map.empty [Building r m, Idle]" r m "handle_id r 1" "pool_of r m 1 1 [handle_id r 1 \<mapsto> (r, m)] []"]
    show ?thesis by (simp add: pool_of_def max_int_def)
  qed
  show ?thesis unfolding pool_of_init 
    by (rule polite_next [OF polite_next [OF polite_next [OF polite_refl 1] 2] 3]) (simp_all add: pool_of_def)
qed

lemma waiter_reached:
  "polite_reach (init_sys (one_role r m) 1 (\<lambda>_. 0) 2)
     \<lparr>sy_pool = pool_of r m 1 1 [handle_id r 1 \<mapsto> (r, m)] [1], sy_ph = [Holding (handle_id r 1) r m, Queued r m]\<rparr>"
proof -
  let ?h = "handle_id r 1"
  let ?s = "\<lambda>ws ph. \<lparr>sy_pool = pool_of r m 1 1 [?h \<mapsto> (r, m)] ws, sy_ph = ph\<rparr>"
  have 1: "pool_step (?s [] [Holding ?h r m, Idle]) (?s [] [Holding ?h r m, Trying r m])"
    using start [of 1 "?s [] [Holding ?h r m, Idle]" r m] by (simp add: pool_of_def one_role_def)
  have 2: "pool_step (?s [] [Holding ?h r m, Trying r m]) (?s [1] [Holding ?h r m, Queued r m])"
    using try_reserve [of 1 "?s [] [Holding ?h r m, Trying r m]" r m False "pool_of r m 1 1 [?h \<mapsto> (r, m)] [1]"]
    by (simp add: pool_of_def tryReserve_def underCapsLocked_def)
  show ?thesis by (rule polite_next [OF polite_next [OF holder_reached 1] 2]) (simp_all add: pool_of_def)
qed

theorem pool_caps_respected_witness:
  "\<exists>s. pool_reach (init_sys (one_role ''coder'' ''gpt'') 1 (\<lambda>_. 0) 2) s \<and> p_waiters (sy_pool s) = [1] \<and>
     fst (Counts (sy_pool s)) = 1 \<and> count_ph billed (sy_ph s) \<le> 1"
proof -
  let ?s = "\<lparr>sy_pool = pool_of ''coder'' ''gpt'' 1 1 [handle_id ''coder'' 1 \<mapsto> (''coder'', ''gpt'')] [1],
    sy_ph = [Holding (handle_id ''coder'' 1) ''coder'' ''gpt'', Queued ''coder'' ''gpt'']\<rparr>"
  have r: "pool_reach (init_sys (one_role ''coder'' ''gpt'') 1 (\<lambda>_. 0) 2) ?s"
    by (rule polite_is_reach [OF waiter_reached])
  have "count_ph billed (sy_ph ?s) \<le> 1" using pool_caps_respected [OF r] by simp
  moreover have "p_waiters (sy_pool ?s) = [1] \<and> fst (Counts (sy_pool ?s)) = 1" by (simp add: pool_of_def Counts_def)
  ultimately show ?thesis using r by blast
qed

text \<open>A caller whose channel has left the queue without a signal.\<close>

definition stranded :: "pid \<Rightarrow> sys \<Rightarrow> bool" where
  "stranded i s \<longleftrightarrow> i < length (sy_ph s) \<and> i \<notin> set (p_waiters (sy_pool s)) \<and>
     ((\<exists>r m. sy_ph s ! i = Receiving r m \<or> sy_ph s ! i = Cancelling r m) \<or> sy_ph s ! i = Finished)"

lemma releaseLocked_wakes:
  "releaseLocked rcv m q = (w, p) \<Longrightarrow> set (p_waiters p) \<subseteq> set (p_waiters q) \<and> (\<forall>j. w = Some j \<longrightarrow> j \<in> set (p_waiters q))"
  by (auto simp: releaseLocked_def Let_def split: list.splits if_splits)

lemma stranded_step: "pool_step s s' \<Longrightarrow> stranded i s \<Longrightarrow> stranded i s'"
proof (induction rule: pool_step.induct)
  case (try_reserve j s r m ok p)
  then show ?case by (auto simp: stranded_def tryReserve_def nth_list_update split: if_splits)
next
  case (cancel j s r m)
  then show ?case
    using set_remove_first_subset [of "\<lambda>w. w = j" "p_waiters (sy_pool s)"]
    by (auto simp: stranded_def cancelWaiter_def nth_list_update)
next
  case (factory_failed j s r m w p)
  then show ?case using releaseLocked_wakes [OF factory_failed(3)]
    by (auto simp: stranded_def nth_wake nth_list_update)
next
  case (release j s h r m w p)
  have "set (p_waiters p) \<subseteq> set (p_waiters (sy_pool s)) \<and> (\<forall>k. w = Some k \<longrightarrow> k \<in> set (p_waiters (sy_pool s)))"
    using release(3) releaseLocked_wakes by (fastforce simp: Release_def split: if_splits)
  with release show ?case by (auto simp: stranded_def nth_wake nth_list_update)
qed (auto simp: stranded_def nth_list_update register_handle_def Let_def)

lemma stranded_reach: "pool_reach s s' \<Longrightarrow> stranded i s \<Longrightarrow> stranded i s'"
  by (induction rule: pool_reach.induct) (auto intro: stranded_step)

text \<open>A wake-up can be lost: with a single slot there is a run at whose end nobody holds an agent and
  the slot is free, yet a caller waits and will never be given it, whatever happens afterwards. The
  release sent its signal between the moment the caller queued and the moment it listened.\<close>

theorem wake_up_can_be_lost:
  "\<exists>s. pool_reach (init_sys (one_role r m) 1 (\<lambda>_. 0) 2) s \<and> Counts (sy_pool s) = (0, \<lambda>_. 0) \<and>
     underCapsLocked m (sy_pool s) \<and> receiving (sy_ph s) 1 \<and>
     (\<forall>s'. pool_reach s s' \<longrightarrow> \<not> billed (sy_ph s' ! 1) \<and> sy_ph s' ! 1 \<noteq> Trying r m)"
proof -
  let ?h = "handle_id r 1"
  let ?l = "[?h \<mapsto> (r, m)]"
  let ?s = "\<lambda>k l ws ph. \<lparr>sy_pool = pool_of r m k 1 l ws, sy_ph = ph\<rparr>"
  have 3: "pool_step (?s 1 ?l [1] [Holding ?h r m, Queued r m]) (?s 0 Map.empty [] [Finished, Queued r m])"
    using release [of 0 "?s 1 ?l [1] [Holding ?h r m, Queued r m]" ?h r m None "pool_of r m 0 1 Map.empty []"]
    by (simp add: pool_of_def Release_def releaseLocked_def receiving_def wake_def fun_eq_iff)
  have 4: "pool_step (?s 0 Map.empty [] [Finished, Queued r m]) (?s 0 Map.empty [] [Finished, Receiving r m])"
    using enter_select [of 1 "?s 0 Map.empty [] [Finished, Queued r m]" r m] by simp
  let ?e = "?s 0 Map.empty [] [Finished, Receiving r m]"
  have "pool_reach (init_sys (one_role r m) 1 (\<lambda>_. 0) 2) ?e"
    by (rule reach_step [OF reach_step [OF polite_is_reach [OF waiter_reached] 3] 4])
  moreover have "stranded 1 ?e" by (simp add: stranded_def pool_of_def)
  then have "\<not> billed (sy_ph s' ! 1) \<and> sy_ph s' ! 1 \<noteq> Trying r m" if "pool_reach ?e s'" for s'
    using stranded_reach [OF that, of 1] by (auto simp: stranded_def)
  moreover have "Counts (sy_pool ?e) = (0, \<lambda>_. 0)" "underCapsLocked m (sy_pool ?e)" "receiving (sy_ph ?e) 1"
    by (simp_all add: Counts_def pool_of_def underCapsLocked_def receiving_def)
  ultimately show ?thesis by blast
qed

theorem wake_up_can_be_lost_witness:
  "\<exists>s. pool_reach (init_sys (one_role ''coder'' ''gpt'') 1 (\<lambda>_. 0) 2) s \<and> receiving (sy_ph s) 1 \<and>
     underCapsLocked ''gpt'' (sy_pool s)"
  using wake_up_can_be_lost [of "''coder''" "''gpt''"] by blast

definition trying :: "phase \<Rightarrow> bool" where
  "trying x \<longleftrightarrow> (\<exists>r m. x = Trying r m)"

definition full_inv :: "sys \<Rightarrow> bool" where
  "full_inv s \<longleftrightarrow> (p_waiters (sy_pool s) \<noteq> [] \<longrightarrow> p_totalCap (sy_pool s) \<le> p_total (sy_pool s) + count_ph trying (sy_ph s))"

lemma trying_simps [simp]:
  "\<not> trying Idle" "trying (Trying r m)" "\<not> trying (Queued r m)" "\<not> trying (Receiving r m)"
  "\<not> trying (Cancelling r m)" "\<not> trying (Building r m)" "\<not> trying (Holding h r m)" "\<not> trying Finished"
  by (simp_all add: trying_def)

lemma full_after_release:
  assumes "full_inv s" "i < length (sy_ph s)" "\<not> trying (sy_ph s ! i)" "\<not> receiving (sy_ph s) i"
    and "releaseLocked (receiving (sy_ph s)) m ((sy_pool s)\<lparr>p_live := l\<rparr>) = (w, p)" "0 < p_total (sy_pool s)"
    and "p_waiters (sy_pool s) \<noteq> [] \<Longrightarrow> receiving (sy_ph s) (hd (p_waiters (sy_pool s)))"
  shows "full_inv \<lparr>sy_pool = p, sy_ph = wake w ((sy_ph s)[i := Finished])\<rparr>"
proof (cases "p_waiters (sy_pool s)")
  case Nil
  with assms(5) have "p_waiters p = []" by (auto simp: releaseLocked_def Let_def)
  then show ?thesis by (simp add: full_inv_def)
next
  case (Cons j ws)
  let ?ph = "(sy_ph s)[i := Finished]"
  have j: "receiving (sy_ph s) j" using assms(7) Cons by simp
  then obtain r' m' where j': "j < length (sy_ph s)" "sy_ph s ! j = Receiving r' m'"
    by (auto simp: receiving_def)
  have "j \<noteq> i" using j assms(4) by blast
  note j' = j' this
  have p: "w = Some j" "p_total p = p_total (sy_pool s) - 1" "p_totalCap p = p_totalCap (sy_pool s)"
    using assms(5,6) j Cons by (auto simp: releaseLocked_def Let_def)
  have "count_ph trying (wake w ?ph) = count_ph trying (sy_ph s) + 1"
    using j' assms(2,3) by (simp add: p(1) wake_def retry_def count_update nth_list_update)
  with assms(1) Cons p(2,3) show ?thesis by (simp add: full_inv_def)
qed

lemma full_step:
  assumes "pool_step s s'" "full_inv s" "pool_inv s" "live_inv s" "\<forall>m. p_perModelCap (sy_pool s) m = 0"
    and "p_total (sy_pool s') < p_total (sy_pool s) \<Longrightarrow> p_waiters (sy_pool s) \<noteq> [] \<Longrightarrow>
      receiving (sy_ph s) (hd (p_waiters (sy_pool s)))"
  shows "full_inv s'"
  using assms
proof (induction rule: pool_step.induct)
  case (try_reserve i s r m ok p)
  have "length (filter trying (sy_ph s)) \<noteq> 0"
    using try_reserve length_filter_pos [of i "sy_ph s" trying] by simp
  then obtain k where k: "length (filter trying (sy_ph s)) = Suc k" by (metis not0_implies_Suc)
  from try_reserve show ?case
    by (auto simp: k full_inv_def tryReserve_def underCapsLocked_def count_update split: if_splits)
next
  case (cancel i s r m)
  then show ?case by (auto simp: full_inv_def cancelWaiter_def count_update)
next
  case (factory_failed i s r m w p)
  have "0 < p_total (sy_pool s)"
    using factory_failed length_filter_pos [of i "sy_ph s" billed] by (simp add: pool_inv_def Let_def)
  with factory_failed show ?case
    by (intro full_after_release [where m = m and l = "p_live (sy_pool s)"])
       (auto simp: receiving_def releaseLocked_def Let_def split: list.splits)
next
  case (release i s h r m w p)
  have pos: "0 < p_total (sy_pool s)"
    using release length_filter_pos [of i "sy_ph s" billed] by (simp add: pool_inv_def Let_def)
  have "held (sy_ph s) i = Some (h, r, m)" using release by (simp add: held_Some_iff)
  then have "p_live (sy_pool s) h = Some (r, m)" using release unfolding live_inv_def live_ok_def by blast
  with release(3) have rl: "releaseLocked (receiving (sy_ph s)) m ((sy_pool s)\<lparr>p_live := (p_live (sy_pool s))(h := None)\<rparr>) = (w, p)"
    by (simp add: Release_def)
  then have "p_total p < p_total (sy_pool s)" using pos by (auto simp: releaseLocked_def Let_def split: list.splits)
  with release show ?case
    by (intro full_after_release [OF _ _ _ _ rl pos]) (auto simp: receiving_def)
qed (auto simp: full_inv_def count_update register_handle_def Let_def)

text \<open>When only the total is capped and every release finds the first waiter listening, nobody waits
  beside a free slot: as long as a caller is queued and none is on its way to reserve, the slots are
  all taken, so some holder is left to wake it.\<close>

theorem waiting_means_full:
  assumes "polite_reach (init_sys roles tcap (\<lambda>_. 0) n) s" "tcap > 0" "p_waiters (sy_pool s) \<noteq> []"
    and "\<forall>x\<in>set (sy_ph s). \<not> trying x"
  shows "count_ph billed (sy_ph s) = tcap"
proof -
  let ?i = "init_sys roles tcap (\<lambda>_. 0) n"
  have "full_inv s"
    using assms(1)
  proof (induction ?i s rule: polite_reach.induct)
    case polite_refl
    then show ?case by (simp add: full_inv_def init_sys_def NewBoundedAgentPool_def)
  next
    case (polite_next s' s'')
    note r = polite_is_reach [OF polite_next(1)]
    have "\<forall>m. p_perModelCap (sy_pool s') m = 0"
      using caps_constant [OF r] by (simp add: init_sys_def NewBoundedAgentPool_def)
    with full_step [OF polite_next(3,2)] inv_reach [OF r inv_init] polite_next(4) show ?case by blast
  qed
  moreover have "filter trying (sy_ph s) = []" using assms(4) by (simp add: filter_empty_conv)
  moreover note inv = inv_reach [OF polite_is_reach [OF assms(1)] inv_init]
  moreover have "p_totalCap (sy_pool s) = tcap"
    using caps_constant [OF polite_is_reach [OF assms(1)]] by (simp add: init_sys_def NewBoundedAgentPool_def)
  ultimately show ?thesis using assms(2,3) by (simp add: full_inv_def pool_inv_def within_def Let_def)
qed


theorem waiting_means_full_witness:
  "\<exists>s. polite_reach (init_sys (one_role ''coder'' ''gpt'') 1 (\<lambda>_. 0) 2) s \<and> p_waiters (sy_pool s) = [1] \<and>
     count_ph billed (sy_ph s) = 1"
proof -
  let ?s = "\<lparr>sy_pool = pool_of ''coder'' ''gpt'' 1 1 [handle_id ''coder'' 1 \<mapsto> (''coder'', ''gpt'')] [1],
    sy_ph = [Holding (handle_id ''coder'' 1) ''coder'' ''gpt'', Queued ''coder'' ''gpt'']\<rparr>"
  have "p_waiters (sy_pool ?s) = [1]" by (simp add: pool_of_def)
  moreover have "count_ph billed (sy_ph ?s) = 1"
    by (rule waiting_means_full [OF waiter_reached]) (simp_all add: pool_of_def)
  ultimately show ?thesis using waiter_reached by blast
qed

end
