(* ===== verification/Session_Tree.thy ===== *)
theory Session_Tree
  imports Go_Strings
begin

text \<open>
  The session tree (core/sessiontree: tree.go, store.go, manager.go). The map of nodes is the list
  of its values, keyed by their identifier; ranging over it visits the nodes in some order, which
  is a parameter. Node numbers do not wrap: a tree of so many nodes does not fit in memory. The
  recursion of \<open>cloneNode\<close> and the loop of \<open>Path\<close> need not end; they take fuel, \<open>None\<close> means
  that it ran out.
\<close>

section \<open>Nodes and trees\<close>

record node =
  nd_id :: string
  nd_parent :: string
  nd_message :: string
  nd_summary :: string
  nd_created :: int

record stree =
  t_nodes :: "node list"
  t_rootID :: string
  t_nextID :: int

datatype tree_err = ParentNotFound string | SourceNotFound string | NodeNotFound string

type_synonym order = "node list \<Rightarrow> node list"

definition put_node :: "node \<Rightarrow> node list \<Rightarrow> node list" where
  "put_node n ns = (if nd_id n \<in> nd_id ` set ns then map (\<lambda>x. if nd_id x = nd_id n then n else x) ns else ns @ [n])"

definition Node :: "stree \<Rightarrow> string \<Rightarrow> node option" where
  "Node t i = List.find (\<lambda>n. nd_id n = i) (t_nodes t)"

definition Root :: "stree \<Rightarrow> node option" where
  "Root t = Node t (t_rootID t)"

definition NewTree :: "int \<Rightarrow> string \<Rightarrow> stree" where
  "NewTree now rootSummary =
     \<lparr>t_nodes = [\<lparr>nd_id = ''node-1'', nd_parent = [], nd_message = [], nd_summary = rootSummary, nd_created = now\<rparr>],
      t_rootID = ''node-1'', t_nextID = 2\<rparr>"

definition Children :: "order \<Rightarrow> string \<Rightarrow> stree \<Rightarrow> node list" where
  "Children ord parentID t = filter (\<lambda>n. nd_parent n = parentID) (ord (t_nodes t))"

definition All :: "order \<Rightarrow> stree \<Rightarrow> node list" where
  "All ord t = ord (t_nodes t)"

definition node_id :: "int \<Rightarrow> string" where
  "node_id k = ''node-'' @ dec_int k"

text \<open>The common part of \<open>AddChild\<close> and \<open>cloneNode\<close>: a new node is numbered and stored.\<close>

definition new_node :: "int \<Rightarrow> string \<Rightarrow> string \<Rightarrow> string \<Rightarrow> stree \<Rightarrow> node \<times> stree" where
  "new_node now parentID message summary t =
     (let n = \<lparr>nd_id = node_id (t_nextID t), nd_parent = parentID, nd_message = message, nd_summary = summary,
               nd_created = now\<rparr>
      in (n, t\<lparr>t_nodes := put_node n (t_nodes t), t_nextID := t_nextID t + 1\<rparr>))"

definition AddChild :: "int \<Rightarrow> string \<Rightarrow> string \<Rightarrow> string \<Rightarrow> stree \<Rightarrow> tree_err + (node \<times> stree)" where
  "AddChild now parentID message summary t =
     (if Node t parentID = None then Inl (ParentNotFound parentID)
      else Inr (new_node now parentID message summary t))"

fun cloneNode :: "nat \<Rightarrow> order \<Rightarrow> int \<Rightarrow> node \<Rightarrow> string \<Rightarrow> stree \<Rightarrow> (node \<times> stree) option"
  and cloneChildren :: "nat \<Rightarrow> order \<Rightarrow> int \<Rightarrow> node list \<Rightarrow> string \<Rightarrow> stree \<Rightarrow> stree option" where
  "cloneNode 0 ord now src parentID t = None"
| "cloneNode (Suc fuel) ord now src parentID t =
     (let (n, t1) = new_node now parentID (nd_message src) (nd_summary src) t in
      map_option (\<lambda>t2. (n, t2)) (cloneChildren fuel ord now (Children ord (nd_id src) t1) (nd_id n) t1))"
| "cloneChildren fuel ord now [] parentID t = Some t"
| "cloneChildren fuel ord now (c # cs) parentID t =
     (case cloneNode fuel ord now c parentID t of None \<Rightarrow> None
      | Some (_, t') \<Rightarrow> cloneChildren fuel ord now cs parentID t')"

definition Clone :: "nat \<Rightarrow> order \<Rightarrow> int \<Rightarrow> string \<Rightarrow> string \<Rightarrow> stree \<Rightarrow> (tree_err + (node \<times> stree)) option" where
  "Clone fuel ord now sourceID parentID t =
     (case Node t sourceID of None \<Rightarrow> Some (Inl (SourceNotFound sourceID))
      | Some src \<Rightarrow>
          if Node t parentID = None then Some (Inl (ParentNotFound parentID))
          else map_option Inr (cloneNode fuel ord now src parentID t))"

fun path_loop :: "nat \<Rightarrow> stree \<Rightarrow> string \<Rightarrow> node list \<Rightarrow> (tree_err + node list) option" where
  "path_loop 0 t i path = None"
| "path_loop (Suc fuel) t i path =
     (if i = [] then Some (Inr path)
      else case Node t i of None \<Rightarrow> Some (Inl (NodeNotFound i))
      | Some n \<Rightarrow> path_loop fuel t (nd_parent n) (n # path))"

definition Path :: "nat \<Rightarrow> stree \<Rightarrow> string \<Rightarrow> (tree_err + node list) option" where
  "Path fuel t i = path_loop fuel t i []"

section \<open>Storing\<close>

record stored_tree =
  st_nodes :: "node list"
  st_rootID :: string
  st_nextID :: int

definition tree_Save :: "order \<Rightarrow> stree \<Rightarrow> stored_tree" where
  "tree_Save ord t = \<lparr>st_nodes = All ord t, st_rootID = t_rootID t, st_nextID = t_nextID t\<rparr>"

definition tree_Load :: "stored_tree \<Rightarrow> stree" where
  "tree_Load st = \<lparr>t_nodes = fold put_node (st_nodes st) [], t_rootID = st_rootID st, t_nextID = st_nextID st\<rparr>"

text \<open>The manager keeps the tree and writes it after every change; a missing store keeps nothing.\<close>

record manager =
  m_tree :: stree
  m_store :: "stored_tree option option"

definition NewManager :: "int \<Rightarrow> stored_tree option option \<Rightarrow> manager" where
  "NewManager now store = \<lparr>m_tree = (case store of Some (Some st) \<Rightarrow> tree_Load st | _ \<Rightarrow> NewTree now ''root''),
     m_store = store\<rparr>"

definition saveLocked :: "order \<Rightarrow> manager \<Rightarrow> manager" where
  "saveLocked ord m = (case m_store m of None \<Rightarrow> m | Some _ \<Rightarrow> m\<lparr>m_store := Some (Some (tree_Save ord (m_tree m)))\<rparr>)"

definition m_Fork :: "order \<Rightarrow> int \<Rightarrow> string \<Rightarrow> string \<Rightarrow> string \<Rightarrow> manager \<Rightarrow> tree_err + (node \<times> manager)" where
  "m_Fork ord now parentID message summary m = (case AddChild now parentID message summary (m_tree m) of
       Inl e \<Rightarrow> Inl e
     | Inr (n, t) \<Rightarrow> Inr (n, saveLocked ord (m\<lparr>m_tree := t\<rparr>)))"

definition m_Clone :: "nat \<Rightarrow> order \<Rightarrow> int \<Rightarrow> string \<Rightarrow> string \<Rightarrow> manager \<Rightarrow> (tree_err + (node \<times> manager)) option" where
  "m_Clone fuel ord now sourceID parentID m = (case Clone fuel ord now sourceID parentID (m_tree m) of
       None \<Rightarrow> None
     | Some (Inl e) \<Rightarrow> Some (Inl e)
     | Some (Inr (n, t)) \<Rightarrow> Some (Inr (n, saveLocked ord (m\<lparr>m_tree := t\<rparr>))))"

section \<open>Well-formed trees\<close>

definition is_order :: "order \<Rightarrow> bool" where
  "is_order ord \<longleftrightarrow> (\<forall>ns. set (ord ns) = set ns \<and> distinct (map nd_id (ord ns)) = distinct (map nd_id ns))"

text \<open>The numbers in use are below the next one, and identifiers are used once.\<close>

definition numbered :: "stree \<Rightarrow> bool" where
  "numbered t \<longleftrightarrow> 1 \<le> t_nextID t \<and> distinct (map nd_id (t_nodes t)) \<and>
     (\<forall>n\<in>set (t_nodes t). \<exists>k. 1 \<le> k \<and> k < t_nextID t \<and> nd_id n = node_id k)"

text \<open>A node is the root or hangs below an older node.\<close>

definition older_parents :: "stree \<Rightarrow> bool" where
  "older_parents t \<longleftrightarrow> (\<forall>n\<in>set (t_nodes t). nd_parent n = [] \<or>
     (\<exists>k j. nd_id n = node_id k \<and> nd_parent n = node_id j \<and> 1 \<le> j \<and> j < k \<and> Node t (node_id j) \<noteq> None))"

lemma node_id_inject: "1 \<le> j \<Longrightarrow> 1 \<le> k \<Longrightarrow> node_id j = node_id k \<longleftrightarrow> j = k"
  by (auto simp: node_id_def dec_int_def)

lemma node_id_nonempty [simp]: "node_id k \<noteq> []"
  by (simp add: node_id_def)

lemma Node_Some: "Node t i = Some n \<Longrightarrow> n \<in> set (t_nodes t) \<and> nd_id n = i"
  by (auto simp: Node_def dest: find_SomeD)

lemma Node_None: "Node t i = None \<longleftrightarrow> i \<notin> nd_id ` set (t_nodes t)"
  by (auto simp: Node_def find_None_iff_all)

lemma Node_mem: "distinct (map nd_id (t_nodes t)) \<Longrightarrow> n \<in> set (t_nodes t) \<Longrightarrow> Node t (nd_id n) = Some n"
proof (cases "Node t (nd_id n)")
  case None
  then show "n \<in> set (t_nodes t) \<Longrightarrow> ?thesis" by (simp add: Node_None)
next
  case (Some m)
  assume "distinct (map nd_id (t_nodes t))" "n \<in> set (t_nodes t)"
  with Node_Some [OF Some] Some show ?thesis by (auto simp: distinct_map dest: inj_onD)
qed

text \<open>The numbering is an allocation of identifiers: the next one is not in use.\<close>

interpretation tree_ids: id_alloc "\<lambda>t. map nd_id (t_nodes t)" "\<lambda>t. node_id (t_nextID t)" numbered
proof
  fix t assume t: "numbered t"
  show "node_id (t_nextID t) \<notin> set (map nd_id (t_nodes t))"
  proof
    assume "node_id (t_nextID t) \<in> set (map nd_id (t_nodes t))"
    then obtain n k where "n \<in> set (t_nodes t)" "1 \<le> k" "k < t_nextID t" "node_id (t_nextID t) = node_id k"
      using t unfolding numbered_def by force
    with node_id_inject [of "t_nextID t" k] t show False by (simp add: numbered_def)
  qed
qed

lemma new_node_spec:
  assumes "numbered t" "new_node now q msg sm t = (n, t1)"
  shows "t_nodes t1 = t_nodes t @ [n]" "nd_id n = node_id (t_nextID t)" "nd_parent n = q" "t_nextID t1 = t_nextID t + 1"
    "numbered t1" "nd_message n = msg" "nd_summary n = sm" "t_rootID t1 = t_rootID t"
proof -
  have f: "node_id (t_nextID t) \<notin> nd_id ` set (t_nodes t)" using tree_ids.alloc_fresh [OF assms(1)] by simp
  with assms(2) show s: "t_nodes t1 = t_nodes t @ [n]" "nd_id n = node_id (t_nextID t)" "nd_parent n = q"
    "t_nextID t1 = t_nextID t + 1" "nd_message n = msg" "nd_summary n = sm" "t_rootID t1 = t_rootID t"
    by (auto simp: new_node_def put_node_def Let_def)
  have "\<exists>k. 1 \<le> k \<and> k < t_nextID t + 1 \<and> nd_id x = node_id k" if "x \<in> set (t_nodes t)" for x
    using that assms(1) unfolding numbered_def by force
  moreover have "\<exists>k. 1 \<le> k \<and> k < t_nextID t + 1 \<and> node_id (t_nextID t) = node_id k"
    using assms(1) unfolding numbered_def by force
  ultimately show "numbered t1" using assms(1) f s by (auto simp: numbered_def)
qed

section \<open>Copying a subtree\<close>

text \<open>A node is reached from another by steps from a node to its children.\<close>

inductive below :: "stree \<Rightarrow> string \<Rightarrow> string \<Rightarrow> bool" for t where
  below_refl: "below t i i"
| below_step: "n \<in> set (t_nodes t) \<Longrightarrow> nd_parent n = i \<Longrightarrow> below t (nd_id n) j \<Longrightarrow> below t i j"

inductive_cases below_startE: "below t i j"

lemma below_snoc: "below t i j \<Longrightarrow> n \<in> set (t_nodes t) \<Longrightarrow> nd_parent n = j \<Longrightarrow> below t i (nd_id n)"
  by (induction rule: below.induct) (auto intro: below.intros)

lemma below_mono: "below t i j \<Longrightarrow> set (t_nodes t) \<subseteq> set (t_nodes t') \<Longrightarrow> below t' i j"
  by (induction rule: below.induct) (auto intro: below.intros)

lemma set_Children: "is_order ord \<Longrightarrow> set (Children ord i t) = {n \<in> set (t_nodes t). nd_parent n = i}"
  by (auto simp: Children_def is_order_def)

text \<open>Copying only adds nodes.\<close>

lemma clone_grows:
  "cloneNode fuel ord now src q t = Some (n, t') \<Longrightarrow> numbered t \<Longrightarrow> numbered t' \<and> set (t_nodes t) \<subseteq> set (t_nodes t')"
  "cloneChildren fuel ord now cs q t = Some t' \<Longrightarrow> numbered t \<Longrightarrow> numbered t' \<and> set (t_nodes t) \<subseteq> set (t_nodes t')"
proof (induction fuel ord now src q t and fuel ord now cs q t arbitrary: n t' and t'
    rule: cloneNode_cloneChildren.induct)
  case (2 fuel ord now src q t)
  obtain m t1 where nn: "new_node now q (nd_message src) (nd_summary src) t = (m, t1)" by fastforce
  note s = new_node_spec [OF "2.prems"(2) nn]
  from "2.prems"(1) nn have "cloneChildren fuel ord now (Children ord (nd_id src) t1) (nd_id m) t1 = Some t'"
    by (auto simp: Let_def)
  from "2.IH" [OF nn [symmetric] refl this s(5)] s(1) show ?case by auto
next
  case (4 fuel ord now c cs q t)
  from "4.prems"(1) obtain x t1 where x: "cloneNode fuel ord now c q t = Some (x, t1)"
    "cloneChildren fuel ord now cs q t1 = Some t'" by (auto split: option.splits)
  from "4.IH"(1) [OF x(1) "4.prems"(2)] have 1: "numbered t1" "set (t_nodes t) \<subseteq> set (t_nodes t1)" by auto
  from "4.IH"(2) [OF x(1) refl x(2) 1(1)] 1(2) show ?case by auto
qed auto

text \<open>Copying a node below itself or one of its descendants never ends.\<close>

lemma clone_diverges:
  assumes "is_order ord"
  shows "numbered t \<Longrightarrow> below t (nd_id src) q \<Longrightarrow> cloneNode fuel ord now src q t = None"
proof (induction fuel arbitrary: src q t)
  case (Suc fuel)
  obtain m t1 where nn: "new_node now q (nd_message src) (nd_summary src) t = (m, t1)" by fastforce
  note s = new_node_spec [OF Suc.prems(1) nn]
  have m: "m \<in> set (t_nodes t1)" using s(1) by simp
  have "below t1 (nd_id src) q" by (rule below_mono [OF Suc.prems(2)]) (simp add: s(1) subset_iff)
  then obtain c where c: "c \<in> set (t_nodes t1)" "nd_parent c = nd_id src" "below t1 (nd_id c) (nd_id m)"
  proof (cases rule: below.cases)
    case below_refl
    with m s(3) show ?thesis by (intro that [of m]) (auto intro: below.below_refl)
  next
    case (below_step n)
    with m s(3) show ?thesis by (intro that [of n]) (auto intro: below_snoc)
  qed
  have loop: "cloneChildren fuel ord now cs (nd_id m) t2 = None"
    if "c \<in> set cs" "numbered t2" "set (t_nodes t1) \<subseteq> set (t_nodes t2)" for cs t2
    using that
  proof (induction cs arbitrary: t2)
    case (Cons d ds)
    show ?case
    proof (cases "cloneNode fuel ord now d (nd_id m) t2")
      case (Some p)
      obtain x t3 where p: "p = (x, t3)" by fastforce
      from clone_grows(1) [OF Some [unfolded p] Cons.prems(2)]
      have t3: "numbered t3" "set (t_nodes t1) \<subseteq> set (t_nodes t3)" using Cons.prems(3) by auto
      have "d \<noteq> c"
        using Some Suc.IH [OF Cons.prems(2) below_mono [OF c(3) Cons.prems(3)]] by auto
      with Cons.prems(1) have "c \<in> set ds" by simp
      from Cons.IH [OF this t3] Some p show ?thesis by simp
    qed simp
  qed simp
  have "c \<in> set (Children ord (nd_id src) t1)" using c set_Children [OF assms] by simp
  from loop [OF this s(5) subset_refl] nn show ?case by (simp add: Let_def)
qed simp

text \<open>
  A set of nodes the copy does not add to: it is closed under children and the copies hang
  elsewhere. Its numbers are below \<open>N\<close>.
\<close>

definition untouched :: "node set \<Rightarrow> int \<Rightarrow> stree \<Rightarrow> bool" where
  "untouched D N t \<longleftrightarrow> numbered t \<and> N \<le> t_nextID t \<and> D \<subseteq> set (t_nodes t) \<and>
     (\<forall>d\<in>D. \<forall>n\<in>set (t_nodes t). nd_parent n = nd_id d \<longrightarrow> n \<in> D) \<and>
     (\<forall>d\<in>D. \<exists>k. 1 \<le> k \<and> k < N \<and> nd_id d = node_id k)"

lemma untouched_new:
  assumes "untouched D N t" "q \<notin> nd_id ` D" "new_node now q msg sm t = (n, t1)"
  shows "untouched D N t1" "nd_id n \<notin> nd_id ` D"
proof -
  note s = new_node_spec [OF _ assms(3)]
  have t: "numbered t" using assms(1) by (simp add: untouched_def)
  note s = s [OF t]
  show "untouched D N t1" using assms(1,2) s unfolding untouched_def by auto
  show "nd_id n \<notin> nd_id ` D"
  proof
    assume "nd_id n \<in> nd_id ` D"
    then obtain k where "1 \<le> k" "k < N" "node_id (t_nextID t) = node_id k"
      using assms(1) s(2) unfolding untouched_def by force
    with node_id_inject [of "t_nextID t" k] assms(1) show False by (simp add: untouched_def numbered_def)
  qed
qed

lemma clone_ends:
  assumes "is_order ord"
    and "\<And>d n. d \<in> D \<Longrightarrow> n \<in> D \<Longrightarrow> nd_parent n = nd_id d \<Longrightarrow> num d < num n"
    and "\<And>d. d \<in> D \<Longrightarrow> num d < N"
  shows "untouched D N t \<Longrightarrow> src \<in> D \<Longrightarrow> q \<notin> nd_id ` D \<Longrightarrow> nat (N - num src) \<le> fuel \<Longrightarrow>
    \<exists>n t'. cloneNode fuel ord now src q t = Some (n, t') \<and> untouched D N t'"
proof (induction fuel arbitrary: src q t)
  case 0
  with assms(3) [of src] show ?case by simp
next
  case (Suc fuel)
  obtain m t1 where nn: "new_node now q (nd_message src) (nd_summary src) t = (m, t1)" by fastforce
  note u = untouched_new [OF Suc.prems(1,3) nn]
  have loop: "\<exists>t'. cloneChildren fuel ord now cs (nd_id m) t2 = Some t' \<and> untouched D N t'"
    if "set cs \<subseteq> D" "\<forall>c\<in>set cs. nd_parent c = nd_id src" "untouched D N t2" for cs t2
    using that
  proof (induction cs arbitrary: t2)
    case (Cons c cs)
    have "num src < num c" using assms(2) [OF Suc.prems(2), of c] Cons.prems by simp
    with Suc.prems(4) have "nat (N - num c) \<le> fuel" using assms(3) [OF Suc.prems(2)] by linarith
    with Suc.IH [OF Cons.prems(3) _ u(2), of c] Cons.prems(1) obtain x t3 where
      x: "cloneNode fuel ord now c (nd_id m) t2 = Some (x, t3)" "untouched D N t3" by fastforce
    with Cons show ?case by simp
  qed simp
  have "set (Children ord (nd_id src) t1) \<subseteq> D"
    using u(1) Suc.prems(2) by (auto simp: set_Children [OF assms(1)] untouched_def)
  moreover have "\<forall>c\<in>set (Children ord (nd_id src) t1). nd_parent c = nd_id src"
    by (simp add: set_Children [OF assms(1)])
  ultimately obtain t' where "cloneChildren fuel ord now (Children ord (nd_id src) t1) (nd_id m) t1 = Some t'" "untouched D N t'"
    using loop u(1) by blast
  with nn show ?case by (auto simp: Let_def)
qed


lemma older_num:
  assumes "older_parents t" "\<forall>x\<in>set (t_nodes t). 1 \<le> num x \<and> nd_id x = node_id (num x)"
    and "n \<in> set (t_nodes t)" "d \<in> set (t_nodes t)" "nd_parent n = nd_id d"
  shows "num d < num n"
proof -
  have "nd_parent n \<noteq> []" using assms(2,4,5) by (metis node_id_nonempty)
  with assms(1,3) obtain k j where kj: "nd_id n = node_id k" "nd_parent n = node_id j" "1 \<le> j" "j < k"
    unfolding older_parents_def by blast
  have "num n = k" using assms(2,3) kj node_id_inject [of "num n" k] by force
  moreover have "num d = j" using assms(2,4,5) kj node_id_inject [of "num d" j] by force
  ultimately show ?thesis using kj(4) by simp
qed

lemma numbering: "numbered t \<Longrightarrow> \<exists>num. \<forall>x\<in>set (t_nodes t). 1 \<le> num x \<and> num x < t_nextID t \<and> nd_id x = node_id (num x)"
  unfolding numbered_def by (intro bchoice) blast

text \<open>C31: In a tree built by the program, copying a node below a parent ends, whatever the order in
  which the map is visited, exactly when the parent is not the node itself or one of its
  descendants; otherwise the recursion copies its own copies for ever.\<close>

theorem clone_terminates_iff:
  assumes "numbered t" "older_parents t" "is_order ord" "Node t sourceID = Some src" "Node t parentID \<noteq> None"
  shows "(\<exists>fuel r. Clone fuel ord now sourceID parentID t = Some r) \<longleftrightarrow> \<not> below t sourceID parentID"
proof
  have src: "src \<in> set (t_nodes t)" "nd_id src = sourceID" using Node_Some [OF assms(4)] by simp_all
  show "\<not> below t sourceID parentID" if "\<exists>fuel r. Clone fuel ord now sourceID parentID t = Some r"
    using that clone_diverges [OF assms(3,1), of src parentID] src(2) assms(4,5) by (auto simp: Clone_def)
  show "\<exists>fuel r. Clone fuel ord now sourceID parentID t = Some r" if no: "\<not> below t sourceID parentID"
  proof -
    obtain num where num: "\<forall>x\<in>set (t_nodes t). 1 \<le> num x \<and> num x < t_nextID t \<and> nd_id x = node_id (num x)"
      using numbering [OF assms(1)] by blast
    define D where "D = {n \<in> set (t_nodes t). below t sourceID (nd_id n)}"
    have "\<forall>d\<in>D. \<forall>n\<in>set (t_nodes t). nd_parent n = nd_id d \<longrightarrow> n \<in> D" unfolding D_def by (auto intro: below_snoc)
    moreover have "\<forall>d\<in>D. \<exists>k. 1 \<le> k \<and> k < t_nextID t \<and> nd_id d = node_id k" using num unfolding D_def by blast
    ultimately have "untouched D (t_nextID t) t" using assms(1) unfolding untouched_def by (simp add: D_def)
    moreover have "src \<in> D" using src by (simp add: D_def below_refl)
    moreover have "parentID \<notin> nd_id ` D" using no by (auto simp: D_def)
    moreover have "num d < num n" if "d \<in> D" "n \<in> D" "nd_parent n = nd_id d" for d n
      by (rule older_num [OF assms(2)]) (use num that in \<open>auto simp: D_def\<close>)
    moreover have "num d < t_nextID t" if "d \<in> D" for d using that num by (simp add: D_def)
    ultimately obtain n t' where "cloneNode (nat (t_nextID t - num src)) ord now src parentID t = Some (n, t')"
      using clone_ends [OF assms(3), of D num "t_nextID t" t src parentID] by blast
    then show ?thesis using assms(4,5) by (auto simp: Clone_def)
  qed
qed

lemma node_1: "node_id 1 = ''node-1''"
  by (simp add: node_id_def dec_int_def dec.simps char_of_def bit_0)

lemma NewTree_wf: "numbered (NewTree now sm)" "older_parents (NewTree now sm)"
proof -
  show "numbered (NewTree now sm)" using node_1 by (auto simp: numbered_def NewTree_def intro!: exI [of _ 1])
  show "older_parents (NewTree now sm)" by (simp add: older_parents_def NewTree_def)
qed

theorem clone_terminates_iff_witness:
  "\<not> (\<exists>fuel r. Clone fuel (\<lambda>ns. ns) 0 ''node-1'' ''node-1'' (NewTree 0 ''root'') = Some r)"
proof -
  have "Node (NewTree 0 ''root'') ''node-1'' = Some (hd (t_nodes (NewTree 0 ''root'')))"
    by (simp add: Node_def NewTree_def)
  with clone_terminates_iff [OF NewTree_wf, where ord = "\<lambda>ns. ns" and sourceID = "''node-1''" and parentID = "''node-1''"] below_refl
  show ?thesis by (simp add: is_order_def)
qed

section \<open>What the program builds\<close>

lemma new_node_older:
  assumes "numbered t" "older_parents t" "Node t q \<noteq> None" "new_node now q msg sm t = (n, t1)"
  shows "older_parents t1"
proof -
  note s = new_node_spec [OF assms(1,4)]
  obtain m where m: "m \<in> set (t_nodes t)" "nd_id m = q" using assms(3) by (auto simp: Node_None)
  then obtain j where j: "1 \<le> j" "j < t_nextID t" "q = node_id j" using assms(1) by (auto simp: numbered_def)
  have keep: "Node t i \<noteq> None \<Longrightarrow> Node t1 i \<noteq> None" for i by (auto simp: Node_None s(1))
  have "nd_parent x = [] \<or> (\<exists>k j. nd_id x = node_id k \<and> nd_parent x = node_id j \<and> 1 \<le> j \<and> j < k \<and> Node t1 (node_id j) \<noteq> None)"
    if "x \<in> set (t_nodes t)" for x using assms(2) that keep unfolding older_parents_def by blast
  moreover have "\<exists>k j. nd_id n = node_id k \<and> nd_parent n = node_id j \<and> 1 \<le> j \<and> j < k \<and> Node t1 (node_id j) \<noteq> None"
    using s(2,3) j keep [OF assms(3)] by (intro exI [of _ "t_nextID t"] exI [of _ j]) simp
  ultimately show ?thesis unfolding older_parents_def s(1) by auto
qed

lemma clone_older:
  "cloneNode fuel ord now src q t = Some (n, t') \<Longrightarrow> numbered t \<Longrightarrow> older_parents t \<Longrightarrow> Node t q \<noteq> None \<Longrightarrow> older_parents t'"
  "cloneChildren fuel ord now cs q t = Some t' \<Longrightarrow> numbered t \<Longrightarrow> older_parents t \<Longrightarrow> Node t q \<noteq> None \<Longrightarrow> older_parents t'"
proof (induction fuel ord now src q t and fuel ord now cs q t arbitrary: n t' and t'
    rule: cloneNode_cloneChildren.induct)
  case (2 fuel ord now src q t)
  obtain m t1 where nn: "new_node now q (nd_message src) (nd_summary src) t = (m, t1)" by fastforce
  note s = new_node_spec [OF "2.prems"(2) nn]
  from "2.prems"(1) nn have c: "cloneChildren fuel ord now (Children ord (nd_id src) t1) (nd_id m) t1 = Some t'"
    by (auto simp: Let_def)
  have "Node t1 (nd_id m) \<noteq> None" by (simp add: Node_None s(1))
  with "2.IH" [OF nn [symmetric] refl c s(5) new_node_older [OF "2.prems"(2-4) nn]] show ?case by blast
next
  case (4 fuel ord now c cs q t)
  from "4.prems"(1) obtain x t1 where x: "cloneNode fuel ord now c q t = Some (x, t1)"
    "cloneChildren fuel ord now cs q t1 = Some t'" by (auto split: option.splits)
  from clone_grows(1) [OF x(1) "4.prems"(2)] "4.prems"(4)
  have 1: "numbered t1" "Node t1 q \<noteq> None" by (auto simp: Node_None)
  from "4.IH"(1) [OF x(1) "4.prems"(2-4)] have "older_parents t1" .
  from "4.IH"(2) [OF x(1) refl x(2) 1(1) this 1(2)] show ?case .
qed auto

datatype tree_cmd = TFork int string string string | TClone order int string string

fun tree_run :: "nat \<Rightarrow> tree_cmd list \<Rightarrow> stree \<Rightarrow> stree option" where
  "tree_run fuel [] t = Some t"
| "tree_run fuel (TFork now q msg sm # cs) t = (case AddChild now q msg sm t of
     Inl e \<Rightarrow> tree_run fuel cs t | Inr (n, t') \<Rightarrow> tree_run fuel cs t')"
| "tree_run fuel (TClone ord now s q # cs) t = (case Clone fuel ord now s q t of
     None \<Rightarrow> None | Some (Inl e) \<Rightarrow> tree_run fuel cs t | Some (Inr (n, t')) \<Rightarrow> tree_run fuel cs t')"

lemma tree_run_wf:
  "tree_run fuel cs t = Some t' \<Longrightarrow> numbered t \<Longrightarrow> older_parents t \<Longrightarrow> numbered t' \<and> older_parents t'"
proof (induction fuel cs t rule: tree_run.induct)
  case (2 fuel now q msg sm cs t)
  show ?case
  proof (cases "Node t q = None")
    case False
    obtain n t1 where nn: "new_node now q msg sm t = (n, t1)" by fastforce
    from 2 False nn new_node_spec(5) [OF "2.prems"(2) nn] new_node_older [OF "2.prems"(2,3) False nn]
    show ?thesis by (simp add: AddChild_def)
  qed (use 2 in \<open>simp add: AddChild_def\<close>)
next
  case (3 fuel ord now s q cs t)
  from "3.prems"(1) obtain r where r: "Clone fuel ord now s q t = Some r" by (auto split: option.splits)
  show ?case
  proof (cases r)
    case (Inr p)
    obtain n t1 where p: "p = (n, t1)" by fastforce
    from r Inr p obtain src where "cloneNode fuel ord now src q t = Some (n, t1)" "Node t q \<noteq> None"
      by (auto simp: Clone_def split: option.splits if_splits)
    with clone_grows(1) clone_older(1) "3.prems"(2,3) have "numbered t1" "older_parents t1" by blast+
    with 3 r Inr p show ?thesis by simp
  qed (use 3 r in simp)
qed simp

text \<open>C26: In any tree built from a new one the path of a node is found: it leads from a node without a
  parent down to the node, every one the parent of the next.\<close>

theorem path_found:
  assumes "tree_run fuel cs (NewTree now sm) = Some t" "Node t i = Some n"
  shows "\<exists>ps. Path (Suc (nat (t_nextID t))) t i = Some (Inr ps) \<and> ps \<noteq> [] \<and> nd_parent (hd ps) = [] \<and> last ps = n \<and>
    successively (\<lambda>a b. nd_parent b = nd_id a) ps"
proof -
  have wf: "numbered t" "older_parents t" using tree_run_wf [OF assms(1) NewTree_wf] by simp_all
  obtain num where num: "\<forall>x\<in>set (t_nodes t). 1 \<le> num x \<and> num x < t_nextID t \<and> nd_id x = node_id (num x)"
    using numbering [OF wf(1)] by blast
  have "\<exists>ps. path_loop f t (nd_id m) acc = Some (Inr (ps @ acc)) \<and> ps \<noteq> [] \<and> nd_parent (hd ps) = [] \<and> last ps = m \<and>
      successively (\<lambda>a b. nd_parent b = nd_id a) ps"
    if "m \<in> set (t_nodes t)" "nat (num m) < f" for f m acc
    using that
  proof (induction f arbitrary: m acc)
    case (Suc f)
    have m: "Node t (nd_id m) = Some m" "nd_id m \<noteq> []"
      using Node_mem [OF _ Suc.prems(1)] wf(1) num Suc.prems(1) by (auto simp: numbered_def)
    show ?case
    proof (cases "nd_parent m = []")
      case True
      obtain f' where "f = Suc f'" using Suc.prems num by (cases f) force+
      with True m show ?thesis by (auto intro!: exI [of _ "[m]"])
    next
      case False
      with wf(2) Suc.prems(1) obtain j where "nd_parent m = node_id j" "Node t (node_id j) \<noteq> None"
        unfolding older_parents_def by blast
      then obtain d where d: "d \<in> set (t_nodes t)" "nd_parent m = nd_id d" by (auto simp: Node_None)
      have "num d < num m" by (rule older_num [OF wf(2) _ Suc.prems(1) d]) (use num in auto)
      with Suc.prems(2) num d(1) have "nat (num d) < f" by force
      from Suc.IH [OF d(1) this, of "m # acc"] obtain ps where ps: "path_loop f t (nd_id d) (m # acc) = Some (Inr (ps @ m # acc))"
        "ps \<noteq> []" "nd_parent (hd ps) = []" "last ps = d" "successively (\<lambda>a b. nd_parent b = nd_id a) ps" by blast
      with m d show ?thesis
        by (intro exI [of _ "ps @ [m]"]) (simp add: successively_append_iff)
    qed
  qed simp
  from this [of n "Suc (nat (t_nextID t))" "[]"] Node_Some [OF assms(2)] num show ?thesis
    by (auto simp: Path_def)
qed


theorem path_found_witness:
  "\<exists>t n ps. tree_run 0 [TFork 1 ''node-1'' ''hi'' ''child''] (NewTree 0 ''root'') = Some t \<and> Node t (node_id 2) = Some n \<and>
     Path 4 t (node_id 2) = Some (Inr ps) \<and> last ps = n"
proof -
  let ?n = "\<lparr>nd_id = node_id 2, nd_parent = ''node-1'', nd_message = ''hi'', nd_summary = ''child'', nd_created = 1\<rparr>"
  obtain m t where nn: "new_node 1 ''node-1'' ''hi'' ''child'' (NewTree 0 ''root'') = (m, t)" by fastforce
  note s = new_node_spec [OF NewTree_wf(1) nn]
  have run: "tree_run 0 [TFork 1 ''node-1'' ''hi'' ''child''] (NewTree 0 ''root'') = Some t"
    using nn by (simp add: AddChild_def Node_def) (simp add: NewTree_def)
  have nx: "t_nextID t = 3" "nd_id m = node_id 2" using s by (simp_all add: NewTree_def)
  have "Node t (node_id 2) = Some m" using Node_mem [of t m] s(1,5) nx by (simp add: numbered_def)
  with path_found [OF run this] run nx show ?thesis by auto
qed

section \<open>Saving and loading\<close>

lemma fold_put_node: "distinct (map nd_id (acc @ ns)) \<Longrightarrow> fold put_node ns acc = acc @ ns"
  by (induction ns arbitrary: acc) (auto simp: put_node_def)

text \<open>A saved tree is loaded with the same nodes under the same identifiers.\<close>

lemma tree_roundtrip:
  assumes "is_order ord" "numbered t"
  shows "Node (tree_Load (tree_Save ord t)) i = Node t i \<and> t_rootID (tree_Load (tree_Save ord t)) = t_rootID t \<and>
    t_nextID (tree_Load (tree_Save ord t)) = t_nextID t"
proof -
  have d: "distinct (map nd_id (ord (t_nodes t)))" "set (ord (t_nodes t)) = set (t_nodes t)"
    using assms by (simp_all add: is_order_def numbered_def)
  let ?l = "tree_Load (tree_Save ord t)"
  have l: "t_nodes ?l = ord (t_nodes t)" "t_rootID ?l = t_rootID t" "t_nextID ?l = t_nextID t"
    using fold_put_node [of "[]" "ord (t_nodes t)"] d(1) by (simp_all add: tree_Load_def tree_Save_def All_def)
  have "Node ?l i = Node t i"
  proof (cases "Node t i")
    case None
    then have "Node ?l i = None" using l(1) d(2) by (simp add: Node_None)
    with None show ?thesis by simp
  next
    case (Some n)
    then show ?thesis using Node_Some [OF Some] Node_mem [of ?l n] l(1) d by simp
  qed
  with l show ?thesis by simp
qed

end
