(* ===== verification/Tool_Scheduler.thy ===== *)
theory Tool_Scheduler
  imports Goa_Prelude "HOL-Library.Multiset"
begin

text \<open>
  The tool scheduler (internal/agentic/tool_scheduler.go) and the conflict matrix of resource
  accesses (internal/toolaccess/toolaccess.go). The steps are the sections under the scheduler's
  lock and the events of the goroutines; what is decided in one section is done in a later one, so
  the tasks a goroutine has decided to start are part of the state until they are among the active
  ones. Tasks are numbered; their accesses are a parameter.
\<close>

section \<open>Conflicts\<close>

record access =
  a_read :: "string list"
  a_write :: "string list"
  a_category :: string

definition intersects :: "string list \<Rightarrow> string list \<Rightarrow> bool" where
  "intersects a b = list_ex (\<lambda>s. s \<in> set a) b"

definition categoryConflict :: "access \<Rightarrow> access \<Rightarrow> bool" where
  "categoryConflict a b \<longleftrightarrow> a_category a \<noteq> [] \<and> a_category b \<noteq> [] \<and> a_category a = a_category b"

definition pathConflict :: "access \<Rightarrow> access \<Rightarrow> bool" where
  "pathConflict a b \<longleftrightarrow> intersects (a_write a) (a_write b) \<or> intersects (a_read a) (a_write b) \<or>
     intersects (a_write a) (a_read b)"

definition Conflict :: "access \<Rightarrow> access \<Rightarrow> bool" where
  "Conflict a b \<longleftrightarrow> categoryConflict a b \<or> pathConflict a b"

lemma Conflict_sym: "Conflict a b = Conflict b a"
  by (auto simp: Conflict_def categoryConflict_def pathConflict_def intersects_def list_ex_iff)

lemma reads_do_not_conflict: "a_write a = [] \<Longrightarrow> a_write b = [] \<Longrightarrow> a_category a = [] \<Longrightarrow> \<not> Conflict a b"
  by (simp add: Conflict_def categoryConflict_def pathConflict_def intersects_def list_ex_iff)

section \<open>The scheduler\<close>

type_synonym tid = nat

text \<open>The outcome of a task: what the tool returned, or why it has none.\<close>

datatype 'r outcome = Returned 'r | Failed string | DeadlineExceeded | ContextError

record 'r sched =
  s_active :: "tid list"
  s_pending :: "tid list"
  s_tasks :: "tid list"
  s_maxParallel :: int
  s_done :: "tid \<Rightarrow> 'r outcome option"
  s_adding :: "tid option"         \<comment> \<open>\<open>Add\<close> has decided to start it\<close>
  s_starts :: "tid list list"      \<comment> \<open>a finished task's goroutine has these to start\<close>
  s_returned :: "tid set"          \<comment> \<open>\<open>Execute\<close> has returned\<close>
  s_watched :: "tid list"          \<comment> \<open>queued once, so that a watcher waits for the cancellation\<close>

definition defaultMaxParallel :: int where "defaultMaxParallel = 8"

definition maxPar :: "'r sched \<Rightarrow> int" where
  "maxPar s = (if s_maxParallel s > 0 then s_maxParallel s else defaultMaxParallel)"

definition NewToolScheduler :: "int \<Rightarrow> 'r sched" where
  "NewToolScheduler n = \<lparr>s_active = [], s_pending = [], s_tasks = [], s_maxParallel = n, s_done = (\<lambda>_. None),
     s_adding = None, s_starts = [], s_returned = {}, s_watched = []\<rparr>"

definition conflictsWithAny :: "(tid \<Rightarrow> access) \<Rightarrow> tid \<Rightarrow> tid list \<Rightarrow> bool" where
  "conflictsWithAny acc i ts = list_ex (\<lambda>t. Conflict (acc i) (acc t)) ts"

definition isBlockedLocked :: "(tid \<Rightarrow> access) \<Rightarrow> tid \<Rightarrow> 'r sched \<Rightarrow> bool" where
  "isBlockedLocked acc i s \<longleftrightarrow> conflictsWithAny acc i (s_active s) \<or> conflictsWithAny acc i (s_pending s)"

definition canStart :: "(tid \<Rightarrow> access) \<Rightarrow> tid \<Rightarrow> 'r sched \<Rightarrow> bool" where
  "canStart acc i s \<longleftrightarrow> \<not> isBlockedLocked acc i s \<and> int (length (s_active s)) < maxPar s"

text \<open>The locked part of \<open>Add\<close>.\<close>

definition Add :: "(tid \<Rightarrow> access) \<Rightarrow> tid \<Rightarrow> 'r sched \<Rightarrow> 'r sched" where
  "Add acc i s =
     (let s1 = s\<lparr>s_tasks := s_tasks s @ [i]\<rparr> in
      if canStart acc i s then s1\<lparr>s_adding := Some i\<rparr>
      else s1\<lparr>s_pending := s_pending s @ [i], s_watched := s_watched s @ [i]\<rparr>)"

text \<open>The loop of \<open>collectUnblocked\<close> over the pending tasks: what may start, and what remains.\<close>

fun collect_loop :: "(tid \<Rightarrow> access) \<Rightarrow> int \<Rightarrow> tid list \<Rightarrow> tid list \<Rightarrow> int \<Rightarrow> tid list \<Rightarrow> tid list \<times> tid list" where
  "collect_loop acc mx active picked budget [] = ([], [])"
| "collect_loop acc mx active picked budget (t # ts) =
     (if conflictsWithAny acc t active \<or> budget \<ge> mx \<or> conflictsWithAny acc t picked
      then (let (u, r) = collect_loop acc mx active picked budget ts in (u, t # r))
      else (let (u, r) = collect_loop acc mx active (t # picked) (budget + 1) ts in (t # u, r)))"

definition collectUnblocked :: "(tid \<Rightarrow> access) \<Rightarrow> 'r sched \<Rightarrow> tid list \<times> 'r sched" where
  "collectUnblocked acc s =
     (let (u, r) = collect_loop acc (maxPar s) (s_active s) [] (int (length (s_active s))) (s_pending s)
      in (u, s\<lparr>s_pending := r\<rparr>))"

definition removeActive :: "tid \<Rightarrow> 'r sched \<Rightarrow> 'r sched" where
  "removeActive i s = s\<lparr>s_active := remove_first (\<lambda>t. t = i) (s_active s)\<rparr>"

definition removeAndFindUnblocked :: "(tid \<Rightarrow> access) \<Rightarrow> tid \<Rightarrow> 'r sched \<Rightarrow> tid list \<times> 'r sched" where
  "removeAndFindUnblocked acc i s = collectUnblocked acc (removeActive i s)"

text \<open>\<open>finish\<close> then starts what it found, one after the other.\<close>

definition finish :: "(tid \<Rightarrow> access) \<Rightarrow> tid \<Rightarrow> 'r sched \<Rightarrow> 'r sched" where
  "finish acc i s = (let (u, s') = removeAndFindUnblocked acc i s in s'\<lparr>s_starts := s_starts s' @ [u]\<rparr>)"

text \<open>The locked part of \<open>start\<close>, and the write of a result that happens once.\<close>

definition start_task :: "tid \<Rightarrow> 'r sched \<Rightarrow> 'r sched" where
  "start_task i s = s\<lparr>s_active := s_active s @ [i]\<rparr>"

definition resolve_once :: "tid \<Rightarrow> 'r outcome \<Rightarrow> 'r sched \<Rightarrow> 'r sched" where
  "resolve_once i r s = (if s_done s i = None then s\<lparr>s_done := (s_done s)(i \<mapsto> r)\<rparr> else s)"

text \<open>\<open>Collect\<close> waits for all tasks and answers in submission order (\<open>None\<close>: it still waits).\<close>

definition Collect_results :: "'r sched \<Rightarrow> (tid \<times> 'r outcome) list option" where
  "Collect_results s =
     (if list_all (\<lambda>i. s_done s i \<noteq> None) (s_tasks s) then Some (map (\<lambda>i. (i, the (s_done s i))) (s_tasks s)) else None)"

inductive sched_step :: "(tid \<Rightarrow> access) \<Rightarrow> 'r sched \<Rightarrow> 'r sched \<Rightarrow> bool" for acc where
  add: "i \<notin> set (s_tasks s) \<Longrightarrow> s_adding s = None \<Longrightarrow> sched_step acc s (Add acc i s)"
| add_starts: "s_adding s = Some i \<Longrightarrow> sched_step acc s (start_task i (s\<lparr>s_adding := None\<rparr>))"
| next_starts: "s_starts s = xs @ (i # u) # ys \<Longrightarrow> sched_step acc s (start_task i (s\<lparr>s_starts := xs @ u # ys\<rparr>))"
| starts_over: "s_starts s = xs @ [] # ys \<Longrightarrow> sched_step acc s (s\<lparr>s_starts := xs @ ys\<rparr>)"
| returns: "i \<in> set (s_active s) \<Longrightarrow> i \<notin> s_returned s \<Longrightarrow>
    sched_step acc s (resolve_once i r (s\<lparr>s_returned := insert i (s_returned s)\<rparr>))"
| finishes: "i \<in> set (s_active s) \<Longrightarrow> i \<in> s_returned s \<Longrightarrow> sched_step acc s (finish acc i s)"
| deadline: "i \<in> set (s_active s) \<Longrightarrow> sched_step acc s (resolve_once i DeadlineExceeded s)"
| cancelled: "i \<in> set (s_watched s) \<Longrightarrow> sched_step acc s (resolve_once i ContextError s)"

inductive_cases sched_stepE: "sched_step acc s s'"

inductive sched_reach :: "(tid \<Rightarrow> access) \<Rightarrow> 'r sched \<Rightarrow> 'r sched \<Rightarrow> bool" for acc where
  sched_refl: "sched_reach acc s s"
| sched_next: "sched_reach acc s s' \<Longrightarrow> sched_step acc s' s'' \<Longrightarrow> sched_reach acc s s''"

text \<open>The tools that run: started and not returned.\<close>

definition executing :: "tid \<Rightarrow> 'r sched \<Rightarrow> bool" where
  "executing i s \<longleftrightarrow> i \<in> set (s_active s) \<and> i \<notin> s_returned s"

section \<open>What collecting picks\<close>

lemma collect_loop_spec:
  assumes "collect_loop acc mx active picked budget ts = (u, r)"
  shows "mset ts = mset u + mset r \<and>
    (\<forall>i\<in>set u. \<not> conflictsWithAny acc i active \<and> \<not> conflictsWithAny acc i picked) \<and>
    pairwise (\<lambda>i j. \<not> Conflict (acc i) (acc j)) (set u) \<and> (u \<noteq> [] \<longrightarrow> budget + int (length u) \<le> mx) \<and>
    (active = [] \<and> picked = [] \<and> budget < mx \<and> ts \<noteq> [] \<longrightarrow> u \<noteq> [])"
  using assms
proof (induction acc mx active picked budget ts arbitrary: u r rule: collect_loop.induct)
  case (2 acc mx active picked budget t ts)
  show ?case
  proof (cases "conflictsWithAny acc t active \<or> budget \<ge> mx \<or> conflictsWithAny acc t picked")
    case True
    obtain u' r' where c: "collect_loop acc mx active picked budget ts = (u', r')" by fastforce
    with True "2.prems" have "u = u'" "r = t # r'" by simp_all
    with "2.IH"(1) [OF True c] True show ?thesis by (auto simp: conflictsWithAny_def)
  next
    case False
    obtain u' r' where c: "collect_loop acc mx active (t # picked) (budget + 1) ts = (u', r')" by fastforce
    with False "2.prems" have u: "u = t # u'" "r = r'" by simp_all
    note ih = "2.IH"(2) [OF False c]
    have "\<forall>j\<in>set u'. \<not> Conflict (acc t) (acc j) \<and> \<not> Conflict (acc j) (acc t)"
      using ih by (auto simp: conflictsWithAny_def Conflict_sym)
    with ih False show ?thesis
      unfolding u by (auto simp: conflictsWithAny_def pairwise_insert)
  qed
qed auto

section \<open>No deadlock\<close>

text \<open>The tasks on their way: waiting in no queue, but not finished.\<close>

definition moving :: "'r sched \<Rightarrow> tid list" where
  "moving s = s_active s @ concat (s_starts s) @ (case s_adding s of None \<Rightarrow> [] | Some i \<Rightarrow> [i])"

definition sched_inv :: "'r sched \<Rightarrow> bool" where
  "sched_inv s \<longleftrightarrow> mset (s_pending s) + mset (moving s) \<subseteq># mset (s_tasks s) \<and> distinct (s_tasks s) \<and>
     (s_pending s \<noteq> [] \<longrightarrow> moving s \<noteq> []) \<and>
     (\<forall>i\<in>set (s_tasks s). s_done s i \<noteq> None \<or> i \<in> set (s_pending s) \<or> i \<in> set (moving s)) \<and>
     (\<forall>i\<in>s_returned s. s_done s i \<noteq> None)"

lemma maxPar_pos: "0 < maxPar s"
  by (simp add: maxPar_def defaultMaxParallel_def)

lemma resolve_frame [simp]:
  "s_active (resolve_once i r s) = s_active s" "s_pending (resolve_once i r s) = s_pending s"
  "s_tasks (resolve_once i r s) = s_tasks s" "s_adding (resolve_once i r s) = s_adding s"
  "s_starts (resolve_once i r s) = s_starts s" "s_returned (resolve_once i r s) = s_returned s"
  "s_maxParallel (resolve_once i r s) = s_maxParallel s"
  "moving (resolve_once i r s) = moving s" "s_done (resolve_once i r s) i \<noteq> None"
  "s_done s j \<noteq> None \<Longrightarrow> s_done (resolve_once i r s) j \<noteq> None"
  by (auto simp: resolve_once_def moving_def)

lemma sched_inv_resolve: "sched_inv s \<Longrightarrow> sched_inv (resolve_once i r s)"
  by (auto simp: sched_inv_def)

lemma mset_remove_first: "i \<in> set xs \<Longrightarrow> mset (remove_first (\<lambda>t. t = i) xs) = mset xs - {#i#}"
  by (induction xs) auto

lemma finish_parts:
  assumes "finish acc i s = s'" "i \<in> set (s_active s)"
  obtains u where "s_active s' = remove_first (\<lambda>t. t = i) (s_active s)" "s_starts s' = s_starts s @ [u]"
    "mset (s_pending s) = mset u + mset (s_pending s')" "s_tasks s' = s_tasks s" "s_adding s' = s_adding s"
    "s_returned s' = s_returned s" "s_done s' = s_done s" "s_maxParallel s' = s_maxParallel s"
    "\<forall>j\<in>set u. \<not> conflictsWithAny acc j (s_active s')" "pairwise (\<lambda>i j. \<not> Conflict (acc i) (acc j)) (set u)"
    "u \<noteq> [] \<Longrightarrow> int (length (s_active s')) + int (length u) \<le> maxPar s"
    "s_active s' = [] \<Longrightarrow> s_pending s \<noteq> [] \<Longrightarrow> u \<noteq> []"
proof -
  let ?a = "remove_first (\<lambda>t. t = i) (s_active s)"
  obtain u r where c: "collect_loop acc (maxPar s) ?a [] (int (length ?a)) (s_pending s) = (u, r)" by fastforce
  have m: "maxPar (removeActive i s) = maxPar s" by (simp add: maxPar_def removeActive_def)
  have "s' = (removeActive i s)\<lparr>s_pending := r, s_starts := s_starts s @ [u]\<rparr>"
    using assms(1) c m by (simp add: finish_def removeAndFindUnblocked_def collectUnblocked_def removeActive_def Let_def)
  with collect_loop_spec [OF c] maxPar_pos [of s] show ?thesis by (intro that [of u]) (auto simp: removeActive_def)
qed

lemma sched_inv_step: "sched_step acc s s' \<Longrightarrow> sched_inv s \<Longrightarrow> sched_inv s'"
proof (induction rule: sched_step.induct)
  case (add i s)
  have "i \<notin># mset (s_pending s)" "i \<notin># mset (moving s)"
    using add mset_subset_eqD [of "mset (s_pending s) + mset (moving s)" "mset (s_tasks s)" i] by (auto simp: sched_inv_def)
  moreover have "s_active s = [] \<Longrightarrow> s_pending s = [] \<Longrightarrow> canStart acc i s"
    using maxPar_pos [of s] by (simp add: canStart_def isBlockedLocked_def conflictsWithAny_def)
  ultimately show ?case
    using add by (auto simp: sched_inv_def Add_def moving_def Let_def split: if_splits)
next
  case (add_starts s i)
  then show ?case by (auto simp: sched_inv_def start_task_def moving_def add_ac)
next
  case (next_starts s xs i u ys)
  then show ?case by (auto simp: sched_inv_def start_task_def moving_def add_ac)
next
  case (starts_over s xs ys)
  then show ?case by (auto simp: sched_inv_def moving_def)
next
  case (returns i s r)
  let ?s = "resolve_once i r s"
  have "sched_inv ?s" by (rule sched_inv_resolve [OF returns(3)])
  moreover obtain y where "s_done ?s i = Some y" using resolve_frame(9) by fastforce
  ultimately have "sched_inv (?s\<lparr>s_returned := insert i (s_returned s)\<rparr>)"
    unfolding sched_inv_def moving_def by simp
  moreover have "resolve_once i r (s\<lparr>s_returned := insert i (s_returned s)\<rparr>) =
      ?s\<lparr>s_returned := insert i (s_returned s)\<rparr>" by (simp add: resolve_once_def)
  ultimately show ?case by simp
next
  case (finishes i s)
  obtain u where u: "s_active (finish acc i s) = remove_first (\<lambda>t. t = i) (s_active s)"
    "s_starts (finish acc i s) = s_starts s @ [u]" "mset (s_pending s) = mset u + mset (s_pending (finish acc i s))"
    "s_tasks (finish acc i s) = s_tasks s" "s_adding (finish acc i s) = s_adding s"
    "s_returned (finish acc i s) = s_returned s" "s_done (finish acc i s) = s_done s"
    "s_active (finish acc i s) = [] \<Longrightarrow> s_pending s \<noteq> [] \<Longrightarrow> u \<noteq> []"
    by (rule finish_parts [OF refl finishes(1), of acc]) blast
  let ?s = "finish acc i s"
  have m: "mset (s_pending ?s) + mset (moving ?s) = mset (s_pending s) + mset (moving s) - {#i#}"
  proof -
    obtain A where A: "mset (s_active s) = add_mset i A" using finishes(1) by (metis in_multiset_in_set insert_DiffM)
    have "mset (s_active ?s) = A" unfolding u(1) mset_remove_first [OF finishes(1)] A by simp
    with A show ?thesis unfolding moving_def u(2,3,5) by simp
  qed
  have "mset (s_pending ?s) + mset (moving ?s) \<subseteq># mset (s_tasks s)"
    using finishes(3) unfolding m sched_inv_def by (meson diff_subset_eq_self subset_mset.order_trans)
  moreover have "s_pending ?s \<noteq> [] \<longrightarrow> moving ?s \<noteq> []"
  proof (cases "s_pending s = []")
    case True
    with u(3) show ?thesis by simp
  next
    case False
    with u(2,8) show ?thesis by (cases "s_active ?s = []") (simp_all add: moving_def)
  qed
  moreover have "s_done s j \<noteq> None \<or> j \<in> set (s_pending ?s) \<or> j \<in> set (moving ?s)" if "j \<in> set (s_tasks s)" for j
  proof (cases "j = i")
    case True
    then show ?thesis using finishes(2,3) by (simp add: sched_inv_def)
  next
    case False
    have "j \<in># mset (s_pending s) + mset (moving s) \<Longrightarrow> j \<in># mset (s_pending ?s) + mset (moving ?s)"
      unfolding m using False by (simp add: in_diff_count)
    then show ?thesis using finishes(3) that by (auto simp: sched_inv_def)
  qed
  ultimately show ?case using finishes(3) u by (simp add: sched_inv_def)
qed (auto intro: sched_inv_resolve)

lemma sched_inv_init: "sched_inv (NewToolScheduler n)"
  by (simp add: sched_inv_def NewToolScheduler_def moving_def)

lemma sched_inv_reach: "sched_reach acc s s' \<Longrightarrow> sched_inv s \<Longrightarrow> sched_inv s'"
  by (induction rule: sched_reach.induct) (auto intro: sched_inv_step)

text \<open>A bound on what is left to do: every step of a goroutine that is under way takes some of it.\<close>

inductive progress :: "(tid \<Rightarrow> access) \<Rightarrow> 'r sched \<Rightarrow> 'r sched \<Rightarrow> bool" for acc where
  p_add_starts: "s_adding s = Some i \<Longrightarrow> progress acc s (start_task i (s\<lparr>s_adding := None\<rparr>))"
| p_next_starts: "s_starts s = xs @ (i # u) # ys \<Longrightarrow> progress acc s (start_task i (s\<lparr>s_starts := xs @ u # ys\<rparr>))"
| p_starts_over: "s_starts s = xs @ [] # ys \<Longrightarrow> progress acc s (s\<lparr>s_starts := xs @ ys\<rparr>)"
| p_returns: "i \<in> set (s_active s) \<Longrightarrow> i \<notin> s_returned s \<Longrightarrow>
    progress acc s (resolve_once i r (s\<lparr>s_returned := insert i (s_returned s)\<rparr>))"
| p_finishes: "i \<in> set (s_active s) \<Longrightarrow> i \<in> s_returned s \<Longrightarrow> progress acc s (finish acc i s)"

lemma progress_step: "progress acc s s' \<Longrightarrow> sched_step acc s s'"
  by (induction rule: progress.induct) (auto intro: sched_step.intros)

definition load :: "'r sched \<Rightarrow> nat" where
  "load s = 2 * length (s_active s) + length (filter (\<lambda>i. i \<notin> s_returned s) (s_active s)) +
     4 * (length (concat (s_starts s)) + (if s_adding s = None then 0 else 1) + length (s_pending s)) + length (s_starts s)"

lemma remove_first_member: "i \<in> set xs \<Longrightarrow> length (remove_first (\<lambda>t. t = i) xs) + 1 = length xs"
  by (induction xs) auto

lemma filter_remove_first: "\<not> P i \<Longrightarrow> filter P (remove_first (\<lambda>t. t = i) xs) = filter P xs"
  by (induction xs) auto

lemma filter_length_less: "i \<in> set xs \<Longrightarrow> i \<notin> R \<Longrightarrow> length (filter (\<lambda>j. j \<notin> insert i R) xs) < length (filter (\<lambda>j. j \<notin> R) xs)"
proof (induction xs)
  case (Cons x xs)
  have "length (filter (\<lambda>j. j \<notin> insert i R) xs) \<le> length (filter (\<lambda>j. j \<notin> R) xs)" by (induction xs) auto
  with Cons show ?case by (cases "x = i") (auto simp: less_Suc_eq_le)
qed simp

lemma load_progress: "progress acc s s' \<Longrightarrow> load s' < load s"
proof (induction rule: progress.induct)
  case (p_returns i s r)
  then show ?case using filter_length_less [of i "s_active s" "s_returned s"] by (simp add: load_def)
next
  case (p_finishes i s)
  let ?s = "finish acc i s"
  obtain u where u: "s_active ?s = remove_first (\<lambda>t. t = i) (s_active s)" "s_starts ?s = s_starts s @ [u]"
    "mset (s_pending s) = mset u + mset (s_pending ?s)" "s_adding ?s = s_adding s" "s_returned ?s = s_returned s"
    by (rule finish_parts [OF refl p_finishes(1), of acc]) blast
  have "length (s_pending s) = length u + length (s_pending ?s)"
    using arg_cong [OF u(3), of size] by simp
  moreover have "length (s_active ?s) + 1 = length (s_active s)"
    unfolding u(1) by (rule remove_first_member [OF p_finishes(1)])
  moreover have "filter (\<lambda>i. i \<notin> s_returned s) (s_active ?s) = filter (\<lambda>i. i \<notin> s_returned s) (s_active s)"
    unfolding u(1) using p_finishes(2) by (intro filter_remove_first) simp
  ultimately show ?case unfolding load_def u(2,4,5) by simp
qed (auto simp: load_def start_task_def)

lemma moving_progress: "moving s \<noteq> [] \<Longrightarrow> \<exists>s'. progress acc s s'"
proof -
  assume "moving s \<noteq> []"
  then obtain i where "i \<in> set (moving s)" by (cases "moving s") auto
  then consider "i \<in> set (s_active s)" | u where "u \<in> set (s_starts s)" "i \<in> set u" | "s_adding s = Some i"
    by (auto simp: moving_def split: option.splits)
  then show ?thesis
  proof cases
    case 1
    then show ?thesis by (cases "i \<in> s_returned s") (blast intro: progress.intros)+
  next
    case (2 u)
    obtain xs ys where xs: "s_starts s = xs @ u # ys" using 2(1) by (meson split_list)
    obtain j v where "u = j # v" using 2(2) by (cases u) auto
    with xs show ?thesis by (blast intro: progress.intros)
  qed (blast intro: progress.intros)
qed

lemma not_moving_collected:
  assumes "sched_inv s" "moving s = []"
  shows "\<exists>rs. Collect_results s = Some rs \<and> map fst rs = s_tasks s"
proof -
  have "\<forall>i\<in>set (s_tasks s). s_done s i \<noteq> None" using assms by (auto simp: sched_inv_def)
  then have "Collect_results s = Some (map (\<lambda>i. (i, the (s_done s i))) (s_tasks s))"
    by (simp add: Collect_results_def list_all_iff)
  then show ?thesis by (simp add: comp_def)
qed

text \<open>C32: Once no tool is added, the scheduler drains: every step that starts, returns or finishes a
  task uses up a bounded amount of work, and when no such step is left, collecting gives a result for
  every task, in submission order.\<close>

theorem scheduler_drains:
  assumes "sched_reach acc (NewToolScheduler n) s"
  shows "(\<forall>s'. progress acc s s' \<longrightarrow> load s' < load s) \<and>
    ((\<nexists>s'. progress acc s s') \<longrightarrow> (\<exists>rs. Collect_results s = Some rs \<and> map fst rs = s_tasks s))"
  using load_progress moving_progress not_moving_collected [OF sched_inv_reach [OF assms sched_inv_init]] by blast

section \<open>Conflicts are serialised only when starting is atomic\<close>

text \<open>A task that two others run for: \<open>t0\<close> and \<open>t1\<close> run, \<open>t2\<close> waits for \<open>t0\<close> and \<open>t3\<close> for
  \<open>t1\<close> and \<open>t2\<close>.\<close>

definition overlap_acc :: "tid \<Rightarrow> access" where
  "overlap_acc i = \<lparr>a_read = [], a_write = (if i = 0 then [''a''] else if i = 1 then [''b'']
     else if i = 2 then [''a'', ''c''] else [''b'', ''c'']), a_category = []\<rparr>"

lemmas sched_eval = Add_def canStart_def isBlockedLocked_def conflictsWithAny_def Conflict_def categoryConflict_def
  pathConflict_def intersects_def maxPar_def defaultMaxParallel_def NewToolScheduler_def start_task_def
  resolve_once_def finish_def removeAndFindUnblocked_def collectUnblocked_def removeActive_def

definition overlap_start :: "nat sched" where
  "overlap_start = \<lparr>s_active = [0, 1], s_pending = [2, 3], s_tasks = [0, 1, 2, 3], s_maxParallel = 0,
     s_done = (\<lambda>_. None), s_adding = None, s_starts = [], s_returned = {}, s_watched = [2, 3]\<rparr>"

definition overlap_end :: "nat sched" where
  "overlap_end = \<lparr>s_active = [2, 3], s_pending = [], s_tasks = [0, 1, 2, 3], s_maxParallel = 0,
     s_done = [0 \<mapsto> Returned 0, 1 \<mapsto> Returned 0], s_adding = None, s_starts = [[], []], s_returned = {0, 1}, s_watched = [2, 3]\<rparr>"

lemma reach_step: "sched_step acc s' s'' \<Longrightarrow> s3 = s'' \<Longrightarrow> sched_reach acc s s' \<Longrightarrow> sched_reach acc s s3"
  by (auto intro: sched_next)

lemma overlap_start_reach: "sched_reach overlap_acc (NewToolScheduler 0) overlap_start"
proof -
  let ?a = overlap_acc
  let ?s0 = "NewToolScheduler 0 :: nat sched"
  let ?s1 = "start_task 0 (Add ?a 0 ?s0\<lparr>s_adding := None\<rparr>)"
  let ?s2 = "start_task 1 (Add ?a 1 ?s1\<lparr>s_adding := None\<rparr>)"
  have "sched_reach ?a ?s0 ?s1"
    by (rule sched_next [OF sched_next [OF sched_refl add] add_starts]) (simp_all add: sched_eval overlap_acc_def)
  then have "sched_reach ?a ?s0 ?s2"
    by (rule sched_next [OF sched_next [OF _ add] add_starts]) (simp_all add: sched_eval overlap_acc_def)
  then have "sched_reach ?a ?s0 (Add ?a 3 (Add ?a 2 ?s2))"
    by (rule sched_next [OF sched_next [OF _ add] add]) (simp_all add: sched_eval overlap_acc_def)
  then show ?thesis by (simp add: sched_eval overlap_acc_def overlap_start_def)
qed

lemma overlap_end_reach: "sched_reach overlap_acc overlap_start overlap_end"
proof -
  let ?a = overlap_acc
  let ?r = "\<lambda>i s. resolve_once i (Returned 0) (s\<lparr>s_returned := insert i (s_returned s)\<rparr>)"
  let ?s1 = "finish ?a 0 (?r 0 overlap_start)"
  let ?s2 = "finish ?a 1 (?r 1 ?s1)"
  have "sched_reach ?a overlap_start ?s1"
    by (rule sched_next [OF sched_next [OF sched_refl returns] finishes]) (simp_all add: sched_eval overlap_start_def)
  then have "sched_reach ?a overlap_start ?s2"
    by (rule sched_next [OF sched_next [OF _ returns] finishes]) (simp_all add: sched_eval overlap_start_def overlap_acc_def)
  moreover have s2: "?s2 = overlap_end\<lparr>s_active := [], s_starts := [[2], [3]]\<rparr>"
    by (simp add: sched_eval overlap_start_def overlap_end_def overlap_acc_def insert_commute fun_eq_iff)
  ultimately have "sched_reach ?a overlap_start (overlap_end\<lparr>s_active := [], s_starts := [[2], [3]]\<rparr>)" by simp
  from sched_next [OF this next_starts [where xs = "[]" and i = 2 and u = "[]" and ys = "[[3]]"]]
  have "sched_reach ?a overlap_start (overlap_end\<lparr>s_active := [2], s_starts := [[], [3]]\<rparr>)"
    by (simp add: start_task_def overlap_end_def)
  from sched_next [OF this next_starts [where xs = "[[]]" and i = 3 and u = "[]" and ys = "[]"]]
  show ?thesis by (simp add: start_task_def overlap_end_def)
qed

lemma sched_reach_trans: "sched_reach acc s' s'' \<Longrightarrow> sched_reach acc s s' \<Longrightarrow> sched_reach acc s s''"
  by (induction rule: sched_reach.induct) (auto intro: sched_next)

text \<open>The scheduler lets conflicting tools run together: a goroutine that has finished a task
  decides what may start in one section under the lock and starts it in a later one, and a second
  goroutine that decides in between does not see the first one's choice.\<close>

theorem conflicting_tools_can_overlap:
  "\<exists>acc (s :: nat sched) i j. sched_reach acc (NewToolScheduler 0) s \<and> executing i s \<and> executing j s \<and> i \<noteq> j \<and>
     Conflict (acc i) (acc j)"
proof (intro exI conjI)
  show "sched_reach overlap_acc (NewToolScheduler 0) overlap_end"
    by (rule sched_reach_trans [OF overlap_end_reach overlap_start_reach])
  show "executing 2 overlap_end" "executing 3 overlap_end" by (simp_all add: executing_def overlap_end_def)
  show "Conflict (overlap_acc 2) (overlap_acc 3)" by (simp add: sched_eval overlap_acc_def)
qed simp

text \<open>The runs in which no section decides while another has something to start.\<close>

definition settled :: "'r sched \<Rightarrow> bool" where
  "settled s \<longleftrightarrow> s_adding s = None \<and> concat (s_starts s) = []"

inductive settled_reach :: "(tid \<Rightarrow> access) \<Rightarrow> 'r sched \<Rightarrow> 'r sched \<Rightarrow> bool" for acc where
  settled_refl: "settled_reach acc s s"
| settled_add: "settled_reach acc s s' \<Longrightarrow> settled s' \<Longrightarrow> i \<notin> set (s_tasks s') \<Longrightarrow> settled_reach acc s (Add acc i s')"
| settled_finish: "settled_reach acc s s' \<Longrightarrow> settled s' \<Longrightarrow> i \<in> set (s_active s') \<Longrightarrow> i \<in> s_returned s' \<Longrightarrow>
    settled_reach acc s (finish acc i s')"
| settled_add_starts: "settled_reach acc s s' \<Longrightarrow> s_adding s' = Some i \<Longrightarrow>
    settled_reach acc s (start_task i (s'\<lparr>s_adding := None\<rparr>))"
| settled_next_starts: "settled_reach acc s s' \<Longrightarrow> s_starts s' = xs @ (i # u) # ys \<Longrightarrow>
    settled_reach acc s (start_task i (s'\<lparr>s_starts := xs @ u # ys\<rparr>))"
| settled_returns: "settled_reach acc s s' \<Longrightarrow> i \<in> set (s_active s') \<Longrightarrow> i \<notin> s_returned s' \<Longrightarrow>
    settled_reach acc s (resolve_once i r (s'\<lparr>s_returned := insert i (s_returned s')\<rparr>))"

lemma settled_is_reach: "settled_reach acc s s' \<Longrightarrow> sched_reach acc s s'"
  by (induction rule: settled_reach.induct) (auto intro: sched_refl sched_next sched_step.intros simp: settled_def)

definition serialised :: "(tid \<Rightarrow> access) \<Rightarrow> 'r sched \<Rightarrow> bool" where
  "serialised acc s \<longleftrightarrow> pairwise (\<lambda>i j. \<not> Conflict (acc i) (acc j)) (set (moving s)) \<and> int (length (moving s)) \<le> maxPar s"

lemma serialised_add:
  assumes "serialised acc s" "settled s"
  shows "serialised acc (Add acc i s)"
proof -
  have m: "moving s = s_active s" using assms(2) by (simp add: moving_def settled_def)
  have p: "maxPar (Add acc i s) = maxPar s" by (simp add: Add_def Let_def maxPar_def)
  have a: "moving (Add acc i s) = s_active s @ (if canStart acc i s then [i] else [])"
    using assms(2) unfolding settled_def by (simp add: Add_def Let_def moving_def)
  show ?thesis
  proof (cases "canStart acc i s")
    case True
    then show ?thesis
      using assms(1) unfolding serialised_def m p a
      by (auto simp: canStart_def isBlockedLocked_def conflictsWithAny_def list_ex_iff pairwise_insert Conflict_sym)
  qed (use assms(1) in \<open>simp add: serialised_def m p a\<close>)
qed

lemma pairwise_union:
  "pairwise R A \<Longrightarrow> pairwise R B \<Longrightarrow> (\<And>a b. b \<in> B \<Longrightarrow> a \<in> A \<Longrightarrow> R b a \<and> R a b) \<Longrightarrow> pairwise R (A \<union> B)"
  by (auto simp: pairwise_def)

lemma serialised_finish:
  assumes "serialised acc s" "settled s" "i \<in> set (s_active s)"
  shows "serialised acc (finish acc i s)"
proof -
  let ?s = "finish acc i s"
  obtain u where u: "s_active ?s = remove_first (\<lambda>t. t = i) (s_active s)" "s_starts ?s = s_starts s @ [u]"
    "s_adding ?s = s_adding s" "s_maxParallel ?s = s_maxParallel s"
    "\<forall>j\<in>set u. \<not> conflictsWithAny acc j (s_active ?s)" "pairwise (\<lambda>i j. \<not> Conflict (acc i) (acc j)) (set u)"
    "u \<noteq> [] \<Longrightarrow> int (length (s_active ?s)) + int (length u) \<le> maxPar s"
    by (rule finish_parts [OF refl assms(3), of acc]) blast
  have m: "moving ?s = s_active ?s @ u" "moving s = s_active s"
    using assms(2) by (simp_all add: settled_def moving_def u(2,3))
  have sub: "set (s_active ?s) \<subseteq> set (s_active s)" unfolding u(1) by (rule set_remove_first_subset)
  have "pairwise (\<lambda>i j. \<not> Conflict (acc i) (acc j)) (set (s_active ?s))"
    using assms(1) m pairwise_mono [OF _ _ sub] by (auto simp: serialised_def)
  then have "pairwise (\<lambda>i j. \<not> Conflict (acc i) (acc j)) (set (moving ?s))"
    unfolding m set_append using u(5,6)
    by (intro pairwise_union) (auto simp: conflictsWithAny_def list_ex_iff intro: Conflict_sym [THEN iffD1])
  moreover have "int (length (moving ?s)) \<le> maxPar ?s"
  proof (cases "u = []")
    case True
    have "length (s_active ?s) + 1 = length (s_active s)" unfolding u(1) by (rule remove_first_member [OF assms(3)])
    moreover have "maxPar ?s = maxPar s" by (simp add: maxPar_def u(4))
    ultimately show ?thesis using True assms(1) m by (simp add: serialised_def)
  next
    case False
    moreover have "maxPar ?s = maxPar s" by (simp add: maxPar_def u(4))
    ultimately show ?thesis using u(7) by (simp add: m)
  qed
  ultimately show ?thesis by (simp add: serialised_def)
qed

lemma serialised_mset:
  assumes "serialised acc s" "mset (moving s') = mset (moving s)" "s_maxParallel s' = s_maxParallel s"
  shows "serialised acc s'"
  using assms(1) unfolding serialised_def maxPar_def mset_eq_setD [OF assms(2)] mset_eq_length [OF assms(2)] assms(3) .

lemma serialised_reach: "settled_reach acc s s' \<Longrightarrow> serialised acc s \<Longrightarrow> serialised acc s'"
proof (induction rule: settled_reach.induct)
  case (settled_add s s' i)
  then show ?case by (simp add: serialised_add)
next
  case (settled_finish s s' i)
  then show ?case by (simp add: serialised_finish)
next
  case (settled_add_starts s s' i)
  have "mset (moving (start_task i (s'\<lparr>s_adding := None\<rparr>))) = mset (moving s')"
    using settled_add_starts(2) by (simp add: moving_def start_task_def)
  from serialised_mset [OF settled_add_starts(3) this] settled_add_starts(4) show ?case by (simp add: start_task_def)
next
  case (settled_next_starts s s' xs i u ys)
  have "mset (moving (start_task i (s'\<lparr>s_starts := xs @ u # ys\<rparr>))) = mset (moving s')"
    using settled_next_starts(2) by (simp add: moving_def start_task_def)
  from serialised_mset [OF settled_next_starts(3) this] settled_next_starts(4) show ?case by (simp add: start_task_def)
next
  case (settled_returns s s' i r)
  let ?s = "resolve_once i r (s'\<lparr>s_returned := insert i (s_returned s')\<rparr>)"
  have "mset (moving ?s) = mset (moving s')" "s_maxParallel ?s = s_maxParallel s'" by (simp_all add: moving_def)
  from serialised_mset [OF settled_returns(4) this] settled_returns(5) show ?case by simp
qed


lemma scheduler_drains_witness:
  "load (resolve_once 0 (Returned 0) (overlap_start\<lparr>s_returned := {0}\<rparr>)) < load overlap_start"
proof -
  have "progress overlap_acc overlap_start
      (resolve_once 0 (Returned 0) (overlap_start\<lparr>s_returned := insert 0 (s_returned overlap_start)\<rparr>))"
    by (rule p_returns) (simp_all add: overlap_start_def)
  with scheduler_drains [OF overlap_start_reach] have
    "load (resolve_once 0 (Returned 0) (overlap_start\<lparr>s_returned := insert 0 (s_returned overlap_start)\<rparr>)) < load overlap_start"
    by blast
  then show ?thesis by (simp add: overlap_start_def)
qed


end
