(* ===== verification/Edit_Match.thy ===== *)
theory Edit_Match
  imports Go_Strings "HOL-Library.Sublist"
begin

text \<open>
  Locating the text an edit replaces (tools/fuzzyedit.go) and the diff of two line lists
  (tools/editfile_diff.go). A file is a byte string; its lines are what lies between line feeds.
\<close>

section \<open>Lines\<close>

abbreviation nl :: char where "nl \<equiv> CHR 0x0A"
abbreviation cr :: char where "cr \<equiv> CHR 0x0D"
abbreviation tab :: char where "tab \<equiv> CHR 0x09"

abbreviation lines_of :: "string \<Rightarrow> string list" where "lines_of \<equiv> split_on nl"
abbreviation text_of :: "string list \<Rightarrow> string" where "text_of \<equiv> join_with [nl]"

text \<open>\<open>strings.TrimSuffix\<close>, \<open>strings.Contains\<close> and the normalisation of line ends.\<close>

definition trim_suffix :: "string \<Rightarrow> string \<Rightarrow> string" where
  "trim_suffix p s = (if has_suffix p s then take (length s - length p) s else s)"

definition contains :: "string \<Rightarrow> string \<Rightarrow> bool" where
  "contains sub s \<longleftrightarrow> str_index sub s \<noteq> None"

definition norm_ends :: "string \<Rightarrow> string" where
  "norm_ends s = replace_all [cr, nl] [nl] s"

section \<open>Matching\<close>

datatype match_type = MatchExact | MatchTrailingWhitespace | MatchFuzzy | MatchExactSubstring

datatype edit_failure = ErrEmptyOldStr | ErrNotFound | ErrAmbiguous nat | ErrNoChange

record edit_result =
  ed_content :: string
  ed_diff :: string
  ed_match :: match_type
  ed_start :: nat
  ed_end :: nat

definition exactNormalize :: "string \<Rightarrow> string" where "exactNormalize s = s"

definition trim_right_ws :: "string \<Rightarrow> string" where
  "trim_right_ws s = rev (dropWhile (\<lambda>c. c = CHR '' '' \<or> c = tab) (rev s))"

definition trailingWhitespaceNormalize :: "string \<Rightarrow> string" where
  "trailingWhitespaceNormalize s = trim_right_ws s"

definition fuzzyNormalize :: "string \<Rightarrow> string" where
  "fuzzyNormalize s = join_with '' '' (Go_Strings.fields s)"

definition findMatches :: "string list \<Rightarrow> string list \<Rightarrow> (string \<Rightarrow> string) \<Rightarrow> nat list" where
  "findMatches fileLines oldLines nrm =
     (if oldLines = [] \<or> length oldLines > length fileLines then []
      else filter (\<lambda>i. list_all (\<lambda>k. nrm (fileLines ! (i + k)) = nrm (oldLines ! k)) [0..<length oldLines])
             [0..<length fileLines - length oldLines + 1])"

definition leadingWhitespace :: "string \<Rightarrow> string" where
  "leadingWhitespace s = takeWhile (\<lambda>c. c = CHR '' '' \<or> c = tab) s"

text \<open>The reference line: the first that is not blank, or the last one.\<close>

fun ref_index :: "string list \<Rightarrow> nat" where
  "ref_index (l # m # ls) = (if trim_space l = [] then Suc (ref_index (m # ls)) else 0)"
| "ref_index _ = 0"

definition reindentReplacement :: "string list \<Rightarrow> string list \<Rightarrow> string list \<Rightarrow> nat \<Rightarrow> string list" where
  "reindentReplacement fileLines oldLines newLines start =
     (let refIdx = ref_index oldLines;
          fileIndent = leadingWhitespace (fileLines ! (start + refIdx));
          oldIndent = leadingWhitespace (oldLines ! refIdx);
          delta = int (length fileIndent) - int (length oldIndent)
      in if delta = 0 then newLines
         else let indentChar = (if fileIndent \<noteq> [] then hd fileIndent else if oldIndent \<noteq> [] then hd oldIndent else CHR '' '')
           in map (\<lambda>line. if trim_space line = [] then line
                else let ind = leadingWhitespace line; newLen = int (length ind) + delta
                  in replicate (nat (if newLen < 0 then 0 else newLen)) indentChar @ drop (length ind) line) newLines)"

section \<open>The diff\<close>

definition diffContextLines :: nat where "diffContextLines = 3"

text \<open>A hunk: its header and its lines, each marked as context, removed or added.\<close>

definition hunk_header :: "nat \<Rightarrow> nat \<Rightarrow> nat \<Rightarrow> string" where
  "hunk_header ctxStart oldCount newCount =
     ''@@ -'' @ dec (ctxStart + 1) @ '','' @ dec oldCount @ '' +'' @ dec (ctxStart + 1) @ '','' @ dec newCount @ '' @@''"

definition hunk_text :: "string \<Rightarrow> (char \<times> string) list \<Rightarrow> string" where
  "hunk_text header body =
     trim_suffix [nl] (header @ [nl] @ concat (map (\<lambda>(mark, l). mark # l @ [nl]) body))"

definition slice :: "nat \<Rightarrow> nat \<Rightarrow> 'a list \<Rightarrow> 'a list" where
  "slice from to xs = take (to - from) (drop from xs)"

text \<open>The lines of the hunk \<open>generateDiff\<close> and \<open>generateUnifiedDiff\<close> write: \<open>from\<close> and \<open>till\<close> bound
  the replaced lines, \<open>added\<close> are the new ones.\<close>

definition hunk_body :: "string list \<Rightarrow> nat \<Rightarrow> nat \<Rightarrow> string list \<Rightarrow> (char \<times> string) list" where
  "hunk_body fileLines from till added =
     (let ctxStart = from - diffContextLines; ctxEnd = min (length fileLines) (till + diffContextLines) in
      map (Pair (CHR '' '')) (slice ctxStart from fileLines) @ map (Pair (CHR ''-'')) (slice from till fileLines) @
      map (Pair (CHR ''+'')) added @ map (Pair (CHR '' '')) (slice till ctxEnd fileLines))"

definition generateDiff :: "string list \<Rightarrow> nat \<Rightarrow> nat \<Rightarrow> string list \<Rightarrow> string" where
  "generateDiff fileLines start to replacement =
     (let ctxStart = start - diffContextLines; ctxEnd = min (length fileLines) (to + diffContextLines);
          leadingCtx = start - ctxStart; trailingCtx = ctxEnd - to
      in hunk_text (hunk_header ctxStart ((to - start) + leadingCtx + trailingCtx) (length replacement + leadingCtx + trailingCtx))
           (hunk_body fileLines start to replacement))"

fun firstDiff :: "string list \<Rightarrow> string list \<Rightarrow> nat" where
  "firstDiff (a # as) (b # bs) = (if a = b then Suc (firstDiff as bs) else 0)"
| "firstDiff _ _ = 0"

text \<open>The loop of \<open>diffEnds\<close>, counting down from the ends.\<close>

fun ends_loop :: "string list \<Rightarrow> string list \<Rightarrow> nat \<Rightarrow> nat \<Rightarrow> nat \<Rightarrow> nat \<times> nat" where
  "ends_loop os ns start o' n =
     (if o' > start \<and> n > start \<and> os ! (o' - 1) = ns ! (n - 1) then ends_loop os ns start (o' - 1) (n - 1) else (o', n))"

declare ends_loop.simps [simp del]

definition diffEnds :: "string list \<Rightarrow> string list \<Rightarrow> nat \<Rightarrow> nat \<times> nat" where
  "diffEnds os ns start = ends_loop os ns start (length os) (length ns)"

definition generateUnifiedDiff :: "string list \<Rightarrow> string list \<Rightarrow> string" where
  "generateUnifiedDiff os ns =
     (let start = firstDiff os ns in
      if start = length os \<and> start = length ns then []
      else let (oldEnd, newEnd) = diffEnds os ns start;
               ctxStart = start - diffContextLines; ctxOldEnd = min (length os) (oldEnd + diffContextLines);
               before = start - ctxStart; after = ctxOldEnd - oldEnd
           in hunk_text (hunk_header ctxStart (oldEnd - start + before + after) (newEnd - start + before + after))
                (hunk_body os start oldEnd (slice start newEnd ns)))"

section \<open>The edit\<close>

definition buildEditResult :: "string list \<Rightarrow> nat \<Rightarrow> nat \<Rightarrow> string list \<Rightarrow> match_type \<Rightarrow> bool \<Rightarrow> edit_result" where
  "buildEditResult fileLines start to replacement mt useCRLF =
     (let newContent = text_of (take start fileLines @ replacement @ drop to fileLines);
          diff = generateDiff fileLines start to replacement;
          ends = (\<lambda>s. if useCRLF then replace_all [nl] [cr, nl] s else s)
      in \<lparr>ed_content = ends newContent, ed_diff = ends diff, ed_match = mt, ed_start = start + 1, ed_end = to\<rparr>)"

definition substringEdit :: "string list \<Rightarrow> string \<Rightarrow> string \<Rightarrow> string \<Rightarrow> bool \<Rightarrow> edit_failure + edit_result" where
  "substringEdit fileLines normFile normOld normNew useCRLF =
     (if normOld = [] then Inl ErrNotFound
      else let count = str_count normOld normFile in
        if count = 0 then Inl ErrNotFound
        else if count > 1 then Inl (ErrAmbiguous count)
        else if normNew = normOld then Inl ErrNoChange
        else case str_index normOld normFile of None \<Rightarrow> Inl ErrNotFound
          | Some idx \<Rightarrow>
              let start = str_count [nl] (take idx normFile); to = start + 1;
                  replaced = take idx normFile @ normNew @ drop (idx + length normOld) normFile;
                  newFileLines = lines_of replaced;
                  replLines = slice start (length newFileLines - (length fileLines - to)) newFileLines
              in Inr (buildEditResult fileLines start to replLines MatchExactSubstring useCRLF))"

text \<open>The strategies in their order: the match type, the normalisation, whether to reindent.\<close>

type_synonym strategy = "match_type \<times> (string \<Rightarrow> string) \<times> bool"

definition strategies :: "bool \<Rightarrow> strategy list" where
  "strategies allowFuzz = (MatchExact, exactNormalize, False) #
     (if allowFuzz then [(MatchTrailingWhitespace, trailingWhitespaceNormalize, False), (MatchFuzzy, fuzzyNormalize, True)] else [])"

text \<open>The loop over the strategies (\<open>None\<close>: all found no match).\<close>

fun try_strategies :: "string list \<Rightarrow> string list \<Rightarrow> string list \<Rightarrow> bool \<Rightarrow> strategy list \<Rightarrow> (edit_failure + edit_result) option" where
  "try_strategies fileLines oldLines newLines useCRLF [] = None"
| "try_strategies fileLines oldLines newLines useCRLF ((mt, nrm, reindent) # ss) =
     (let matches = findMatches fileLines oldLines nrm in
      if matches = [] then try_strategies fileLines oldLines newLines useCRLF ss
      else if length matches = 1 then
        let start = hd matches; to = start + length oldLines;
            replacement = (if reindent then reindentReplacement fileLines oldLines newLines start else newLines)
        in Some (if slice start to fileLines = replacement then Inl ErrNoChange
                 else Inr (buildEditResult fileLines start to replacement mt useCRLF))
      else Some (Inl (ErrAmbiguous (length matches))))"

text \<open>The three texts as the matcher sees them.\<close>

definition file_lines :: "string \<Rightarrow> string list" where "file_lines f = lines_of (norm_ends f)"
definition arg_lines :: "string \<Rightarrow> string list" where "arg_lines s = lines_of (trim_suffix [nl] (norm_ends s))"

definition fuzzyEdit :: "string \<Rightarrow> string \<Rightarrow> string \<Rightarrow> bool \<Rightarrow> edit_failure + edit_result" where
  "fuzzyEdit file oldStr newStr allowFuzz =
     (if oldStr = [] then Inl ErrEmptyOldStr
      else let useCRLF = contains [cr, nl] file; normFile = norm_ends file;
               normOld = trim_suffix [nl] (norm_ends oldStr); normNew = trim_suffix [nl] (norm_ends newStr);
               fileLines = lines_of normFile; oldLines = lines_of normOld; newLines = lines_of normNew
           in case try_strategies fileLines oldLines newLines useCRLF (strategies allowFuzz) of
                Some r \<Rightarrow> r
              | None \<Rightarrow> if length oldLines = 1 then substringEdit fileLines normFile normOld normNew useCRLF
                        else Inl ErrNotFound)"

section \<open>The overlap a failed match is explained with\<close>

record block_match =
  bm_total :: nat
  bm_run :: nat
  bm_runStart :: nat
  bm_anywhere :: nat

definition nonEmptyLines :: "string \<Rightarrow> string list" where
  "nonEmptyLines s = filter (\<lambda>l. trim_space l \<noteq> []) (arg_lines s)"

definition linePositions :: "string \<Rightarrow> string \<Rightarrow> nat list" where
  "linePositions content = (let fl = file_lines content in (\<lambda>l. filter (\<lambda>i. fl ! i = l) [0..<length fl]))"

text \<open>One cell, one line and all lines of the table: the last row, the longest run and its start.\<close>

definition run_cell :: "(nat \<Rightarrow> nat) \<Rightarrow> (nat \<Rightarrow> nat) \<times> nat \<times> nat \<Rightarrow> nat \<Rightarrow> (nat \<Rightarrow> nat) \<times> nat \<times> nat" where
  "run_cell prev = (\<lambda>(cur, run, runStart) j.
     (let v = (if j = 0 then 0 else prev (j - 1)) + 1; cur' = cur(j := v) in
      if v > run then (cur', v, j + 2 - v) else (cur', run, runStart)))"

definition run_line :: "(string \<Rightarrow> nat list) \<Rightarrow> (nat \<Rightarrow> nat) \<times> nat \<times> nat \<Rightarrow> string \<Rightarrow> (nat \<Rightarrow> nat) \<times> nat \<times> nat" where
  "run_line pos = (\<lambda>(prev, run, runStart) l. foldl (run_cell prev) (\<lambda>_. 0, run, runStart) (pos l))"

definition longestLineRun :: "string list \<Rightarrow> (string \<Rightarrow> nat list) \<Rightarrow> nat \<times> nat" where
  "longestLineRun oldLines pos = (case foldl (run_line pos) (\<lambda>_. 0, 0, 0) oldLines of (_, run, runStart) \<Rightarrow> (run, runStart))"

definition analyzeBlockMatch :: "string \<Rightarrow> string \<Rightarrow> block_match" where
  "analyzeBlockMatch content oldStr =
     (let oldLines = nonEmptyLines oldStr in
      if oldLines = [] then \<lparr>bm_total = 0, bm_run = 0, bm_runStart = 0, bm_anywhere = 0\<rparr>
      else let pos = linePositions content; (run, runStart) = longestLineRun oldLines pos
        in \<lparr>bm_total = length oldLines, bm_run = run, bm_runStart = runStart,
            bm_anywhere = length (filter (\<lambda>l. pos l \<noteq> []) oldLines)\<rparr>)"

section \<open>Where a block occurs\<close>

definition block_at :: "(string \<Rightarrow> string) \<Rightarrow> string list \<Rightarrow> string list \<Rightarrow> nat \<Rightarrow> bool" where
  "block_at nrm blk ls i \<longleftrightarrow> i + length blk \<le> length ls \<and> map nrm (take (length blk) (drop i ls)) = map nrm blk"

lemma length_slice [simp]: "length (slice a b xs) = min (b - a) (length xs - a)"
  by (simp add: slice_def min.commute)

lemma slice_split:
  assumes "a \<le> b"
  shows "take a xs @ slice a b xs @ drop b xs = xs"
proof -
  have "drop b xs = drop (b - a) (drop a xs)" using assms by simp
  then show ?thesis by (simp only: slice_def append_take_drop_id)
qed

lemma block_lines:
  assumes "i + length blk \<le> length ls"
  shows "map nrm (take (length blk) (drop i ls)) = map nrm blk \<longleftrightarrow> (\<forall>k<length blk. nrm (ls ! (i + k)) = nrm (blk ! k))"
proof (intro iffI allI impI)
  fix k assume e: "map nrm (take (length blk) (drop i ls)) = map nrm blk" and k: "k < length blk"
  from arg_cong [OF e, of "\<lambda>xs. xs ! k"] k assms show "nrm (ls ! (i + k)) = nrm (blk ! k)" by simp
next
  assume "\<forall>k<length blk. nrm (ls ! (i + k)) = nrm (blk ! k)"
  with assms show "map nrm (take (length blk) (drop i ls)) = map nrm blk"
    by (intro nth_equalityI) simp_all
qed

lemma findMatches_iff: "i \<in> set (findMatches ls blk nrm) \<longleftrightarrow> blk \<noteq> [] \<and> block_at nrm blk ls i"
proof (cases "blk = [] \<or> length blk > length ls")
  case True
  then show ?thesis by (auto simp: findMatches_def block_at_def)
next
  case False
  then have "i \<in> set (findMatches ls blk nrm) \<longleftrightarrow>
      i + length blk \<le> length ls \<and> (\<forall>k<length blk. nrm (ls ! (i + k)) = nrm (blk ! k))"
    by (auto simp: findMatches_def list_all_iff simp del: upt_Suc upt_Suc_append)
  with False block_lines [of i blk ls nrm] show ?thesis unfolding block_at_def by blast
qed

lemma distinct_findMatches: "distinct (findMatches ls blk nrm)"
  by (simp add: findMatches_def)

lemma one_match:
  assumes "length (findMatches ls blk nrm) = 1"
  shows "block_at nrm blk ls j \<longleftrightarrow> j = hd (findMatches ls blk nrm)"
proof -
  obtain i where i: "findMatches ls blk nrm = [i]" using assms by (auto simp: length_Suc_conv)
  then have "blk \<noteq> []" by (auto simp: findMatches_def split: if_splits)
  with i findMatches_iff [of j ls blk nrm] show ?thesis by auto
qed

lemma matches_unique:
  assumes "\<And>j. block_at nrm blk ls j \<longleftrightarrow> j = i" "blk \<noteq> []"
  shows "findMatches ls blk nrm = [i]"
proof -
  have "set (findMatches ls blk nrm) = {i}" using assms findMatches_iff by blast
  with distinct_findMatches show ?thesis
    by (metis distinct_card card_1_singleton_iff One_nat_def length_0_conv length_Suc_conv list.set(1) list.simps(15) singleton_insert_inj_eq)
qed

text \<open>The normalisation of a line-based match type.\<close>

definition tier :: "match_type \<Rightarrow> string \<Rightarrow> string" where
  "tier mt = (case mt of MatchExact \<Rightarrow> exactNormalize | MatchTrailingWhitespace \<Rightarrow> trailingWhitespaceNormalize
     | MatchFuzzy \<Rightarrow> fuzzyNormalize | MatchExactSubstring \<Rightarrow> exactNormalize)"

definition restore_ends :: "string \<Rightarrow> string \<Rightarrow> string" where
  "restore_ends file s = (if contains [cr, nl] file then replace_all [nl] [cr, nl] s else s)"

lemma buildEditResult_sel [simp]:
  "ed_match (buildEditResult ls a b rs mt u) = mt" "ed_start (buildEditResult ls a b rs mt u) = a + 1"
  "ed_end (buildEditResult ls a b rs mt u) = b"
  "ed_content (buildEditResult ls a b rs mt u) =
     (if u then replace_all [nl] [cr, nl] (text_of (take a ls @ rs @ drop b ls)) else text_of (take a ls @ rs @ drop b ls))"
  by (simp_all add: buildEditResult_def Let_def)

lemma try_strategies_none:
  "findMatches ls os nrm = [] \<Longrightarrow> try_strategies ls os ns u ((mt, nrm, ri) # ss) = try_strategies ls os ns u ss"
  by (simp add: Let_def)

lemma try_strategies_one:
  "findMatches ls os nrm = [i] \<Longrightarrow> try_strategies ls os ns u ((mt, nrm, ri) # ss) =
     (let rs = if ri then reindentReplacement ls os ns i else ns in
      Some (if slice i (i + length os) ls = rs then Inl ErrNoChange
            else Inr (buildEditResult ls i (i + length os) rs mt u)))"
  by (simp add: Let_def)

lemma try_strategies_many:
  "findMatches ls os nrm = i # j # is \<Longrightarrow> try_strategies ls os ns u ((mt, nrm, ri) # ss) =
     Some (Inl (ErrAmbiguous (Suc (Suc (length is)))))"
  by (simp add: Let_def)

declare try_strategies.simps(2) [simp del]

text \<open>The edit a strategy makes at the only place it matches.\<close>

definition edited_at :: "string list \<Rightarrow> string list \<Rightarrow> string list \<Rightarrow> bool \<Rightarrow> edit_result \<Rightarrow> strategy \<Rightarrow> nat \<Rightarrow> bool" where
  "edited_at ls os ns u r s i \<longleftrightarrow> (case s of (mt, nrm, ri) \<Rightarrow>
     (\<forall>j. block_at nrm os ls j \<longleftrightarrow> j = i) \<and>
     (let rs = if ri then reindentReplacement ls os ns i else ns in
      slice i (i + length os) ls \<noteq> rs \<and> r = buildEditResult ls i (i + length os) rs mt u))"

lemma try_strategies_Inr:
  assumes "try_strategies ls os ns u ss = Some (Inr r)"
  shows "\<exists>s\<in>set ss. \<exists>i. edited_at ls os ns u r s i \<and> (s \<noteq> hd ss \<longrightarrow> findMatches ls os (fst (snd (hd ss))) = [])"
  using assms
proof (induction ss)
  case (Cons s ss)
  obtain mt nrm ri where s: "s = (mt, nrm, ri)" by (cases s)
  consider "findMatches ls os nrm = []" | i where "findMatches ls os nrm = [i]"
    | i j "is" where "findMatches ls os nrm = i # j # is"
    by (metis neq_Nil_conv)
  then show ?case
  proof cases
    case 1
    with Cons.prems have "try_strategies ls os ns u ss = Some (Inr r)" by (simp add: s try_strategies_none)
    from Cons.IH [OF this] 1 show ?thesis by (auto simp: s)
  next
    case (2 i)
    from Cons.prems one_match [of ls os nrm] 2 have "edited_at ls os ns u r s i"
      by (simp add: edited_at_def s try_strategies_one [OF 2] Let_def split: if_splits)
    then show ?thesis by (intro bexI [of _ s] exI [of _ i]) simp_all
  next
    case 3
    with Cons.prems show ?thesis by (simp add: s try_strategies_many)
  qed
qed simp

lemma text_lines [simp]: "text_of (lines_of s) = s"
  by (rule join_split_on)

lemma arg_lines_nonempty [simp]: "arg_lines s \<noteq> []" "file_lines s \<noteq> []"
  by (simp_all add: arg_lines_def file_lines_def)

lemma lines_of_append:
  "lines_of (s @ t) = butlast (lines_of s) @ [last (lines_of s) @ hd (lines_of t)] @ tl (lines_of t)"
proof (induction s)
  case (Cons c s)
  then show ?case
    by (cases "lines_of s") (auto split: list.split)
qed (cases "lines_of t", auto)

lemma lines_of_single: "nl \<notin> set s \<Longrightarrow> lines_of s = [s]"
  by (induction s) auto

lemma str_count_Cons: "str_count [c] (x # s) = (if x = c then Suc (str_count [c] s) else str_count [c] s)"
proof (cases "x = c")
  case True
  then show ?thesis by (subst str_count.simps) (simp add: has_prefix_def)
next
  case False
  then have "\<not> has_prefix [c] (x # s)" by (simp add: has_prefix_def)
  with False show ?thesis
    by (subst str_count.simps, subst (2) str_count.simps) (auto split: option.split)
qed

lemma str_count_Nil [simp]: "str_count [c] [] = 0"
  by (subst str_count.simps) simp

lemma length_lines_of: "length (lines_of s) = str_count [nl] s + 1"
  by (induction s) (auto simp: str_count_Cons split: list.split)

lemma lines_no_nl: "l \<in> set (lines_of s) \<Longrightarrow> nl \<notin> set l"
  by (induction s arbitrary: l) (auto split: if_splits list.splits)

lemma lines_around:
  "lines_of (p @ x @ q) =
     butlast (lines_of p) @ lines_of (last (lines_of p) @ x @ hd (lines_of q)) @ tl (lines_of q)"
proof -
  let ?a = "last (lines_of p)" and ?b = "hd (lines_of q)"
  have a: "lines_of ?a = [?a]" and b: "lines_of ?b = [?b]"
    using lines_no_nl [of ?a p] lines_no_nl [of ?b q] by (simp_all add: lines_of_single)
  have m: "lines_of (?a @ x @ ?b) = [?a @ hd (lines_of (x @ ?b))] @ tl (lines_of (x @ ?b))"
    by (simp add: lines_of_append [of ?a] a)
  have xb: "lines_of (x @ ?b) = butlast (lines_of x) @ [last (lines_of x) @ ?b]"
    by (simp add: lines_of_append [of x] b)
  have xq: "lines_of (x @ q) = lines_of (x @ ?b) @ tl (lines_of q)"
    by (simp add: lines_of_append [of x q] xb)
  show ?thesis unfolding lines_of_append [of p] m xq by (simp add: hd_append xb)
qed

lemma count_lines: "str_count [nl] p = length (butlast (lines_of p))"
  by (simp add: length_lines_of)

lemma length_lines_single: "length (lines_of o') = 1 \<Longrightarrow> lines_of o' = [o']"
  using join_split_on [of nl o'] by (auto simp: length_Suc_conv simp del: text_lines)

lemma substring_splits:
  assumes "str_index o' f = Some i"
  shows "f = take i f @ o' @ drop (i + length o') f"
  using str_index_Some [OF assms] by (metis append_take_drop_id drop_drop has_prefix_def add.commute)

lemma slice_middle: "slice (length a) (length (a @ m @ c) - (length (a @ [x] @ c) - (length a + 1))) (a @ m @ c) = m"
  by (simp add: slice_def)

lemma substringEdit_eq:
  assumes "substringEdit ls f o' n u = Inr r" "str_index o' f = Some i"
  shows "r = buildEditResult ls (str_count [nl] (take i f)) (str_count [nl] (take i f) + 1)
    (slice (str_count [nl] (take i f))
      (length (lines_of (take i f @ n @ drop (i + length o') f)) - (length ls - (str_count [nl] (take i f) + 1)))
      (lines_of (take i f @ n @ drop (i + length o') f))) MatchExactSubstring u"
  using assms by (simp add: substringEdit_def Let_def split: if_splits)

lemma substringEdit_Inr:
  assumes "substringEdit (lines_of f) f o' n u = Inr r" "lines_of o' = [o']"
  shows "\<exists>a b pre post repl. lines_of f = pre @ [a @ o' @ b] @ post \<and> repl = lines_of (a @ n @ b) \<and> o' \<noteq> n \<and>
    r = buildEditResult (lines_of f) (length pre) (length pre + 1) repl MatchExactSubstring u"
proof -
  obtain i where i: "str_index o' f = Some i" "n \<noteq> o'"
    using assms(1) by (auto simp: substringEdit_def Let_def split: if_splits option.splits)
  let ?p = "take i f" and ?q = "drop (i + length o') f"
  let ?pre = "butlast (lines_of ?p)" and ?a = "last (lines_of ?p)" and ?b = "hd (lines_of ?q)" and ?post = "tl (lines_of ?q)"
  let ?m = "lines_of (?a @ n @ ?b)"
  have "lines_of (?a @ o' @ ?b) = [?a @ o' @ ?b]"
  proof (rule lines_of_single)
    have "nl \<notin> set o'" using lines_no_nl [of o' o'] assms(2) by simp
    then show "nl \<notin> set (?a @ o' @ ?b)" using lines_no_nl [of ?a ?p] lines_no_nl [of ?b ?q] by simp
  qed
  with lines_around [of ?p o' ?q] have f: "lines_of f = ?pre @ [?a @ o' @ ?b] @ ?post"
    unfolding substring_splits [OF i(1), symmetric] by simp
  have m: "slice (length ?pre) (length (?pre @ ?m @ ?post) - (length (lines_of f) - (length ?pre + 1))) (?pre @ ?m @ ?post) = ?m"
    unfolding f by (rule slice_middle)
  have "r = buildEditResult (lines_of f) (length ?pre) (length ?pre + 1) ?m MatchExactSubstring u"
    using substringEdit_eq [OF assms(1) i(1)] unfolding lines_around [of ?p n ?q] count_lines by (simp only: m)
  then show ?thesis using f i(2)
    by (intro exI [of _ ?a] exI [of _ ?b] exI [of _ ?pre] exI [of _ ?post] exI [of _ ?m]) simp
qed

section \<open>What an edit replaces\<close>

lemma fuzzyEdit_cases:
  assumes "fuzzyEdit file old new fuzz = Inr r"
  obtains (line) st i where "st \<in> set (strategies fuzz)"
      "edited_at (file_lines file) (arg_lines old) (arg_lines new) (contains [cr, nl] file) r st i"
      "st \<noteq> hd (strategies fuzz) \<Longrightarrow> findMatches (file_lines file) (arg_lines old) exactNormalize = []"
    | (substring) "length (arg_lines old) = 1" "findMatches (file_lines file) (arg_lines old) exactNormalize = []"
      "substringEdit (file_lines file) (norm_ends file) (text_of (arg_lines old)) (text_of (arg_lines new))
        (contains [cr, nl] file) = Inr r"
proof (cases "try_strategies (file_lines file) (arg_lines old) (arg_lines new) (contains [cr, nl] file) (strategies fuzz)")
  case None
  then have "findMatches (file_lines file) (arg_lines old) exactNormalize = []"
    using try_strategies_one try_strategies_many
    by (cases "findMatches (file_lines file) (arg_lines old) exactNormalize" rule: remdups_adj.cases)
       (auto simp: strategies_def Let_def)
  with None assms substring show ?thesis
    by (simp add: fuzzyEdit_def Let_def file_lines_def arg_lines_def split: if_splits)
next
  case (Some x)
  with assms have "x = Inr r"
    by (simp add: fuzzyEdit_def Let_def file_lines_def arg_lines_def split: if_splits)
  with Some try_strategies_Inr [of "file_lines file" "arg_lines old" "arg_lines new" "contains [cr, nl] file" "strategies fuzz" r]
  obtain st i where "st \<in> set (strategies fuzz)"
    "edited_at (file_lines file) (arg_lines old) (arg_lines new) (contains [cr, nl] file) r st i"
    "st \<noteq> hd (strategies fuzz) \<longrightarrow> findMatches (file_lines file) (arg_lines old) exactNormalize = []"
    by (auto simp: strategies_def)
  with line show ?thesis by blast
qed

lemma substring_tier:
  assumes "length (arg_lines old) = 1"
    "substringEdit (file_lines file) (norm_ends file) (text_of (arg_lines old)) (text_of (arg_lines new)) u = Inr r"
  shows "\<exists>a b pre post repl. file_lines file = pre @ [a @ text_of (arg_lines old) @ b] @ post \<and>
    repl = lines_of (a @ text_of (arg_lines new) @ b) \<and> text_of (arg_lines old) \<noteq> text_of (arg_lines new) \<and>
    r = buildEditResult (file_lines file) (length pre) (length pre + 1) repl MatchExactSubstring u"
proof -
  have "lines_of (text_of (arg_lines old)) = [text_of (arg_lines old)]"
    using assms(1) length_lines_single by (simp add: arg_lines_def)
  from substringEdit_Inr [OF _ this] assms(2) show ?thesis unfolding file_lines_def by blast
qed

lemma no_match_no_block: "findMatches ls blk nrm = [] \<Longrightarrow> blk \<noteq> [] \<Longrightarrow> \<not> block_at nrm blk ls j"
  using findMatches_iff [of j ls blk nrm] by simp

lemma fuzzyEdit_block:
  assumes "fuzzyEdit file old new fuzz = Inr r"
  shows "\<exists>pre blk post repl. file_lines file = pre @ blk @ post \<and> ed_start r = length pre + 1 \<and>
    ed_end r = length pre + length blk \<and> blk \<noteq> repl \<and> ed_content r = restore_ends file (text_of (pre @ repl @ post)) \<and>
    (ed_match r \<noteq> MatchExact \<longrightarrow> (\<forall>j. \<not> block_at exactNormalize (arg_lines old) (file_lines file) j)) \<and>
    (if ed_match r = MatchExactSubstring
     then length (arg_lines old) = 1 \<and>
       (\<exists>u v. blk = [u @ text_of (arg_lines old) @ v] \<and> repl = lines_of (u @ text_of (arg_lines new) @ v))
     else length blk = length (arg_lines old) \<and>
       (\<forall>j. block_at (tier (ed_match r)) (arg_lines old) (file_lines file) j \<longleftrightarrow> j = length pre) \<and>
       repl = (if ed_match r = MatchFuzzy
         then reindentReplacement (file_lines file) (arg_lines old) (arg_lines new) (length pre) else arg_lines new))"
  using assms
proof (cases rule: fuzzyEdit_cases)
  case (line st i)
  let ?F = "file_lines file" and ?O = "arg_lines old"
  obtain mt nrm ri where st: "st = (mt, nrm, ri)" by (cases st)
  let ?rs = "if ri then reindentReplacement ?F ?O (arg_lines new) i else arg_lines new"
  from line(1) st have nrm: "mt \<noteq> MatchExactSubstring" "nrm = tier mt" "ri \<longleftrightarrow> mt = MatchFuzzy"
    by (auto simp: strategies_def tier_def split: if_splits)
  from line(2) have e: "(\<forall>j. block_at (tier mt) ?O ?F j \<longleftrightarrow> j = i) \<and>
      slice i (i + length ?O) ?F \<noteq> ?rs \<and> r = buildEditResult ?F i (i + length ?O) ?rs mt (contains [cr, nl] file)"
    unfolding edited_at_def st prod.case Let_def nrm(2) .
  note at = conjunct1 [OF e] and r = conjunct2 [OF conjunct2 [OF e]] conjunct1 [OF conjunct2 [OF e]]
  have len: "i + length ?O \<le> length ?F" using at by (auto simp: block_at_def)
  have sel: "ed_match r = mt" "ed_start r = i + 1" "ed_end r = i + length ?O"
    "ed_content r = restore_ends file (text_of (take i ?F @ ?rs @ drop (i + length ?O) ?F))"
    using r(1) by (simp_all add: restore_ends_def)
  have exact: "mt \<noteq> MatchExact \<longrightarrow> (\<forall>j. \<not> block_at exactNormalize ?O ?F j)"
    using line(1,3) st no_match_no_block by (auto simp: strategies_def split: if_splits)
  show ?thesis
  proof (intro exI conjI)
    show "?F = take i ?F @ slice i (i + length ?O) ?F @ drop (i + length ?O) ?F"
      by (rule slice_split [symmetric]) simp
    show "slice i (i + length ?O) ?F \<noteq> ?rs" by (fact r(2))
    show "ed_match r \<noteq> MatchExact \<longrightarrow> (\<forall>j. \<not> block_at exactNormalize ?O ?F j)"
      unfolding sel by (rule exact)
    show "ed_content r = restore_ends file (text_of (take i ?F @ ?rs @ drop (i + length ?O) ?F))" by (fact sel)
  qed (use len at nrm(1,3) in \<open>simp_all add: sel\<close>)
next
  case substring
  let ?F = "file_lines file" and ?O = "arg_lines old"
  from substring_tier [OF substring(1,3)]
  obtain a b pre post repl where s: "?F = pre @ [a @ text_of ?O @ b] @ post" "repl = lines_of (a @ text_of (arg_lines new) @ b)"
    "text_of ?O \<noteq> text_of (arg_lines new)"
    "r = buildEditResult ?F (length pre) (length pre + 1) repl MatchExactSubstring (contains [cr, nl] file)"
    by blast
  show ?thesis
  proof (intro exI conjI)
    show "?F = pre @ [a @ text_of ?O @ b] @ post" by (fact s(1))
    show "[a @ text_of ?O @ b] \<noteq> repl" using s(2,3) text_lines by (metis append_same_eq join_with.simps(2) same_append_eq)
    show "ed_content r = restore_ends file (text_of (pre @ repl @ post))"
      by (subst s(4)) (simp add: restore_ends_def s(1))
    show "ed_match r \<noteq> MatchExact \<longrightarrow> (\<forall>j. \<not> block_at exactNormalize ?O ?F j)"
      using no_match_no_block [OF substring(2)] by simp
  qed (use s substring(1) in auto)
qed


text \<open>The exact tier decides whether an edit is exact, whatever looser matching is allowed: an edit
  succeeds with an exact match exactly when the old text is not empty, differs from the new one and its
  lines occur at exactly one place of the file.\<close>

theorem exact_edit_iff:
  "(\<exists>r. fuzzyEdit file old new fuzz = Inr r \<and> ed_match r = MatchExact) \<longleftrightarrow>
    old \<noteq> [] \<and> arg_lines old \<noteq> arg_lines new \<and> (\<exists>!i. block_at exactNormalize (arg_lines old) (file_lines file) i)"
  (is "?l \<longleftrightarrow> ?r")
proof
  assume ?l
  then obtain r where r: "fuzzyEdit file old new fuzz = Inr r" "ed_match r = MatchExact" by blast
  then have "old \<noteq> []" by (auto simp: fuzzyEdit_def)
  from r(1) show ?r
  proof (cases rule: fuzzyEdit_cases)
    case (line st i)
    let ?F = "file_lines file" and ?O = "arg_lines old"
    obtain mt nrm ri where st: "st = (mt, nrm, ri)" by (cases st)
    with line(2) r(2) have "mt = MatchExact" by (auto simp: edited_at_def Let_def)
    with line(1) st have "nrm = exactNormalize" "\<not> ri" by (auto simp: strategies_def split: if_splits)
    with line(2) have at: "\<forall>j. block_at exactNormalize ?O ?F j \<longleftrightarrow> j = i" and ne: "slice i (i + length ?O) ?F \<noteq> arg_lines new"
      by (auto simp: edited_at_def st Let_def)
    from at have "block_at exactNormalize ?O ?F i" by simp
    then have "slice i (i + length ?O) ?F = ?O" by (simp add: block_at_def slice_def exactNormalize_def [abs_def])
    with ne at \<open>old \<noteq> []\<close> show ?thesis by auto
  next
    case substring
    from substring_tier [OF this(1,3)] r(2) show ?thesis by auto
  qed
next
  assume ?r
  let ?F = "file_lines file" and ?O = "arg_lines old"
  from \<open>?r\<close> obtain i where at: "\<And>j. block_at exactNormalize ?O ?F j \<longleftrightarrow> j = i" by auto
  have m: "findMatches ?F ?O exactNormalize = [i]" by (rule matches_unique [OF at]) simp
  have "block_at exactNormalize ?O ?F i" by (simp add: at)
  then have "slice i (i + length ?O) ?F = ?O" by (simp add: block_at_def slice_def exactNormalize_def [abs_def])
  with \<open>?r\<close> m show ?l
    by (simp add: fuzzyEdit_def strategies_def file_lines_def arg_lines_def try_strategies_one Let_def)
qed

section \<open>The diff\<close>

text \<open>The two sides of a hunk: its lines without the added and without the removed ones.\<close>

definition old_side :: "(char \<times> string) list \<Rightarrow> string list" where
  "old_side body = map snd (filter (\<lambda>(m, _). m \<noteq> CHR ''+'') body)"

definition new_side :: "(char \<times> string) list \<Rightarrow> string list" where
  "new_side body = map snd (filter (\<lambda>(m, _). m \<noteq> CHR ''-'') body)"

lemma side_simps [simp]:
  "old_side (xs @ ys) = old_side xs @ old_side ys" "new_side (xs @ ys) = new_side xs @ new_side ys"
  "old_side (map (Pair (CHR '' '')) ls) = ls" "new_side (map (Pair (CHR '' '')) ls) = ls"
  "old_side (map (Pair (CHR ''-'')) ls) = ls" "new_side (map (Pair (CHR ''+'')) ls) = ls"
  "old_side (map (Pair (CHR ''+'')) ls) = []" "new_side (map (Pair (CHR ''-'')) ls) = []"
  by (simp_all add: old_side_def new_side_def comp_def)

lemma slice_append: "a \<le> b \<Longrightarrow> b \<le> c \<Longrightarrow> slice a b xs @ slice b c xs = slice a c xs"
  unfolding slice_def using take_add [of "b - a" "c - b" "drop a xs"] by simp

lemma hunk_sides:
  assumes "from \<le> till" "till \<le> length ls"
  shows "old_side (hunk_body ls from till added) = slice (from - 3) (min (length ls) (till + 3)) ls"
    "new_side (hunk_body ls from till added) = slice (from - 3) from ls @ added @ slice till (min (length ls) (till + 3)) ls"
  using assms by (simp_all add: hunk_body_def Let_def diffContextLines_def slice_append)

lemma firstDiff_le: "firstDiff xs ys \<le> length xs \<and> firstDiff xs ys \<le> length ys"
  by (induction xs ys rule: firstDiff.induct) auto

lemma firstDiff_take: "take (firstDiff xs ys) xs = take (firstDiff xs ys) ys"
  by (induction xs ys rule: firstDiff.induct) auto

lemma firstDiff_ge: "take k xs = take k ys \<Longrightarrow> k \<le> length xs \<Longrightarrow> k \<le> length ys \<Longrightarrow> k \<le> firstDiff xs ys"
proof (induction xs ys arbitrary: k rule: firstDiff.induct)
  case (1 a xs b ys)
  then show ?case by (cases k) auto
qed auto

lemma ends_loop_spec:
  assumes "ends_loop os ns start o' n = (oe, ne)" "start \<le> o'" "start \<le> n" "o' \<le> length os" "n \<le> length ns"
    "drop o' os = drop n ns"
  shows "start \<le> oe \<and> start \<le> ne \<and> oe \<le> length os \<and> ne \<le> length ns \<and> drop oe os = drop ne ns"
  using assms
proof (induction os ns start o' n rule: ends_loop.induct)
  case (1 os ns start o' n)
  show ?case
  proof (cases "o' > start \<and> n > start \<and> os ! (o' - 1) = ns ! (n - 1)")
    case True
    then obtain o1 n1 where "o' = Suc o1" "n = Suc n1" by (cases o'; cases n) auto
    with True 1 have "drop (o' - 1) os = drop (n - 1) ns"
      by (simp add: Cons_nth_drop_Suc [symmetric])
    with True 1 show ?thesis by (subst (asm) (2) ends_loop.simps) auto
  next
    case False
    with 1 show ?thesis by (subst (asm) (2) ends_loop.simps) auto
  qed
qed


section \<open>The longest common run\<close>

text \<open>A run of \<open>k\<close> lines that \<open>os\<close> has from \<open>i\<close> on and \<open>ls\<close> from \<open>j\<close> on.\<close>

definition common_run :: "string list \<Rightarrow> string list \<Rightarrow> nat \<Rightarrow> nat \<Rightarrow> nat \<Rightarrow> bool" where
  "common_run os ls i j k \<longleftrightarrow> i + k \<le> length os \<and> j + k \<le> length ls \<and> take k (drop i os) = take k (drop j ls)"

text \<open>A cell of the table: how many lines before and at \<open>j\<close> equal the last of \<open>os\<close>.\<close>

definition cell :: "string list \<Rightarrow> string list \<Rightarrow> nat \<Rightarrow> nat" where
  "cell os ls j = firstDiff (rev os) (rev (take (Suc j) ls))"

lemma cell_snoc:
  assumes "j < length ls"
  shows "cell (os @ [l]) ls j = (if ls ! j = l then Suc (if j = 0 then 0 else cell os ls (j - 1)) else 0)"
proof -
  have "rev (take (Suc j) ls) = ls ! j # rev (take j ls)" by (simp add: take_Suc_conv_app_nth assms)
  then show ?thesis by (cases j) (auto simp: cell_def)
qed

lemma take_rev_run:
  assumes "i + k \<le> length xs"
  shows "take k (drop i xs) = rev (take k (rev (take (i + k) xs)))"
  using assms by (simp add: take_rev drop_take add.commute)

lemma cell_run:
  assumes "j < length ls"
  shows "common_run os ls (length os - cell os ls j) (Suc j - cell os ls j) (cell os ls j)"
proof -
  have v: "cell os ls j \<le> length os" "cell os ls j \<le> Suc j"
    using firstDiff_le [of "rev os" "rev (take (Suc j) ls)"] assms by (simp_all add: cell_def)
  have "take (cell os ls j) (rev os) = take (cell os ls j) (rev (take (Suc j) ls))"
    unfolding cell_def by (rule firstDiff_take)
  with v assms take_rev_run [of "length os - cell os ls j" "cell os ls j" os]
    take_rev_run [of "Suc j - cell os ls j" "cell os ls j" ls] show ?thesis by (simp add: common_run_def)
qed

lemma run_le_cell:
  assumes "common_run os ls i j k" "i + k = length os" "0 < k"
  shows "k \<le> cell os ls (j + k - 1)"
proof -
  from assms have "j + k \<le> length ls" "take k (rev os) = take k (rev (take (j + k) ls))"
    using take_rev_run [of i k os] take_rev_run [of j k ls] by (auto simp: common_run_def)
  with assms show ?thesis unfolding cell_def by (intro firstDiff_ge) auto
qed

lemma common_run_snoc: "common_run os ls i j k \<Longrightarrow> common_run (os @ [l]) ls i j k"
  by (simp add: common_run_def)

text \<open>What the state of the loop says after the lines \<open>os\<close>, and inside a line after the positions \<open>js\<close>.\<close>

definition run_state :: "string list \<Rightarrow> string list \<Rightarrow> nat \<Rightarrow> nat \<Rightarrow> bool" where
  "run_state os ls run start \<longleftrightarrow> (0 < run \<longrightarrow> 0 < start \<and> (\<exists>i. common_run os ls i (start - 1) run))"

lemma run_cells:
  assumes "foldl (run_cell prev) (\<lambda>_. 0, run, start) js = (cur, run', start')" "run_state (os @ [l]) ls run start"
    "\<forall>j\<in>set js. j < length ls \<and> ls ! j = l" "\<And>j. j < length ls \<Longrightarrow> prev j = cell os ls j"
  shows "(\<forall>j. cur j = (if j \<in> set js then cell (os @ [l]) ls j else 0)) \<and> run \<le> run' \<and>
    (\<forall>j\<in>set js. cell (os @ [l]) ls j \<le> run') \<and> run_state (os @ [l]) ls run' start'"
  using assms(1,3)
proof (induction js arbitrary: cur run' start' rule: rev_induct)
  case (snoc j js)
  obtain c r t where f: "foldl (run_cell prev) (\<lambda>_. 0, run, start) js = (c, r, t)" by (metis prod_cases3)
  have j: "j < length ls" "ls ! j = l" using snoc.prems by auto
  define v where "v = (if j = 0 then 0 else prev (j - 1)) + 1"
  have v: "v = cell (os @ [l]) ls j" using assms(4) [of "j - 1"] j by (simp add: cell_snoc v_def)
  from snoc.IH [OF f] snoc.prems(2)
  have ih: "\<forall>j. c j = (if j \<in> set js then cell (os @ [l]) ls j else 0)" "run \<le> r"
    "\<forall>j\<in>set js. cell (os @ [l]) ls j \<le> r" "run_state (os @ [l]) ls r t" by auto
  have "(cur, run', start') = run_cell prev (c, r, t) j" using snoc.prems(1) f by simp
  then have e: "cur = c(j := v)" "run' = (if v > r then v else r)" "start' = (if v > r then j + 2 - v else t)"
    unfolding run_cell_def prod.case Let_def v_def [symmetric] by (auto split: if_splits)
  have "run_state (os @ [l]) ls v (j + 2 - v)"
  proof -
    have "v \<le> Suc j" using firstDiff_le [of "rev (os @ [l])" "rev (take (Suc j) ls)"] by (simp add: v cell_def)
    then have "j + 2 - v - 1 = Suc j - v" "0 < j + 2 - v" by auto
    then show ?thesis using cell_run [OF j(1), of "os @ [l]"] unfolding run_state_def v by metis
  qed
  with ih e v show ?case by auto
qed (use assms(2) in auto)

lemma run_line_spec:
  assumes "run_line (\<lambda>l. filter (\<lambda>i. ls ! i = l) [0..<length ls]) (prev, run, start) l = (cur, run', start')"
    "run_state os ls run start" "\<And>j. j < length ls \<Longrightarrow> prev j = cell os ls j"
    "\<And>i j k. common_run os ls i j k \<Longrightarrow> k \<le> run"
  shows "(\<forall>j<length ls. cur j = cell (os @ [l]) ls j) \<and> run_state (os @ [l]) ls run' start' \<and>
    (\<forall>i j k. common_run (os @ [l]) ls i j k \<longrightarrow> k \<le> run')"
proof -
  let ?js = "filter (\<lambda>i. ls ! i = l) [0..<length ls]"
  have "run_state (os @ [l]) ls run start" using assms(2) common_run_snoc unfolding run_state_def by blast
  from run_cells [OF assms(1) [unfolded run_line_def prod.case] this _ assms(3)]
  have s: "\<forall>j. cur j = (if j \<in> set ?js then cell (os @ [l]) ls j else 0)" "run \<le> run'"
    "\<forall>j\<in>set ?js. cell (os @ [l]) ls j \<le> run'" "run_state (os @ [l]) ls run' start'" by auto
  have cells: "cell (os @ [l]) ls j \<le> run'" if "j < length ls" for j
    using s(3) that by (cases "ls ! j = l") (auto simp: cell_snoc)
  have "k \<le> run'" if r: "common_run (os @ [l]) ls i j k" for i j k
  proof (cases "i + k \<le> length os \<or> k = 0")
    case True
    then have "common_run os ls i j k \<or> k = 0" using r by (auto simp: common_run_def)
    with assms(4) s(2) show ?thesis using le_trans by blast
  next
    case False
    with r have "i + k = length (os @ [l])" "0 < k" by (auto simp: common_run_def)
    moreover have "j + k - 1 < length ls" using r \<open>0 < k\<close> unfolding common_run_def by linarith
    ultimately show ?thesis using run_le_cell [OF r] cells [of "j + k - 1"] by linarith
  qed
  moreover have "\<forall>j<length ls. cur j = cell (os @ [l]) ls j" using s(1) by (auto simp: cell_snoc)
  ultimately show ?thesis using s(4) by blast
qed

lemma run_lines:
  assumes "foldl (run_line (\<lambda>l. filter (\<lambda>i. ls ! i = l) [0..<length ls])) (\<lambda>_. 0, 0, 0) os = (cur, run, start)"
  shows "(\<forall>j<length ls. cur j = cell os ls j) \<and> run_state os ls run start \<and> (\<forall>i j k. common_run os ls i j k \<longrightarrow> k \<le> run)"
  using assms
proof (induction os arbitrary: cur run start rule: rev_induct)
  case Nil
  then show ?case by (auto simp: cell_def run_state_def common_run_def)
next
  case (snoc l os)
  obtain c r t where f: "foldl (run_line (\<lambda>l. filter (\<lambda>i. ls ! i = l) [0..<length ls])) (\<lambda>_. 0, 0, 0) os = (c, r, t)"
    by (metis prod_cases3)
  from snoc.IH [OF f] snoc.prems f show ?case by (intro run_line_spec [of ls c r t l]) auto
qed

text \<open>The table of the match diagnostic computes the longest run of consecutive lines that the old
  text and the file have in common, and a place of the file where such a run starts.\<close>

theorem longest_run_correct:
  assumes "longestLineRun os (linePositions content) = (run, start)"
  shows "(\<forall>i j k. common_run os (file_lines content) i j k \<longrightarrow> k \<le> run) \<and>
    (0 < run \<longrightarrow> 0 < start \<and> (\<exists>i. common_run os (file_lines content) i (start - 1) run))"
proof -
  obtain cur r t where f: "foldl (run_line (linePositions content)) (\<lambda>_. 0, 0, 0) os = (cur, r, t)"
    by (metis prod_cases3)
  with assms have "r = run" "t = start" by (simp_all add: longestLineRun_def)
  with run_lines [of "file_lines content" os cur r t] f show ?thesis
    by (simp add: linePositions_def Let_def run_state_def)
qed

section \<open>Concrete edits\<close>

definition demo_file :: string where
  "demo_file = ''a'' @ [nl] @ ''  b c'' @ [nl] @ ''d'' @ [nl]"

lemma demo_substring:
  "map_sum id ed_content (fuzzyEdit demo_file ''b'' ''y'' False) = Inr (''a'' @ [nl] @ ''  y c'' @ [nl] @ ''d'' @ [nl])"
  by code_simp

lemma demo_run: "longestLineRun [''z'', ''a'', ''  b c''] (linePositions demo_file) = (2, 1)"
  by code_simp


lemma longest_run_correct_witness: "\<exists>i. common_run [''z'', ''a'', ''  b c''] (file_lines demo_file) i 0 2"
  using longest_run_correct [OF demo_run] by auto

end
