(* ===== verification/Edit_Ops.thy ===== *)
theory Edit_Ops
  imports Edit_Match
begin

text \<open>
  The operations of the edit tool on the lines of a file (tools/editfile_ops.go), how one entry of a
  batch is applied (tools/editfile.go) and the guard against stale line numbers
  (tools/editfile_batchguard.go). The compiled line pattern is a parameter, a match test and a literal
  substitution; integers are those of the decoded JSON.
\<close>

section \<open>Entries\<close>

definition OpReplace :: string where "OpReplace = ''replace''"
definition OpReplaceLines :: string where "OpReplaceLines = ''replace_lines''"
definition OpReplacePattern :: string where "OpReplacePattern = ''replace_pattern''"
definition OpInsertAfter :: string where "OpInsertAfter = ''insert_after''"
definition OpInsertBefore :: string where "OpInsertBefore = ''insert_before''"
definition OpDeleteLines :: string where "OpDeleteLines = ''delete_lines''"

lemmas op_names = OpReplace_def OpReplaceLines_def OpReplacePattern_def OpInsertAfter_def OpInsertBefore_def OpDeleteLines_def

definition IndentPreserve :: string where "IndentPreserve = ''preserve''"
definition IndentNormalize :: string where "IndentNormalize = ''normalize''"
definition IndentAsIs :: string where "IndentAsIs = ''as-is''"

definition defaultIndentMode :: "string \<Rightarrow> string \<Rightarrow> string" where
  "defaultIndentMode op raw =
     (if raw \<noteq> [] then raw
      else if op = OpInsertAfter \<or> op = OpInsertBefore \<or> op = OpReplaceLines then IndentAsIs else IndentPreserve)"

text \<open>One edit; \<open>ee_newContentSet\<close> says that the field was sent, \<open>ee_nested\<close> that the entry carries
  files or a glob of its own.\<close>

record edit_entry =
  ee_path :: string
  ee_operation :: string
  ee_old :: string
  ee_new :: string
  ee_start :: int
  ee_end :: int
  ee_pattern :: string
  ee_flags :: string
  ee_occurrence :: int
  ee_newContent :: string
  ee_indent :: string
  ee_newContentSet :: bool
  ee_nested :: bool

record edit_params =
  ep_startLine :: int
  ep_endLine :: int
  ep_pattern :: string
  ep_flags :: string
  ep_occurrence :: int
  ep_newLines :: "string list"
  ep_indentMode :: string

text \<open>The types of the tool errors, with what they name.\<close>

datatype edit_error =
    EMissingParameter
  | EInvalidRange
  | EInvalidLine
  | EMissingPattern
  | ENoChange
  | EPatternNotFound
  | EOccurrenceNotFound nat int
  | EUnsupportedOccurrence
  | EAmbiguousMatch
  | EEmptyPattern
  | EUnknownOperation string
  | EMatch edit_failure
  | EStaleLineNumbers nat nat

record line_regex =
  rx_match :: "string \<Rightarrow> bool \<Rightarrow> string \<Rightarrow> bool"
  rx_replace :: "string \<Rightarrow> bool \<Rightarrow> string \<Rightarrow> string \<Rightarrow> string"

text \<open>\<open>splitLines\<close> of tools/readfile.go.\<close>

definition splitLines :: "string \<Rightarrow> string list" where
  "splitLines text = (let ls = lines_of text in if last ls = [] then butlast ls else ls)"

section \<open>Indentation\<close>

definition is_ws :: "char \<Rightarrow> bool" where "is_ws c \<longleftrightarrow> c = CHR '' '' \<or> c = tab"

definition leadingWS :: "string \<Rightarrow> string" where "leadingWS line = takeWhile is_ws line"

definition adjustPreserve :: "string list \<Rightarrow> string list \<Rightarrow> string list" where
  "adjustPreserve targetLines newLines =
     (if targetLines = [] \<or> newLines = [] then newLines
      else let delta = int (length (leadingWS (hd targetLines))) - int (length (leadingWS (hd newLines))) in
        map (\<lambda>line. if delta \<ge> 0 then replicate (nat delta) (CHR '' '') @ line
               else if int (length line) \<ge> - delta then drop (nat (- delta)) line else []) newLines)"

definition adjustNormalize :: "string list \<Rightarrow> string list \<Rightarrow> string list" where
  "adjustNormalize targetLines newLines =
     (let indents = sort (map (\<lambda>l. length (leadingWS l)) targetLines);
          target = (if indents \<noteq> [] \<and> indents ! (length indents div 2) > 0
                    then (if indents ! (length indents div 2) > 4 then 4 else indents ! (length indents div 2)) else 0)
      in map (\<lambda>line. let stripped = dropWhile is_ws line in
           if stripped = [] then [] else replicate target (CHR '' '') @ stripped) newLines)"

definition adjustIndent :: "string list \<Rightarrow> string list \<Rightarrow> string \<Rightarrow> string list" where
  "adjustIndent targetLines newLines mode =
     (if mode = IndentPreserve then adjustPreserve targetLines newLines
      else if mode = IndentNormalize then adjustNormalize targetLines newLines else newLines)"

section \<open>The operations\<close>

definition checkLineRange :: "string list \<Rightarrow> int \<Rightarrow> int \<Rightarrow> edit_error + int \<times> int" where
  "checkLineRange lines startLine endLine =
     (let n = int (length lines) in
      if startLine < 1 \<or> startLine > n then Inl EInvalidRange
      else let endLine = (if endLine \<le> 0 then n else endLine) in
        if endLine > n then Inl EInvalidRange
        else if startLine > endLine then Inl EInvalidRange
        else Inr (startLine, endLine))"

type_synonym op_result = "edit_error + string list \<times> nat"

definition replaceLines :: "string list \<Rightarrow> int \<Rightarrow> int \<Rightarrow> string list \<Rightarrow> string \<Rightarrow> op_result" where
  "replaceLines lines startLine endLine newLines mode =
     (case checkLineRange lines startLine endLine of Inl e \<Rightarrow> Inl e
      | Inr (start, end') \<Rightarrow>
          let targetLines = slice (nat (start - 1)) (nat end') lines;
              adjusted = adjustIndent targetLines newLines mode
          in Inr (take (nat (start - 1)) lines @ adjusted @ drop (nat end') lines, length targetLines))"

definition deleteLines :: "string list \<Rightarrow> int \<Rightarrow> int \<Rightarrow> op_result" where
  "deleteLines lines startLine endLine =
     (case checkLineRange lines startLine endLine of Inl e \<Rightarrow> Inl e
      | Inr (start, end') \<Rightarrow> Inr (take (nat (start - 1)) lines @ drop (nat end') lines, nat (end' - start + 1)))"

definition insertAtLine :: "string list \<Rightarrow> int \<Rightarrow> string list \<Rightarrow> string \<Rightarrow> bool \<Rightarrow> op_result" where
  "insertAtLine lines lineNum newLines mode before =
     (if lineNum < 1 \<or> lineNum > int (length lines) then Inl EInvalidLine
      else let idx = nat (lineNum - 1); adjusted = adjustIndent [lines ! idx] newLines mode in
        if before then Inr (take idx lines @ adjusted @ drop idx lines, length adjusted)
        else Inr (take (idx + 1) lines @ adjusted @ drop (idx + 1) lines, length adjusted))"

definition insertAtPattern :: "string list \<Rightarrow> string \<Rightarrow> string list \<Rightarrow> string \<Rightarrow> bool \<Rightarrow> op_result" where
  "insertAtPattern lines pattern newLines mode before =
     (case index_where (contains pattern) lines of None \<Rightarrow> Inl EPatternNotFound
      | Some i \<Rightarrow> let adjusted = adjustIndent [lines ! i] newLines mode in
          if before then Inr (take i lines @ adjusted @ drop i lines, length adjusted)
          else Inr (take (i + 1) lines @ adjusted @ drop (i + 1) lines, length adjusted))"

definition insertAfter :: "string list \<Rightarrow> int \<Rightarrow> string \<Rightarrow> string list \<Rightarrow> string \<Rightarrow> op_result" where
  "insertAfter lines lineNum pattern newLines mode =
     (if lineNum > 0 then insertAtLine lines lineNum newLines mode False
      else if pattern = [] then Inl EMissingParameter
      else insertAtPattern lines pattern newLines mode False)"

definition insertBefore :: "string list \<Rightarrow> int \<Rightarrow> string \<Rightarrow> string list \<Rightarrow> string \<Rightarrow> op_result" where
  "insertBefore lines lineNum pattern newLines mode =
     (if lineNum > 0 then insertAtLine lines lineNum newLines mode True
      else if pattern = [] then Inl EMissingParameter
      else insertAtPattern lines pattern newLines mode True)"

definition mapBlockPatternError :: "edit_failure \<Rightarrow> edit_error" where
  "mapBlockPatternError e = (case e of ErrAmbiguous _ \<Rightarrow> EAmbiguousMatch | ErrNotFound \<Rightarrow> EPatternNotFound
     | ErrNoChange \<Rightarrow> ENoChange | ErrEmptyOldStr \<Rightarrow> EEmptyPattern)"

definition replacePatternBlock :: "string list \<Rightarrow> string \<Rightarrow> int \<Rightarrow> string list \<Rightarrow> op_result" where
  "replacePatternBlock lines pattern occurrence newLines =
     (if occurrence > 1 then Inl EUnsupportedOccurrence
      else case fuzzyEdit (text_of lines) pattern (text_of newLines) True of
        Inl e \<Rightarrow> Inl (mapBlockPatternError e)
      | Inr r \<Rightarrow> Inr (splitLines (ed_content r), length newLines))"

text \<open>The loop over the lines: \<open>found\<close> counts the matching lines so far. The result holds the lines, the
  number of matching lines and, if a line was replaced, how many took its place.\<close>

fun pattern_loop :: "(string \<Rightarrow> bool) \<Rightarrow> (string \<Rightarrow> string) \<Rightarrow> int \<Rightarrow> string list \<Rightarrow> nat \<Rightarrow> edit_error + string list \<times> nat \<times> nat option" where
  "pattern_loop matches subst occurrence [] found = Inr ([], found, None)"
| "pattern_loop matches subst occurrence (line # lines) found =
     (if matches line \<and> int (found + 1) = occurrence then
        (if subst line = line then Inl ENoChange
         else case pattern_loop matches subst occurrence lines (found + 1) of Inl e \<Rightarrow> Inl e
           | Inr (rest, n, rep) \<Rightarrow> Inr (splitLines (subst line) @ rest, n, Some (length (splitLines (subst line)))))
      else case pattern_loop matches subst occurrence lines (if matches line then found + 1 else found) of Inl e \<Rightarrow> Inl e
           | Inr (rest, n, rep) \<Rightarrow> Inr (line # rest, n, rep))"

definition replacePattern :: "line_regex \<Rightarrow> string list \<Rightarrow> string \<Rightarrow> string \<Rightarrow> int \<Rightarrow> string list \<Rightarrow> op_result" where
  "replacePattern rx lines pattern flags occurrence0 newLines =
     (if pattern = [] then Inl EMissingPattern
      else let occurrence = (if occurrence0 \<le> 0 then 1 else occurrence0) in
        if contains [nl] pattern then replacePatternBlock lines pattern occurrence newLines
        else let caseSensitive = (\<not> contains ''i'' flags); replacement = text_of newLines in
          case pattern_loop (rx_match rx pattern caseSensitive)
                 (\<lambda>line. rx_replace rx pattern caseSensitive line replacement) occurrence lines 0 of
            Inl e \<Rightarrow> Inl e
          | Inr (result, found, replaced) \<Rightarrow>
              if found = 0 then Inl EPatternNotFound
              else (case replaced of None \<Rightarrow> Inl (EOccurrenceNotFound found occurrence)
                    | Some inserted \<Rightarrow> Inr (result, inserted)))"

definition runOp :: "line_regex \<Rightarrow> string list \<Rightarrow> string \<Rightarrow> edit_params \<Rightarrow> op_result" where
  "runOp rx lines op p =
     (if op = OpReplace then Inl EMissingParameter
      else if op = OpReplaceLines then replaceLines lines (ep_startLine p) (ep_endLine p) (ep_newLines p) (ep_indentMode p)
      else if op = OpReplacePattern then replacePattern rx lines (ep_pattern p) (ep_flags p) (ep_occurrence p) (ep_newLines p)
      else if op = OpInsertAfter then insertAfter lines (ep_startLine p) (ep_pattern p) (ep_newLines p) (ep_indentMode p)
      else if op = OpInsertBefore then insertBefore lines (ep_startLine p) (ep_pattern p) (ep_newLines p) (ep_indentMode p)
      else if op = OpDeleteLines then deleteLines lines (ep_startLine p) (ep_endLine p)
      else Inl (EUnknownOperation op))"

section \<open>One entry\<close>

definition validateReplacePair :: "string \<Rightarrow> string \<Rightarrow> edit_error option" where
  "validateReplacePair oldStr newStr =
     (if oldStr = [] then Some EMissingParameter else if newStr = [] then Some EMissingParameter else None)"

definition opRequiresContent :: "string \<Rightarrow> bool" where
  "opRequiresContent op \<longleftrightarrow> op \<in> {OpReplaceLines, OpReplacePattern, OpInsertAfter, OpInsertBefore}"

datatype content_note = NoNote | UsedNewString | ExplicitEmpty

definition resolveOpContent :: "string \<Rightarrow> 'a edit_entry_scheme \<Rightarrow> edit_error + string list \<times> content_note" where
  "resolveOpContent op p =
     (let content = ee_newContent p in
      if content = [] \<and> ee_new p \<noteq> [] \<and> opRequiresContent op then Inr (splitLines (ee_new p), UsedNewString)
      else if opRequiresContent op \<and> content = [] then
        (if \<not> ee_newContentSet p then Inl EMissingParameter else Inr ([[]], ExplicitEmpty))
      else Inr (splitLines content, NoNote))"

definition entry_params :: "string \<Rightarrow> 'a edit_entry_scheme \<Rightarrow> string list \<Rightarrow> edit_params" where
  "entry_params op p newLines = \<lparr>ep_startLine = ee_start p, ep_endLine = ee_end p, ep_pattern = ee_pattern p,
     ep_flags = ee_flags p, ep_occurrence = ee_occurrence p, ep_newLines = newLines,
     ep_indentMode = defaultIndentMode op (ee_indent p)\<rparr>"

text \<open>The match type is \<open>None\<close> for an operation on lines.\<close>

definition applySingleEdit :: "line_regex \<Rightarrow> bool \<Rightarrow> string list \<Rightarrow> 'a edit_entry_scheme \<Rightarrow> edit_error + string list \<times> match_type option" where
  "applySingleEdit rx allowFuzz lines e =
     (if ee_operation e = OpReplace \<or> ee_old e \<noteq> [] then
        (case validateReplacePair (ee_old e) (ee_new e) of Some err \<Rightarrow> Inl err
         | None \<Rightarrow> (case fuzzyEdit (text_of lines) (ee_old e) (ee_new e) allowFuzz of Inl f \<Rightarrow> Inl (EMatch f)
            | Inr res \<Rightarrow> Inr (splitLines (ed_content res), Some (ed_match res))))
      else let op = ee_operation e in
        if op = [] then Inl EMissingParameter
        else case resolveOpContent op e of Inl err \<Rightarrow> Inl err
          | Inr (newLines, _) \<Rightarrow> (case runOp rx lines op (entry_params op e newLines) of Inl err \<Rightarrow> Inl err
              | Inr (result, _) \<Rightarrow> Inr (result, None)))"

text \<open>\<open>applyBatchToLines\<close>; a failure names the failing entry and the lines it was applied to.\<close>

fun apply_from :: "line_regex \<Rightarrow> bool \<Rightarrow> nat \<Rightarrow> string list \<Rightarrow> edit_entry list \<Rightarrow>
    (nat \<times> edit_error \<times> string list) + string list \<times> match_type list" where
  "apply_from rx fz i lines [] = Inr (lines, [])"
| "apply_from rx fz i lines (e # es) =
     (case applySingleEdit rx fz lines e of Inl err \<Rightarrow> Inl (i, err, lines)
      | Inr (newLines, mt) \<Rightarrow> (case apply_from rx fz (Suc i) newLines es of Inl f \<Rightarrow> Inl f
          | Inr (res, mts) \<Rightarrow> Inr (res, (case mt of None \<Rightarrow> mts | Some t \<Rightarrow> t # mts))))"

definition applyBatchToLines :: "line_regex \<Rightarrow> bool \<Rightarrow> string list \<Rightarrow> edit_entry list \<Rightarrow>
    (nat \<times> edit_error \<times> string list) + string list \<times> match_type list" where
  "applyBatchToLines rx fz original edits = apply_from rx fz 0 original edits"

section \<open>The guard against stale line numbers\<close>

definition effectiveOperation :: "'a edit_entry_scheme \<Rightarrow> string" where
  "effectiveOperation e = (if ee_operation e = [] \<and> ee_old e \<noteq> [] then OpReplace else ee_operation e)"

definition usesAbsoluteLines :: "'a edit_entry_scheme \<Rightarrow> bool" where
  "usesAbsoluteLines e =
     (let op = effectiveOperation e in
      if op = OpReplaceLines \<or> op = OpDeleteLines then True
      else if op = OpInsertAfter \<or> op = OpInsertBefore then ee_start e > 0 else False)"

definition batchReplacementLines :: "'a edit_entry_scheme \<Rightarrow> string list option" where
  "batchReplacementLines e =
     (if ee_newContent e \<noteq> [] then Some (splitLines (ee_newContent e))
      else if ee_new e \<noteq> [] then Some (splitLines (ee_new e))
      else if ee_newContentSet e then Some [[]] else None)"

definition trimmedLineCount :: "string \<Rightarrow> nat" where
  "trimmedLineCount s = str_count [nl] (trim_suffix [nl] (norm_ends s)) + 1"

definition replaceLinesShifts :: "'a edit_entry_scheme \<Rightarrow> bool" where
  "replaceLinesShifts e =
     (if ee_end e \<le> 0 then True
      else if ee_start e < 1 \<or> ee_end e < ee_start e then False
      else case batchReplacementLines e of None \<Rightarrow> False
        | Some replacement \<Rightarrow> int (length replacement) \<noteq> ee_end e - ee_start e + 1)"

definition replaceShifts :: "'a edit_entry_scheme \<Rightarrow> bool" where
  "replaceShifts e \<longleftrightarrow> trimmedLineCount (ee_old e) \<noteq> trimmedLineCount (ee_new e)"

text \<open>A line feed, or the escape a regular expression reads as one.\<close>

definition patternSpansLines :: "string \<Rightarrow> bool" where
  "patternSpansLines s \<longleftrightarrow> contains [nl] s \<or> contains [CHR 0x5C, CHR ''n''] s"

definition replacePatternShifts :: "'a edit_entry_scheme \<Rightarrow> bool" where
  "replacePatternShifts e \<longleftrightarrow>
     patternSpansLines (ee_pattern e) \<or> patternSpansLines (ee_newContent e) \<or> patternSpansLines (ee_new e)"

definition mayShiftLines :: "'a edit_entry_scheme \<Rightarrow> bool" where
  "mayShiftLines e =
     (let op = effectiveOperation e in
      if op \<in> {OpInsertAfter, OpInsertBefore, OpDeleteLines} then True
      else if op = OpReplaceLines then replaceLinesShifts e
      else if op = OpReplacePattern then replacePatternShifts e
      else if op = OpReplace then replaceShifts e else False)"

definition firstShiftingIndex :: "edit_entry list \<Rightarrow> nat option" where
  "firstShiftingIndex edits = index_where mayShiftLines edits"

definition checkBatchLineDrift :: "edit_entry list \<Rightarrow> edit_error option" where
  "checkBatchLineDrift edits =
     (case firstShiftingIndex edits of None \<Rightarrow> None
      | Some shift \<Rightarrow> (case index_where usesAbsoluteLines (drop (shift + 1) edits) of None \<Rightarrow> None
          | Some i \<Rightarrow> Some (EStaleLineNumbers (shift + 1 + i) shift)))"

section \<open>Texts and their lines\<close>

lemma lines_of_Nil_iff: "lines_of s = [[]] \<longleftrightarrow> s = []"
  using join_split_on [of nl s] by (auto simp del: text_lines)

lemma last_lines_of: "last (lines_of s) = [] \<longleftrightarrow> s = [] \<or> last s = nl"
proof (induction s)
  case (Cons c s)
  then show ?case using lines_of_Nil_iff [of s] by (cases "lines_of s") (auto split: list.split if_splits)
qed simp

lemma length_splitLines: "length (splitLines s) = str_count [nl] s + (if s = [] \<or> last s = nl then 0 else 1)"
  by (simp add: splitLines_def Let_def last_lines_of length_lines_of)

lemma splitLines_no_nl: "l \<in> set (splitLines s) \<Longrightarrow> nl \<notin> set l"
  by (auto simp: splitLines_def Let_def split: if_splits dest: in_set_butlastD lines_no_nl)

lemma lines_of_text: "ls \<noteq> [] \<Longrightarrow> \<forall>l\<in>set ls. nl \<notin> set l \<Longrightarrow> lines_of (text_of ls) = ls"
proof (induction ls)
  case (Cons l ls)
  have "lines_of (l @ [nl] @ t) = l # lines_of t" if "nl \<notin> set l" for t
    using that by (simp add: lines_of_append lines_of_single)
  with Cons show ?case by (cases ls) (auto simp: lines_of_single)
qed simp

lemma norm_ends_count [simp]: "str_count [nl] (norm_ends s) = str_count [nl] s"
  unfolding norm_ends_def
  by (induction "[cr, nl]" "[nl]" s rule: replace_all.induct) (auto simp: str_count_Cons has_prefix_iff)

lemma norm_ends_last [simp]: "norm_ends s = [] \<longleftrightarrow> s = []" "s \<noteq> [] \<Longrightarrow> last (norm_ends s) = nl \<longleftrightarrow> last s = nl"
proof -
  have "(norm_ends s = [] \<longleftrightarrow> s = []) \<and> (s \<noteq> [] \<longrightarrow> (last (norm_ends s) = nl \<longleftrightarrow> last s = nl))"
    unfolding norm_ends_def
    by (induction "[cr, nl]" "[nl]" s rule: replace_all.induct) (auto simp: has_prefix_iff)
  then show "norm_ends s = [] \<longleftrightarrow> s = []" "s \<noteq> [] \<Longrightarrow> last (norm_ends s) = nl \<longleftrightarrow> last s = nl" by auto
qed

lemma crlf_count: "str_count [nl] (replace_all [nl] [cr, nl] s) = str_count [nl] s"
  by (induction "[nl]" "[cr, nl]" s rule: replace_all.induct) (auto simp: str_count_Cons has_prefix_iff)

lemma crlf_last: "(replace_all [nl] [cr, nl] s = [] \<longleftrightarrow> s = []) \<and> (s \<noteq> [] \<longrightarrow> (last (replace_all [nl] [cr, nl] s) = nl \<longleftrightarrow> last s = nl))"
  by (induction "[nl]" "[cr, nl]" s rule: replace_all.induct) (auto simp: has_prefix_iff)

lemma length_split_restored: "length (splitLines (restore_ends f s)) = length (splitLines s)"
  using crlf_last [of s] by (cases "s = []") (simp_all add: length_splitLines restore_ends_def crlf_count)

lemma splitLines_text:
  assumes "ls \<noteq> []" "\<forall>l\<in>set ls. nl \<notin> set l" "last ls \<noteq> []"
  shows "splitLines (text_of ls) = ls"
  using assms by (simp add: splitLines_def Let_def lines_of_text)

section \<open>Writing a file back\<close>

text \<open>How the lines are rendered after an edit: the trailing line feed the file had is put back.\<close>

definition render :: "string list \<Rightarrow> bool \<Rightarrow> string" where
  "render lines trailingNL =
     (let output = text_of lines in
      if trailingNL \<and> output \<noteq> [] \<and> \<not> has_suffix [nl] output then output @ [nl] else output)"

lemma has_suffix_nl: "has_suffix [nl] s \<longleftrightarrow> s \<noteq> [] \<and> last s = nl"
  by (cases s rule: rev_cases) (auto simp: has_suffix_def has_prefix_def)

lemma splitLines_snoc_nl: "splitLines (s @ [nl]) = lines_of s"
  by (simp add: splitLines_def lines_of_append Let_def butlast_append)

lemma splitLines_other: "s \<noteq> [] \<Longrightarrow> last s \<noteq> nl \<Longrightarrow> splitLines s = lines_of s"
  by (simp add: splitLines_def Let_def last_lines_of)

text \<open>Writing back the lines of a file as they were read gives the file again exactly when it does not
  end in an empty line: of several line feeds at the end one is lost, and a file of one line feed
  becomes empty.\<close>

theorem unchanged_lines_roundtrip:
  "render (splitLines s) (has_suffix [nl] s) = s \<longleftrightarrow> \<not> (\<exists>t. s = t @ [nl, nl]) \<and> s \<noteq> [nl]"
proof (cases "s \<noteq> [] \<and> last s = nl")
  case True
  then obtain t where s: "s = t @ [nl]" by (metis append_butlast_last_id)
  have "render (splitLines s) (has_suffix [nl] s) = (if t \<noteq> [] \<and> last t \<noteq> nl then t @ [nl] else t)"
    unfolding s splitLines_snoc_nl by (auto simp: render_def Let_def has_suffix_nl)
  moreover have "(\<exists>u. s = u @ [nl, nl]) \<or> s = [nl] \<longleftrightarrow> t = [] \<or> last t = nl"
    unfolding s by (cases t rule: rev_cases) auto
  ultimately show ?thesis unfolding s by auto
next
  case False
  then have "\<not> (\<exists>t. s = t @ [nl, nl])" "s \<noteq> [nl]" by auto
  moreover have "render (splitLines s) (has_suffix [nl] s) = s"
    using False splitLines_other [of s] by (cases "s = []") (auto simp: render_def Let_def has_suffix_nl splitLines_def)
  ultimately show ?thesis by simp
qed

section \<open>Only the target of an operation changes\<close>

lemma checkLineRange_Inr:
  "checkLineRange ls s e = Inr (a, b) \<longleftrightarrow>
     a = s \<and> b = (if e \<le> 0 then int (length ls) else e) \<and> 1 \<le> a \<and> a \<le> b \<and> b \<le> int (length ls)"
  by (auto simp: checkLineRange_def Let_def)

lemma pattern_loop_kept: "pattern_loop m f occ ls k = Inr (res, n, None) \<Longrightarrow> res = ls"
  by (induction m f occ ls k arbitrary: res n rule: pattern_loop.induct) (auto split: if_splits sum.splits)

lemma pattern_loop_past: "int k \<ge> occ \<Longrightarrow> pattern_loop m f occ ls k = Inr (res, n, x) \<Longrightarrow> x = None"
  by (induction m f occ ls k arbitrary: res n x rule: pattern_loop.induct) (fastforce split: if_splits sum.splits)+

text \<open>The loop of a pattern replacement that replaced a line: it is the only one that changed.\<close>

lemma pattern_loop_replaced:
  assumes "pattern_loop m f occ ls k = Inr (res, n, Some c)"
  shows "\<exists>i<length ls. m (ls ! i) \<and> f (ls ! i) \<noteq> ls ! i \<and> int (k + length (filter m (take (Suc i) ls))) = occ \<and>
    c = length (splitLines (f (ls ! i))) \<and> res = take i ls @ splitLines (f (ls ! i)) @ drop (Suc i) ls"
proof -
  show ?thesis using assms
  proof (induction m f occ ls k arbitrary: res n c rule: pattern_loop.induct)
    case (2 m f occ l ls k)
    show ?case
    proof (cases "m l \<and> int (k + 1) = occ")
      case True
      then obtain rest n' rep where r: "pattern_loop m f occ ls (k + 1) = Inr (rest, n', rep)" "f l \<noteq> l"
        "res = splitLines (f l) @ rest" "c = length (splitLines (f l))"
        using "2.prems" by (auto split: if_splits sum.splits)
      have "rep = None" using pattern_loop_past [OF _ r(1)] True by simp
      with pattern_loop_kept r(1) have "rest = ls" by blast
      with r True show ?thesis by (intro exI [of _ 0]) auto
    next
      case False
      let ?k = "if m l then k + 1 else k"
      from False "2.prems" obtain rest where r: "pattern_loop m f occ ls ?k = Inr (rest, n, Some c)" "res = l # rest"
        by (auto split: sum.splits)
      from "2.IH"(2) [OF False r(1)] obtain i where "i < length ls" "m (ls ! i)" "f (ls ! i) \<noteq> ls ! i"
        "int (?k + length (filter m (take (Suc i) ls))) = occ" "c = length (splitLines (f (ls ! i)))"
        "rest = take i ls @ splitLines (f (ls ! i)) @ drop (Suc i) ls" by blast
      then show ?thesis unfolding r(2) by (intro exI [of _ "Suc i"]) auto
    qed
  qed simp
qed

lemma checkLineRange_nat:
  assumes "checkLineRange ls s e = Inr (a, b)"
  shows "int (nat (a - 1)) = s - 1" "int (nat b) = (if e \<le> 0 then int (length ls) else e)" "nat (a - 1) < nat b"
    "nat b \<le> length ls" "nat (b - a + 1) = nat b - nat (a - 1)"
  using assms by (simp_all add: checkLineRange_Inr nat_le_iff) (auto simp: nat_diff_distrib split: if_splits)

lemma insertAtLine_Inr:
  assumes "insertAtLine ls k new mode before = Inr (res, n)"
  shows "\<exists>i<length ls. k = int (Suc i) \<and>
    res = (let j = if before then i else Suc i in take j ls @ adjustIndent [ls ! i] new mode @ drop j ls)"
proof -
  from assms have "1 \<le> k" "k \<le> int (length ls)" by (auto simp: insertAtLine_def split: if_splits)
  then obtain i where "k = int (Suc i)" "i < length ls" by (metis Suc_le_eq nat_0_le nat_le_iff not0_implies_Suc of_nat_0 of_nat_1 of_nat_le_iff zero_le_one order_trans not_one_le_zero)
  with assms show ?thesis by (intro exI [of _ i]) (auto simp: insertAtLine_def Let_def split: if_splits)
qed

lemma insertAtPattern_Inr:
  assumes "insertAtPattern ls pat new mode before = Inr (res, n)"
  shows "\<exists>i<length ls. contains pat (ls ! i) \<and> (\<forall>j<i. \<not> contains pat (ls ! j)) \<and>
    res = (let j = if before then i else Suc i in take j ls @ adjustIndent [ls ! i] new mode @ drop j ls)"
  using assms index_where_Some [of "contains pat" ls] by (auto simp: insertAtPattern_def Let_def split: option.splits if_splits)

lemma insertAfter_Inr:
  assumes "insertAfter ls k pat new mode = Inr (res, n)"
  shows "\<exists>i<length ls. res = take (Suc i) ls @ adjustIndent [ls ! i] new mode @ drop (Suc i) ls \<and>
    (if k > 0 then k = int (Suc i) else contains pat (ls ! i) \<and> (\<forall>j<i. \<not> contains pat (ls ! j)))"
  using assms insertAtLine_Inr [of ls k new mode False res n] insertAtPattern_Inr [of ls pat new mode False res n]
  by (auto simp: insertAfter_def split: if_splits)

lemma insertBefore_Inr:
  assumes "insertBefore ls k pat new mode = Inr (res, n)"
  shows "\<exists>i<length ls. res = take i ls @ adjustIndent [ls ! i] new mode @ drop i ls \<and>
    (if k > 0 then k = int (Suc i) else contains pat (ls ! i) \<and> (\<forall>j<i. \<not> contains pat (ls ! j)))"
  using assms insertAtLine_Inr [of ls k new mode True res n] insertAtPattern_Inr [of ls pat new mode True res n]
  by (auto simp: insertBefore_def split: if_splits)

lemma replaceLines_Inr:
  assumes "replaceLines ls s e new mode = Inr (res, n)"
  shows "\<exists>a b. a < b \<and> b \<le> length ls \<and> n = b - a \<and> res = take a ls @ adjustIndent (slice a b ls) new mode @ drop b ls \<and>
    int a = s - 1 \<and> int b = (if e \<le> 0 then int (length ls) else e)"
proof -
  obtain s' e' where c: "checkLineRange ls s e = Inr (s', e')"
    and r: "res = take (nat (s' - 1)) ls @ adjustIndent (slice (nat (s' - 1)) (nat e') ls) new mode @ drop (nat e') ls"
      "n = length (slice (nat (s' - 1)) (nat e') ls)"
    using assms by (auto simp: replaceLines_def Let_def split: sum.splits)
  have "n = nat e' - nat (s' - 1)" using r(2) checkLineRange_nat(4) [OF c] by simp
  with r(1) checkLineRange_nat [OF c] show ?thesis by blast
qed

lemma deleteLines_Inr:
  assumes "deleteLines ls s e = Inr (res, n)"
  shows "\<exists>a b. a < b \<and> b \<le> length ls \<and> n = b - a \<and> res = take a ls @ drop b ls \<and>
    int a = s - 1 \<and> int b = (if e \<le> 0 then int (length ls) else e)"
proof -
  obtain s' e' where c: "checkLineRange ls s e = Inr (s', e')"
    and r: "res = take (nat (s' - 1)) ls @ drop (nat e') ls" "n = nat (e' - s' + 1)"
    using assms by (auto simp: deleteLines_def split: sum.splits)
  with checkLineRange_nat [OF c] show ?thesis by metis
qed

lemma replacePattern_Inr:
  assumes "replacePattern rx ls pat fl occ new = Inr (res, n)" "\<not> contains [nl] pat"
  shows "\<exists>i<length ls. rx_match rx pat (\<not> contains ''i'' fl) (ls ! i) \<and>
    res = take i ls @ splitLines (rx_replace rx pat (\<not> contains ''i'' fl) (ls ! i) (text_of new)) @ drop (Suc i) ls \<and>
    n = length (splitLines (rx_replace rx pat (\<not> contains ''i'' fl) (ls ! i) (text_of new)))"
proof -
  let ?cs = "\<not> contains ''i'' fl"
  obtain o' k where "pattern_loop (rx_match rx pat ?cs) (\<lambda>l. rx_replace rx pat ?cs l (text_of new)) o' ls 0 = Inr (res, k, Some n)"
    using assms unfolding replacePattern_def Let_def by (auto split: if_splits sum.splits option.splits)
  from pattern_loop_replaced [OF this] show ?thesis by blast
qed

lemma runOp_local:
  assumes "runOp rx lines op p = Inr (res, n)" "op = OpReplacePattern \<Longrightarrow> \<not> contains [nl] (ep_pattern p)"
  shows "\<exists>a b mid. a \<le> b \<and> b \<le> length lines \<and> res = take a lines @ mid @ drop b lines \<and>
    (op = OpReplaceLines \<longrightarrow> a < b \<and> int a = ep_startLine p - 1 \<and> int b = (if ep_endLine p \<le> 0 then int (length lines) else ep_endLine p) \<and>
       n = b - a \<and> mid = adjustIndent (slice a b lines) (ep_newLines p) (ep_indentMode p)) \<and>
    (op = OpDeleteLines \<longrightarrow> a < b \<and> int a = ep_startLine p - 1 \<and> int b = (if ep_endLine p \<le> 0 then int (length lines) else ep_endLine p) \<and>
       n = b - a \<and> mid = []) \<and>
    (op = OpInsertAfter \<longrightarrow> a = b \<and> 0 < a \<and> mid = adjustIndent [lines ! (a - 1)] (ep_newLines p) (ep_indentMode p) \<and>
       (if ep_startLine p > 0 then int a = ep_startLine p
        else contains (ep_pattern p) (lines ! (a - 1)) \<and> (\<forall>j<a - 1. \<not> contains (ep_pattern p) (lines ! j)))) \<and>
    (op = OpInsertBefore \<longrightarrow> a = b \<and> a < length lines \<and> mid = adjustIndent [lines ! a] (ep_newLines p) (ep_indentMode p) \<and>
       (if ep_startLine p > 0 then int a = ep_startLine p - 1
        else contains (ep_pattern p) (lines ! a) \<and> (\<forall>j<a. \<not> contains (ep_pattern p) (lines ! j)))) \<and>
    (op = OpReplacePattern \<longrightarrow> b = Suc a \<and> n = length mid \<and>
       (let cs = \<not> contains ''i'' (ep_flags p) in rx_match rx (ep_pattern p) cs (lines ! a) \<and>
         mid = splitLines (rx_replace rx (ep_pattern p) cs (lines ! a) (text_of (ep_newLines p)))))"
proof -
  consider (rep) "op = OpReplaceLines" | (del) "op = OpDeleteLines" | (after) "op = OpInsertAfter"
    | (bef) "op = OpInsertBefore" | (pat) "op = OpReplacePattern"
    using assms(1) by (auto simp: runOp_def split: if_splits)
  then show ?thesis
  proof cases
    case rep
    from assms(1) have "replaceLines lines (ep_startLine p) (ep_endLine p) (ep_newLines p) (ep_indentMode p) = Inr (res, n)"
      unfolding runOp_def by (simp add: rep op_names)
    from replaceLines_Inr [OF this] obtain a b where "a < b" "b \<le> length lines" "n = b - a"
      "res = take a lines @ adjustIndent (slice a b lines) (ep_newLines p) (ep_indentMode p) @ drop b lines"
      "int a = ep_startLine p - 1" "int b = (if ep_endLine p \<le> 0 then int (length lines) else ep_endLine p)" by blast
    then show ?thesis using rep
      by (intro exI [of _ a] exI [of _ b] exI [of _ "adjustIndent (slice a b lines) (ep_newLines p) (ep_indentMode p)"])
        (simp add: op_names)
  next
    case del
    from assms(1) have "deleteLines lines (ep_startLine p) (ep_endLine p) = Inr (res, n)"
      unfolding runOp_def by (simp add: del op_names)
    from deleteLines_Inr [OF this] obtain a b where "a < b" "b \<le> length lines" "n = b - a" "res = take a lines @ drop b lines"
      "int a = ep_startLine p - 1" "int b = (if ep_endLine p \<le> 0 then int (length lines) else ep_endLine p)" by blast
    then show ?thesis using del by (intro exI [of _ a] exI [of _ b] exI [of _ "[]"]) (simp add: op_names)
  next
    case after
    from assms(1) have "insertAfter lines (ep_startLine p) (ep_pattern p) (ep_newLines p) (ep_indentMode p) = Inr (res, n)"
      unfolding runOp_def by (simp add: after op_names)
    from insertAfter_Inr [OF this] obtain i where i: "i < length lines"
      "res = take (Suc i) lines @ adjustIndent [lines ! i] (ep_newLines p) (ep_indentMode p) @ drop (Suc i) lines"
      "if ep_startLine p > 0 then ep_startLine p = int (Suc i)
       else contains (ep_pattern p) (lines ! i) \<and> (\<forall>j<i. \<not> contains (ep_pattern p) (lines ! j))" by blast
    then show ?thesis using after
      by (intro exI [of _ "Suc i"] exI [of _ "adjustIndent [lines ! i] (ep_newLines p) (ep_indentMode p)"])
        (simp add: op_names split: if_splits)
  next
    case bef
    from assms(1) have "insertBefore lines (ep_startLine p) (ep_pattern p) (ep_newLines p) (ep_indentMode p) = Inr (res, n)"
      unfolding runOp_def by (simp add: bef op_names)
    from insertBefore_Inr [OF this] obtain i where i: "i < length lines"
      "res = take i lines @ adjustIndent [lines ! i] (ep_newLines p) (ep_indentMode p) @ drop i lines"
      "if ep_startLine p > 0 then ep_startLine p = int (Suc i)
       else contains (ep_pattern p) (lines ! i) \<and> (\<forall>j<i. \<not> contains (ep_pattern p) (lines ! j))" by blast
    then show ?thesis using bef
      by (intro exI [of _ i] exI [of _ "adjustIndent [lines ! i] (ep_newLines p) (ep_indentMode p)"])
        (simp add: op_names split: if_splits)
  next
    case pat
    from assms(1) have "replacePattern rx lines (ep_pattern p) (ep_flags p) (ep_occurrence p) (ep_newLines p) = Inr (res, n)"
      unfolding runOp_def by (simp add: pat op_names)
    from replacePattern_Inr [OF this assms(2) [OF pat]] obtain i where "i < length lines"
      "rx_match rx (ep_pattern p) (\<not> contains ''i'' (ep_flags p)) (lines ! i)"
      "res = take i lines @ splitLines (rx_replace rx (ep_pattern p) (\<not> contains ''i'' (ep_flags p)) (lines ! i)
         (text_of (ep_newLines p))) @ drop (Suc i) lines"
      "n = length (splitLines (rx_replace rx (ep_pattern p) (\<not> contains ''i'' (ep_flags p)) (lines ! i) (text_of (ep_newLines p))))"
      by blast
    then show ?thesis using pat
      by (intro exI [of _ i] exI [of _ "Suc i"] exI [of _ "splitLines (rx_replace rx (ep_pattern p)
        (\<not> contains ''i'' (ep_flags p)) (lines ! i) (text_of (ep_newLines p)))"]) (simp add: op_names Let_def)
  qed
qed


section \<open>Sample entries\<close>

definition entry :: "string \<Rightarrow> edit_entry" where
  "entry op = \<lparr>ee_path = [], ee_operation = op, ee_old = [], ee_new = [], ee_start = 0, ee_end = 0, ee_pattern = [],
     ee_flags = [], ee_occurrence = 0, ee_newContent = [], ee_indent = [], ee_newContentSet = False, ee_nested = False\<rparr>"

text \<open>Literal patterns: what the matcher does with a pattern that is not a regular expression.\<close>

definition literal_regex :: line_regex where
  "literal_regex = \<lparr>rx_match = (\<lambda>p cs l. p \<noteq> [] \<and> contains p l), rx_replace = (\<lambda>p cs l rep. replace_all p rep l)\<rparr>"

definition delete_third :: edit_entry where
  "delete_third = (entry OpDeleteLines)\<lparr>ee_start := 3, ee_end := 3\<rparr>"

definition four_lines :: "string list" where "four_lines = [''one'', ''two'', ''three'', ''four'']"


end
