(* ===== verification/Edit_Drift.thy ===== *)
theory Edit_Drift
  imports Edit_Ops
begin

text \<open>
  What the operations of the edit tool keep of the lines of a file, and what the guard against stale
  line numbers (tools/editfile_batchguard.go) guarantees: where it lets a batch pass, and where it does
  not see that an entry moves lines.
\<close>

section \<open>Lines stay lines\<close>

definition lines_ok :: "string list \<Rightarrow> bool" where
  "lines_ok ls \<longleftrightarrow> (\<forall>l\<in>set ls. nl \<notin> set l)"

lemma lines_ok_simps [simp]:
  "lines_ok []" "lines_ok (l # ls) \<longleftrightarrow> nl \<notin> set l \<and> lines_ok ls" "lines_ok (as @ bs) \<longleftrightarrow> lines_ok as \<and> lines_ok bs"
  "lines_ok (splitLines s)" "lines_ok (lines_of s)" "lines_ok (file_lines s)" "lines_ok (arg_lines s)"
  by (auto simp: lines_ok_def splitLines_no_nl lines_no_nl file_lines_def arg_lines_def)

lemma lines_ok_sub: "lines_ok ls \<Longrightarrow> set ms \<subseteq> set ls \<Longrightarrow> lines_ok ms"
  by (auto simp: lines_ok_def)

lemma lines_ok_take [simp]: "lines_ok ls \<Longrightarrow> lines_ok (take n ls)" "lines_ok ls \<Longrightarrow> lines_ok (drop n ls)"
  using set_take_subset [of n ls] set_drop_subset [of n ls] by (blast intro: lines_ok_sub)+

lemma nl_drop: "nl \<notin> set l \<Longrightarrow> nl \<notin> set (drop n l)"
  using set_drop_subset [of n l] by blast

lemma lines_ok_adjust: "lines_ok ls \<Longrightarrow> lines_ok (adjustIndent t ls mode)"
proof -
  assume ok: "lines_ok ls"
  have "lines_ok (adjustPreserve t ls)" using ok nl_drop by (auto simp: adjustPreserve_def Let_def lines_ok_def)
  moreover have "nl \<notin> set (dropWhile is_ws l)" if "nl \<notin> set l" for l using that set_dropWhileD by metis
  then have "lines_ok (adjustNormalize t ls)" using ok by (auto simp: adjustNormalize_def Let_def lines_ok_def)
  ultimately show ?thesis using ok by (simp add: adjustIndent_def)
qed

lemma runOp_mid:
  assumes "runOp rx ls op p = Inr (res, n)" "op = OpReplacePattern \<Longrightarrow> \<not> contains [nl] (ep_pattern p)"
  shows "\<exists>a b mid. res = take a ls @ mid @ drop b ls \<and>
    (mid = [] \<or> (\<exists>t. mid = adjustIndent t (ep_newLines p) (ep_indentMode p)) \<or> (\<exists>s. mid = splitLines s))"
proof -
  consider "op = OpReplaceLines" | "op = OpDeleteLines" | "op = OpInsertAfter" | "op = OpInsertBefore" | "op = OpReplacePattern"
    using assms(1) by (auto simp: runOp_def split: if_splits)
  moreover obtain a b mid where m: "res = take a ls @ mid @ drop b ls"
    "op = OpReplaceLines \<longrightarrow> mid = adjustIndent (slice a b ls) (ep_newLines p) (ep_indentMode p)"
    "op = OpDeleteLines \<longrightarrow> mid = []"
    "op = OpInsertAfter \<longrightarrow> mid = adjustIndent [ls ! (a - 1)] (ep_newLines p) (ep_indentMode p)"
    "op = OpInsertBefore \<longrightarrow> mid = adjustIndent [ls ! a] (ep_newLines p) (ep_indentMode p)"
    "op = OpReplacePattern \<longrightarrow> mid = splitLines (rx_replace rx (ep_pattern p) (\<not> contains ''i'' (ep_flags p)) (ls ! a)
       (text_of (ep_newLines p)))"
    using runOp_local [OF assms] unfolding Let_def by blast
  ultimately have "mid = [] \<or> (\<exists>t. mid = adjustIndent t (ep_newLines p) (ep_indentMode p)) \<or> (\<exists>s. mid = splitLines s)"
    by cases blast+
  with m(1) show ?thesis by blast
qed

lemma lines_ok_runOp:
  assumes "runOp rx ls op p = Inr (res, n)" "lines_ok ls" "lines_ok (ep_newLines p)"
  shows "lines_ok res"
proof (cases "op = OpReplacePattern \<and> contains [nl] (ep_pattern p)")
  case True
  then have "replacePattern rx ls (ep_pattern p) (ep_flags p) (ep_occurrence p) (ep_newLines p) = Inr (res, n)"
    using assms(1) unfolding runOp_def by (simp add: op_names)
  with True show ?thesis
    by (auto simp: replacePattern_def replacePatternBlock_def Let_def split: if_splits sum.splits)
next
  case False
  then obtain a b mid where "res = take a ls @ mid @ drop b ls"
    "mid = [] \<or> (\<exists>t. mid = adjustIndent t (ep_newLines p) (ep_indentMode p)) \<or> (\<exists>s. mid = splitLines s)"
    using runOp_mid [OF assms(1)] by blast
  with assms(2,3) lines_ok_adjust show ?thesis by auto
qed

lemma lines_ok_content: "resolveOpContent op e = Inr (ls, note) \<Longrightarrow> lines_ok ls"
  by (auto simp: resolveOpContent_def Let_def split: if_splits)

lemma lines_ok_apply:
  assumes "applySingleEdit rx fz ls e = Inr (res, mt)" "lines_ok ls"
  shows "lines_ok res"
  using assms lines_ok_runOp lines_ok_content
  by (fastforce simp: applySingleEdit_def Let_def entry_params_def split: if_splits option.splits sum.splits)

lemma lines_ok_from: "apply_from rx fz i ls es = Inr (res, mts) \<Longrightarrow> lines_ok ls \<Longrightarrow> lines_ok res"
proof (induction es arbitrary: i ls mts)
  case (Cons e es)
  then show ?case using lines_ok_apply by (fastforce split: sum.splits prod.splits)
qed simp

text \<open>C35: The lines of a file stay lines under every batch of edits: no operation leaves a line feed inside
  a line, so that line numbers keep their meaning.\<close>

theorem batch_keeps_lines:
  assumes "applyBatchToLines rx fz (splitLines text) edits = Inr (res, mts)"
  shows "\<forall>l\<in>set res. nl \<notin> set l"
proof -
  have "lines_ok res" by (rule lines_ok_from [OF assms [unfolded applyBatchToLines_def]]) simp
  then show ?thesis by (simp add: lines_ok_def)
qed

section \<open>Edits that keep the number of lines\<close>

lemma ref_index_less: "os \<noteq> [] \<Longrightarrow> ref_index os < length os"
  by (induction os rule: ref_index.induct) auto

lemma blank_ws: "\<forall>c\<in>set s. c = CHR '' '' \<or> c = tab \<Longrightarrow> trim_space s = []"
proof -
  assume ws: "\<forall>c\<in>set s. c = CHR '' '' \<or> c = tab"
  have "trim_left s = []" using ws
  proof (induction s)
    case (Cons c s)
    then have "space_at (c # s) = Some [c]"
      using eq_char_of [of "CHR '' ''" 32] eq_char_of [of tab 9]
      by (auto simp: space_at_def spaces_def ascii_spaces_def bytes_def has_prefix_def)
    with Cons show ?case by (subst trim_left.simps) simp
  qed (simp add: trim_left.simps)
  then show ?thesis by (simp add: trim_space_def trim_right_def trim_left_rev_id)
qed

lemma length_reindent [simp]:
  "length (reindentReplacement ls os ns i) = length ns" "reindentReplacement ls os ns i = [] \<longleftrightarrow> ns = []"
  by (simp_all add: reindentReplacement_def Let_def)

lemma reindent_line:
  assumes "trim_space l \<noteq> []"
  shows "drop (length (leadingWhitespace l)) l \<noteq> []"
proof
  assume "drop (length (leadingWhitespace l)) l = []"
  then have "dropWhile (\<lambda>c. c = CHR '' '' \<or> c = tab) l = []"
    unfolding leadingWhitespace_def by (simp add: dropWhile_eq_drop)
  then have "\<forall>c\<in>set l. c = CHR '' '' \<or> c = tab" by (simp only: dropWhile_eq_Nil_conv)
  with blank_ws [of l] assms show False by simp
qed

lemma last_reindent: "ns \<noteq> [] \<Longrightarrow> last ns \<noteq> [] \<Longrightarrow> last (reindentReplacement ls os ns i) \<noteq> []"
  using reindent_line by (simp add: reindentReplacement_def Let_def last_map)

lemma reindent_ok:
  assumes "lines_ok ns" "lines_ok ls" "lines_ok os" "os \<noteq> []" "i + length os \<le> length ls"
  shows "lines_ok (reindentReplacement ls os ns i)"
proof -
  have "ref_index os < length os" by (rule ref_index_less [OF assms(4)])
  then have "ls ! (i + ref_index os) \<in> set ls" "os ! ref_index os \<in> set os" using assms(5) by auto
  with assms(2,3) have nn: "nl \<notin> set (ls ! (i + ref_index os))" "nl \<notin> set (os ! ref_index os)" by (auto simp: lines_ok_def)
  have lw: "set (leadingWhitespace l) \<subseteq> set l" for l by (auto simp: leadingWhitespace_def dest: set_takeWhileD)
  have hd: "leadingWhitespace l \<noteq> [] \<Longrightarrow> nl \<notin> set l \<Longrightarrow> hd (leadingWhitespace l) \<noteq> nl" for l
    using lw [of l] by (metis list.set_sel(1) subsetD)
  let ?f = "leadingWhitespace (ls ! (i + ref_index os))" and ?o = "leadingWhitespace (os ! ref_index os)"
  define ic where "ic = (if ?f \<noteq> [] then hd ?f else if ?o \<noteq> [] then hd ?o else CHR '' '')"
  have ic: "ic \<noteq> nl" using hd nn by (simp add: ic_def)
  have e: "reindentReplacement ls os ns i = (let delta = int (length ?f) - int (length ?o) in if delta = 0 then ns
      else map (\<lambda>l. if trim_space l = [] then l else let ind = leadingWhitespace l; newLen = int (length ind) + delta in
        replicate (nat (if newLen < 0 then 0 else newLen)) ic @ drop (length ind) l) ns)"
    unfolding reindentReplacement_def Let_def ic_def ..
  show ?thesis using assms(1) ic nl_drop unfolding e Let_def lines_ok_def by auto
qed

lemma length_splitLines_text:
  assumes "ls \<noteq> []" "lines_ok ls" "last ls \<noteq> []"
  shows "length (splitLines (text_of ls)) = length ls"
  using splitLines_text assms by (simp add: lines_ok_def)

lemma text_ends:
  assumes "ls \<noteq> []" "lines_ok ls"
  shows "last ls = [] \<longleftrightarrow> text_of ls = [] \<or> last (text_of ls) = nl"
  using last_lines_of [of "text_of ls"] lines_of_text assms by (simp add: lines_ok_def)

text \<open>A search and replace whose two sides have as many lines.\<close>

lemma fuzzyEdit_count:
  assumes e: "fuzzyEdit (text_of ls) old new fz = Inr r" and c: "trimmedLineCount old = trimmedLineCount new"
    and ls: "ls \<noteq> []" "lines_ok ls" "last ls \<noteq> []" and new: "last (arg_lines new) \<noteq> []"
  shows "length (splitLines (ed_content r)) = length ls"
proof -
  let ?F = "file_lines (text_of ls)" and ?O = "arg_lines old" and ?N = "arg_lines new"
  have ON: "length ?O = length ?N" using c by (simp add: trimmedLineCount_def arg_lines_def length_lines_of)
  have F: "length ?F = length ls"
    using lines_of_text [OF ls(1)] ls(2) length_lines_of [of "text_of ls"] by (simp add: file_lines_def length_lines_of lines_ok_def)
  have lF: "last ?F \<noteq> []"
    using ls text_ends [OF ls(1,2)] by (auto simp: file_lines_def last_lines_of)
  obtain pre blk post repl where b: "?F = pre @ blk @ post" "ed_content r = restore_ends (text_of ls) (text_of (pre @ repl @ post))"
    and m: "if ed_match r = MatchExactSubstring
     then length ?O = 1 \<and> (\<exists>u v. blk = [u @ text_of ?O @ v] \<and> repl = lines_of (u @ text_of ?N @ v))
     else length blk = length ?O \<and> (\<forall>j. block_at (tier (ed_match r)) ?O ?F j \<longleftrightarrow> j = length pre) \<and>
       repl = (if ed_match r = MatchFuzzy then reindentReplacement ?F ?O ?N (length pre) else ?N)"
    using fuzzyEdit_block [OF e] by blast
  have r: "length repl = length blk \<and> last repl \<noteq> [] \<and> lines_ok repl \<and> repl \<noteq> []"
  proof (cases "ed_match r = MatchExactSubstring")
    case True
    with m obtain u v where uv: "blk = [u @ text_of ?O @ v]" "repl = lines_of (u @ text_of ?N @ v)" "length ?O = 1" by auto
    with ON have "length ?N = 1" by simp
    then obtain n where n: "?N = [n]" by (cases ?N) auto
    have "lines_ok blk" "lines_ok ?N" using b(1) lines_ok_simps(6) [of "text_of ls"] by auto
    with uv n have "nl \<notin> set (u @ n @ v)" by auto
    then have "repl = [u @ n @ v]" using uv(2) n by (simp add: lines_of_single)
    with \<open>nl \<notin> set (u @ n @ v)\<close> n new uv(1) show ?thesis by simp
  next
    case False
    with m have "block_at (tier (ed_match r)) ?O ?F (length pre)" by simp
    then have le: "length pre + length ?O \<le> length ?F" by (simp add: block_at_def)
    from False m ON new le reindent_ok [OF _ _ _ _ le, of ?N] last_reindent show ?thesis by (auto split: if_splits)
  qed
  have all: "lines_ok (pre @ repl @ post)" "pre @ repl @ post \<noteq> []" "last (pre @ repl @ post) \<noteq> []"
    using r lF b(1) lines_ok_simps(6) [of "text_of ls"] by (auto simp: last_append split: if_splits)
  have "length (pre @ repl @ post) = length ls" using r F b(1) by simp
  then show ?thesis unfolding b(2) length_split_restored length_splitLines_text [OF all(2,1,3)] .
qed

section \<open>The guard\<close>

text \<open>What \<open>ReplaceAllLiteralString\<close> does on a line that matches: text of the line around the first match is
  kept, the first match becomes the replacement.\<close>

definition sound_regex :: "line_regex \<Rightarrow> bool" where
  "sound_regex rx \<longleftrightarrow> (\<forall>p cs l rep. rx_match rx p cs l \<longrightarrow>
     (\<exists>u v. rx_replace rx p cs l rep = u @ rep @ v \<and> set (u @ v) \<subseteq> set l \<union> set rep))"

text \<open>The entries the guard routes as they are applied, and those that put in text whose last line is not
  empty.\<close>

definition well_routed :: "edit_entry \<Rightarrow> bool" where
  "well_routed e \<longleftrightarrow> (ee_old e \<noteq> [] \<longrightarrow> ee_operation e = [] \<or> ee_operation e = OpReplace)"

definition full_content :: "edit_entry \<Rightarrow> bool" where
  "full_content e \<longleftrightarrow> (effectiveOperation e = OpReplace \<longrightarrow> last (arg_lines (ee_new e)) \<noteq> []) \<and>
     (effectiveOperation e = OpReplacePattern \<longrightarrow> ee_newContent e \<noteq> [] \<or> ee_new e \<noteq> [])"

lemma contains_char: "contains [c] s \<longleftrightarrow> c \<in> set s"
  by (induction s) (auto simp: contains_def has_prefix_def)

lemma splitLines_single: "s \<noteq> [] \<Longrightarrow> nl \<notin> set s \<Longrightarrow> splitLines s = [s]"
  by (simp add: splitLines_def lines_of_single)

lemma length_adjustIndent [simp]: "length (adjustIndent t ls mode) = length ls"
  by (simp add: adjustIndent_def adjustPreserve_def adjustNormalize_def Let_def)

lemma content_lines:
  assumes "resolveOpContent op e = Inr (ls, note)" "opRequiresContent op"
  shows "batchReplacementLines e = Some ls"
  using assms by (auto simp: resolveOpContent_def batchReplacementLines_def Let_def split: if_splits)

lemma apply_keeps_count:
  assumes rx: "sound_regex rx" and a: "applySingleEdit rx fz ls e = Inr (res, mt)" and sh: "\<not> mayShiftLines e"
    and e: "well_routed e" "full_content e" and ls: "ls \<noteq> []" "lines_ok ls" "last ls \<noteq> []"
  shows "length res = length ls"
proof (cases "ee_operation e = OpReplace \<or> ee_old e \<noteq> []")
  case True
  then have op: "effectiveOperation e = OpReplace" using e(1) by (auto simp: effectiveOperation_def well_routed_def)
  from True a obtain r where r: "fuzzyEdit (text_of ls) (ee_old e) (ee_new e) fz = Inr r" "res = splitLines (ed_content r)"
    by (auto simp: applySingleEdit_def split: option.splits sum.splits)
  have "trimmedLineCount (ee_old e) = trimmedLineCount (ee_new e)"
    using sh op by (simp add: mayShiftLines_def replaceShifts_def op_names)
  from fuzzyEdit_count [OF r(1) this ls] e(2) op r(2) show ?thesis by (simp add: full_content_def)
next
  case False
  let ?op = "ee_operation e"
  from False a obtain new nt n where c: "resolveOpContent ?op e = Inr (new, nt)"
    and run: "runOp rx ls ?op (entry_params ?op e new) = Inr (res, n)"
    by (auto simp: applySingleEdit_def Let_def split: if_splits sum.splits)
  have op: "effectiveOperation e = ?op" using False by (simp add: effectiveOperation_def)
  from run sh op False consider (rep) "?op = OpReplaceLines" | (pat) "?op = OpReplacePattern"
    by (auto simp: runOp_def mayShiftLines_def op_names split: if_splits)
  then show ?thesis
  proof cases
    case rep
    then have b: "batchReplacementLines e = Some new" using content_lines [OF c] by (simp add: opRequiresContent_def)
    from runOp_local [OF run] rep obtain a b mid where l: "a < b" "b \<le> length ls" "res = take a ls @ mid @ drop b ls"
      "int a = ee_start e - 1" "int b = (if ee_end e \<le> 0 then int (length ls) else ee_end e)" "length mid = length new"
      unfolding entry_params_def by (auto simp: op_names)
    have "ee_end e > 0" "int (length new) = ee_end e - ee_start e + 1"
      using sh op rep b l(1,4,5) by (auto simp: mayShiftLines_def replaceLinesShifts_def op_names split: if_splits)
    with l show ?thesis by auto
  next
    case pat
    then have b: "batchReplacementLines e = Some new" using content_lines [OF c] by (simp add: opRequiresContent_def)
    have ns: "nl \<notin> set (ee_pattern e)" "nl \<notin> set (ee_newContent e)" "nl \<notin> set (ee_new e)"
      using sh op pat by (auto simp: mayShiftLines_def replacePatternShifts_def patternSpansLines_def contains_char op_names)
    have "ee_newContent e \<noteq> [] \<or> ee_new e \<noteq> []" using e(2) op pat by (simp add: full_content_def)
    with b ns obtain t where t: "new = [t]" "t \<noteq> []" "nl \<notin> set t"
      by (auto simp: batchReplacementLines_def splitLines_single split: if_splits)
    let ?cs = "\<not> contains ''i'' (ee_flags e)"
    from run have "replacePattern rx ls (ee_pattern e) (ee_flags e) (ee_occurrence e) new = Inr (res, n)"
      unfolding runOp_def entry_params_def by (simp add: pat op_names)
    from replacePattern_Inr [OF this] ns(1) obtain i where i: "i < length ls" "rx_match rx (ee_pattern e) ?cs (ls ! i)"
      "res = take i ls @ splitLines (rx_replace rx (ee_pattern e) ?cs (ls ! i) t) @ drop (Suc i) ls"
      by (auto simp: contains_char t(1))
    obtain u v where uv: "rx_replace rx (ee_pattern e) ?cs (ls ! i) t = u @ t @ v" "set (u @ v) \<subseteq> set (ls ! i) \<union> set t"
      using rx i(2) unfolding sound_regex_def by blast
    have "nl \<notin> set (ls ! i)" using ls(2) i(1) by (auto simp: lines_ok_def)
    with uv(2) t(2,3) have "splitLines (u @ t @ v) = [u @ t @ v]" by (intro splitLines_single) auto
    with i uv(1) show ?thesis by simp
  qed
qed

text \<open>The states a batch goes through.\<close>

fun batch_states :: "line_regex \<Rightarrow> bool \<Rightarrow> string list \<Rightarrow> edit_entry list \<Rightarrow> string list list" where
  "batch_states rx fz ls [] = [ls]"
| "batch_states rx fz ls (e # es) = ls # (case applySingleEdit rx fz ls e of Inl _ \<Rightarrow> [] | Inr (ns, _) \<Rightarrow> batch_states rx fz ns es)"

lemma batch_count:
  assumes "sound_regex rx" "apply_from rx fz i ls es = Inr (res, mts)" "lines_ok ls"
    "\<forall>e\<in>set es. \<not> mayShiftLines e \<and> well_routed e \<and> full_content e"
    "\<forall>ms\<in>set (batch_states rx fz ls es). ms \<noteq> [] \<and> last ms \<noteq> []"
  shows "length res = length ls"
  using assms(2-5)
proof (induction es arbitrary: i ls mts)
  case (Cons e es)
  from Cons.prems(1) obtain ns mt mts' where a: "applySingleEdit rx fz ls e = Inr (ns, mt)"
    "apply_from rx fz (Suc i) ns es = Inr (res, mts')"
    by (auto split: sum.splits)
  have "length ns = length ls"
    using apply_keeps_count [OF assms(1) a(1)] Cons.prems(2-4) by simp
  moreover have "length res = length ns"
    using Cons.IH [OF a(2) lines_ok_apply [OF a(1) Cons.prems(2)]] Cons.prems(3,4) a(1) by simp
  ultimately show ?case by simp
qed simp

lemma guard_passed:
  assumes "checkBatchLineDrift (pre @ e # post) = None" "usesAbsoluteLines e"
  shows "\<forall>x\<in>set pre. \<not> mayShiftLines x"
proof (rule ccontr)
  assume "\<not> ?thesis"
  then obtain x where x: "x \<in> set pre" "mayShiftLines x" by blast
  then obtain k where k: "index_where mayShiftLines (pre @ e # post) = Some k"
    using index_where_None [of mayShiftLines "pre @ e # post"] by (cases "index_where mayShiftLines (pre @ e # post)") auto
  from x(1) obtain m where m: "m < length pre" "pre ! m = x" by (auto simp: in_set_conv_nth)
  have "k \<le> m"
    using index_where_Some [OF k] m x(2) by (metis linorder_not_less nth_append)
  then have "e \<in> set (drop (Suc k) (pre @ e # post))" using m(1) by (auto simp: drop_append)
  with assms k show False
    using index_where_None [of usesAbsoluteLines "drop (k + 1) (pre @ e # post)"]
    by (auto simp: checkBatchLineDrift_def firstShiftingIndex_def split: option.splits)
qed

text \<open>C20: When the guard lets a batch pass, an entry that addresses lines by number is applied to as many
  lines as the file had when the numbers were taken. This needs that the entries before it are routed as
  the guard routes them and put in text that does not end in an empty line, and that no state on the way
  ends in one.\<close>

theorem drift_guard_sound:
  assumes "sound_regex rx" "checkBatchLineDrift (pre @ e # post) = None" "usesAbsoluteLines e"
    "applyBatchToLines rx fz (splitLines text) pre = Inr (lines, mts)" "\<forall>x\<in>set pre. well_routed x \<and> full_content x"
    "\<forall>ms\<in>set (batch_states rx fz (splitLines text) pre). ms \<noteq> [] \<and> last ms \<noteq> []"
  shows "length lines = length (splitLines text)"
  using batch_count [OF assms(1) assms(4) [unfolded applyBatchToLines_def] _ _ assms(6)] guard_passed [OF assms(2,3)] assms(5)
  by simp

section \<open>What the guard does not see\<close>

text \<open>The guard misses two kinds of entries that move lines: a pattern replacement whose explicitly
  empty content empties its line removes the line, and an entry that has an old text beside a line
  operation is applied as search and replace but judged by its operation. A deletion of the third
  line then removes the fourth.\<close>

theorem drift_guard_misses:
  "let blank = (entry OpReplacePattern)\<lparr>ee_pattern := ''two'', ee_newContentSet := True\<rparr>;
       mixed = (entry OpReplaceLines)\<lparr>ee_start := 1, ee_end := 1, ee_old := ''one'' @ [nl] @ ''two'', ee_new := ''one''\<rparr>
   in checkBatchLineDrift [blank, delete_third] = None \<and> checkBatchLineDrift [mixed, delete_third] = None \<and>
      map_sum id fst (applyBatchToLines literal_regex False four_lines [blank, delete_third]) = Inr [''one'', ''three''] \<and>
      map_sum id fst (applyBatchToLines literal_regex False four_lines [mixed, delete_third]) = Inr [''one'', ''three'']"
  by code_simp

section \<open>Witnesses\<close>

theorem batch_keeps_lines_witness:
  "map_sum id fst (applyBatchToLines literal_regex False (splitLines (''one'' @ [nl] @ ''two'')) [(entry OpDeleteLines)\<lparr>ee_start := 1, ee_end := 1\<rparr>]) =
     Inr [''two''] \<and> nl \<notin> set ''two''"
proof -
  have x: "applyBatchToLines literal_regex False (splitLines (''one'' @ [nl] @ ''two'')) [(entry OpDeleteLines)\<lparr>ee_start := 1, ee_end := 1\<rparr>] =
     Inr ([''two''], [])" by code_simp
  from batch_keeps_lines [OF x] x show ?thesis by simp
qed

text \<open>Literal replacement is sound.\<close>

lemma replace_all_parts:
  assumes "p \<noteq> []" "contains p l"
  shows "\<exists>u v. replace_all p rep l = u @ rep @ v \<and> set (u @ v) \<subseteq> set l \<union> set rep"
proof -
  have sub: "set (replace_all p rep l) \<subseteq> set l \<union> set rep" for p rep l
  proof (induction p rep l rule: replace_all.induct)
    case (2 p rep c l)
    then show ?case using set_drop_subset [of "length p" "c # l"] by (simp split: if_splits) blast+
  qed simp
  show ?thesis using assms
  proof (induction p rep l rule: replace_all.induct)
    case (2 p rep c l)
    show ?case
    proof (cases "has_prefix p (c # l)")
      case True
      have "set (replace_all p rep (drop (length p) (c # l))) \<subseteq> set (c # l) \<union> set rep"
        using sub [of p rep "drop (length p) (c # l)"] set_drop_subset [of "length p" "c # l"] by blast
      with True "2.prems"(1) show ?thesis by (intro exI [of _ "[]"] exI [of _ "replace_all p rep (drop (length p) (c # l))"]) auto
    next
      case False
      with "2.prems" have "contains p l" by (auto simp: contains_def)
      with 2 False obtain u v where "replace_all p rep l = u @ rep @ v" "set (u @ v) \<subseteq> set l \<union> set rep" by auto
      with False "2.prems"(1) show ?thesis by (intro exI [of _ "c # u"] exI [of _ v]) auto
    qed
  qed (auto simp: contains_def)
qed

lemma sound_literal: "sound_regex literal_regex"
  using replace_all_parts by (auto simp: sound_regex_def literal_regex_def)

theorem drift_guard_sound_witness:
  "let e = (entry OpReplacePattern)\<lparr>ee_pattern := ''two'', ee_newContent := ''deux''\<rparr>; text = text_of four_lines in
     map_sum id fst (applyBatchToLines literal_regex False (splitLines text) [e]) = Inr [''one'', ''deux'', ''three'', ''four''] \<and>
     length [''one'', ''deux'', ''three'', ''four''] = length (splitLines text)"
proof -
  let ?e = "(entry OpReplacePattern)\<lparr>ee_pattern := ''two'', ee_newContent := ''deux''\<rparr>"
  have a: "checkBatchLineDrift ([?e] @ delete_third # []) = None" "usesAbsoluteLines delete_third"
    "applyBatchToLines literal_regex False (splitLines (text_of four_lines)) [?e] = Inr ([''one'', ''deux'', ''three'', ''four''], [])"
    "list_all (\<lambda>x. well_routed x \<and> full_content x) [?e]"
    "list_all (\<lambda>ms. ms \<noteq> [] \<and> last ms \<noteq> []) (batch_states literal_regex False (splitLines (text_of four_lines)) [?e])"
    by code_simp+
  from drift_guard_sound [OF sound_literal a(1-3)] a(3-5) show ?thesis by (simp add: list_all_iff Let_def)
qed

end
