(* ===== verification/File_Lookup.thy ===== *)
theory File_Lookup
  imports Edit_Match Go_Path Complex_Main
begin

text \<open>
  Which file a tool call means (tools/common/pathutil.go, tools/common/filetool.go and the worktree
  manager of internal/gitworktree.go): the path a tool resolves a request to, and the file with the
  closest name that is taken when there is none. Lower-casing a name is a parameter, so is the tree of
  files below a directory. Scores are rational numbers, which order them as the floating point numbers
  of the code do.
\<close>

section \<open>Edit distance\<close>

text \<open>The inner loop of \<open>LevenshteinDistance\<close>: the cells of a row from the row before it and the cell to the
  left.\<close>

fun lev_cells :: "char \<Rightarrow> string \<Rightarrow> nat list \<Rightarrow> nat \<Rightarrow> nat list" where
  "lev_cells c (d # ds) (diag # up # prev) left =
     (let v = min (left + 1) (min (up + 1) (diag + (if c = d then 0 else 1)))
      in v # lev_cells c ds (up # prev) v)"
| "lev_cells c _ _ left = []"

fun lev_rows :: "string \<Rightarrow> string \<Rightarrow> nat \<Rightarrow> nat list \<Rightarrow> nat list" where
  "lev_rows [] b i prev = prev"
| "lev_rows (c # a) b i prev = lev_rows a b (Suc i) (Suc i # lev_cells c b prev (Suc i))"

definition LevenshteinDistance :: "string \<Rightarrow> string \<Rightarrow> nat" where
  "LevenshteinDistance a b =
     (if a = [] then length b else if b = [] then length a else lev_rows a b 0 [0..<length b + 1] ! length b)"

text \<open>What the distance stands for: how many insertions, deletions and replacements of one character turn one
  text into the other.\<close>

definition one_edit :: "(string \<times> string) set" where
  "one_edit = {(u @ x @ v, u @ y @ v) | u v x y. length x \<le> 1 \<and> length y \<le> 1}"

text \<open>The distance by its recursion on the two texts.\<close>

fun lev :: "string \<Rightarrow> string \<Rightarrow> nat" where
  "lev [] b = length b"
| "lev (c # a) [] = length (c # a)"
| "lev (c # a) (d # b) = min (lev (c # a) b + 1) (min (lev a (d # b) + 1) (lev a b + (if c = d then 0 else 1)))"

lemma lev_Nil [simp]: "lev a [] = length a"
  by (cases a) simp_all

lemma lev_refl [simp]: "lev a a = 0"
  by (induction a) simp_all

lemma lev_le: "lev (c # a) (d # b) \<le> lev (c # a) b + 1" "lev (c # a) (d # b) \<le> lev a (d # b) + 1"
    "lev (c # a) (d # b) \<le> lev a b + (if c = d then 0 else 1)"
  unfolding lev.simps(3) by (rule min.cobounded1, intro min.coboundedI2 min.cobounded1, intro min.coboundedI2 min.cobounded2)

lemma lev_min:
  assumes "m \<le> lev (c # a) b + 1" "m \<le> lev a (d # b) + 1" "m \<le> lev a b + (if c = d then 0 else 1)"
  shows "m \<le> lev (c # a) (d # b)"
  using assms unfolding lev.simps(3) by (intro min.boundedI)

lemma lev_ins: "lev (c # v) b \<le> lev v b + 1"
proof (cases b)
  case (Cons d b')
  with lev_le(2) [of c v d b'] show ?thesis by (simp only:)
qed simp

lemma lev_ins': "lev v (d # b) \<le> lev v b + 1"
proof (cases v)
  case (Cons c v')
  with lev_le(1) [of c v' d b] show ?thesis by (simp only:)
qed simp

lemma lev_del: "lev v b \<le> lev (c # v) b + 1"
proof (induction b)
  case (Cons d b)
  have "lev v (d # b) - 1 \<le> lev (c # v) (d # b)"
    using Cons lev_ins' [of v d b] by (intro lev_min) auto
  then show ?case by linarith
qed simp

lemma lev_subst: "lev (c # v) b \<le> lev (d # v) b + 1"
proof (induction b)
  case (Cons e b)
  have "lev (c # v) (e # b) - 1 \<le> lev (d # v) (e # b)"
    using Cons lev_le [of c v e b] by (intro lev_min) (auto split: if_splits)
  then show ?case by linarith
qed simp

lemma lev_context:
  assumes "\<And>b. lev s b \<le> lev t b + 1"
  shows "lev (u @ s) b \<le> lev (u @ t) b + 1"
proof (induction u arbitrary: b)
  case Nil
  show ?case using assms by simp
next
  case (Cons c u)
  note IH = Cons.IH
  show ?case
  proof (induction b)
    case Nil
    show ?case using assms [of "[]"] by simp
  next
    case (Cons d b)
    have "lev (c # u @ s) (d # b) - 1 \<le> lev (c # u @ t) (d # b)"
    proof (rule lev_min)
      show "lev (c # u @ s) (d # b) - 1 \<le> lev (c # u @ t) b + 1" using lev_le(1) [of c "u @ s" d b] Cons by simp
      show "lev (c # u @ s) (d # b) - 1 \<le> lev (u @ t) (d # b) + 1" using lev_le(2) [of c "u @ s" d b] IH [of "d # b"] by simp
      show "lev (c # u @ s) (d # b) - 1 \<le> lev (u @ t) b + (if c = d then 0 else 1)"
        using lev_le(3) [of c "u @ s" d b] IH [of b] by (simp split: if_splits)
    qed
    then show ?case unfolding append_Cons by linarith
  qed
qed

lemma short_cases: "length x \<le> 1 \<longleftrightarrow> x = [] \<or> (\<exists>c. x = [c])"
  by (cases x) auto

lemma lev_one_edit: "(s, t) \<in> one_edit \<Longrightarrow> lev s b \<le> lev t b + 1"
proof -
  assume "(s, t) \<in> one_edit"
  then obtain u v x y where s: "s = u @ x @ v" "t = u @ y @ v" "length x \<le> 1" "length y \<le> 1"
    by (auto simp: one_edit_def)
  have "lev (x @ v) b \<le> lev (y @ v) b + 1" for b
    using s(3,4) lev_del [of v b] lev_ins [of _ v b] lev_subst [of _ v b] unfolding short_cases by fastforce
  from lev_context [OF this] show ?thesis unfolding s .
qed

lemma lev_lower: "(s, t) \<in> one_edit ^^ n \<Longrightarrow> lev s t \<le> n"
proof (induction n arbitrary: s)
  case (Suc n)
  then obtain m where m: "(s, m) \<in> one_edit" "(m, t) \<in> one_edit ^^ n" by (meson relpow_Suc_E2)
  from lev_one_edit [OF m(1), of t] Suc.IH [OF m(2)] show ?case by linarith
qed simp

lemma one_edit_Cons: "(s, t) \<in> one_edit \<Longrightarrow> (c # s, c # t) \<in> one_edit"
  unfolding one_edit_def by clarsimp (metis append_Cons)

lemma edits_Cons: "(s, t) \<in> one_edit ^^ n \<Longrightarrow> (c # s, c # t) \<in> one_edit ^^ n"
proof (induction n arbitrary: s)
  case (Suc n)
  then obtain m where m: "(s, m) \<in> one_edit" "(m, t) \<in> one_edit ^^ n" by (meson relpow_Suc_E2)
  from one_edit_Cons [OF m(1)] Suc.IH [OF m(2)] show ?case by (rule relpow_Suc_I2)
qed simp

lemma one_edit_hd: "(c # s, d # s) \<in> one_edit" "(c # s, s) \<in> one_edit" "(s, c # s) \<in> one_edit"
proof -
  have "([] @ x @ s, [] @ y @ s) \<in> one_edit" if "length x \<le> 1" "length y \<le> 1" for x y
    using that unfolding one_edit_def by blast
  from this [of "[c]" "[d]"] this [of "[c]" "[]"] this [of "[]" "[c]"]
  show "(c # s, d # s) \<in> one_edit" "(c # s, s) \<in> one_edit" "(s, c # s) \<in> one_edit" by simp_all
qed

lemma lev_reached: "(a, b) \<in> one_edit ^^ lev a b"
proof (induction a b rule: lev.induct)
  case (1 b)
  show ?case
  proof (induction b)
    case (Cons d b)
    from one_edit_hd(3) [of b d] Cons show ?case by (auto intro: relcompI)
  qed simp
next
  case (2 c a)
  have "(s, []) \<in> one_edit ^^ length s" for s
  proof (induction s)
    case (Cons e xs)
    from one_edit_hd(2) [of e xs] Cons show ?case unfolding length_Cons by (rule relpow_Suc_I2)
  qed simp
  from this [of "c # a"] show ?case unfolding lev.simps(2) .
next
  case (3 c a d b)
  have i: "(c # a, d # b) \<in> one_edit ^^ Suc (lev (c # a) b)"
    using 3(1) one_edit_hd(3) [of b d] by (rule relpow_Suc_I)
  have r: "(c # a, d # b) \<in> one_edit ^^ Suc (lev a (d # b))"
    using one_edit_hd(2) [of c a] 3(2) by (rule relpow_Suc_I2)
  have "(d # a, d # b) \<in> one_edit ^^ lev a b" using 3(3) by (rule edits_Cons)
  then have s: "(c # a, d # b) \<in> one_edit ^^ (lev a b + (if c = d then 0 else 1))"
    using one_edit_hd(1) [of c a d] by (auto intro: relpow_Suc_I2 simp del: relpow.simps)
  show ?case using i r s by (simp add: min_def del: relpow.simps)
qed

lemma lev_least: "lev a b = (LEAST n. (a, b) \<in> one_edit ^^ n)"
  by (rule Least_equality [symmetric]) (auto intro: lev_reached lev_lower)

text \<open>The table holds the distances of the prefixes; the distance does not change when both texts are turned
  around.\<close>

lemma one_edit_rev: "(s, t) \<in> one_edit \<longleftrightarrow> (rev s, rev t) \<in> one_edit"
proof -
  have *: "(s, t) \<in> one_edit \<Longrightarrow> (rev s, rev t) \<in> one_edit" for s t
    unfolding one_edit_def by clarsimp (metis append.assoc length_rev rev_append)
  from * [of s t] * [of "rev s" "rev t"] show ?thesis by auto
qed

lemma edits_rev: "(s, t) \<in> one_edit ^^ n \<Longrightarrow> (rev s, rev t) \<in> one_edit ^^ n"
proof (induction n arbitrary: s)
  case (Suc n)
  then obtain m where m: "(s, m) \<in> one_edit" "(m, t) \<in> one_edit ^^ n" by (meson relpow_Suc_E2)
  from m(1) one_edit_rev have "(rev s, rev m) \<in> one_edit" by blast
  from this Suc.IH [OF m(2)] show ?case by (rule relpow_Suc_I2)
qed simp

lemma lev_rev: "lev (rev a) (rev b) = lev a b"
proof -
  have "(rev a, rev b) \<in> one_edit ^^ n \<longleftrightarrow> (a, b) \<in> one_edit ^^ n" for n
    using edits_rev [of a b n] edits_rev [of "rev a" "rev b" n] by auto
  then show ?thesis by (simp add: lev_least)
qed

abbreviation levp :: "string \<Rightarrow> string \<Rightarrow> nat" where "levp a b \<equiv> lev (rev a) (rev b)"

lemma levp_snoc: "levp (a @ [c]) (b @ [d]) =
    min (levp (a @ [c]) b + 1) (min (levp a (b @ [d]) + 1) (levp a b + (if c = d then 0 else 1)))"
  by simp

definition lev_row :: "string \<Rightarrow> string \<Rightarrow> nat list" where
  "lev_row a b = map (\<lambda>j. levp a (take j b)) [0..<length b + 1]"

lemma map_upt_Suc: "map f [0..<Suc n] = f 0 # map (\<lambda>j. f (Suc j)) [0..<n]"
  by (simp add: upt_conv_Cons map_Suc_upt [symmetric] del: upt_Suc)

lemma lev_cells_row:
  "lev_cells c b2 (map (\<lambda>j. levp a (b1 @ take j b2)) [0..<Suc (length b2)]) (levp (a @ [c]) b1) =
     map (\<lambda>j. levp (a @ [c]) (b1 @ take (Suc j) b2)) [0..<length b2]"
proof (induction b2 arbitrary: b1)
  case (Cons d b2)
  let ?v = "levp (a @ [c]) (b1 @ [d])" and ?r = "map (\<lambda>j. levp a ((b1 @ [d]) @ take j b2)) [0..<Suc (length b2)]"
  have "map (\<lambda>j. levp a (b1 @ take j (d # b2))) [0..<Suc (length (d # b2))] = levp a b1 # ?r"
    unfolding length_Cons map_upt_Suc [of _ "Suc (length b2)"] by (simp del: upt_Suc)
  moreover obtain r where r: "?r = levp a (b1 @ [d]) # r" unfolding map_upt_Suc by simp
  ultimately have e: "lev_cells c (d # b2) (map (\<lambda>j. levp a (b1 @ take j (d # b2))) [0..<Suc (length (d # b2))]) (levp (a @ [c]) b1) =
      ?v # lev_cells c b2 ?r ?v"
    unfolding r by (simp only: lev_cells.simps(1) levp_snoc Let_def)
  have "map (\<lambda>j. levp (a @ [c]) (b1 @ take (Suc j) (d # b2))) [0..<length (d # b2)] =
      ?v # map (\<lambda>j. levp (a @ [c]) ((b1 @ [d]) @ take (Suc j) b2)) [0..<length b2]"
    unfolding length_Cons map_upt_Suc [of _ "length b2"] by (simp del: upt_Suc lev.simps)
  with e Cons.IH [of "b1 @ [d]"] show ?case by (simp only:)
qed simp

lemma lev_row_step: "length a = i \<Longrightarrow> Suc i # lev_cells c b (lev_row a b) (Suc i) = lev_row (a @ [c]) b"
  using lev_cells_row [of c b a "[]"] map_upt_Suc [of "\<lambda>j. levp (a @ [c]) (take j b)" "length b"]
  by (simp add: lev_row_def del: upt_Suc lev_cells.simps)

lemma lev_rows_row: "length a1 = i \<Longrightarrow> lev_rows a b i (lev_row a1 b) = lev_row (a1 @ a) b"
proof (induction a arbitrary: a1 i)
  case (Cons c a)
  then show ?case using Cons.IH [of "a1 @ [c]" "Suc i"] lev_row_step [OF Cons.prems, of c b] by simp
qed simp

lemma LevenshteinDistance_lev: "LevenshteinDistance a b = lev a b"
proof -
  have "lev_row [] b = [0..<length b + 1]" by (rule nth_equalityI) (simp_all add: lev_row_def min_def del: upt_Suc)
  with lev_rows_row [of "[]" 0 a b] have "lev_rows a b 0 [0..<length b + 1] = lev_row a b" by simp
  then show ?thesis by (simp add: LevenshteinDistance_def lev_row_def lev_rev del: upt_Suc)
qed

text \<open>C36: LevenshteinDistance, which keeps only two rows of the table, computes the edit distance: as many
  insertions, deletions and replacements of single characters turn the one text into the other, and no
  smaller number does.\<close>

theorem levenshtein_correct:
  "(a, b) \<in> one_edit ^^ LevenshteinDistance a b \<and> LevenshteinDistance a b = (LEAST n. (a, b) \<in> one_edit ^^ n)"
  by (simp add: LevenshteinDistance_lev lev_reached lev_least [symmetric])

section \<open>The closest file name\<close>

definition levenshteinSimilarity :: "string \<Rightarrow> string \<Rightarrow> rat" where
  "levenshteinSimilarity a b =
     (let maxLen = max (length a) (length b) in
      if maxLen = 0 then 0 else 1 - of_nat (LevenshteinDistance a b) / of_nat maxLen)"

definition baseMatchScore :: "string \<Rightarrow> string \<Rightarrow> rat" where
  "baseMatchScore targetLower baseLower =
     (if has_prefix targetLower baseLower then 4 / 5
      else if has_prefix baseLower targetLower then 7 / 10
      else if contains targetLower baseLower then 1 / 2 else 0)"

definition scoreFile :: "string \<Rightarrow> string \<Rightarrow> rat" where
  "scoreFile targetLower baseLower =
     (let score = baseMatchScore targetLower baseLower in
      if score \<ge> 9 / 10 then score
      else let sim = levenshteinSimilarity targetLower baseLower in if sim > score then sim else score)"

definition fuzzySkipDirs :: "string list" where
  "fuzzySkipDirs = [''.git'', ''.goa'']"

text \<open>A directory tree as \<open>WalkDir\<close> goes through it: the entries of a directory in lexical order, an
  unreadable directory without any.\<close>

datatype fs_entry = FileEntry string | DirEntry string "fs_entry list"

fun entry_name :: "fs_entry \<Rightarrow> string" where
  "entry_name (FileEntry n) = n"
| "entry_name (DirEntry n _) = n"

text \<open>The callback of the walk on one file. The flag says that the walk has ended.\<close>

type_synonym find_state = "string \<times> rat \<times> bool"

definition visit_file :: "(string \<Rightarrow> string) \<Rightarrow> string \<Rightarrow> string \<Rightarrow> string \<Rightarrow> find_state \<Rightarrow> find_state" where
  "visit_file lower targetLower path n = (\<lambda>(best, bestScore, ended).
     if ended then (best, bestScore, ended)
     else if has_prefix dot n then (best, bestScore, False)
     else let baseLower = lower n in
       if baseLower = targetLower then (path, 1, True)
       else let score = scoreFile targetLower baseLower in
         if score > bestScore then (path, score, False) else (best, bestScore, False))"

fun walk_entry :: "(string \<Rightarrow> string) \<Rightarrow> string \<Rightarrow> string \<Rightarrow> fs_entry \<Rightarrow> find_state \<Rightarrow> find_state"
  and walk_entries :: "(string \<Rightarrow> string) \<Rightarrow> string \<Rightarrow> string \<Rightarrow> fs_entry list \<Rightarrow> find_state \<Rightarrow> find_state" where
  "walk_entry lower t path (FileEntry n) st = visit_file lower t path n st"
| "walk_entry lower t path (DirEntry n es) st = (if n \<in> set fuzzySkipDirs then st else walk_entries lower t path es st)"
| "walk_entries lower t path [] st = st"
| "walk_entries lower t path (e # es) st = walk_entries lower t path es (walk_entry lower t (Join path (entry_name e)) e st)"

text \<open>\<open>filepath.Base\<close> and \<open>filepath.Dir\<close>.\<close>

definition Base :: "string \<Rightarrow> string" where
  "Base p = (if p = [] then dot else let es = elems p in if es = [] then [slash] else last es)"

definition DirOf :: "string \<Rightarrow> string" where
  "DirOf p = Clean (rev (dropWhile (\<lambda>c. c \<noteq> slash) (rev p)))"

definition FuzzyFindFile :: "(string \<Rightarrow> string) \<Rightarrow> fs_entry option \<Rightarrow> string \<Rightarrow> string \<Rightarrow> string \<times> rat" where
  "FuzzyFindFile lower tree projectDir target =
     (case tree of None \<Rightarrow> ([], 0)
      | Some tree_top \<Rightarrow> (let (best, bestScore, _) = walk_entry lower (lower (Base target)) projectDir tree_top ([], 0, False)
          in (best, bestScore)))"

text \<open>The files the walk looks at, with their names.\<close>

fun visible :: "string \<Rightarrow> fs_entry \<Rightarrow> (string \<times> string) list"
  and visible_all :: "string \<Rightarrow> fs_entry list \<Rightarrow> (string \<times> string) list" where
  "visible path (FileEntry n) = (if has_prefix dot n then [] else [(path, n)])"
| "visible path (DirEntry n es) = (if n \<in> set fuzzySkipDirs then [] else visible_all path es)"
| "visible_all path [] = []"
| "visible_all path (e # es) = visible (Join path (entry_name e)) e @ visible_all path es"

definition name_score :: "(string \<Rightarrow> string) \<Rightarrow> string \<Rightarrow> string \<times> string \<Rightarrow> rat" where
  "name_score lower target f =
     (let t = lower (Base target); b = lower (snd f) in if b = t then 1 else scoreFile t b)"

lemma walk_visible:
  "walk_entry lower t path e st = fold (\<lambda>(p, n). visit_file lower t p n) (visible path e) st"
  "walk_entries lower t path es st = fold (\<lambda>(p, n). visit_file lower t p n) (visible_all path es) st"
  by (induction path e and path es arbitrary: st and st rule: visible_visible_all.induct)
    (auto simp: visit_file_def)

lemma visible_named:
  "f \<in> set (visible path e) \<Longrightarrow> \<not> has_prefix dot (snd f)"
  "f \<in> set (visible_all path es) \<Longrightarrow> \<not> has_prefix dot (snd f)"
  by (induction path e and path es rule: visible_visible_all.induct) (auto split: if_splits)

lemma lev_zero: "LevenshteinDistance a b = 0 \<longleftrightarrow> a = b"
proof
  assume "LevenshteinDistance a b = 0"
  with lev_reached [of a b] show "a = b" by (simp add: LevenshteinDistance_lev)
qed (simp add: LevenshteinDistance_lev)

lemma similarity_less: "a \<noteq> b \<Longrightarrow> levenshteinSimilarity a b < 1"
  using lev_zero [of a b] by (auto simp: levenshteinSimilarity_def Let_def max_def)

lemma scoreFile_less: "a \<noteq> b \<Longrightarrow> scoreFile a b < 1"
  using similarity_less [of a b] by (auto simp: scoreFile_def baseMatchScore_def Let_def)

lemma scoreFile_nonneg: "0 \<le> scoreFile a b"
  by (auto simp: scoreFile_def baseMatchScore_def Let_def)

lemma visit_ended: "fold (\<lambda>(p, n). visit_file lower t p n) fs (b, s, True) = (b, s, True)"
  by (induction fs) (auto simp: visit_file_def)

text \<open>The fold over the files keeps the first with the greatest score.\<close>

lemma visit_best:
  assumes "\<forall>f\<in>set fs. \<not> has_prefix dot (snd f)" "0 \<le> s" "s < 1"
    "fold (\<lambda>(p, n). visit_file lower (lower (Base target)) p n) fs (b, s, False) = (b', s', d)"
  shows "(b' = b \<and> s' = s \<and> (\<forall>f\<in>set fs. name_score lower target f \<le> s)) \<or>
    (\<exists>pre f post. fs = pre @ f # post \<and> b' = fst f \<and> s' = name_score lower target f \<and> s < s' \<and>
       (\<forall>g\<in>set pre. name_score lower target g < s') \<and> (\<forall>g\<in>set post. name_score lower target g \<le> s'))"
  using assms
proof (induction fs arbitrary: b s)
  case (Cons f fs)
  obtain p n where f: "f = (p, n)" by (cases f)
  let ?t = "lower (Base target)" and ?sc = "name_score lower target"
  have le1: "?sc g \<le> 1" for g
    using scoreFile_less [of ?t "lower (snd g)"] by (auto simp: name_score_def Let_def)
  have vis: "visit_file lower ?t p n (b, s, False) =
      (if lower n = ?t then (p, 1, True) else if ?sc f > s then (p, ?sc f, False) else (b, s, False))"
    using Cons.prems(1) f by (simp add: visit_file_def name_score_def Let_def)
  consider (exact) "lower n = ?t" | (better) "lower n \<noteq> ?t" "?sc f > s" | (worse) "lower n \<noteq> ?t" "?sc f \<le> s"
    by fastforce
  then show ?case
  proof cases
    case exact
    with Cons.prems(4) vis f have "b' = p" "s' = 1" by (auto simp: visit_ended)
    moreover have "?sc f = 1" using exact f by (simp add: name_score_def)
    ultimately show ?thesis using f le1 Cons.prems(3) by (intro disjI2 exI [of _ "[]"] exI [of _ f] exI [of _ fs]) auto
  next
    case better
    have "?sc f < 1" using better f scoreFile_less [of ?t "lower n"] by (auto simp: name_score_def Let_def)
    moreover have "fold (\<lambda>(p, n). visit_file lower ?t p n) fs (p, ?sc f, False) = (b', s', d)"
      using Cons.prems(4) vis f better by simp
    moreover have "0 \<le> ?sc f" using better Cons.prems(2) by linarith
    ultimately have "(b' = p \<and> s' = ?sc f \<and> (\<forall>g\<in>set fs. ?sc g \<le> ?sc f)) \<or>
      (\<exists>pre g post. fs = pre @ g # post \<and> b' = fst g \<and> s' = ?sc g \<and> ?sc f < s' \<and>
         (\<forall>h\<in>set pre. ?sc h < s') \<and> (\<forall>h\<in>set post. ?sc h \<le> s'))"
      using Cons.prems(1) by (intro Cons.IH) auto
    then show ?thesis
    proof
      assume "b' = p \<and> s' = ?sc f \<and> (\<forall>g\<in>set fs. ?sc g \<le> ?sc f)"
      then show ?thesis using f better by (intro disjI2 exI [of _ "[]"] exI [of _ f] exI [of _ fs]) auto
    next
      assume "\<exists>pre g post. fs = pre @ g # post \<and> b' = fst g \<and> s' = ?sc g \<and> ?sc f < s' \<and>
         (\<forall>h\<in>set pre. ?sc h < s') \<and> (\<forall>h\<in>set post. ?sc h \<le> s')"
      then obtain pre g post where g: "fs = pre @ g # post" "b' = fst g" "s' = ?sc g" "?sc f < s'"
        "\<forall>h\<in>set pre. ?sc h < s'" "\<forall>h\<in>set post. ?sc h \<le> s'" by blast
      then show ?thesis using better by (intro disjI2 exI [of _ "f # pre"] exI [of _ g] exI [of _ post]) auto
    qed
  next
    case worse
    have "fold (\<lambda>(p, n). visit_file lower ?t p n) fs (b, s, False) = (b', s', d)"
      using Cons.prems(4) vis f worse by simp
    then have "(b' = b \<and> s' = s \<and> (\<forall>g\<in>set fs. ?sc g \<le> s)) \<or>
      (\<exists>pre g post. fs = pre @ g # post \<and> b' = fst g \<and> s' = ?sc g \<and> s < s' \<and>
         (\<forall>h\<in>set pre. ?sc h < s') \<and> (\<forall>h\<in>set post. ?sc h \<le> s'))"
      using Cons.prems by (intro Cons.IH) auto
    then show ?thesis
    proof
      assume "\<exists>pre g post. fs = pre @ g # post \<and> b' = fst g \<and> s' = ?sc g \<and> s < s' \<and>
         (\<forall>h\<in>set pre. ?sc h < s') \<and> (\<forall>h\<in>set post. ?sc h \<le> s')"
      then obtain pre g post where g: "fs = pre @ g # post" "b' = fst g" "s' = ?sc g" "s < s'"
        "\<forall>h\<in>set pre. ?sc h < s'" "\<forall>h\<in>set post. ?sc h \<le> s'" by blast
      then show ?thesis using worse by (intro disjI2 exI [of _ "f # pre"] exI [of _ g] exI [of _ post]) auto
    qed (use worse in auto)
  qed
qed simp

text \<open>FuzzyFindFile answers the first of the files with the greatest score: a file whose name is the
  one asked for, up to case, has score one and no other file has; when every score is zero it answers
  no file.\<close>

theorem fuzzy_find_best:
  assumes "FuzzyFindFile lower (Some tree_top) dir target = (best, score)"
  shows "(best = [] \<and> score = 0 \<and> (\<forall>f\<in>set (visible dir tree_top). name_score lower target f = 0)) \<or>
    (\<exists>pre f post. visible dir tree_top = pre @ f # post \<and> best = fst f \<and> score = name_score lower target f \<and> 0 < score \<and>
       (score = 1 \<longleftrightarrow> lower (snd f) = lower (Base target)) \<and>
       (\<forall>g\<in>set pre. name_score lower target g < score) \<and> (\<forall>g\<in>set post. name_score lower target g \<le> score))"
proof -
  obtain d where "fold (\<lambda>(p, n). visit_file lower (lower (Base target)) p n) (visible dir tree_top) ([], 0, False) = (best, score, d)"
    using assms by (auto simp: FuzzyFindFile_def walk_visible split: prod.splits)
  moreover have "name_score lower target f \<ge> 0" for f using scoreFile_nonneg by (simp add: name_score_def Let_def)
  moreover have "name_score lower target f = 1 \<longleftrightarrow> lower (snd f) = lower (Base target)" for f
    using scoreFile_less [of "lower (Base target)" "lower (snd f)"] by (auto simp: name_score_def Let_def)
  ultimately show ?thesis
    using visit_best [of "visible dir tree_top" 0 lower target "[]" best score d] visible_named(1)
    by (metis dual_order.antisym order_refl zero_less_one)
qed

definition sample_tree :: fs_entry where
  "sample_tree = DirEntry ''p'' [DirEntry ''.git'' [FileEntry ''mian.go''], FileEntry ''.main.go'', FileEntry ''go.mod'',
     FileEntry ''main.go'']"

theorem fuzzy_find_best_witness:
  "FuzzyFindFile id (Some sample_tree) ''/p'' ''mian.go'' = (''/p/main.go'', 5 / 7) \<and>
   (\<exists>pre f post. visible ''/p'' sample_tree = pre @ f # post \<and> ''/p/main.go'' = fst f)"
proof -
  have f: "FuzzyFindFile id (Some sample_tree) ''/p'' ''mian.go'' = (''/p/main.go'', 5 / 7)" by code_simp
  from fuzzy_find_best [OF f] f show ?thesis by force
qed

section \<open>Resolving a path\<close>

definition NormalizeFileToolPath :: "string \<Rightarrow> string" where
  "NormalizeFileToolPath path = (if has_prefix ''@'' path then drop 1 path else path)"

text \<open>\<open>home\<close> is the home directory, when it can be determined.\<close>

definition ExpandHome :: "string option \<Rightarrow> string \<Rightarrow> string" where
  "ExpandHome home path =
     (if path \<noteq> ''~'' \<and> \<not> has_prefix ''~/'' path then path
      else case home of None \<Rightarrow> path
      | Some h \<Rightarrow> if h = [] then path else if path = ''~'' then h else Join h (drop 2 path))"

record worktree_manager =
  wm_mainDir :: string
  wm_active :: string

definition WorktreeDir :: "worktree_manager \<Rightarrow> string" where
  "WorktreeDir w = Join (Join (wm_mainDir w) ''.goa'') ''worktrees''"

text \<open>A worktree that is gone is forgotten; \<open>exists\<close> tells whether a path can be found.\<close>

definition CurrentWorktree :: "(string \<Rightarrow> bool) \<Rightarrow> worktree_manager \<Rightarrow> string \<times> worktree_manager" where
  "CurrentWorktree exists w =
     (if wm_active w \<noteq> [] then if exists (wm_active w) then (wm_active w, w) else ([], w\<lparr>wm_active := []\<rparr>)
      else ([], w))"

definition ResolvePath :: "string \<Rightarrow> string \<Rightarrow> string" where
  "ResolvePath worktreePath userPath =
     (if worktreePath = [] then userPath
      else if \<not> IsAbs userPath then Join worktreePath userPath else userPath)"

text \<open>What a resolution reads of its surroundings.\<close>

record path_env =
  pe_home :: "string option"
  pe_cwd :: "string option"
  pe_exists :: "string \<Rightarrow> bool"

definition ResolveToolPath ::
    "path_env \<Rightarrow> worktree_manager option \<Rightarrow> string \<Rightarrow> string option \<times> worktree_manager option" where
  "ResolveToolPath pe wm userPath =
     (let (worktreePath, wm') = (case wm of None \<Rightarrow> ([], None)
            | Some w \<Rightarrow> map_prod id Some (CurrentWorktree (pe_exists pe) w));
          resolved = ResolvePath worktreePath (ExpandHome (pe_home pe) userPath)
      in (if IsAbs resolved then Some resolved else Abs (pe_cwd pe) resolved, wm'))"

definition ResolveFileToolPath ::
    "path_env \<Rightarrow> worktree_manager option \<Rightarrow> string \<Rightarrow> string option \<times> string \<times> worktree_manager option" where
  "ResolveFileToolPath pe wm path =
     (let originalPath = NormalizeFileToolPath path; (resolved, wm') = ResolveToolPath pe wm originalPath
      in (resolved, originalPath, wm'))"

lemma Join_abs: "IsAbs a \<Longrightarrow> IsAbs (Join a b)"
proof -
  assume a: "IsAbs a"
  then have "a \<noteq> []" by auto
  with a IsAbs_Clean [of "a @ slash # b"] show "IsAbs (Join a b)" by (simp add: Join_def IsAbs_Clean)
qed

lemma clean_elems_append:
  "\<forall>e\<in>set es. real_elem e \<Longrightarrow> clean_elems r (ds @ es) = clean_elems r ds @ es"
  by (simp add: clean_elems_def clean_fold_of_real)

lemma loc_Join:
  assumes "IsAbs a" "b \<noteq> []"
  shows "loc (Join a b) = clean_elems True (elems a @ elems b)"
proof -
  have "a \<noteq> []" using assms(1) by auto
  with assms have "Join a b = Clean (a @ slash # b)" "IsAbs (a @ slash # b)" by (auto simp: Join_def)
  then show ?thesis using loc_Clean [of "a @ slash # b"] by (simp add: loc_def)
qed

lemma loc_Join_real: "IsAbs a \<Longrightarrow> real_elem e \<Longrightarrow> loc (Join a e) = loc a @ [e]"
  using loc_Join [of a e] clean_elems_append [of "[e]" True "elems a"] by (auto simp: real_elem_def loc_def)

lemma ResolveToolPath_abs:
  assumes "ResolveToolPath pe wm p = (Some r, wm')" "\<And>d. pe_cwd pe = Some d \<Longrightarrow> IsAbs d"
  shows "IsAbs r"
  using assms Join_abs IsAbs_Clean
  by (auto simp: ResolveToolPath_def Abs_def Let_def split: prod.splits if_splits)

end
