(* ===== verification/File_Store.thy ===== *)
theory File_Store
  imports File_Lookup
begin

text \<open>
  Reading and writing files: what the tools use of the operating system, the verified write
  (tools/common/writeverify.go), the read with its fall-back to the closest name (tools/common/filetool.go),
  the snapshots taken before an edit (tools/common/backup.go) and the copy of a file into a worktree
  (tools/common/pathutil.go). File modes are not modelled.
\<close>

section \<open>The operating system\<close>

text \<open>What a path leads to: \<open>os_file\<close> names the file, the same for all paths to it. The outcome of a write may
  differ from call to call: whether it returns without error, and what the file holds when the call is
  over and the next one looks (\<open>None\<close>: what it held before), which need not be what was written.\<close>

record os_env =
  os_file :: "string \<Rightarrow> string"
  os_denied :: "string \<Rightarrow> bool"
  os_isdir :: "string \<Rightarrow> bool"
  os_write :: "nat \<Rightarrow> string \<Rightarrow> string \<Rightarrow> bool \<times> string option"
  os_mkdir :: "string \<Rightarrow> bool"
  os_tree :: "string \<Rightarrow> fs_entry option"
  os_lower :: "string \<Rightarrow> string"
  os_glob :: "string \<Rightarrow> string list option"
  os_home :: "string option"
  os_cwd :: "string option"

text \<open>The disk, how many writes there were, the paths the change notifier was called with and the worktree
  manager.\<close>

record world =
  w_disk :: "string \<rightharpoonup> string"
  w_writes :: nat
  w_changed :: "string list"
  w_worktree :: "worktree_manager option"

datatype read_failure = NotExist | Unreadable

definition ReadFile :: "os_env \<Rightarrow> world \<Rightarrow> string \<Rightarrow> read_failure + string" where
  "ReadFile os w path =
     (if os_denied os path then Inl Unreadable
      else case w_disk w (os_file os path) of None \<Rightarrow> Inl NotExist | Some c \<Rightarrow> Inr c)"

definition stat_ok :: "os_env \<Rightarrow> world \<Rightarrow> string \<Rightarrow> bool" where
  "stat_ok os w path \<longleftrightarrow> \<not> os_denied os path \<and> (os_isdir os path \<or> w_disk w (os_file os path) \<noteq> None)"

definition WriteFile :: "os_env \<Rightarrow> string \<Rightarrow> string \<Rightarrow> world \<Rightarrow> bool \<times> world" where
  "WriteFile os path content w =
     (let (ok, held) = os_write os (w_writes w) path content in
      (ok, w\<lparr>w_writes := Suc (w_writes w),
             w_disk := (case held of None \<Rightarrow> w_disk w | Some c \<Rightarrow> (w_disk w)(os_file os path \<mapsto> c))\<rparr>))"

definition path_env_of :: "os_env \<Rightarrow> world \<Rightarrow> path_env" where
  "path_env_of os w = \<lparr>pe_home = os_home os, pe_cwd = os_cwd os, pe_exists = stat_ok os w\<rparr>"

lemma WriteFile_other: "WriteFile os p c w = (ok, w') \<Longrightarrow> f \<noteq> os_file os p \<Longrightarrow> w_disk w' f = w_disk w f"
  by (auto simp: WriteFile_def split: prod.splits option.splits)

lemma WriteFile_rest: "WriteFile os p c w = (ok, w') \<Longrightarrow> w_changed w' = w_changed w \<and> w_worktree w' = w_worktree w"
  by (auto simp: WriteFile_def split: prod.splits)

section \<open>The verified write\<close>

datatype write_failure = WriteFailed | VerifyFailed

definition verifyWrite :: "os_env \<Rightarrow> world \<Rightarrow> string \<Rightarrow> string \<Rightarrow> write_failure option" where
  "verifyWrite os w path want =
     (case ReadFile os w path of Inl _ \<Rightarrow> Some VerifyFailed
      | Inr got \<Rightarrow> if got = want then None else Some VerifyFailed)"

definition WriteFileVerified :: "os_env \<Rightarrow> string \<Rightarrow> string \<Rightarrow> world \<Rightarrow> write_failure option \<times> world" where
  "WriteFileVerified os path content w =
     (let (ok, w') = WriteFile os path content w in
      if \<not> ok then (Some WriteFailed, w') else (verifyWrite os w' path content, w'))"

lemma verified_write:
  assumes "WriteFileVerified os p c w = (None, w')"
  shows "ReadFile os w' p = Inr c" "w_disk w' (os_file os p) = Some c" "\<not> os_denied os p"
    "f \<noteq> os_file os p \<Longrightarrow> w_disk w' f = w_disk w f"
  using assms WriteFile_other [of os p c w _ w' f]
  by (auto simp: WriteFileVerified_def verifyWrite_def ReadFile_def split: prod.splits if_splits sum.splits option.splits)

section \<open>Writers that keep their word\<close>

text \<open>A list of texts written one after the other, up to the first failure: how many were written, and the
  failure.\<close>

fun write_all :: "(string \<Rightarrow> string \<Rightarrow> 'w \<Rightarrow> 'e option \<times> 'w) \<Rightarrow> (string \<times> string) list \<Rightarrow> 'w \<Rightarrow> nat \<times> 'e option \<times> 'w" where
  "write_all wr [] w = (0, None, w)"
| "write_all wr ((p, c) # jobs) w =
     (case wr p c w of (Some e, w') \<Rightarrow> (0, Some e, w')
      | (None, w') \<Rightarrow> (let (n, e, w'') = write_all wr jobs w' in (Suc n, e, w'')))"

text \<open>What a caller may rely on: after a success the text can be read, and a write, failed or not, touches
  only its file and the files it is known to touch besides.\<close>

locale verified_writer =
  fixes put :: "string \<Rightarrow> string \<Rightarrow> 'w \<Rightarrow> 'e option \<times> 'w"
    and get :: "'w \<Rightarrow> string \<Rightarrow> 'r + string"
    and disk :: "'w \<Rightarrow> string \<Rightarrow> string option"
    and place :: "string \<Rightarrow> string"
    and besides :: "string \<Rightarrow> string set"
  assumes write_read: "put p c w = (None, w') \<Longrightarrow> get w' p = Inr c"
    and write_others: "put p c w = (r, w') \<Longrightarrow> f \<noteq> place p \<Longrightarrow> f \<notin> besides p \<Longrightarrow> disk w' f = disk w f"
    and read_disk: "disk w (place p) = disk w' (place p) \<Longrightarrow> get w p = get w' p"
begin

lemma write_all_others:
  assumes "write_all put jobs w = (n, e, w')"
    "\<forall>j\<in>set (take (Suc n) jobs). f \<noteq> place (fst j) \<and> f \<notin> besides (fst j)"
  shows "disk w' f = disk w f"
  using assms
proof (induction jobs arbitrary: w n)
  case (Cons job jobs)
  obtain p c where job: "job = (p, c)" by (cases job)
  obtain r w0 where wr: "put p c w = (r, w0)" by fastforce
  from Cons.prems(2) job have f: "disk w0 f = disk w f" using write_others [OF wr] by simp
  show ?case
  proof (cases r)
    case None
    with Cons.prems(1) job wr obtain m where m: "write_all put jobs w0 = (m, e, w')" "n = Suc m"
      by (auto split: prod.splits)
    with Cons.IH [OF m(1)] Cons.prems(2) f show ?thesis by simp
  qed (use Cons.prems(1) job wr f in auto)
qed simp

lemma write_all_written:
  assumes "write_all put jobs w = (n, e, w')" "distinct (map (place \<circ> fst) jobs)"
    "\<forall>j\<in>set jobs. \<forall>k\<in>set jobs. place (fst k) \<notin> besides (fst j)"
  shows "n \<le> length jobs \<and> (e = None \<longleftrightarrow> n = length jobs) \<and> (\<forall>j\<in>set (take n jobs). get w' (fst j) = Inr (snd j))"
  using assms
proof (induction jobs arbitrary: w n)
  case (Cons job jobs)
  obtain p c where job: "job = (p, c)" by (cases job)
  obtain r w0 where wr: "put p c w = (r, w0)" by fastforce
  show ?case
  proof (cases r)
    case None
    with Cons.prems(1) job wr obtain m where m: "write_all put jobs w0 = (m, e, w')" "n = Suc m"
      by (auto split: prod.splits)
    have IH: "m \<le> length jobs \<and> (e = None \<longleftrightarrow> m = length jobs) \<and> (\<forall>j\<in>set (take m jobs). get w' (fst j) = Inr (snd j))"
      using Cons.IH [OF m(1)] Cons.prems(2,3) by simp
    have "\<forall>j\<in>set jobs. place p \<noteq> place (fst j) \<and> place p \<notin> besides (fst j)"
      using Cons.prems(2,3) job by (auto simp: image_iff)
    then have "disk w' (place p) = disk w0 (place p)"
      by (intro write_all_others [OF m(1)]) (auto dest: in_set_takeD)
    from read_disk [OF this] have "get w' p = Inr c" using write_read wr None by simp
    with IH m(2) job show ?thesis by simp
  qed (use Cons.prems(1) job wr in auto)
qed simp

end

lemma verified_other: "WriteFileVerified os p c w = (r, w') \<Longrightarrow> f \<noteq> os_file os p \<Longrightarrow> w_disk w' f = w_disk w f"
  using WriteFile_other [of os p c w _ w' f] by (auto simp: WriteFileVerified_def split: prod.splits if_splits)

lemma ReadFile_disk: "w_disk w (os_file os p) = w_disk w' (os_file os p) \<Longrightarrow> ReadFile os w p = ReadFile os w' p"
  by (simp add: ReadFile_def)

interpretation verified: verified_writer "WriteFileVerified os" "ReadFile os" w_disk "os_file os" "\<lambda>_. {}" for os
  by unfold_locales (auto intro: verified_write(1) verified_other ReadFile_disk)

section \<open>Reading with the closest name\<close>

text \<open>\<open>fuzzy\<close> is the setting, on when it is absent.\<close>

definition FileToolFuzzyMatchEnabled :: "bool option \<Rightarrow> bool" where
  "FileToolFuzzyMatchEnabled fuzzy = (case fuzzy of None \<Rightarrow> True | Some b \<Rightarrow> b)"

definition ReadFileWithFuzzyFallback ::
    "os_env \<Rightarrow> world \<Rightarrow> bool option \<Rightarrow> string \<Rightarrow> string \<Rightarrow> read_failure + string \<times> string" where
  "ReadFileWithFuzzyFallback os w fuzzy resolvedPath originalPath =
     (case ReadFile os w resolvedPath of Inr data \<Rightarrow> Inr (resolvedPath, data)
      | Inl err \<Rightarrow>
          if err \<noteq> NotExist \<or> \<not> FileToolFuzzyMatchEnabled fuzzy then Inl err
          else let projectDir = (if DirOf resolvedPath = [] then dot else DirOf resolvedPath);
                   (suggest, confidence) = FuzzyFindFile (os_lower os) (os_tree os projectDir) projectDir originalPath
            in if suggest = [] \<or> confidence < 3 / 5 then Inl err
               else case ReadFile os w suggest of Inl err' \<Rightarrow> Inl err' | Inr data \<Rightarrow> Inr (suggest, data))"

lemma fallback_read:
  "ReadFileWithFuzzyFallback os w fz r p = Inr (t, data) \<Longrightarrow> ReadFile os w t = Inr data"
  by (auto simp: ReadFileWithFuzzyFallback_def Let_def split: sum.splits if_splits prod.splits)

lemma fallback_exact: "ReadFile os w r = Inr data \<Longrightarrow> ReadFileWithFuzzyFallback os w fz r p = Inr (r, data)"
  by (simp add: ReadFileWithFuzzyFallback_def)

section \<open>Snapshots\<close>

definition NewBackupStager :: "string \<Rightarrow> string" where
  "NewBackupStager projectDir = Join (Join projectDir ''.goa'') ''backups''"

definition BackupPath :: "string \<Rightarrow> string \<Rightarrow> string \<Rightarrow> string option" where
  "BackupPath backupDir absPath projectDir =
     (case Rel projectDir absPath of None \<Rightarrow> None | Some relPath \<Rightarrow> Some (Join backupDir (relPath @ ''.bak'')))"

definition readIfExists :: "os_env \<Rightarrow> world \<Rightarrow> string \<Rightarrow> read_failure + string option" where
  "readIfExists os w path =
     (case ReadFile os w path of Inr data \<Rightarrow> Inr (Some data)
      | Inl NotExist \<Rightarrow> if os_isdir os path then Inl Unreadable else Inr None
      | Inl Unreadable \<Rightarrow> Inl Unreadable)"

definition ensureSelfIgnored :: "os_env \<Rightarrow> string \<Rightarrow> world \<Rightarrow> world" where
  "ensureSelfIgnored os backupDir w =
     (let gitignore = Join backupDir ''.gitignore'' in
      if stat_ok os w gitignore then w else snd (WriteFile os gitignore (''*'' @ [nl]) w))"

definition StageBeforeEdit :: "os_env \<Rightarrow> string \<Rightarrow> string \<Rightarrow> string \<Rightarrow> world \<Rightarrow> bool \<times> world" where
  "StageBeforeEdit os backupDir absPath projectDir w =
     (case readIfExists os w absPath of Inl _ \<Rightarrow> (False, w) | Inr None \<Rightarrow> (True, w)
      | Inr (Some data) \<Rightarrow>
          (case BackupPath backupDir absPath projectDir of None \<Rightarrow> (False, w)
           | Some backupPath \<Rightarrow>
               if \<not> os_mkdir os (DirOf backupPath) then (False, w)
               else WriteFile os backupPath data (ensureSelfIgnored os backupDir w)))"

definition HasBackup :: "os_env \<Rightarrow> world \<Rightarrow> string \<Rightarrow> string \<Rightarrow> string \<Rightarrow> bool" where
  "HasBackup os w backupDir absPath projectDir =
     (case BackupPath backupDir absPath projectDir of None \<Rightarrow> False | Some backupPath \<Rightarrow> stat_ok os w backupPath)"

text \<open>The result says whether a snapshot was found and whether an error is returned.\<close>

definition RestoreBackup :: "os_env \<Rightarrow> string \<Rightarrow> string \<Rightarrow> string \<Rightarrow> world \<Rightarrow> (bool \<times> bool) \<times> world" where
  "RestoreBackup os backupDir absPath projectDir w =
     (case BackupPath backupDir absPath projectDir of None \<Rightarrow> ((False, True), w)
      | Some backupPath \<Rightarrow>
          (case readIfExists os w backupPath of Inl _ \<Rightarrow> ((False, True), w) | Inr None \<Rightarrow> ((False, False), w)
           | Inr (Some data) \<Rightarrow> (let (ok, w') = WriteFile os absPath data w in ((True, \<not> ok), w'))))"

text \<open>A disk that keeps what is written to it.\<close>

definition honest :: "os_env \<Rightarrow> bool" where
  "honest os \<longleftrightarrow> (\<forall>n p c. os_write os n p c = (True, Some c))"

lemma honest_write:
  "honest os \<Longrightarrow> WriteFile os p c w = (True, w\<lparr>w_writes := Suc (w_writes w), w_disk := (w_disk w)(os_file os p \<mapsto> c)\<rparr>)"
  by (simp add: WriteFile_def honest_def)

lemma readIfExists_Some: "readIfExists os w p = Inr (Some c) \<longleftrightarrow> ReadFile os w p = Inr c"
  by (auto simp: readIfExists_def split: sum.splits read_failure.splits if_splits)

text \<open>C24: Undoing an edit: when a file was snapshotted before it was overwritten, RestoreBackup finds the
  snapshot and gives the file the content it had. It needs a disk that keeps what is written and that the
  file is none of the two the snapshot writes.\<close>

theorem backup_restores:
  assumes "honest os" "ReadFile os w path = Inr old" "BackupPath dir path project = Some b" "\<not> os_denied os b"
    "StageBeforeEdit os dir path project w = (True, w1)" "WriteFileVerified os path new w1 = (r, w2)"
    "os_file os b \<noteq> os_file os path" "os_file os (Join dir ''.gitignore'') \<noteq> os_file os path"
  shows "\<exists>w3. RestoreBackup os dir path project w2 = ((True, False), w3) \<and> ReadFile os w3 path = Inr old \<and>
    (\<forall>f. f \<noteq> os_file os path \<longrightarrow> w_disk w3 f = w_disk w1 f)"
proof -
  let ?w0 = "ensureSelfIgnored os dir w"
  have "(True, w1) = WriteFile os b old ?w0"
    using assms(2,3,5) by (auto simp: StageBeforeEdit_def readIfExists_def split: if_splits)
  then have w1: "w_disk w1 = (w_disk ?w0)(os_file os b \<mapsto> old)" using honest_write [OF assms(1)] by simp
  have w2: "w_disk w2 = (w_disk w1)(os_file os path \<mapsto> new)"
    using assms(6) honest_write [OF assms(1)] by (auto simp: WriteFileVerified_def)
  have "ReadFile os w2 b = Inr old" using w1 w2 assms(4,7) by (simp add: ReadFile_def)
  moreover obtain w3 where w3: "WriteFile os path old w2 = (True, w3)" "w_disk w3 = (w_disk w2)(os_file os path \<mapsto> old)"
    using honest_write [OF assms(1)] by simp
  ultimately have "RestoreBackup os dir path project w2 = ((True, False), w3)"
    using assms(3) by (simp add: RestoreBackup_def readIfExists_def)
  moreover have "\<not> os_denied os path" using assms(2) by (auto simp: ReadFile_def split: if_splits)
  ultimately show ?thesis using w3 w2 by (auto simp: ReadFile_def)
qed

text \<open>A system whose paths lead to files by their cleaned form, whose disk keeps what is written.\<close>

definition plain_os :: os_env where
  "plain_os = \<lparr>os_file = Clean, os_denied = (\<lambda>_. False), os_isdir = (\<lambda>_. False), os_write = (\<lambda>_ _ c. (True, Some c)),
     os_mkdir = (\<lambda>_. True), os_tree = (\<lambda>_. None), os_lower = id, os_glob = (\<lambda>_. Some []), os_home = None, os_cwd = Some ''/p''\<rparr>"

definition start_world :: "(string \<rightharpoonup> string) \<Rightarrow> world" where
  "start_world d = \<lparr>w_disk = d, w_writes = 0, w_changed = [], w_worktree = None\<rparr>"

lemma plain_honest: "honest plain_os"
  by (simp add: honest_def plain_os_def)

theorem backup_restores_witness:
  "let w = start_world [''/p/f'' \<mapsto> ''old'']; dir = NewBackupStager ''/p'';
       w1 = snd (StageBeforeEdit plain_os dir ''/p/f'' ''/p'' w); w2 = snd (WriteFileVerified plain_os ''/p/f'' ''new'' w1)
   in ReadFile plain_os w2 ''/p/f'' = Inr ''new'' \<and>
      (\<exists>w3. RestoreBackup plain_os dir ''/p/f'' ''/p'' w2 = ((True, False), w3) \<and> ReadFile plain_os w3 ''/p/f'' = Inr ''old'')"
proof -
  let ?w = "start_world [''/p/f'' \<mapsto> ''old'']" and ?d = "NewBackupStager ''/p''"
  let ?w1 = "snd (StageBeforeEdit plain_os ?d ''/p/f'' ''/p'' ?w)"
  have r: "ReadFile plain_os ?w ''/p/f'' = Inr ''old''" by code_simp
  have b: "BackupPath ?d ''/p/f'' ''/p'' = Some ''/p/.goa/backups/f.bak''" by code_simp
  have s: "StageBeforeEdit plain_os ?d ''/p/f'' ''/p'' ?w = (True, ?w1)"
    using b honest_write [OF plain_honest] r
    by (simp add: StageBeforeEdit_def readIfExists_def) (simp add: plain_os_def)
  have n: "os_file plain_os ''/p/.goa/backups/f.bak'' \<noteq> os_file plain_os ''/p/f''"
    "os_file plain_os (Join ?d ''.gitignore'') \<noteq> os_file plain_os ''/p/f''" by code_simp+
  obtain v w2 where v: "WriteFileVerified plain_os ''/p/f'' ''new'' ?w1 = (v, w2)" by fastforce
  have "\<not> os_denied plain_os x" for x by (simp add: plain_os_def)
  with backup_restores [OF plain_honest r b _ s v n] v honest_write [OF plain_honest] show ?thesis
    by (auto simp: Let_def WriteFileVerified_def ReadFile_def)
qed

section \<open>Where snapshots go\<close>

lemma join_snoc: "es \<noteq> [] \<Longrightarrow> join_with [slash] es @ x = join_with [slash] (butlast es @ [last es @ x])"
  by (induction "[slash]" es rule: join_with.induct) (auto simp: neq_Nil_conv)

text \<open>Snapshots of the files of the project lie below its backup directory, each at the place of its file,
  with .bak added to the name: two files of the project have two snapshots.\<close>

theorem backup_of_project_file:
  assumes "IsAbs project" "loc path = loc project @ rest" "rest \<noteq> []"
  shows "\<exists>b. BackupPath (NewBackupStager project) path project = Some b \<and>
    loc b = loc project @ [''.goa'', ''backups''] @ butlast rest @ [last rest @ ''.bak'']"
proof -
  have real: "\<forall>e\<in>set rest. real_elem e" using clean_elems_real [of _ path] assms(2) by (auto simp: loc_def)
  have "strip_common (xs) (xs @ ys) = ([], ys)" for xs ys :: "string list" by (induction xs) auto
  then have rel: "Rel project path = Some (join_with [slash] rest)"
    using assms by (simp add: Rel_def loc_def)
  let ?r = "butlast rest @ [last rest @ ''.bak'']"
  have r: "\<forall>e\<in>set ?r. real_elem e"
  proof -
    have "real_elem (last rest @ ''.bak'')" using real assms(3) by (auto simp: real_elem_def)
    with real show ?thesis by (auto dest: in_set_butlastD)
  qed
  have abs: "IsAbs (NewBackupStager project)" using assms(1) by (simp add: NewBackupStager_def Join_abs)
  have ld: "loc (NewBackupStager project) = loc project @ [''.goa'', ''backups'']"
    using assms(1) loc_Join_real [of project "''.goa''"] loc_Join_real [of "Join project ''.goa''" "''backups''"]
    by (simp add: NewBackupStager_def Join_abs real_elem_def)
  have "elems (join_with [slash] ?r) = ?r" using r by (intro elems_join) (auto simp: real_elem_def)
  moreover have "join_with [slash] ?r \<noteq> []"
  proof
    assume "join_with [slash] ?r = []"
    with \<open>elems (join_with [slash] ?r) = ?r\<close> have "?r = elems []" by simp
    then show False by simp
  qed
  ultimately have "loc (Join (NewBackupStager project) (join_with [slash] ?r)) = loc (NewBackupStager project) @ ?r"
    using loc_Join [OF abs] clean_elems_append [OF r] by (simp add: loc_def)
  with rel ld join_snoc [OF assms(3), of "''.bak''"] show ?thesis by (simp add: BackupPath_def)
qed

theorem backup_of_project_file_witness:
  "\<exists>b. BackupPath (NewBackupStager ''/p'') ''/p/a/x.go'' ''/p'' = Some b \<and>
     loc b = [''p'', ''.goa'', ''backups'', ''a'', ''x.go.bak'']"
proof -
  have "loc ''/p/a/x.go'' = loc ''/p'' @ [''a'', ''x.go'']" "loc ''/p'' = [''p'']" "IsAbs ''/p''" by code_simp+
  with backup_of_project_file [of "''/p''" "''/p/a/x.go''" "[''a'', ''x.go'']"] show ?thesis by simp
qed

text \<open>A file outside the project has its snapshot outside the backup directory, or in the place of the
  snapshot of a file of the project.\<close>

lemma backup_outside_project:
  "BackupPath (NewBackupStager ''/home/u/p'') ''/etc/hosts'' ''/home/u/p'' = Some ''/home/u/etc/hosts.bak''"
  "BackupPath (NewBackupStager ''/home/u/p'') ''/home/u/backups/x'' ''/home/u/p'' =
   BackupPath (NewBackupStager ''/home/u/p'') ''/home/u/p/x'' ''/home/u/p''"
  by code_simp+

section \<open>Copying a file into the worktree\<close>

definition LazySyncFromMain :: "os_env \<Rightarrow> worktree_manager option \<Rightarrow> string \<Rightarrow> string \<Rightarrow> world \<Rightarrow> bool \<times> world" where
  "LazySyncFromMain os wm worktreePath resolvedPath w =
     (case wm of None \<Rightarrow> (True, w)
      | Some m \<Rightarrow>
          if worktreePath = [] then (True, w)
          else if stat_ok os w resolvedPath then (True, w)
          else case Rel worktreePath resolvedPath of None \<Rightarrow> (False, w)
            | Some relPath \<Rightarrow>
                let mainPath = Join (wm_mainDir m) relPath in
                if \<not> stat_ok os w mainPath then (True, w)
                else case ReadFile os w mainPath of Inl _ \<Rightarrow> (False, w)
                  | Inr data \<Rightarrow> if \<not> os_mkdir os (DirOf resolvedPath) then (False, w) else WriteFile os resolvedPath data w)"


text \<open>Reading a missing file of the main tree while a worktree is active copies a file of the same name from
  a directory above: the path back from the worktree has more steps up than the main tree is deep.\<close>

lemma sync_copies_foreign_file:
  "let m = \<lparr>wm_mainDir = ''/h/m'', wm_active = ''/h/m/.goa/worktrees/n''\<rparr>;
       (ok, w) = LazySyncFromMain plain_os (Some m) ''/h/m/.goa/worktrees/n'' ''/h/m/notes'' (start_world [''/notes'' \<mapsto> ''other''])
   in ok \<and> ReadFile plain_os w ''/h/m/notes'' = Inr ''other''"
  by code_simp

end
