(* ===== verification/Edit_Tool.thy ===== *)
theory Edit_Tool
  imports Edit_Drift File_Store "HOL-Library.List_Lexorder" "HOL-Library.Char_ord"
begin

text \<open>
  The edit tool: a call is routed to a search and replace, to one operation on lines, to a batch on one
  file (tools/editfile.go) or to a batch over several files (tools/editfile_multifile.go), and the result is
  written and read back (tools/writeverify.go). The input is the decoded JSON; the language server is absent.
\<close>

section \<open>Calls and errors\<close>

text \<open>The flat fields, the batch, and the two forms that name several files.\<close>

record edit_call =
  ec_edit :: edit_entry
  ec_edits :: "edit_entry list"
  ec_files :: "(string \<times> edit_entry list) list"
  ec_glob :: string

record edit_tool =
  et_projectDir :: string
  et_backupDir :: "string option"
  et_allowFuzz :: bool
  et_fuzzyMatch :: "bool option"
  et_rx :: line_regex
  et_notify :: bool

text \<open>\<open>TBatch\<close> names the failing entry by its position and description, and holds the overlap that explains a
  text that was not found.\<close>

datatype tool_error =
    TMissingPath
  | TConflictingPath nat
  | TProtected
  | TResolve
  | TFileNotFound
  | TReadError
  | TSearch edit_failure block_match
  | TOp edit_error
  | TBatch nat string edit_error "block_match option"
  | TWriteError
  | TVerifyFailed
  | TConflictingForm
  | TNestedBatch nat
  | TFilesMissingPath nat
  | TFilesMissingEdits nat
  | TGlobMissingEdits
  | TGlobInvalid
  | TGlobNoMatch

datatype file_status = FileOk string nat | FileFail string tool_error | FileSkip string string

datatype call_error = CallError tool_error | FilesError "file_status list" "string list"

section \<open>Messages\<close>

abbreviation emdash :: string where "emdash \<equiv> map char_of [226 :: nat, 128, 148]"

definition matchTypeDesc :: "match_type \<Rightarrow> string" where
  "matchTypeDesc mt = (case mt of MatchTrailingWhitespace \<Rightarrow> ''trailing whitespace normalized''
     | MatchFuzzy \<Rightarrow> ''fuzzy whitespace match (indentation auto-adjusted)''
     | MatchExactSubstring \<Rightarrow> ''exact substring match'' | MatchExact \<Rightarrow> ''exact match'')"

definition combinedMatchDesc :: "match_type list \<Rightarrow> string" where
  "combinedMatchDesc types =
     (case types of [] \<Rightarrow> [] | t # ts \<Rightarrow> if list_ex (\<lambda>mt. mt \<noteq> t) ts then ''mixed'' else matchTypeDesc t)"

definition resolvedPathNote :: "string \<Rightarrow> string \<Rightarrow> string" where
  "resolvedPathNote resolvedPath requestedPath =
     (if resolvedPath = [] then []
      else if Clean resolvedPath = Clean (NormalizeFileToolPath requestedPath) then []
      else '' (resolved: '' @ resolvedPath @ '')'')"

definition content_note_text :: "content_note \<Rightarrow> string" where
  "content_note_text n = (case n of NoNote \<Rightarrow> []
     | UsedNewString \<Rightarrow> ''Note: used new_string as replacement content (new_content was empty)'' @ [nl]
     | ExplicitEmpty \<Rightarrow> ''(explicit empty new_content: writing one empty line)'' @ [nl])"

definition formatEditResult :: "string \<Rightarrow> string \<Rightarrow> nat \<Rightarrow> nat \<Rightarrow> string \<Rightarrow> string \<Rightarrow> content_note \<Rightarrow> string" where
  "formatEditResult path op affected inserted pathNote diff contentNote =
     content_note_text contentNote @ ''[edit: '' @ path @ ''] '' @ op @ '' '' @ emdash @
     (if op = OpReplaceLines then '' replaced '' @ dec affected @ '' lines with '' @ dec inserted
      else '' '' @ dec affected @ '' lines affected'') @ pathNote @ [nl] @ diff"

definition formatMultiEditResult :: "string \<Rightarrow> nat \<Rightarrow> match_type list \<Rightarrow> string \<Rightarrow> string \<Rightarrow> string \<Rightarrow> string" where
  "formatMultiEditResult path count matchTypes pathNote diff fuzzyNote =
     (let mt = combinedMatchDesc matchTypes;
          msg = ''[edit: '' @ path @ ''] '' @ dec count @ '' edits applied'' @
                (if mt \<noteq> [] then '' '' @ emdash @ '' match: '' @ mt else []) @ pathNote @ [nl] @ diff
      in if fuzzyNote \<noteq> [] then fuzzyNote @ [nl] @ msg else msg)"

definition fuzzy_note :: "string \<Rightarrow> string" where
  "fuzzy_note target = ''Note: file not found, used closest match: '' @ target"

section \<open>Reading and writing\<close>

definition resolve_path :: "os_env \<Rightarrow> string \<Rightarrow> world \<Rightarrow> string option \<times> string \<times> world" where
  "resolve_path os path w =
     (let (resolved, original, wm) = ResolveFileToolPath (path_env_of os w) (w_worktree w) path
      in (resolved, original, w\<lparr>w_worktree := wm\<rparr>))"

definition read_error :: "read_failure \<Rightarrow> tool_error" where
  "read_error e = (case e of NotExist \<Rightarrow> TFileNotFound | Unreadable \<Rightarrow> TReadError)"

text \<open>The lines, the path that was read, the note on it and whether the file ends in a line feed.\<close>

definition readLines :: "os_env \<Rightarrow> edit_tool \<Rightarrow> world \<Rightarrow> string \<Rightarrow> string \<Rightarrow>
    tool_error + string list \<times> string \<times> string \<times> bool" where
  "readLines os t w resolvedPath originalPath =
     (case ReadFileWithFuzzyFallback os w (et_fuzzyMatch t) resolvedPath originalPath of
        Inl e \<Rightarrow> Inl (read_error e)
      | Inr (targetPath, data) \<Rightarrow>
          Inr (splitLines data, targetPath, if targetPath \<noteq> resolvedPath then fuzzy_note targetPath else [],
               has_suffix [nl] data))"

definition writeEditResult :: "os_env \<Rightarrow> edit_tool \<Rightarrow> string \<Rightarrow> string \<Rightarrow> world \<Rightarrow> tool_error option \<times> world" where
  "writeEditResult os t targetPath content w =
     (let w1 = (case et_backupDir t of None \<Rightarrow> w
            | Some dir \<Rightarrow> snd (StageBeforeEdit os dir targetPath (et_projectDir t) w));
          (r, w2) = WriteFileVerified os targetPath content w1
      in case r of Some VerifyFailed \<Rightarrow> (Some TVerifyFailed, w2)
         | Some WriteFailed \<Rightarrow> (Some TWriteError, w2)
         | None \<Rightarrow> (None, if et_notify t then w2\<lparr>w_changed := w_changed w2 @ [targetPath]\<rparr> else w2))"

section \<open>One file\<close>

definition searchReplace :: "os_env \<Rightarrow> edit_tool \<Rightarrow> string \<Rightarrow> string \<Rightarrow> string \<Rightarrow> string \<Rightarrow> world \<Rightarrow> (tool_error + string) \<times> world" where
  "searchReplace os t resolvedPath originalPath oldStr newStr w =
     (case ReadFileWithFuzzyFallback os w (et_fuzzyMatch t) resolvedPath originalPath of
        Inl e \<Rightarrow> (Inl (read_error e), w)
      | Inr (targetPath, data) \<Rightarrow>
          (case fuzzyEdit data oldStr newStr (et_allowFuzz t) of
             Inl e \<Rightarrow> (Inl (TSearch e (analyzeBlockMatch data oldStr)), w)
           | Inr result \<Rightarrow>
               (case writeEditResult os t targetPath (ed_content result) w of
                  (Some err, w') \<Rightarrow> (Inl err, w')
                | (None, w') \<Rightarrow>
                    (let msg = ''[edit: '' @ originalPath @ ''] search/replace applied '' @ emdash @ '' lines '' @
                         dec (ed_start result) @ ''-'' @ dec (ed_end result) @ '', match: '' @ matchTypeDesc (ed_match result) @
                         resolvedPathNote targetPath originalPath @ [nl] @ ed_diff result
                     in (Inr (if targetPath \<noteq> resolvedPath then fuzzy_note targetPath @ [nl] @ msg else msg), w')))))"

definition editByOperation :: "os_env \<Rightarrow> edit_tool \<Rightarrow> string \<Rightarrow> string \<Rightarrow> string \<Rightarrow> edit_entry \<Rightarrow> world \<Rightarrow> (tool_error + string) \<times> world" where
  "editByOperation os t resolvedPath originalPath path p w =
     (let op = ee_operation p in
      if op = [] then (Inl (TOp EMissingParameter), w)
      else case readLines os t w resolvedPath originalPath of Inl e \<Rightarrow> (Inl e, w)
      | Inr (lines, targetPath, fuzzyNote, trailingNL) \<Rightarrow>
          (case resolveOpContent op p of Inl e \<Rightarrow> (Inl (TOp e), w)
           | Inr (newLines, contentNote) \<Rightarrow>
               (case runOp (et_rx t) lines op (entry_params op p newLines) of Inl e \<Rightarrow> (Inl (TOp e), w)
                | Inr (result, affected) \<Rightarrow>
                    (case writeEditResult os t targetPath (render result trailingNL) w of
                       (Some err, w') \<Rightarrow> (Inl err, w')
                     | (None, w') \<Rightarrow>
                         (let msg = formatEditResult path op affected (length newLines) (resolvedPathNote targetPath path)
                              (generateUnifiedDiff lines result) contentNote
                          in (Inr (if fuzzyNote \<noteq> [] then fuzzyNote @ [nl] @ msg else msg), w'))))))"

definition wrapMultiEditError :: "nat \<Rightarrow> edit_entry \<Rightarrow> edit_error \<Rightarrow> string list \<Rightarrow> tool_error" where
  "wrapMultiEditError idx e err content =
     (let desc = (if ee_operation e \<noteq> [] then ee_operation e else if ee_old e \<noteq> [] then OpReplace else ''(missing operation)'')
      in TBatch idx desc err (case err of EMatch _ \<Rightarrow> Some (analyzeBlockMatch (text_of content) (ee_old e)) | _ \<Rightarrow> None))"

definition executeMulti :: "os_env \<Rightarrow> edit_tool \<Rightarrow> string \<Rightarrow> string \<Rightarrow> string \<Rightarrow> edit_entry list \<Rightarrow> world \<Rightarrow> (tool_error + string) \<times> world" where
  "executeMulti os t resolvedPath originalPath path edits w =
     (case readLines os t w resolvedPath originalPath of Inl e \<Rightarrow> (Inl e, w)
      | Inr (originalLines, targetPath, fuzzyNote, trailingNL) \<Rightarrow>
          (case checkBatchLineDrift edits of Some e \<Rightarrow> (Inl (TOp e), w)
           | None \<Rightarrow>
               (case applyBatchToLines (et_rx t) (et_allowFuzz t) originalLines edits of
                  Inl (i, err, content) \<Rightarrow> (Inl (wrapMultiEditError i (edits ! i) err content), w)
                | Inr (lines, matchTypes) \<Rightarrow>
                    (case writeEditResult os t targetPath (render lines trailingNL) w of
                       (Some err, w') \<Rightarrow> (Inl err, w')
                     | (None, w') \<Rightarrow>
                         (Inr (formatMultiEditResult path (length edits) matchTypes (resolvedPathNote targetPath path)
                             (generateUnifiedDiff originalLines lines) fuzzyNote), w')))))"

definition batchEntryPath :: "edit_entry list \<Rightarrow> string" where
  "batchEntryPath edits = (case List.find (\<lambda>e. ee_path e \<noteq> []) edits of None \<Rightarrow> [] | Some e \<Rightarrow> ee_path e)"

definition checkEntryPaths :: "string \<Rightarrow> edit_entry list \<Rightarrow> tool_error option" where
  "checkEntryPaths path edits =
     map_option TConflictingPath (index_where (\<lambda>e. ee_path e \<noteq> [] \<and> ee_path e \<noteq> path) edits)"

section \<open>Several files\<close>

definition checkBatchExclusivity :: "edit_call \<Rightarrow> bool \<Rightarrow> tool_error option" where
  "checkBatchExclusivity p filesForm =
     (if ee_path (ec_edit p) \<noteq> [] then Some TConflictingForm
      else if filesForm then
        (if ec_glob p \<noteq> [] then Some TConflictingForm
         else if ec_edits p \<noteq> [] then Some TConflictingForm else None)
      else if ec_files p \<noteq> [] then Some TConflictingForm
      else if ec_edits p = [] then Some TGlobMissingEdits else None)"

definition checkNoNestedBatch :: "edit_entry list \<Rightarrow> tool_error option" where
  "checkNoNestedBatch edits = map_option TNestedBatch (index_where ee_nested edits)"

fun validate_from :: "nat \<Rightarrow> (string \<times> edit_entry list) list \<Rightarrow> tool_error option" where
  "validate_from i [] = None"
| "validate_from i ((path, edits) # files) =
     (if path = [] then Some (TFilesMissingPath i)
      else if edits = [] then Some (TFilesMissingEdits i)
      else case checkNoNestedBatch edits of Some e \<Rightarrow> Some e | None \<Rightarrow> validate_from (Suc i) files)"

definition validateFilesForm :: "(string \<times> edit_entry list) list \<Rightarrow> tool_error + (string \<times> edit_entry list) list" where
  "validateFilesForm files = (case validate_from 0 files of Some e \<Rightarrow> Inl e | None \<Rightarrow> Inr files)"

definition projectRoot :: "edit_tool \<Rightarrow> string" where
  "projectRoot t = (if et_projectDir t \<noteq> [] then et_projectDir t else dot)"

definition is_regular :: "os_env \<Rightarrow> world \<Rightarrow> string \<Rightarrow> bool" where
  "is_regular os w p \<longleftrightarrow> \<not> os_denied os p \<and> \<not> os_isdir os p \<and> w_disk w (os_file os p) \<noteq> None"

definition expandEditGlobPattern :: "os_env \<Rightarrow> edit_tool \<Rightarrow> world \<Rightarrow> string \<Rightarrow> tool_error + string list" where
  "expandEditGlobPattern os t w pattern =
     (let pat = (if IsAbs pattern then pattern else Join (projectRoot t) pattern) in
      case os_glob os pat of None \<Rightarrow> Inl TGlobInvalid
      | Some matches \<Rightarrow>
          (let files = rev (remdups (rev (filter (is_regular os w) matches))) in
           if files = [] then Inl TGlobNoMatch else Inr (sort files)))"

definition targetsFromGlob :: "os_env \<Rightarrow> edit_tool \<Rightarrow> world \<Rightarrow> string \<Rightarrow> edit_entry list \<Rightarrow> tool_error + (string \<times> edit_entry list) list" where
  "targetsFromGlob os t w pattern edits =
     (case checkNoNestedBatch edits of Some e \<Rightarrow> Inl e
      | None \<Rightarrow> map_sum id (map (\<lambda>path. (path, edits))) (expandEditGlobPattern os t w pattern))"

definition resolveBatchForm :: "os_env \<Rightarrow> edit_tool \<Rightarrow> world \<Rightarrow> edit_call \<Rightarrow> tool_error + (string \<times> edit_entry list) list" where
  "resolveBatchForm os t w p =
     (if ec_files p \<noteq> [] then
        (case checkBatchExclusivity p True of Some e \<Rightarrow> Inl e | None \<Rightarrow> validateFilesForm (ec_files p))
      else if ec_glob p \<noteq> [] then
        (case checkBatchExclusivity p False of Some e \<Rightarrow> Inl e | None \<Rightarrow> targetsFromGlob os t w (ec_glob p) (ec_edits p))
      else Inr [])"

definition displayPathFor :: "edit_tool \<Rightarrow> string \<Rightarrow> string \<Rightarrow> string" where
  "displayPathFor t resolvedPath originalPath =
     (if originalPath \<noteq> [] then originalPath
      else case Rel (projectRoot t) resolvedPath of None \<Rightarrow> resolvedPath
        | Some rel \<Rightarrow> if has_prefix dotdot rel then resolvedPath else rel)"

record batch_work =
  bw_path :: string
  bw_edits :: "edit_entry list"
  bw_resolved :: string
  bw_target :: string
  bw_note :: string
  bw_trailingNL :: bool
  bw_original :: "string list"
  bw_lines :: "string list"
  bw_matches :: "match_type list"

definition prepareBatchFileWork :: "os_env \<Rightarrow> edit_tool \<Rightarrow> string \<times> edit_entry list \<Rightarrow> batch_work list \<Rightarrow> world \<Rightarrow>
    (file_status \<times> batch_work option) \<times> world" where
  "prepareBatchFileWork os t tgt accepted w0 =
     (let (path, edits) = tgt; (res, original, w) = resolve_path os path w0 in
      case res of None \<Rightarrow> ((FileFail path TResolve, None), w)
      | Some resolved \<Rightarrow>
          (let display = displayPathFor t resolved original;
               fail = (\<lambda>e. ((FileFail display e, None), w))
           in case List.find (\<lambda>a. bw_resolved a = resolved) accepted of
                Some a \<Rightarrow> ((FileSkip display (bw_path a), None), w)
              | None \<Rightarrow>
                  (case readLines os t w resolved original of Inl e \<Rightarrow> fail e
                   | Inr (originalLn, targetPath, fuzzyNote, trailingNL) \<Rightarrow>
                       (case checkBatchLineDrift edits of Some e \<Rightarrow> fail (TOp e)
                        | None \<Rightarrow>
                            (case applyBatchToLines (et_rx t) (et_allowFuzz t) originalLn edits of
                               Inl (i, err, content) \<Rightarrow> fail (wrapMultiEditError i (edits ! i) err content)
                             | Inr (lines, matchTypes) \<Rightarrow>
                                 ((FileOk display (length edits),
                                   Some \<lparr>bw_path = path, bw_edits = edits, bw_resolved = resolved, bw_target = targetPath,
                                     bw_note = fuzzyNote, bw_trailingNL = trailingNL, bw_original = originalLn,
                                     bw_lines = lines, bw_matches = matchTypes\<rparr>), w))))))"

text \<open>The first phase.\<close>

fun prepare_all :: "os_env \<Rightarrow> edit_tool \<Rightarrow> (string \<times> edit_entry list) list \<Rightarrow> batch_work list \<Rightarrow> file_status list \<Rightarrow> world \<Rightarrow>
    batch_work list \<times> file_status list \<times> world" where
  "prepare_all os t [] works statuses w = (works, statuses, w)"
| "prepare_all os t (tgt # targets) works statuses w =
     (let ((st, work), w') = prepareBatchFileWork os t tgt works w
      in prepare_all os t targets (case work of None \<Rightarrow> works | Some a \<Rightarrow> works @ [a]) (statuses @ [st]) w')"

definition is_fail :: "file_status \<Rightarrow> bool" where
  "is_fail s = (case s of FileFail _ _ \<Rightarrow> True | _ \<Rightarrow> False)"

definition skip_notes :: "file_status list \<Rightarrow> string list" where
  "skip_notes statuses = concat (map (\<lambda>s. case s of
     FileSkip display path \<Rightarrow> [''Note: '' @ display @ '' skipped '' @ emdash @ '' same file as '' @ path @ '' '' @ emdash @
       '' edits apply once''] | _ \<Rightarrow> []) statuses)"

definition formatBatchFilesResult :: "nat \<Rightarrow> file_status list \<Rightarrow> string list \<Rightarrow> string list \<Rightarrow> string" where
  "formatBatchFilesResult fileCount statuses notes blocks =
     (let all_notes = notes @ skip_notes statuses in
      ''[edit: '' @ dec fileCount @ '' files] batch applied'' @
      (if all_notes \<noteq> [] then [nl] @ text_of all_notes else []) @ [nl] @ text_of blocks)"

text \<open>The write phase; \<open>written\<close>, \<open>notes\<close> and \<open>blocks\<close> collect.\<close>

fun write_works :: "os_env \<Rightarrow> edit_tool \<Rightarrow> nat \<Rightarrow> batch_work list \<Rightarrow> file_status list \<Rightarrow> string list \<Rightarrow> string list \<Rightarrow> string list \<Rightarrow>
    world \<Rightarrow> (call_error + string) \<times> world" where
  "write_works os t count [] statuses written notes blocks w = (Inr (formatBatchFilesResult count statuses notes blocks), w)"
| "write_works os t count (a # works) statuses written notes blocks w =
     (case writeEditResult os t (bw_target a) (render (bw_lines a) (bw_trailingNL a)) w of
        (Some err, w') \<Rightarrow> (Inl (FilesError (statuses @ [FileFail (bw_path a) err]) written), w')
      | (None, w') \<Rightarrow>
          write_works os t count works statuses (written @ [bw_path a])
            (if bw_note a \<noteq> [] then notes @ [bw_note a] else notes)
            (blocks @ [formatMultiEditResult (bw_path a) (length (bw_edits a)) (bw_matches a)
               (resolvedPathNote (bw_target a) (bw_path a)) (generateUnifiedDiff (bw_original a) (bw_lines a)) []]) w')"

definition writeBatchFileResults :: "os_env \<Rightarrow> edit_tool \<Rightarrow> batch_work list \<Rightarrow> file_status list \<Rightarrow> world \<Rightarrow> (call_error + string) \<times> world" where
  "writeBatchFileResults os t works statuses w = write_works os t (length works) works statuses [] [] [] w"

definition executeBatchFiles :: "os_env \<Rightarrow> edit_tool \<Rightarrow> (string \<times> edit_entry list) list \<Rightarrow> world \<Rightarrow> (call_error + string) \<times> world" where
  "executeBatchFiles os t targets w =
     (let (works, statuses, w') = prepare_all os t targets [] [] w in
      if list_ex is_fail statuses then (Inl (FilesError statuses []), w')
      else writeBatchFileResults os t works statuses w')"

section \<open>The call\<close>

definition single_result :: "(tool_error + string) \<times> world \<Rightarrow> (call_error + string) \<times> world" where
  "single_result r = (map_sum CallError id (fst r), snd r)"

definition Execute :: "os_env \<Rightarrow> edit_tool \<Rightarrow> edit_call \<Rightarrow> world \<Rightarrow> (call_error + string) \<times> world" where
  "Execute os t p w0 =
     (if ec_files p \<noteq> [] \<or> ec_glob p \<noteq> [] then
        (case resolveBatchForm os t w0 p of Inl e \<Rightarrow> (Inl (CallError e), w0)
         | Inr targets \<Rightarrow> executeBatchFiles os t targets w0)
      else let e = ec_edit p; path = (if ee_path e = [] then batchEntryPath (ec_edits p) else ee_path e) in
        if path = [] then (Inl (CallError TMissingPath), w0)
        else case checkEntryPaths path (ec_edits p) of Some err \<Rightarrow> (Inl (CallError err), w0)
        | None \<Rightarrow>
            (let (res, original, w) = resolve_path os path w0 in
             case res of None \<Rightarrow> (Inl (CallError TProtected), w)
             | Some resolved \<Rightarrow>
                 single_result
                   (if ec_edits p \<noteq> [] then executeMulti os t resolved original path (ec_edits p) w
                    else if ee_operation e = OpReplace \<or> ee_old e \<noteq> [] then
                      (case validateReplacePair (ee_old e) (ee_new e) of Some err \<Rightarrow> (Inl (TOp err), w)
                       | None \<Rightarrow> searchReplace os t resolved original (ee_old e) (ee_new e) w)
                    else editByOperation os t resolved original path e w)))"

end
