(* ===== verification/Edit_Safety.thy ===== *)
theory Edit_Safety
  imports Edit_Tool
begin

text \<open>
  What a call of the edit tool does to the disk: a success has the new content on disk and touches
  nothing else, a failure before the write touches nothing, a batch over several files writes all of
  them or says which. The content itself is what a pure function makes of the text that was read.
\<close>

section \<open>The content a call asks for\<close>

definition batch_text :: "edit_tool \<Rightarrow> edit_entry list \<Rightarrow> string \<Rightarrow> tool_error + string" where
  "batch_text t edits data =
     (case checkBatchLineDrift edits of Some e \<Rightarrow> Inl (TOp e)
      | None \<Rightarrow>
          (case applyBatchToLines (et_rx t) (et_allowFuzz t) (splitLines data) edits of
             Inl (i, err, content) \<Rightarrow> Inl (wrapMultiEditError i (edits ! i) err content)
           | Inr (lines, _) \<Rightarrow> Inr (render lines (has_suffix [nl] data))))"

definition operation_text :: "edit_tool \<Rightarrow> edit_entry \<Rightarrow> string \<Rightarrow> tool_error + string" where
  "operation_text t e data =
     (let op = ee_operation e in
      if op = [] then Inl (TOp EMissingParameter)
      else case resolveOpContent op e of Inl err \<Rightarrow> Inl (TOp err)
        | Inr (new, _) \<Rightarrow> (case runOp (et_rx t) (splitLines data) op (entry_params op e new) of Inl err \<Rightarrow> Inl (TOp err)
            | Inr (lines, _) \<Rightarrow> Inr (render lines (has_suffix [nl] data))))"

definition replace_text :: "edit_tool \<Rightarrow> edit_entry \<Rightarrow> string \<Rightarrow> tool_error + string" where
  "replace_text t e data =
     (case validateReplacePair (ee_old e) (ee_new e) of Some err \<Rightarrow> Inl (TOp err)
      | None \<Rightarrow> (case fuzzyEdit data (ee_old e) (ee_new e) (et_allowFuzz t) of
          Inl err \<Rightarrow> Inl (TSearch err (analyzeBlockMatch data (ee_old e))) | Inr r \<Rightarrow> Inr (ed_content r)))"

definition new_text :: "edit_tool \<Rightarrow> edit_call \<Rightarrow> string \<Rightarrow> tool_error + string" where
  "new_text t p data =
     (let e = ec_edit p in
      if ec_edits p \<noteq> [] then batch_text t (ec_edits p) data
      else if ee_operation e = OpReplace \<or> ee_old e \<noteq> [] then replace_text t e data
      else operation_text t e data)"

definition call_path :: "edit_call \<Rightarrow> string" where
  "call_path p = (if ee_path (ec_edit p) = [] then batchEntryPath (ec_edits p) else ee_path (ec_edit p))"

section \<open>Writes\<close>

text \<open>The files the snapshot of an edit writes.\<close>

definition backup_files :: "os_env \<Rightarrow> edit_tool \<Rightarrow> string \<Rightarrow> string set" where
  "backup_files os t path =
     (case et_backupDir t of None \<Rightarrow> {}
      | Some dir \<Rightarrow> insert (os_file os (Join dir ''.gitignore''))
          (case BackupPath dir path (et_projectDir t) of None \<Rightarrow> {} | Some b \<Rightarrow> {os_file os b}))"

definition same_disk :: "world \<Rightarrow> world \<Rightarrow> bool" where
  "same_disk w w' \<longleftrightarrow> w_disk w' = w_disk w \<and> w_writes w' = w_writes w \<and> w_changed w' = w_changed w"

lemma same_disk_simps [simp]: "same_disk w w" "same_disk w (w\<lparr>w_worktree := m\<rparr>)"
  by (simp_all add: same_disk_def)

lemma same_disk_trans [trans]: "same_disk u v \<Longrightarrow> same_disk v w \<Longrightarrow> same_disk u w"
  by (simp add: same_disk_def)

lemma same_disk_read: "same_disk w w' \<Longrightarrow> ReadFile os w' p = ReadFile os w p"
  by (simp add: same_disk_def ReadFile_def)

lemma same_disk_fallback:
  "same_disk w w' \<Longrightarrow> ReadFileWithFuzzyFallback os w' fz r p = ReadFileWithFuzzyFallback os w fz r p"
proof -
  assume s: "same_disk w w'"
  have "ReadFile os w' = ReadFile os w" by (rule ext) (rule same_disk_read [OF s])
  show ?thesis unfolding ReadFileWithFuzzyFallback_def \<open>ReadFile os w' = ReadFile os w\<close> ..
qed

lemma resolve_same: "resolve_path os path w = (r, orig, w') \<Longrightarrow> same_disk w w'"
  by (auto simp: resolve_path_def split: prod.splits)

lemma stage_other:
  assumes "StageBeforeEdit os dir path project w = (ok, w')"
    "f \<noteq> os_file os (Join dir ''.gitignore'')" "\<And>b. BackupPath dir path project = Some b \<Longrightarrow> f \<noteq> os_file os b"
  shows "w_disk w' f = w_disk w f"
proof -
  have ig: "w_disk (ensureSelfIgnored os dir w) f = w_disk w f"
  proof -
    obtain ok wi where wi: "WriteFile os (Join dir ''.gitignore'') (''*'' @ [nl]) w = (ok, wi)" by fastforce
    from WriteFile_other [OF wi assms(2)] wi show ?thesis by (simp add: ensureSelfIgnored_def Let_def)
  qed
  show ?thesis
    using assms(1,3) ig WriteFile_other [of os _ _ "ensureSelfIgnored os dir w" _ _ f]
    by (auto simp: StageBeforeEdit_def split: sum.splits option.splits if_splits)
qed

lemma write_other:
  assumes "writeEditResult os t path content w = (r, w')" "f \<noteq> os_file os path" "f \<notin> backup_files os t path"
  shows "w_disk w' f = w_disk w f"
proof -
  let ?w1 = "case et_backupDir t of None \<Rightarrow> w | Some dir \<Rightarrow> snd (StageBeforeEdit os dir path (et_projectDir t) w)"
  obtain v w2 where w2: "WriteFileVerified os path content ?w1 = (v, w2)" "w_disk w' = w_disk w2"
    using assms(1) by (auto simp: writeEditResult_def Let_def split: prod.splits option.splits write_failure.splits if_splits)
  have "w_disk ?w1 f = w_disk w f"
  proof (cases "et_backupDir t")
    case (Some dir)
    obtain ok ws where st: "StageBeforeEdit os dir path (et_projectDir t) w = (ok, ws)" by fastforce
    have "f \<noteq> os_file os (Join dir ''.gitignore'')" "\<And>b. BackupPath dir path (et_projectDir t) = Some b \<Longrightarrow> f \<noteq> os_file os b"
      using assms(3) Some by (auto simp: backup_files_def)
    from stage_other [OF st this] show ?thesis using Some st by simp
  qed simp
  with verified_other [OF w2(1) assms(2)] w2(2) show ?thesis by simp
qed

lemma write_ok:
  assumes "writeEditResult os t path content w = (None, w')"
  shows "ReadFile os w' path = Inr content"
proof -
  obtain w1 w2 where w2: "WriteFileVerified os path content w1 = (None, w2)" "w_disk w' = w_disk w2"
    using assms by (auto simp: writeEditResult_def Let_def split: prod.splits option.splits write_failure.splits if_splits)
  from verified_write(1) [OF w2(1)] w2(2) show ?thesis by (simp add: ReadFile_def split: if_splits)
qed

text \<open>The write of an edit is a writer of this kind; besides its file it touches those of its snapshot.\<close>

interpretation edits: verified_writer "writeEditResult os t" "ReadFile os" w_disk "os_file os" "backup_files os t" for os t
  by unfold_locales (auto intro: write_ok write_other ReadFile_disk)

lemma write_err: "writeEditResult os t path content w = (Some err, w') \<Longrightarrow> err = TWriteError \<or> err = TVerifyFailed"
  by (auto simp: writeEditResult_def Let_def split: prod.splits option.splits write_failure.splits)

text \<open>A file operation: read the target, make the new text, write it.\<close>

definition run_text :: "os_env \<Rightarrow> edit_tool \<Rightarrow> string \<Rightarrow> string \<Rightarrow> (string \<Rightarrow> tool_error + string) \<Rightarrow> world \<Rightarrow>
    (tool_error + unit) \<times> world \<Rightarrow> bool" where
  "run_text os t resolved original text w = (\<lambda>(res, w').
     (case ReadFileWithFuzzyFallback os w (et_fuzzyMatch t) resolved original of
        Inl _ \<Rightarrow> (\<exists>e. res = Inl e \<and> e \<noteq> TWriteError \<and> e \<noteq> TVerifyFailed) \<and> w' = w
      | Inr (target, data) \<Rightarrow>
          (case text data of Inl e \<Rightarrow> (\<exists>e. res = Inl e \<and> e \<noteq> TWriteError \<and> e \<noteq> TVerifyFailed) \<and> w' = w
           | Inr new \<Rightarrow> (\<exists>r. writeEditResult os t target new w = (r, w') \<and>
               res = (case r of None \<Rightarrow> Inr () | Some e \<Rightarrow> Inl e)))))"

definition outcome :: "(tool_error + string) \<times> world \<Rightarrow> (tool_error + unit) \<times> world" where
  "outcome r = (map_sum id (\<lambda>_. ()) (fst r), snd r)"

lemma read_error_kind [simp]: "read_error e \<noteq> TWriteError" "read_error e \<noteq> TVerifyFailed"
  "TWriteError \<noteq> read_error e" "TVerifyFailed \<noteq> read_error e"
  by (cases e; simp add: read_error_def)+

lemma wrap_error_kind [simp]: "wrapMultiEditError i e err c \<noteq> TWriteError" "wrapMultiEditError i e err c \<noteq> TVerifyFailed"
  by (simp_all add: wrapMultiEditError_def)

lemma multi_text: "run_text os t r p (batch_text t edits) w (outcome (executeMulti os t r p path edits w))"
  by (auto simp: run_text_def outcome_def executeMulti_def readLines_def batch_text_def
      split: sum.splits option.splits prod.splits)

lemma search_text:
  "validateReplacePair (ee_old e) (ee_new e) = None \<Longrightarrow>
     run_text os t r p (replace_text t e) w (outcome (searchReplace os t r p (ee_old e) (ee_new e) w))"
  by (auto simp: run_text_def outcome_def searchReplace_def replace_text_def Let_def
      split: sum.splits option.splits prod.splits)

lemma operation_result:
  "run_text os t r p (operation_text t e) w (outcome (editByOperation os t r p path e w))"
  by (auto simp: run_text_def outcome_def editByOperation_def readLines_def operation_text_def Let_def
      split: sum.splits option.splits prod.splits)

section \<open>One file\<close>

definition soft :: "tool_error \<Rightarrow> bool" where "soft e \<longleftrightarrow> e \<noteq> TWriteError \<and> e \<noteq> TVerifyFailed"

lemma run_text_ok:
  assumes "run_text os t r orig text w (outcome (Inr m, w'))"
  shows "\<exists>target data new. ReadFileWithFuzzyFallback os w (et_fuzzyMatch t) r orig = Inr (target, data) \<and>
    text data = Inr new \<and> writeEditResult os t target new w = (None, w')"
proof (cases "ReadFileWithFuzzyFallback os w (et_fuzzyMatch t) r orig")
  case (Inr td)
  then obtain target data where td: "ReadFileWithFuzzyFallback os w (et_fuzzyMatch t) r orig = Inr (target, data)" by (cases td) auto
  with assms obtain new where "text data = Inr new" by (cases "text data") (auto simp: run_text_def outcome_def)
  with td assms show ?thesis by (auto simp: run_text_def outcome_def split: option.splits)
qed (use assms in \<open>auto simp: run_text_def outcome_def\<close>)

lemma run_text_err:
  assumes "run_text os t r orig text w (outcome (Inl e, w'))" "e \<noteq> TWriteError" "e \<noteq> TVerifyFailed"
  shows "w' = w"
proof (cases "ReadFileWithFuzzyFallback os w (et_fuzzyMatch t) r orig")
  case (Inr td)
  then obtain target data where td: "ReadFileWithFuzzyFallback os w (et_fuzzyMatch t) r orig = Inr (target, data)" by (cases td) auto
  show ?thesis
  proof (cases "text data")
    case (Inr new)
    with td assms show ?thesis using write_err by (fastforce simp: run_text_def outcome_def split: option.splits)
  qed (use assms(1) td in \<open>auto simp: run_text_def outcome_def\<close>)
qed (use assms(1) in \<open>auto simp: run_text_def outcome_def\<close>)

lemma execute_single:
  assumes "Execute os t p w = (res, w')" "ec_files p = []" "ec_glob p = []"
  shows "(\<exists>e. res = Inl (CallError e) \<and> soft e \<and> same_disk w w') \<or>
    (\<exists>r orig w0 out. resolve_path os (call_path p) w = (Some r, orig, w0) \<and> (res, w') = single_result out \<and>
       run_text os t r orig (new_text t p) w0 (outcome out))"
proof -
  let ?e = "ec_edit p" and ?path = "call_path p"
  obtain r orig w0 where rp: "resolve_path os ?path w = (r, orig, w0)" by (metis prod_cases3)
  note E = assms(1) [unfolded Execute_def Let_def, folded call_path_def, unfolded rp]
  show ?thesis
  proof (cases "?path = [] \<or> checkEntryPaths ?path (ec_edits p) \<noteq> None \<or> r = None")
    case True
    then show ?thesis using E assms(2,3) resolve_same [OF rp]
      by (auto simp: soft_def checkEntryPaths_def split: if_splits option.splits)
  next
    case False
    then obtain r' where r': "r = Some r'" by auto
    consider (multi) "ec_edits p \<noteq> []"
      | (bad) err where "ec_edits p = []" "ee_operation ?e = OpReplace \<or> ee_old ?e \<noteq> []"
          "validateReplacePair (ee_old ?e) (ee_new ?e) = Some err"
      | (search) "ec_edits p = []" "ee_operation ?e = OpReplace \<or> ee_old ?e \<noteq> []"
          "validateReplacePair (ee_old ?e) (ee_new ?e) = None"
      | (op) "ec_edits p = []" "\<not> (ee_operation ?e = OpReplace \<or> ee_old ?e \<noteq> [])" by blast
    then show ?thesis
    proof cases
      case multi
      then have "(res, w') = single_result (executeMulti os t r' orig ?path (ec_edits p) w0)"
        using E False assms(2,3) r' by simp
      moreover have "new_text t p = batch_text t (ec_edits p)" using multi by (simp add: new_text_def fun_eq_iff)
      ultimately show ?thesis using rp r' multi_text by metis
    next
      case bad
      then show ?thesis using E False assms(2,3) r' resolve_same [OF rp] by (auto simp: single_result_def soft_def)
    next
      case search
      then have "(res, w') = single_result (searchReplace os t r' orig (ee_old ?e) (ee_new ?e) w0)"
        using E False assms(2,3) r' by auto
      moreover have "new_text t p = replace_text t ?e" using search by (auto simp: new_text_def fun_eq_iff)
      ultimately show ?thesis using rp r' search_text [OF search(3)] by metis
    next
      case op
      then have "(res, w') = single_result (editByOperation os t r' orig ?path ?e w0)"
        using E False assms(2,3) r' by simp
      moreover have "new_text t p = operation_text t ?e" using op by (simp add: new_text_def fun_eq_iff)
      ultimately show ?thesis using rp r' operation_result by metis
    qed
  qed
qed

text \<open>C1: A call on one file that reports success has done what it was asked: the path resolves to a file that
  could be read (or to the closest name when there is none), that file now holds exactly the text the
  edits make of what it held, and no other file but the snapshot has changed.\<close>

theorem edit_success_is_on_disk:
  assumes "Execute os t p w = (Inr msg, w')" "ec_files p = []" "ec_glob p = []"
  shows "\<exists>resolved original w0 target data new. resolve_path os (call_path p) w = (Some resolved, original, w0) \<and>
    ReadFileWithFuzzyFallback os w (et_fuzzyMatch t) resolved original = Inr (target, data) \<and>
    new_text t p data = Inr new \<and> ReadFile os w' target = Inr new \<and>
    (\<forall>f. f \<noteq> os_file os target \<and> f \<notin> backup_files os t target \<longrightarrow> w_disk w' f = w_disk w f)"
proof -
  from execute_single [OF assms] obtain r orig w0 out where o: "resolve_path os (call_path p) w = (Some r, orig, w0)"
    "(Inr msg, w') = single_result out" "run_text os t r orig (new_text t p) w0 (outcome out)" by auto
  obtain m where out: "out = (Inr m, w')" using o(2) by (cases out; cases "fst out") (auto simp: single_result_def)
  from o(3) obtain target data new where x: "ReadFileWithFuzzyFallback os w0 (et_fuzzyMatch t) r orig = Inr (target, data)"
    "new_text t p data = Inr new" "writeEditResult os t target new w0 = (None, w')"
    unfolding out using run_text_ok by blast
  note s = resolve_same [OF o(1)]
  from write_other [OF x(3)] s have "\<forall>f. f \<noteq> os_file os target \<and> f \<notin> backup_files os t target \<longrightarrow> w_disk w' f = w_disk w f"
    by (simp add: same_disk_def)
  with o(1) x(1,2) write_ok [OF x(3)] same_disk_fallback [OF s] show ?thesis by metis
qed

section \<open>Several files\<close>

lemma prepare_same: "prepareBatchFileWork os t tgt acc w = (r, w') \<Longrightarrow> same_disk w w'"
  using resolve_same
  by (auto simp: prepareBatchFileWork_def Let_def split: prod.splits option.splits sum.splits)

definition bw_text :: "batch_work \<Rightarrow> string" where
  "bw_text a = render (bw_lines a) (bw_trailingNL a)"

text \<open>A work item holds what its edits make of the file it was read from.\<close>

definition work_of :: "os_env \<Rightarrow> edit_tool \<Rightarrow> world \<Rightarrow> batch_work \<Rightarrow> bool" where
  "work_of os t w a \<longleftrightarrow> (\<exists>data. ReadFile os w (bw_target a) = Inr data \<and> batch_text t (bw_edits a) data = Inr (bw_text a))"

lemma prepare_work:
  assumes "prepareBatchFileWork os t tgt acc w = ((st, Some a), w')"
  shows "work_of os t w a \<and> \<not> is_fail st \<and> bw_path a = fst tgt \<and> bw_edits a = snd tgt"
proof -
  obtain path edits where tgt: "tgt = (path, edits)" by (cases tgt)
  obtain res orig w0 where r: "resolve_path os path w = (res, orig, w0)" by (metis prod_cases3)
  from assms r tgt obtain resolved data target lines mts where x: "res = Some resolved"
    "ReadFileWithFuzzyFallback os w0 (et_fuzzyMatch t) resolved orig = Inr (target, data)"
    "checkBatchLineDrift edits = None" "applyBatchToLines (et_rx t) (et_allowFuzz t) (splitLines data) edits = Inr (lines, mts)"
    "bw_target a = target" "bw_edits a = edits" "bw_lines a = lines" "bw_trailingNL a = has_suffix [nl] data"
    "\<not> is_fail st" "bw_path a = path"
    by (auto simp: prepareBatchFileWork_def readLines_def Let_def is_fail_def split: option.splits sum.splits prod.splits)
  have "ReadFile os w target = Inr data"
    using fallback_read [OF x(2)] same_disk_read [OF resolve_same [OF r]] by simp
  with x tgt show ?thesis by (auto simp: work_of_def batch_text_def bw_text_def)
qed

lemma prepare_err:
  "prepareBatchFileWork os t tgt acc w = ((FileFail d e, a), w') \<Longrightarrow> soft e"
  by (auto simp: prepareBatchFileWork_def readLines_def Let_def soft_def split: prod.splits option.splits sum.splits)

lemma work_of_same: "same_disk w w' \<Longrightarrow> work_of os t w' a = work_of os t w a"
  by (simp add: work_of_def same_disk_read)

lemma prepare_all_spec:
  assumes "prepare_all os t targets works sts w = (works', sts', w')" "\<forall>a\<in>set works. work_of os t w a"
    "\<forall>d e. FileFail d e \<in> set sts \<longrightarrow> soft e"
  shows "same_disk w w' \<and> (\<forall>a\<in>set works'. work_of os t w a) \<and> (\<forall>d e. FileFail d e \<in> set sts' \<longrightarrow> soft e)"
  using assms
proof (induction targets arbitrary: works sts w)
  case (Cons tgt targets)
  obtain st a w0 where p: "prepareBatchFileWork os t tgt works w = ((st, a), w0)" by (metis prod_cases3 prod.collapse)
  note s = prepare_same [OF p]
  let ?ws = "case a of None \<Rightarrow> works | Some b \<Rightarrow> works @ [b]"
  have "\<forall>b\<in>set ?ws. work_of os t w0 b"
    using Cons.prems(2) prepare_work [of os t tgt works w st _ w0] p work_of_same [OF s] by (auto split: option.splits)
  moreover have "\<forall>d e. FileFail d e \<in> set (sts @ [st]) \<longrightarrow> soft e" proof -
    have "soft e" if "st = FileFail d e" for d e using p prepare_err unfolding that by blast
    with Cons.prems(3) show ?thesis by auto
  qed
  moreover have "prepare_all os t targets ?ws (sts @ [st]) w0 = (works', sts', w')" using Cons.prems(1) p by simp
  ultimately have "same_disk w0 w' \<and> (\<forall>a\<in>set works'. work_of os t w0 a) \<and> (\<forall>d e. FileFail d e \<in> set sts' \<longrightarrow> soft e)"
    by (intro Cons.IH) auto
  with s show ?case using same_disk_trans work_of_same by blast
qed simp

definition call_error_soft :: "call_error \<Rightarrow> bool" where
  "call_error_soft e = (case e of CallError e \<Rightarrow> soft e
     | FilesError sts _ \<Rightarrow> list_all (\<lambda>s. case s of FileFail _ e \<Rightarrow> soft e | _ \<Rightarrow> True) sts)"

lemma write_works_err:
  "write_works os t n works sts wr ns bs w = (Inl err, w') \<Longrightarrow> \<not> call_error_soft err"
  by (induction works arbitrary: wr ns bs w)
    (auto simp: call_error_soft_def soft_def split: prod.splits option.splits dest: write_err)

text \<open>C7: A call that fails before its write, on one file or on several, has changed no file, taken no snapshot
  and notified nobody: the only failures that leave a trace are those of a write and of reading it back.\<close>

theorem failed_edit_writes_nothing:
  assumes "Execute os t p w = (Inl err, w')" "call_error_soft err"
  shows "w_disk w' = w_disk w \<and> w_writes w' = w_writes w \<and> w_changed w' = w_changed w"
proof (cases "ec_files p = [] \<and> ec_glob p = []")
  case True
  with execute_single [OF assms(1)] consider "same_disk w w'"
    | r orig w0 out where "resolve_path os (call_path p) w = (Some r, orig, w0)"
      "(Inl err, w') = single_result out" "run_text os t r orig (new_text t p) w0 (outcome out)" by auto
  then show ?thesis
  proof cases
    case 2
    then obtain e where out: "out = (Inl e, w')" "err = CallError e" by (cases out; cases "fst out") (auto simp: single_result_def)
    with assms(2) have "e \<noteq> TWriteError" "e \<noteq> TVerifyFailed" by (auto simp: call_error_soft_def soft_def)
    then have "w' = w0" using 2(3) run_text_err unfolding out(1) by blast
    with resolve_same [OF 2(1)] show ?thesis by (simp add: same_disk_def)
  qed (simp add: same_disk_def)
next
  case False
  then have E: "(case resolveBatchForm os t w p of Inl e \<Rightarrow> (Inl (CallError e), w) | Inr ts \<Rightarrow> executeBatchFiles os t ts w) = (Inl err, w')"
    using assms(1) by (simp add: Execute_def)
  show ?thesis
  proof (cases "resolveBatchForm os t w p")
    case (Inr ts)
    obtain works sts w0 where pr: "prepare_all os t ts [] [] w = (works, sts, w0)" by (metis prod_cases3)
    from prepare_all_spec [OF pr] have "same_disk w w0" by simp
    moreover have "w' = w0" using E Inr pr assms(2) write_works_err
      by (auto simp: executeBatchFiles_def writeBatchFileResults_def split: if_splits)
    ultimately show ?thesis by (simp add: same_disk_def)
  qed (use E in simp)
qed

section \<open>The write phase\<close>

definition touched :: "os_env \<Rightarrow> edit_tool \<Rightarrow> batch_work \<Rightarrow> string set" where
  "touched os t a = insert (os_file os (bw_target a)) (backup_files os t (bw_target a))"

text \<open>The targets are different files and no snapshot is one of them.\<close>

definition separate :: "os_env \<Rightarrow> edit_tool \<Rightarrow> batch_work list \<Rightarrow> bool" where
  "separate os t works \<longleftrightarrow> distinct (map (\<lambda>a. os_file os (bw_target a)) works) \<and>
     (\<forall>a\<in>set works. \<forall>b\<in>set works. os_file os (bw_target b) \<notin> backup_files os t (bw_target a))"

lemma write_works_all:
  assumes "write_works os t n works sts wr ns bs w = (res, w')"
  shows "\<exists>k e. write_all (writeEditResult os t) (map (\<lambda>a. (bw_target a, bw_text a)) works) w = (k, e, w') \<and>
    (case res of Inr _ \<Rightarrow> e = None | Inl err \<Rightarrow> e \<noteq> None \<and> (\<exists>s. err = FilesError s (wr @ map bw_path (take k works))))"
  using assms
proof (induction works arbitrary: wr ns bs w)
  case (Cons a works)
  obtain r w0 where wr: "writeEditResult os t (bw_target a) (bw_text a) w = (r, w0)" by fastforce
  show ?case
  proof (cases r)
    case None
    obtain ns' bs' where ww: "write_works os t n works sts (wr @ [bw_path a]) ns' bs' w0 = (res, w')"
      using Cons.prems wr None by (auto simp: bw_text_def)
    from Cons.IH [OF ww] obtain k e where k: "write_all (writeEditResult os t) (map (\<lambda>a. (bw_target a, bw_text a)) works) w0 = (k, e, w')"
      "case res of Inr _ \<Rightarrow> e = None | Inl err \<Rightarrow> e \<noteq> None \<and> (\<exists>s. err = FilesError s ((wr @ [bw_path a]) @ map bw_path (take k works)))"
      by blast
    have "case res of Inr _ \<Rightarrow> e = None | Inl err \<Rightarrow> e \<noteq> None \<and> (\<exists>s. err = FilesError s (wr @ map bw_path (take (Suc k) (a # works))))"
      using k(2) by (cases res) simp_all
    with k(1) wr None show ?thesis by auto
  qed (use Cons.prems wr in \<open>auto simp: bw_text_def\<close>)
qed auto

lemma write_works_spec:
  assumes "write_works os t n works sts wr ns bs w = (res, w')" "separate os t works"
  shows "\<exists>pre post. works = pre @ post \<and> (\<forall>a\<in>set pre. ReadFile os w' (bw_target a) = Inr (bw_text a)) \<and>
    (\<forall>f. (\<forall>a\<in>set (pre @ take 1 post). f \<notin> touched os t a) \<longrightarrow> w_disk w' f = w_disk w f) \<and>
    (case res of Inr _ \<Rightarrow> post = [] | Inl e \<Rightarrow> post \<noteq> [] \<and> (\<exists>s. e = FilesError s (wr @ map bw_path pre)))"
proof -
  let ?jobs = "map (\<lambda>a. (bw_target a, bw_text a)) works"
  from write_works_all [OF assms(1)] obtain k e where w: "write_all (writeEditResult os t) ?jobs w = (k, e, w')"
    and r: "case res of Inr _ \<Rightarrow> e = None | Inl err \<Rightarrow> e \<noteq> None \<and> (\<exists>s. err = FilesError s (wr @ map bw_path (take k works)))"
    by blast
  have "distinct (map (os_file os \<circ> fst) ?jobs)" "\<forall>j\<in>set ?jobs. \<forall>i\<in>set ?jobs. os_file os (fst i) \<notin> backup_files os t (fst j)"
    using assms(2) by (auto simp: separate_def comp_def)
  from edits.write_all_written [OF w this] have k: "k \<le> length works" "e = None \<longleftrightarrow> k = length works"
    "\<forall>a\<in>set (take k works). ReadFile os w' (bw_target a) = Inr (bw_text a)" by (auto simp: take_map)
  have "take k works @ take 1 (drop k works) = take (Suc k) works" by (simp add: take_add [symmetric])
  with edits.write_all_others [OF w]
  have o: "\<forall>f. (\<forall>a\<in>set (take k works @ take 1 (drop k works)). f \<notin> touched os t a) \<longrightarrow> w_disk w' f = w_disk w f"
    by (auto simp: take_map touched_def)
  have "case res of Inr _ \<Rightarrow> drop k works = [] | Inl e \<Rightarrow> drop k works \<noteq> [] \<and> (\<exists>s. e = FilesError s (wr @ map bw_path (take k works)))"
    using r k(1,2) by (cases res) auto
  with k(3) o show ?thesis by (intro exI [of _ "take k works"] exI [of _ "drop k works"]) simp
qed


text \<open>Every target that is not a duplicate is one of the works, with its own edits.\<close>

lemma prepare_all_works:
  assumes "prepare_all os t targets works sts w = (works', sts', w')"
  shows "\<exists>new. works' = works @ new \<and> subseq (map (\<lambda>a. (bw_path a, bw_edits a)) new) targets"
  using assms
proof (induction targets arbitrary: works sts w)
  case (Cons tgt targets)
  obtain st a w0 where p: "prepareBatchFileWork os t tgt works w = ((st, a), w0)" by (metis prod_cases3 prod.collapse)
  show ?case
  proof (cases a)
    case None
    with Cons p show ?thesis by fastforce
  next
    case (Some b)
    from Cons.prems p Some have "prepare_all os t targets (works @ [b]) (sts @ [st]) w0 = (works', sts', w')" by simp
    from Cons.IH [OF this] obtain new where "works' = works @ b # new"
      "subseq (map (\<lambda>a. (bw_path a, bw_edits a)) new) targets" by auto
    moreover have "(bw_path b, bw_edits b) = tgt" using prepare_work [of os t tgt works w st b w0] p Some by simp
    ultimately show ?thesis by (intro exI [of _ "b # new"]) auto
  qed
qed simp

section \<open>Targets that are the same file\<close>

definition demo_tool :: edit_tool where
  "demo_tool = \<lparr>et_projectDir = ''/p'', et_backupDir = None, et_allowFuzz = False, et_fuzzyMatch = None,
     et_rx = literal_regex, et_notify = True\<rparr>"

definition demo_os :: os_env where
  "demo_os = plain_os\<lparr>os_tree := (\<lambda>d. if d = ''/p'' then Some (DirEntry ''p'' [FileEntry ''main.go'']) else None)\<rparr>"

definition demo_edit :: "string \<Rightarrow> string \<Rightarrow> edit_entry" where
  "demo_edit old new = (entry OpReplace)\<lparr>ee_old := old, ee_new := new\<rparr>"

definition demo_call :: "(string \<times> edit_entry list) list \<Rightarrow> edit_call" where
  "demo_call files = \<lparr>ec_edit = entry [], ec_edits = [], ec_files = files, ec_glob = []\<rparr>"

definition demo_world :: world where
  "demo_world = start_world [''/p/main.go'' \<mapsto> ''a'' @ [nl] @ ''b'' @ [nl]]"

text \<open>The duplicate check compares the paths before the closest name is taken and as they are spelled. Two
  targets that fall back to the same file, or name it by two spellings, are both edited from the old
  text: the call reports success for both, and the edits of the first are gone.\<close>

theorem same_file_twice_loses_edit:
  "(let (res, w) = Execute demo_os demo_tool (demo_call [(''mian.go'', [demo_edit ''a'' ''A'']), (''maim.go'', [demo_edit ''b'' ''B''])]) demo_world
    in (\<exists>msg. res = Inr msg) \<and> ReadFile demo_os w ''/p/main.go'' = Inr (''a'' @ [nl] @ ''B'' @ [nl])) \<and>
   (let (res, w) = Execute demo_os demo_tool (demo_call [(''/p/main.go'', [demo_edit ''a'' ''A'']), (''/p/./main.go'', [demo_edit ''b'' ''B''])]) demo_world
    in (\<exists>msg. res = Inr msg) \<and> ReadFile demo_os w ''/p/main.go'' = Inr (''a'' @ [nl] @ ''B'' @ [nl]))"
proof -
  have r: "(\<exists>m. x = Inr m) \<longleftrightarrow> \<not> isl x" for x :: "call_error + string" by (cases x) auto
  show ?thesis unfolding r by code_simp
qed

section \<open>Witnesses\<close>

definition single_call :: "string \<Rightarrow> edit_entry \<Rightarrow> edit_call" where
  "single_call path e = \<lparr>ec_edit = e\<lparr>ee_path := path\<rparr>, ec_edits = [], ec_files = [], ec_glob = []\<rparr>"

theorem edit_success_is_on_disk_witness:
  "\<exists>msg w' target new. Execute demo_os demo_tool (single_call ''mian.go'' (demo_edit ''a'' ''A'')) demo_world = (Inr msg, w') \<and>
     ReadFile demo_os w' target = Inr new \<and> target = ''/p/main.go'' \<and> new = ''A'' @ [nl] @ ''b'' @ [nl]"
proof -
  let ?p = "single_call ''mian.go'' (demo_edit ''a'' ''A'')"
  have "\<not> isl (fst (Execute demo_os demo_tool ?p demo_world))" by code_simp
  then obtain msg w' where x: "Execute demo_os demo_tool ?p demo_world = (Inr msg, w')"
    by (cases "Execute demo_os demo_tool ?p demo_world"; cases "fst (Execute demo_os demo_tool ?p demo_world)") auto
  have "ec_files ?p = []" "ec_glob ?p = []" by (simp_all add: single_call_def)
  from edit_success_is_on_disk [OF x this] obtain r orig w0 target data new where
    y: "resolve_path demo_os (call_path ?p) demo_world = (Some r, orig, w0)"
      "ReadFileWithFuzzyFallback demo_os demo_world (et_fuzzyMatch demo_tool) r orig = Inr (target, data)"
      "new_text demo_tool ?p data = Inr new" "ReadFile demo_os w' target = Inr new" by auto
  have "map_prod id fst (resolve_path demo_os (call_path ?p) demo_world) = (Some ''/p/mian.go'', ''mian.go'')" by code_simp
  with y(1) have "r = ''/p/mian.go''" "orig = ''mian.go''" by auto
  moreover have "ReadFileWithFuzzyFallback demo_os demo_world (et_fuzzyMatch demo_tool) ''/p/mian.go'' ''mian.go'' =
      Inr (''/p/main.go'', ''a'' @ [nl] @ ''b'' @ [nl])" by code_simp
  ultimately have "target = ''/p/main.go''" "data = ''a'' @ [nl] @ ''b'' @ [nl]" using y(2) by auto
  moreover have "new_text demo_tool ?p (''a'' @ [nl] @ ''b'' @ [nl]) = Inr (''A'' @ [nl] @ ''b'' @ [nl])" by code_simp
  ultimately show ?thesis using x y(3,4) by auto
qed

theorem failed_edit_writes_nothing_witness:
  "\<exists>err w'. Execute demo_os demo_tool (demo_call [(''main.go'', [demo_edit ''a'' ''A'']), (''main.go'', [])]) demo_world = (Inl err, w') \<and>
     w_disk w' = w_disk demo_world"
proof -
  let ?p = "demo_call [(''main.go'', [demo_edit ''a'' ''A'']), (''main.go'', [])]"
  have x: "Execute demo_os demo_tool ?p demo_world = (Inl (CallError (TFilesMissingEdits 1)), demo_world)"
  proof -
    have "resolveBatchForm demo_os demo_tool demo_world ?p = Inl (TFilesMissingEdits 1)" by code_simp
    moreover have "ec_files ?p \<noteq> []" by (simp add: demo_call_def)
    ultimately show ?thesis by (simp add: Execute_def)
  qed
  have "call_error_soft (CallError (TFilesMissingEdits 1))" by code_simp
  with failed_edit_writes_nothing [OF x] x show ?thesis by blast
qed


end
