(* ===== verification/Tool_Output.thy ===== *)
theory Tool_Output
  imports File_Lookup
begin

text \<open>
  What a tool lets out: untrusted text made harmless for a terminal (internal/ansi/ansi.go, Sanitize),
  output cut to its limits (tools/common/truncate.go), the names of spilled outputs
  (tools/common/spill.go) and the memory of results already sent (tools/readfile_dedup.go).
\<close>

section \<open>Untrusted text\<close>

abbreviation esc :: char where "esc \<equiv> CHR 0x1B"

text \<open>\<open>unicode.IsControl\<close> of a decoded rune: the C0 and C1 control characters.\<close>

fun is_control :: "string \<Rightarrow> bool" where
  "is_control [c] \<longleftrightarrow> byte c < 32 \<or> byte c = 127"
| "is_control [c, d] \<longleftrightarrow> byte c = 194 \<and> 128 \<le> byte d \<and> byte d \<le> 159"
| "is_control _ \<longleftrightarrow> False"

text \<open>\<open>strings.ToValidUTF8\<close>: a run of invalid bytes becomes one replacement rune.\<close>

definition replacement_rune :: string where "replacement_rune = map char_of [239 :: nat, 191, 189]"

fun to_valid :: "bool \<Rightarrow> string list \<Rightarrow> string list" where
  "to_valid bad [] = []"
| "to_valid bad (r # rs) =
     (if rune_width r = None then (if bad then to_valid True rs else replacement_rune # to_valid True rs)
      else r # to_valid False rs)"

definition sanitize_rune :: "string \<Rightarrow> string" where
  "sanitize_rune r = (if r = [esc] then [CHR 0x5C, CHR ''e'']
     else if r = [tab] \<or> r = [nl] \<or> r = [cr] then r
     else if is_control r then ''?'' else r)"

definition Sanitize :: "string \<Rightarrow> string" where
  "Sanitize s =
     (if esc \<notin> set s \<and> list_all (\<lambda>r. rune_width r \<noteq> None) (runes s) \<and> \<not> list_ex is_control (runes s) then s
      else concat (map sanitize_rune (to_valid False (runes s))))"

text \<open>A rune is a complete encoding.\<close>

definition full_rune :: "string \<Rightarrow> bool" where
  "full_rune r \<longleftrightarrow> rune_width r = Some (length r)"

lemma rune_width_append: "rune_width r = Some (length r) \<Longrightarrow> rune_width (r @ s) = Some (length r)"
  by (cases r) (auto simp: Let_def split: if_splits prod.splits)

lemma runes_Cons_full: "full_rune r \<Longrightarrow> runes (r @ s) = r # runes s"
proof -
  assume f: "full_rune r"
  then obtain c r' where r: "r = c # r'" by (cases r) (auto simp: full_rune_def)
  have "rune_width (c # (r' @ s)) = Some (length r)" using rune_width_append [of r s] f r by (simp add: full_rune_def)
  then show ?thesis using r by simp
qed

lemma runes_concat: "\<forall>r\<in>set rs. full_rune r \<Longrightarrow> runes (concat rs) = rs"
  by (induction rs) (simp_all add: runes_Cons_full)

lemma rune_width_take: "rune_width s = Some w \<Longrightarrow> w \<le> length s \<and> 1 \<le> w \<and> rune_width (take w s) = Some w"
proof (cases s)
  case (Cons c t)
  assume w: "rune_width s = Some w"
  obtain lo hi where lh: "second_range (byte c) = (lo, hi)" by fastforce
  show ?thesis
  proof (cases "lead_width (byte c) = 1")
    case False
    with w Cons lh have v: "w = lead_width (byte c)" "w \<noteq> 0" "w - 1 \<le> length t" "cont_in lo hi (hd t)"
      "list_all (cont_in 128 191) (take (w - 2) (tl t))"
      by (auto simp: Let_def split: if_splits)
    then obtain k where k: "w = Suc (Suc k)" using False by (metis One_nat_def not0_implies_Suc)
    with v obtain d u where t: "t = d # u" by (cases t) auto
    have lw: "lead_width (byte c) = Suc (Suc k)" using v(1) k by simp
    show ?thesis using v(3-5) unfolding Cons t k by (simp add: lw lh Let_def)
  next
    case True
    then have "w = 1" using w Cons by (simp add: Let_def lh)
    with True show ?thesis unfolding Cons by (simp add: Let_def lh)
  qed
qed simp

lemma runes_full: "r \<in> set (runes s) \<Longrightarrow> rune_width r \<noteq> None \<Longrightarrow> full_rune r"
proof (induction s rule: runes.induct)
  case (2 c s)
  show ?case
  proof (cases "rune_width (c # s)")
    case None
    with 2 show ?thesis by (auto simp: full_rune_def Let_def split: if_splits prod.splits)
  next
    case (Some w)
    with rune_width_take [of "c # s" w] have w: "max 1 w = w" "w \<le> length (c # s)" "rune_width (take w (c # s)) = Some w" by auto
    then have f: "full_rune (take w (c # s))" by (simp add: full_rune_def min_def)
    have "runes (c # s) = take w (c # s) # runes (drop w (c # s))" using Some w(1) by (simp del: take_Cons drop_Cons)
    then have "r = take w (c # s) \<or> r \<in> set (runes (drop w (c # s)))" using "2.prems"(1) by (metis set_ConsD)
    with 2(2) [OF Some] "2.prems"(2) f w(1) show ?thesis by metis
  qed
qed simp

lemma full_ascii: "byte c < 128 \<Longrightarrow> full_rune [c]"
  by (simp add: full_rune_def lead_width_def Let_def split: prod.split)

lemma full_replacement: "full_rune replacement_rune" "\<not> is_control replacement_rune"
  by code_simp+

lemma to_valid_full:
  assumes "\<forall>r\<in>set rs. rune_width r \<noteq> None \<longrightarrow> full_rune r"
  shows "\<forall>r\<in>set (to_valid b rs). full_rune r"
  using assms full_replacement(1) by (induction b rs rule: to_valid.induct) auto

text \<open>Runes of the result: none is a control character, except for what a text is laid out with.\<close>

definition harmless :: "string \<Rightarrow> bool" where
  "harmless r \<longleftrightarrow> full_rune r \<and> (is_control r \<longrightarrow> r \<in> {[tab], [nl], [cr]})"

lemma sanitize_rune_full: "full_rune r \<Longrightarrow> (\<forall>x\<in>set (runes (sanitize_rune r)). harmless x) \<and> full_rune r"
proof -
  assume f: "full_rune r"
  have a: "full_rune [CHR 0x5C]" "full_rune ''e''" "full_rune ''?''" by (simp_all add: full_ascii)
  have "runes [CHR 0x5C, CHR ''e''] = [[CHR 0x5C], ''e'']"
    using runes_concat [of "[[CHR 0x5C], ''e'']"] a by simp
  moreover have "runes ''?'' = [''?'']" "runes r = [r]"
    using runes_concat [of "[''?'']"] runes_concat [of "[r]"] a f by simp_all
  ultimately show ?thesis using f a
    by (auto simp: sanitize_rune_def harmless_def)
qed

lemma runes_append_full: "\<forall>r\<in>set rs. full_rune r \<Longrightarrow> runes (concat rs @ s) = rs @ runes s"
  by (induction rs) (simp_all add: runes_Cons_full)

lemma sanitize_runes:
  assumes "\<forall>r\<in>set rs. full_rune r"
  shows "runes (concat (map sanitize_rune rs)) = concat (map (\<lambda>r. runes (sanitize_rune r)) rs)"
  using assms
proof (induction rs)
  case (Cons r rs)
  have "\<forall>x\<in>set (runes (sanitize_rune r)). full_rune x"
    using sanitize_rune_full [of r] Cons.prems by (auto simp: harmless_def)
  from runes_append_full [OF this] Cons show ?case by (simp add: concat_runes)
qed simp

lemma sanitize_harmless: "\<forall>r\<in>set (runes (Sanitize s)). harmless r"
proof (cases "esc \<notin> set s \<and> list_all (\<lambda>r. rune_width r \<noteq> None) (runes s) \<and> \<not> list_ex is_control (runes s)")
  case True
  then show ?thesis using runes_full by (auto simp: Sanitize_def harmless_def list_all_iff list_ex_iff)
next
  case False
  let ?rs = "to_valid False (runes s)"
  have f: "\<forall>r\<in>set ?rs. full_rune r" using runes_full by (intro to_valid_full) blast
  have "Sanitize s = concat (map sanitize_rune ?rs)" using False by (auto simp: Sanitize_def)
  with sanitize_runes [OF f] have "set (runes (Sanitize s)) = (\<Union>r\<in>set ?rs. set (runes (sanitize_rune r)))" by simp
  with f sanitize_rune_full show ?thesis by auto
qed

lemma to_valid_id: "\<forall>r\<in>set rs. rune_width r \<noteq> None \<Longrightarrow> to_valid b rs = rs"
  by (induction rs arbitrary: b) auto

lemma harmless_fixed: "harmless r \<Longrightarrow> sanitize_rune r = r"
  by (auto simp: harmless_def sanitize_rune_def)

text \<open>C37: Sanitize lets no escape sequence through: its result is valid UTF-8 whose only control characters
  are tab, line feed and carriage return, and sanitising it again changes nothing.\<close>

theorem sanitize_safe:
  "list_all harmless (runes (Sanitize s)) \<and> esc \<notin> set (Sanitize s) \<and> Sanitize (Sanitize s) = Sanitize s"
proof -
  let ?s = "Sanitize s"
  note h = sanitize_harmless [of s]
  have "Sanitize ?s = ?s"
  proof -
    have "to_valid False (runes ?s) = runes ?s" using h by (intro to_valid_id) (auto simp: harmless_def full_rune_def)
    moreover have "map sanitize_rune (runes ?s) = runes ?s" using h harmless_fixed by (intro map_idI) blast
    ultimately have "concat (map sanitize_rune (to_valid False (runes ?s))) = ?s" using concat_runes [of ?s] by simp
    then show ?thesis unfolding Sanitize_def [of ?s] by simp
  qed
  moreover have "esc \<notin> set ?s"
  proof
    assume "esc \<in> set ?s"
    then obtain r where r: "r \<in> set (runes ?s)" "esc \<in> set r" using concat_runes [of ?s] by (metis UN_E set_concat)
    with h have f: "harmless r" by blast
    then obtain c r' where cr: "r = c # r'" by (cases r) (auto simp: harmless_def full_rune_def)
    show False
    proof (cases r')
      case Nil
      with r(2) cr f show False by (auto simp: harmless_def)
    next
      case (Cons d u)
      obtain lo hi where lh: "second_range (byte c) = (lo, hi)" by fastforce
      have "128 \<le> lo" using lh by (auto simp: second_range_def split: if_splits)
      have w: "rune_width (c # d # u) = Some (Suc (Suc (length u)))" using f cr Cons by (simp add: harmless_def full_rune_def)
      then have l: "lead_width (byte c) = Suc (Suc (length u))" "cont_in lo hi d" "list_all (cont_in 128 191) u"
        using lh by (auto simp: Let_def split: if_splits)
      from l(1) have c: "128 \<le> byte c" by (simp add: lead_width_def split: if_splits)
      have u: "128 \<le> byte x" if "x \<in> set (d # u)" for x
        using l(2,3) that \<open>128 \<le> lo\<close> by (auto simp: cont_in_def list_all_iff)
      have e: "byte esc = 27" by simp
      have "esc = c \<or> esc \<in> set (d # u)" using r(2) unfolding cr Cons by simp
      then show False
      proof
        assume "esc = c" with c e show False by simp
      next
        assume "esc \<in> set (d # u)" from u [OF this] e show False by simp
      qed
    qed
  qed
  ultimately show ?thesis using h by (simp add: list_all_iff)
qed

section \<open>Names of spilled outputs\<close>

definition spill_char :: "char \<Rightarrow> bool" where
  "spill_char c \<longleftrightarrow> 97 \<le> byte c \<and> byte c \<le> 122 \<or> 65 \<le> byte c \<and> byte c \<le> 90 \<or> 48 \<le> byte c \<and> byte c \<le> 57 \<or>
     c = CHR ''.'' \<or> c = CHR ''_'' \<or> c = CHR ''-''"

definition sanitizeSpillSegment :: "string \<Rightarrow> string" where
  "sanitizeSpillSegment raw =
     (if raw = [] then ''spill''
      else let out = map (\<lambda>r. case r of [c] \<Rightarrow> if spill_char c then c else CHR ''_'' | _ \<Rightarrow> CHR ''_'') (runes raw) in
        if out = dot \<or> out = dotdot then map (\<lambda>c. if c = CHR ''.'' then CHR ''_'' else c) out else out)"

definition SessionSpillDir :: "string \<Rightarrow> string \<Rightarrow> string" where
  "SessionSpillDir goaDir sessionID = Join (Join goaDir ''spill'') (sanitizeSpillSegment sessionID)"

lemma spill_segment_real: "real_elem (sanitizeSpillSegment raw)"
proof -
  let ?out = "map (\<lambda>r. case r of [c] \<Rightarrow> if spill_char c then c else CHR ''_'' | _ \<Rightarrow> CHR ''_'') (runes raw)"
  have "slash \<notin> set ?out" by (auto simp: spill_char_def split: list.splits if_splits)
  moreover have "raw \<noteq> [] \<Longrightarrow> ?out \<noteq> []" using concat_runes [of raw] by auto
  ultimately show ?thesis
    unfolding sanitizeSpillSegment_def Let_def real_elem_def by (cases "raw = []") auto
qed

text \<open>The directory a session spills into is a directory of its own directly below spill, whatever the
  session calls itself: no name leads out of it or to it.\<close>

theorem spill_dir_contained:
  assumes "IsAbs goaDir"
  shows "\<exists>seg. real_elem seg \<and> loc (SessionSpillDir goaDir sessionID) = loc goaDir @ [''spill'', seg]"
proof -
  have r: "real_elem ''spill''" by (simp add: real_elem_def)
  then have "loc (SessionSpillDir goaDir sessionID) = loc goaDir @ [''spill'', sanitizeSpillSegment sessionID]"
    unfolding SessionSpillDir_def
    using loc_Join_real [OF assms r] loc_Join_real [OF Join_abs [OF assms] spill_segment_real] by simp
  with spill_segment_real show ?thesis by blast
qed

theorem spill_dir_contained_witness:
  "SessionSpillDir ''/h/.goa'' ''../x'' = ''/h/.goa/spill/.._x'' \<and>
   (\<exists>seg. real_elem seg \<and> loc (SessionSpillDir ''/h/.goa'' ''../x'') = loc ''/h/.goa'' @ [''spill'', seg])"
proof -
  have "IsAbs ''/h/.goa''" "SessionSpillDir ''/h/.goa'' ''../x'' = ''/h/.goa/spill/.._x''" by code_simp+
  with spill_dir_contained [of "''/h/.goa''" "''../x''"] show ?thesis by blast
qed

section \<open>Truncation\<close>

definition DefaultMaxLines :: nat where "DefaultMaxLines = 2000"
definition DefaultMaxBytes :: nat where "DefaultMaxBytes = 50 * 1024"

datatype cut_by = CutNone | CutLines | CutBytes

record trunc_result =
  tr_content :: string
  tr_truncated :: bool
  tr_by :: cut_by
  tr_totalLines :: nat
  tr_totalBytes :: nat
  tr_outputLines :: nat
  tr_outputBytes :: nat
  tr_lastPartial :: bool
  tr_firstExceeds :: bool

definition splitLinesForCounting :: "string \<Rightarrow> string list" where
  "splitLinesForCounting content =
     (if content = [] then [] else let ls = lines_of content in if last content = nl then butlast ls else ls)"

definition is_continuation :: "char \<Rightarrow> bool" where
  "is_continuation c \<longleftrightarrow> byte c div 64 = 2"

definition truncateStringFromEnd :: "string \<Rightarrow> nat \<Rightarrow> string" where
  "truncateStringFromEnd s maxBytes =
     (if length s \<le> maxBytes then s else dropWhile is_continuation (drop (length s - maxBytes) s))"

text \<open>The loop of \<open>TruncateTail\<close> from the last line on; it also says what cut it and whether the line is
  partial. The limits are positive at every call.\<close>

fun tail_loop :: "nat \<Rightarrow> nat \<Rightarrow> string list \<Rightarrow> string list \<Rightarrow> nat \<Rightarrow> string list \<times> cut_by \<times> bool" where
  "tail_loop maxLines maxBytes [] out n = (out, CutLines, False)"
| "tail_loop maxLines maxBytes (l # rest) out n =
     (if length out \<ge> maxLines then (out, CutLines, False)
      else let lineBytes = length l + (if out \<noteq> [] then 1 else 0) in
        if n + lineBytes > maxBytes then
          (if out = [] then ([truncateStringFromEnd l maxBytes], CutBytes, True) else (out, CutBytes, False))
        else tail_loop maxLines maxBytes rest (l # out) (n + lineBytes))"

definition TruncateTail :: "string \<Rightarrow> nat \<Rightarrow> nat \<Rightarrow> trunc_result" where
  "TruncateTail content maxLines maxBytes =
     (let totalBytes = length content; lines = splitLinesForCounting content; totalLines = length lines in
      if totalLines \<le> maxLines \<and> totalBytes \<le> maxBytes then
        \<lparr>tr_content = content, tr_truncated = False, tr_by = CutNone, tr_totalLines = totalLines, tr_totalBytes = totalBytes,
         tr_outputLines = totalLines, tr_outputBytes = totalBytes, tr_lastPartial = False, tr_firstExceeds = False\<rparr>
      else let (out, by, partial) = tail_loop maxLines maxBytes (rev lines) [] 0; text = text_of out in
        \<lparr>tr_content = text, tr_truncated = True, tr_by = by, tr_totalLines = totalLines, tr_totalBytes = totalBytes,
         tr_outputLines = length out, tr_outputBytes = length text, tr_lastPartial = partial, tr_firstExceeds = False\<rparr>)"

text \<open>The limits of \<open>TruncateHead\<close> come from the call and may be negative.\<close>

fun head_loop :: "int \<Rightarrow> int \<Rightarrow> string list \<Rightarrow> string list \<Rightarrow> int \<Rightarrow> string list \<times> cut_by" where
  "head_loop maxLines maxBytes [] out n = (out, CutLines)"
| "head_loop maxLines maxBytes (l # rest) out n =
     (if int (length out) \<ge> maxLines then (out, CutLines)
      else let lineBytes = int (length l) + (if out \<noteq> [] then 1 else 0) in
        if n + lineBytes > maxBytes then (out, CutBytes)
        else head_loop maxLines maxBytes rest (out @ [l]) (n + lineBytes))"

definition TruncateHead :: "string \<Rightarrow> int \<Rightarrow> int \<Rightarrow> trunc_result" where
  "TruncateHead content maxLines maxBytes =
     (let totalBytes = length content; lines = splitLinesForCounting content; totalLines = length lines in
      if int totalLines \<le> maxLines \<and> int totalBytes \<le> maxBytes then
        \<lparr>tr_content = content, tr_truncated = False, tr_by = CutNone, tr_totalLines = totalLines, tr_totalBytes = totalBytes,
         tr_outputLines = totalLines, tr_outputBytes = totalBytes, tr_lastPartial = False, tr_firstExceeds = False\<rparr>
      else if lines \<noteq> [] \<and> int (length (hd lines)) > maxBytes then
        \<lparr>tr_content = [], tr_truncated = True, tr_by = CutBytes, tr_totalLines = totalLines, tr_totalBytes = totalBytes,
         tr_outputLines = 0, tr_outputBytes = 0, tr_lastPartial = False, tr_firstExceeds = True\<rparr>
      else let (out, by) = head_loop maxLines maxBytes lines [] 0; text = text_of out in
        \<lparr>tr_content = text, tr_truncated = True, tr_by = by, tr_totalLines = totalLines, tr_totalBytes = totalBytes,
         tr_outputLines = length out, tr_outputBytes = length text, tr_lastPartial = False, tr_firstExceeds = False\<rparr>)"

definition cut_name :: "cut_by \<Rightarrow> string" where
  "cut_name b = (case b of CutNone \<Rightarrow> [] | CutLines \<Rightarrow> ''lines'' | CutBytes \<Rightarrow> ''bytes'')"

definition TruncResString :: "trunc_result \<Rightarrow> string" where
  "TruncResString r =
     (if \<not> tr_truncated r then []
      else dec (tr_outputLines r) @ ''/'' @ dec (tr_totalLines r) @ '' lines, '' @ dec (tr_outputBytes r) @ ''/'' @
           dec (tr_totalBytes r) @ '' bytes (by '' @ cut_name (tr_by r) @ '')'')"

lemma length_text_Cons: "length (text_of (l # ls)) = length l + (if ls \<noteq> [] then 1 else 0) + length (text_of ls)"
  by (cases ls) simp_all

lemma text_of_Nil: "text_of [] = []"
  by simp

lemma last_take_nth: "0 < n \<Longrightarrow> n \<le> length xs \<Longrightarrow> last (take n xs) = xs ! (n - 1)"
  by (subst last_conv_nth) (auto simp: min_def)

lemma truncate_end: "length (truncateStringFromEnd s n) \<le> n \<and> (\<exists>p. s = p @ truncateStringFromEnd s n)"
proof (cases "length s \<le> n")
  case False
  let ?d = "drop (length s - n) s"
  have "length (dropWhile is_continuation ?d) \<le> length ?d" by (rule length_dropWhile_le)
  moreover have "s = (take (length s - n) s @ takeWhile is_continuation ?d) @ dropWhile is_continuation ?d" by simp
  moreover have "length ?d = n" "truncateStringFromEnd s n = dropWhile is_continuation ?d"
    using False by (simp_all add: truncateStringFromEnd_def)
  ultimately show ?thesis by metis
qed (simp add: truncateStringFromEnd_def)

lemma tail_loop_spec:
  assumes "tail_loop L B rls out n = (res, b, part)" "n = length (text_of out)" "length out \<le> L" "n \<le> B"
  shows "if part then out = [] \<and> rls \<noteq> [] \<and> length (hd rls) > B \<and> 0 < L \<and> res = [truncateStringFromEnd (hd rls) B] \<and> b = CutBytes
    else \<exists>k. k \<le> length rls \<and> res = rev (take k rls) @ out \<and> length res \<le> L \<and> length (text_of res) \<le> B \<and>
      (k = length rls \<or> length res = L \<or> length (text_of (rls ! k # res)) > B)"
  using assms
proof (induction L B rls out n rule: tail_loop.induct)
  case (1 L B out n)
  then show ?case by auto
next
  case (2 L B l rest out n)
  let ?bytes = "length l + (if out \<noteq> [] then 1 else 0)"
  consider (full) "length out \<ge> L" | (cut) "length out < L" "n + ?bytes > B" | (go) "length out < L" "n + ?bytes \<le> B" by linarith
  then show ?case
  proof cases
    case full
    with 2 have "res = out" "\<not> part" "length out = L" by auto
    moreover have "\<exists>k. k \<le> length (l # rest) \<and> out = rev (take k (l # rest)) @ out \<and> length out \<le> L \<and> length (text_of out) \<le> B \<and>
      (k = length (l # rest) \<or> length out = L \<or> length (text_of ((l # rest) ! k # out)) > B)"
      using 2(3-5) \<open>length out = L\<close> by (intro exI [of _ 0]) simp
    ultimately show ?thesis by simp
  next
    case cut
    show ?thesis
    proof (cases "out = []")
      case True
      with cut 2 have "res = [truncateStringFromEnd l B]" "b = CutBytes" "part" "length l > B" by (auto split: if_splits)
      with True cut show ?thesis by simp
    next
      case False
      with cut 2 have "res = out" "\<not> part" by auto
      moreover have "length (text_of (l # out)) > B" using cut(2) False 2(3) length_text_Cons [of l out] by simp
      then have "\<exists>k. k \<le> length (l # rest) \<and> out = rev (take k (l # rest)) @ out \<and> length out \<le> L \<and> length (text_of out) \<le> B \<and>
        (k = length (l # rest) \<or> length out = L \<or> length (text_of ((l # rest) ! k # out)) > B)"
        using 2(3-5) by (intro exI [of _ 0]) simp
      ultimately show ?thesis by simp
    qed
  next
    case go
    then have r: "tail_loop L B rest (l # out) (n + ?bytes) = (res, b, part)" using 2(2) by (simp add: Let_def)
    have len: "n + ?bytes = length (text_of (l # out))" using length_text_Cons [of l out] 2(3) by simp
    have IH: "if part then l # out = [] \<and> rest \<noteq> [] \<and> length (hd rest) > B \<and> 0 < L \<and> res = [truncateStringFromEnd (hd rest) B] \<and> b = CutBytes
      else \<exists>k. k \<le> length rest \<and> res = rev (take k rest) @ (l # out) \<and> length res \<le> L \<and> length (text_of res) \<le> B \<and>
        (k = length rest \<or> length res = L \<or> length (text_of (rest ! k # res)) > B)"
      by (rule 2(1) [OF _ refl _ r len]) (use go in auto)
    then have np: "\<not> part" by auto
    with IH obtain k where "k \<le> length rest" "res = rev (take k rest) @ (l # out)" "length res \<le> L" "length (text_of res) \<le> B"
      "k = length rest \<or> length res = L \<or> length (text_of (rest ! k # res)) > B" unfolding if_not_P [OF np] by blast
    then have "\<exists>k. k \<le> length (l # rest) \<and> res = rev (take k (l # rest)) @ out \<and> length res \<le> L \<and> length (text_of res) \<le> B \<and>
      (k = length (l # rest) \<or> length res = L \<or> length (text_of ((l # rest) ! k # res)) > B)"
      by (intro exI [of _ "Suc k"]) simp
    with np show ?thesis by simp
  qed
qed

text \<open>C38: What TruncateTail keeps of an output that exceeds a limit is the longest end of it, in whole lines,
  within both limits; only when the last line alone is too long it is cut, to an end of at most the
  number of bytes allowed.\<close>

theorem tail_keeps_longest_end:
  "let r = TruncateTail content maxLines maxBytes; lines = splitLinesForCounting content in
   if \<not> tr_truncated r then tr_content r = content \<and> length lines \<le> maxLines \<and> length content \<le> maxBytes
   else length (tr_content r) \<le> maxBytes \<and>
     (if tr_lastPartial r then lines \<noteq> [] \<and> length (last lines) > maxBytes \<and> (\<exists>p. last lines = p @ tr_content r)
      else \<exists>pre keep. lines = pre @ keep \<and> tr_content r = text_of keep \<and> length keep \<le> maxLines \<and>
        (pre = [] \<or> length keep = maxLines \<or> length (text_of (last pre # keep)) > maxBytes))"
proof -
  let ?ls = "splitLinesForCounting content"
  obtain out b part where t: "tail_loop maxLines maxBytes (rev ?ls) [] 0 = (out, b, part)" by (metis prod_cases3)
  note spec = tail_loop_spec [OF t]
  show ?thesis
  proof (cases "length ?ls \<le> maxLines \<and> length content \<le> maxBytes")
    case True
    then show ?thesis by (simp add: TruncateTail_def Let_def)
  next
    case False
    then have r: "tr_truncated (TruncateTail content maxLines maxBytes)" "tr_content (TruncateTail content maxLines maxBytes) = text_of out"
      "tr_lastPartial (TruncateTail content maxLines maxBytes) = part"
      using t by (auto simp: TruncateTail_def Let_def)
    show ?thesis
    proof (cases part)
      case True
      with spec have p: "?ls \<noteq> []" "length (last ?ls) > maxBytes" "out = [truncateStringFromEnd (last ?ls) maxBytes]" by (auto simp: hd_rev)
      with truncate_end [of "last ?ls" maxBytes] True r show ?thesis by (simp add: Let_def)
    next
      case False
      from spec [unfolded if_not_P [OF False]] obtain k where k: "k \<le> length (rev ?ls)" "out = rev (take k (rev ?ls)) @ []" "length out \<le> maxLines" "length (text_of out) \<le> maxBytes"
        "k = length (rev ?ls) \<or> length out = maxLines \<or> length (text_of (rev ?ls ! k # out)) > maxBytes"
        by (simp only: text_of_Nil list.size(3) refl le0 simp_thms) blast
      let ?pre = "take (length ?ls - k) ?ls"
      have "?ls = ?pre @ out" using k(1,2) by (simp add: take_rev)
      moreover have "k < length ?ls \<Longrightarrow> rev ?ls ! k = last ?pre"
        using last_take_nth [of "length ?ls - k" ?ls] by (simp add: rev_nth)
      moreover have "?pre = [] \<longleftrightarrow> k = length ?ls" using k(1) by auto
      ultimately have "\<exists>pre keep. ?ls = pre @ keep \<and> text_of out = text_of keep \<and> length keep \<le> maxLines \<and>
          (pre = [] \<or> length keep = maxLines \<or> length (text_of (last pre # keep)) > maxBytes)"
        using k(1,3,5) by (intro exI [of _ ?pre] exI [of _ out]) auto
      with False r k(4) show ?thesis by (simp add: Let_def)
    qed
  qed
qed

section \<open>Results already sent\<close>

definition readDedupCapacity :: nat where "readDedupCapacity = 64"

record 'h dedup_store =
  dd_hashes :: "'h list"
  dd_head :: nat
  dd_count :: nat

definition empty_store :: "'h \<Rightarrow> 'h dedup_store" where
  "empty_store zero = \<lparr>dd_hashes = replicate readDedupCapacity zero, dd_head = 0, dd_count = 0\<rparr>"

definition seenOrAdd :: "'h \<Rightarrow> 'h dedup_store \<Rightarrow> bool \<times> 'h dedup_store" where
  "seenOrAdd h s =
     (let n = (if dd_count s > readDedupCapacity then readDedupCapacity else dd_count s) in
      if list_ex (\<lambda>i. dd_hashes s ! i = h) [0..<n] then (True, s)
      else (False, s\<lparr>dd_hashes := (dd_hashes s)[dd_head s := h], dd_head := (dd_head s + 1) mod readDedupCapacity,
                     dd_count := dd_count s + 1\<rparr>))"

text \<open>What the ring is for: the last results that were sent in full.\<close>

definition remember :: "'h \<Rightarrow> 'h list \<Rightarrow> 'h list" where
  "remember h recent =
     (if h \<in> set recent then recent else drop (length recent + 1 - readDedupCapacity) (recent @ [h]))"

definition ring_holds :: "'h dedup_store \<Rightarrow> 'h list \<Rightarrow> bool" where
  "ring_holds s recent \<longleftrightarrow> length (dd_hashes s) = readDedupCapacity \<and> dd_head s = dd_count s mod readDedupCapacity \<and>
     recent = (if dd_count s < readDedupCapacity then take (dd_count s) (dd_hashes s)
               else drop (dd_head s) (dd_hashes s) @ take (dd_head s) (dd_hashes s))"

lemma ring_seen:
  assumes "ring_holds s recent"
  shows "fst (seenOrAdd h s) \<longleftrightarrow> h \<in> set recent"
proof -
  let ?n = "if dd_count s > readDedupCapacity then readDedupCapacity else dd_count s"
  have "list_ex (\<lambda>i. dd_hashes s ! i = h) [0..<?n] \<longleftrightarrow> h \<in> set (take ?n (dd_hashes s))"
    using assms by (auto simp: list_ex_iff ring_holds_def in_set_conv_nth)
  also have "set (take ?n (dd_hashes s)) = set recent"
  proof (cases "dd_count s < readDedupCapacity")
    case False
    then have "take ?n (dd_hashes s) = dd_hashes s" "set recent = set (dd_hashes s)"
      using assms set_append [of "take (dd_head s) (dd_hashes s)" "drop (dd_head s) (dd_hashes s)"]
      by (auto simp: ring_holds_def Un_commute)
    then show ?thesis by simp
  qed (use assms in \<open>simp add: ring_holds_def\<close>)
  finally show ?thesis by (simp add: seenOrAdd_def Let_def)
qed

lemma ring_step:
  assumes "ring_holds s recent"
  shows "ring_holds (snd (seenOrAdd h s)) (remember h recent)"
proof (cases "h \<in> set recent")
  case True
  with ring_seen [OF assms, of h] have "snd (seenOrAdd h s) = s" by (auto simp: seenOrAdd_def Let_def split: if_splits)
  with True assms show ?thesis by (simp add: remember_def)
next
  case False
  let ?c = "dd_count s" and ?hs = "dd_hashes s" and ?C = readDedupCapacity
  let ?p = "dd_head s"
  have len: "length ?hs = ?C" and head: "?p = ?c mod ?C" and C: "?C = 64" using assms by (auto simp: ring_holds_def readDedupCapacity_def)
  have p: "?p < ?C" using head C by simp
  have s': "snd (seenOrAdd h s) = s\<lparr>dd_hashes := ?hs[?p := h], dd_head := (?p + 1) mod ?C, dd_count := ?c + 1\<rparr>"
    using False ring_seen [OF assms, of h] by (auto simp: seenOrAdd_def Let_def split: if_splits)
  have hd': "(?p + 1) mod ?C = (?c + 1) mod ?C" by (simp add: head mod_Suc_eq)
  have "remember h recent = (if ?c + 1 < ?C then take (?c + 1) (?hs[?p := h])
      else drop ((?p + 1) mod ?C) (?hs[?p := h]) @ take ((?p + 1) mod ?C) (?hs[?p := h]))"
  proof (cases "?c < ?C")
    case True
    then have c: "?p = ?c" "recent = take ?c ?hs" using assms head by (auto simp: ring_holds_def)
    then have rem: "remember h recent = take ?c ?hs @ [h]" using False True len C by (simp add: remember_def)
    have upd: "take (?c + 1) (?hs[?c := h]) = take ?c ?hs @ [h]" using True len by (simp add: take_Suc_conv_app_nth)
    show ?thesis
    proof (cases "?c + 1 < ?C")
      case False
      then have "?c + 1 = ?C" using True by simp
      with c upd rem len show ?thesis by (simp add: C)
    qed (use c upd rem in simp)
  next
    case big: False
    then have rec: "recent = drop ?p ?hs @ take ?p ?hs" using assms by (simp add: ring_holds_def)
    have lr: "length recent = ?C" using rec len p by simp
    have rem: "remember h recent = tl recent @ [h]" using False lr C by (cases recent) (auto simp: remember_def)
    have "drop ?p ?hs = ?hs ! ?p # drop (Suc ?p) ?hs" using p len by (simp add: Cons_nth_drop_Suc)
    then have tl: "tl recent @ [h] = drop (Suc ?p) ?hs @ take ?p ?hs @ [h]" using rec by simp
    have upd: "take (Suc ?p) (?hs[?p := h]) = take ?p ?hs @ [h]" using p len by (simp add: take_Suc_conv_app_nth)
    show ?thesis
    proof (cases "Suc ?p = ?C")
      case True
      with upd tl rem len big show ?thesis by simp
    next
      case False
      with p have "(?p + 1) mod ?C = Suc ?p" by simp
      with upd tl rem big show ?thesis by simp
    qed
  qed
  with s' hd' len show ?thesis by (simp add: ring_holds_def)
qed

text \<open>C39: The ring of hashes refines a list of the last 64 results: after any results, a result counts as sent
  exactly when it is among the last 64 different ones that were sent in full.\<close>

theorem dedup_remembers_window:
  "fst (seenOrAdd h (fold (\<lambda>x s. snd (seenOrAdd x s)) sent (empty_store zero))) \<longleftrightarrow> h \<in> set (fold remember sent [])"
proof -
  have "ring_holds (fold (\<lambda>x s. snd (seenOrAdd x s)) xs s) (fold remember xs recent)" if "ring_holds s recent" for xs s recent
    using that by (induction xs arbitrary: s recent) (auto intro: ring_step)
  from this [of "empty_store zero" "[]" sent] show ?thesis
    by (intro ring_seen) (simp add: ring_holds_def empty_store_def readDedupCapacity_def)
qed

end
