(* ===== verification/Read_Write.thy ===== *)
theory Read_Write
  imports Edit_Safety Tool_Output
begin

text \<open>
  The read tool (tools/readfile.go) and the write tool (tools/writefile.go). Images are recognised by a
  parameter, embedded documents are one too, and the language server is absent.
\<close>

section \<open>Reading\<close>

definition maxReadFileLines :: int where "maxReadFileLines = 4096"
definition defaultReadMaxBytes :: int where "defaultReadMaxBytes = 50 * 1024"

record read_params =
  rp_path :: string
  rp_startLine :: int
  rp_endLine :: int
  rp_maxLines :: int
  rp_maxBytes :: int
  rp_showNumbers :: "bool option"
  rp_includeImage :: bool

definition showNumbers :: "read_params \<Rightarrow> bool" where
  "showNumbers p = (case rp_showNumbers p of None \<Rightarrow> True | Some b \<Rightarrow> b)"

text \<open>\<open>None\<close>: the path is missing.\<close>

definition parseParams :: "read_params \<Rightarrow> read_params option" where
  "parseParams p =
     (if rp_path p = [] then None
      else let maxLines = (if rp_maxLines p = 0 then 500 else rp_maxLines p) in
        Some (p\<lparr>rp_path := NormalizeFileToolPath (rp_path p),
                rp_startLine := (if rp_startLine p = 0 then 1 else rp_startLine p),
                rp_maxLines := (if maxLines > maxReadFileLines then maxReadFileLines else maxLines),
                rp_maxBytes := (if rp_maxBytes p = 0 then defaultReadMaxBytes else rp_maxBytes p)\<rparr>))"

definition isBinary :: "string \<Rightarrow> bool" where
  "isBinary data \<longleftrightarrow> CHR 0x00 \<in> set (take 8192 data)"

definition formatBinaryResult :: "string \<Rightarrow> nat \<Rightarrow> string" where
  "formatBinaryResult path len =
     ''[binary file: '' @ Base path @ '', '' @ dec len @ '' bytes '' @ emdash @ '' not readable as text]''"

definition clampLineRange :: "int \<Rightarrow> int \<Rightarrow> int \<Rightarrow> int \<Rightarrow> int \<times> int" where
  "clampLineRange startLine endLine totalLines maxLines =
     (let startLine = (if startLine < 1 then 1 else startLine);
          endLine = (if endLine \<le> 0 \<or> endLine > totalLines then totalLines else endLine)
      in (if startLine > endLine then endLine else startLine, endLine))"

text \<open>A number right-aligned in six columns.\<close>

definition pad6 :: "nat \<Rightarrow> string" where
  "pad6 n = replicate (6 - length (dec n)) (CHR '' '') @ dec n"

fun render_from :: "nat \<Rightarrow> bool \<Rightarrow> string list \<Rightarrow> string" where
  "render_from i numbers [] = []"
| "render_from i numbers (l # ls) =
     (if numbers then pad6 i @ ''  '' @ Sanitize l else Sanitize l) @ [nl] @ render_from (Suc i) numbers ls"

definition renderReadLines :: "string list \<Rightarrow> nat \<Rightarrow> bool \<Rightarrow> string" where
  "renderReadLines selected startLine numbers = render_from startLine numbers selected"

definition shortenPath :: "string option \<Rightarrow> string \<Rightarrow> string" where
  "shortenPath home path = (case home of None \<Rightarrow> path
     | Some h \<Rightarrow> if has_prefix h path then ''~'' @ drop (length h) path else path)"

definition formatOutput :: "string option \<Rightarrow> string \<Rightarrow> string list \<Rightarrow> nat \<Rightarrow> nat \<Rightarrow> nat \<Rightarrow> int \<Rightarrow> int \<Rightarrow> bool \<Rightarrow> cut_by \<Rightarrow> string" where
  "formatOutput home path selected startLine totalLines totalBytes maxLines maxBytes numbers cutBy =
     (let endLine = max startLine (startLine + length selected - 1);
          remaining = totalLines - (startLine + length selected - 1)
      in ''read file '' @ shortenPath home path @ '':'' @ dec startLine @ '':'' @ dec endLine @ [nl] @
         ''[file: '' @ dec totalLines @ '' lines, '' @ dec totalBytes @ '' bytes]'' @ [nl] @
         (case cutBy of CutNone \<Rightarrow> []
          | CutLines \<Rightarrow> ''[read size is limited to '' @ dec_int maxLines @ '' lines; use max_lines or a range for more]'' @ [nl]
          | CutBytes \<Rightarrow> ''[read size is limited to '' @ dec_int maxBytes @ '' bytes; use max_bytes or a range for more]'' @ [nl]) @
         renderReadLines selected startLine numbers @
         ''(end '' @ emdash @ '' '' @ dec (length selected) @ '' lines shown'' @
         (if cutBy \<noteq> CutNone then '', '' @ dec remaining @ '' remaining; output truncated)''
          else if remaining > 0 then '', '' @ dec remaining @ '' remaining)'' else '')'') @ [nl])"

text \<open>The lines \<open>renderFile\<close> selects, the number of the first and what cut them. A negative limit of lines
  makes the slice expression panic, which is \<open>None\<close>.\<close>

definition select_lines :: "string list \<Rightarrow> read_params \<Rightarrow> (string list \<times> nat \<times> cut_by) option" where
  "select_lines lines p =
     (let (startLine, endLine) = clampLineRange (rp_startLine p) (rp_endLine p) (int (length lines)) (rp_maxLines p);
          selected = slice (nat (startLine - 1)) (nat endLine) lines
      in if int (length selected) > rp_maxLines p \<and> rp_maxLines p < 0 then None
         else let lineTruncated = (int (length selected) > rp_maxLines p);
                  selected = (if lineTruncated then take (nat (rp_maxLines p)) selected else selected);
                  rendered = renderReadLines selected (nat startLine) (showNumbers p);
                  byteTruncated = (int (length rendered) > rp_maxBytes p)
           in Some (if byteTruncated then splitLines (tr_content (TruncateHead rendered (rp_maxLines p) (rp_maxBytes p))) else selected,
                    nat startLine,
                    if lineTruncated then CutLines else if byteTruncated then CutBytes else CutNone))"

definition renderFile :: "string option \<Rightarrow> string \<Rightarrow> string \<Rightarrow> read_params \<Rightarrow> string option" where
  "renderFile home path data p =
     (if isBinary data then Some (formatBinaryResult path (length data))
      else let lines = splitLines data in
        if lines = [] then Some (formatOutput home path [] 0 0 (length data) (rp_maxLines p) (rp_maxBytes p) (showNumbers p) CutNone)
        else map_option (\<lambda>(selected, startLine, cutBy).
          formatOutput home path selected startLine (length lines) (length data) (rp_maxLines p) (rp_maxBytes p) (showNumbers p) cutBy)
          (select_lines lines p))"

text \<open>\<open>parseGoaDocPath\<close>: the name of an embedded document.\<close>

definition trim_prefix :: "string \<Rightarrow> string \<Rightarrow> string" where
  "trim_prefix p s = (if has_prefix p s then drop (length p) s else s)"

definition ParseGoaURL :: "string \<Rightarrow> string option" where
  "ParseGoaURL path =
     (if \<not> has_prefix ''goa://'' path then None
      else let docName = trim_space (trim_suffix ''.md'' (trim_prefix ''docs/'' (trim_prefix ''goa://'' path)))
        in if docName = [] then None else Some docName)"

definition dedupHint :: "string option \<Rightarrow> string \<Rightarrow> nat \<Rightarrow> nat \<Rightarrow> string" where
  "dedupHint home path totalLines totalBytes =
     ''[dedup] '' @ shortenPath home path @ '' unchanged since a previous read this session ('' @ dec totalLines @
     '' lines, '' @ dec totalBytes @ '' bytes) '' @ emdash @
     '' content omitted to save context. Use start_line/end_line for a specific range, or edit/search the file if you need its current state.''"

text \<open>The tool: its settings, the home directory for display, the hash of a result, the embedded documents and
  the image test.\<close>

record 'h read_tool =
  rt_fuzzyMatch :: "bool option"
  rt_dedup :: "bool option"
  rt_home :: "string option"
  rt_hash :: "string \<Rightarrow> 'h"
  rt_docs :: "string \<Rightarrow> string option"
  rt_imageMime :: "string \<Rightarrow> string"
  rt_zero :: 'h

datatype read_err = RMissingPath | RNotFound | RError | RWorktreeSync | RInvalidImage | RPanic

definition FileToolDedupEnabled :: "bool option \<Rightarrow> bool" where
  "FileToolDedupEnabled d = (case d of None \<Rightarrow> True | Some b \<Rightarrow> b)"

definition maybeDedup :: "'h read_tool \<Rightarrow> string \<Rightarrow> string \<Rightarrow> 'h dedup_store \<Rightarrow> string \<times> 'h dedup_store" where
  "maybeDedup t path rendered s =
     (if \<not> FileToolDedupEnabled (rt_dedup t) then (rendered, s)
      else let (seen, s') = seenOrAdd (rt_hash t rendered) s in
        (if seen then dedupHint (rt_home t) path (length (splitLines rendered)) (length rendered) else rendered, s'))"

definition syncWorktree :: "os_env \<Rightarrow> string \<Rightarrow> world \<Rightarrow> bool \<times> world" where
  "syncWorktree os resolvedPath w =
     (case w_worktree w of None \<Rightarrow> (True, w)
      | Some m \<Rightarrow>
          (let (worktreePath, m') = CurrentWorktree (stat_ok os w) m; w' = w\<lparr>w_worktree := Some m'\<rparr> in
           if worktreePath = [] then (True, w') else LazySyncFromMain os (Some m') worktreePath resolvedPath w'))"

definition read_file_error :: "read_failure \<Rightarrow> read_err" where
  "read_file_error e = (case e of NotExist \<Rightarrow> RNotFound | Unreadable \<Rightarrow> RError)"

definition read_Execute :: "os_env \<Rightarrow> 'h read_tool \<Rightarrow> (string \<Rightarrow> string) \<Rightarrow> read_params \<Rightarrow> world \<Rightarrow> 'h dedup_store \<Rightarrow>
    (read_err + string) \<times> world \<times> 'h dedup_store" where
  "read_Execute os t listing p0 w s =
     (case parseParams p0 of None \<Rightarrow> (Inl RMissingPath, w, s)
      | Some p \<Rightarrow>
          let path = rp_path p; out = (\<lambda>r w s. (case r of None \<Rightarrow> Inl RPanic | Some x \<Rightarrow> Inr x, w, s)) in
          (case ParseGoaURL path of
             Some docName \<Rightarrow>
               (case rt_docs t docName of None \<Rightarrow> (Inl RError, w, s)
                | Some data \<Rightarrow> out (renderFile (rt_home t) (''goa://docs/'' @ docName @ ''.md'') data p) w s)
           | None \<Rightarrow>
               (let (res, wm) = ResolveToolPath (path_env_of os w) (w_worktree w) path; w0 = w\<lparr>w_worktree := wm\<rparr> in
                case res of None \<Rightarrow> (Inl RError, w0, s)
                | Some resolved \<Rightarrow>
                    (case syncWorktree os resolved w0 of (False, w1) \<Rightarrow> (Inl RWorktreeSync, w1, s)
                     | (True, w1) \<Rightarrow>
                         if os_isdir os resolved \<and> stat_ok os w1 resolved then (Inr (listing resolved), w1, s)
                         else (case ReadFileWithFuzzyFallback os w1 (rt_fuzzyMatch t) resolved path of
                             Inl e \<Rightarrow> (Inl (read_file_error e), w1, s)
                           | Inr (targetPath, data) \<Rightarrow>
                               if rp_includeImage p then
                                 (if rt_imageMime t data = [] then (Inl RInvalidImage, w1, s)
                                  else (Inr (''Image content'' @ [nl] @ ''MIME type: '' @ rt_imageMime t data @ [nl] @
                                    ''Size: '' @ dec (length data) @ '' bytes''), w1, s))
                               else (case renderFile (rt_home t) targetPath data p of None \<Rightarrow> (Inl RPanic, w1, s)
                                 | Some rendered \<Rightarrow>
                                     if targetPath \<noteq> resolved then (Inr (fuzzy_note targetPath @ [nl] @ rendered), w1, s)
                                     else (let (text, s') = maybeDedup t targetPath rendered s in (Inr text, w1, s')))))))) "

section \<open>What a read shows\<close>

lemma clamp_bounds:
  assumes "clampLineRange s e n m = (a, b)" "1 \<le> n"
  shows "1 \<le> a" "a \<le> b" "b \<le> n" "b = (if e \<le> 0 \<or> e > n then n else e)" "a = min (max 1 s) b"
  using assms by (auto simp: clampLineRange_def Let_def split: if_splits)


definition demo_params :: read_params where
  "demo_params = \<lparr>rp_path = ''f'', rp_startLine = 2, rp_endLine = 0, rp_maxLines = 1, rp_maxBytes = 100, rp_showNumbers = None,
     rp_includeImage = False\<rparr>"


text \<open>When the bytes of a read are limited, the lines it shows have been numbered already: they are numbered
  again, and the text shown is longer than the limit.\<close>

theorem byte_limit_numbers_twice:
  "let p = demo_params\<lparr>rp_startLine := 1, rp_maxLines := 10, rp_maxBytes := 15\<rparr>
   in select_lines four_lines p = Some ([''     1  one''], 1, CutBytes) \<and>
      renderReadLines [''     1  one''] 1 (showNumbers p) = ''     1       1  one'' @ [nl] \<and>
      int (length (renderReadLines [''     1  one''] 1 (showNumbers p))) > rp_maxBytes p"
  by code_simp

section \<open>Writing\<close>

record write_params =
  wp_path :: string
  wp_content :: string
  wp_createDirs :: "bool option"

datatype write_error = WMissingPath | WProtected | WMkdir | WFailed | WVerify

definition parseWriteFileParams :: "write_params \<Rightarrow> write_error + write_params" where
  "parseWriteFileParams p =
     (if wp_path p = [] then Inl WMissingPath
      else Inr (p\<lparr>wp_createDirs := (case wp_createDirs p of None \<Rightarrow> Some True | Some b \<Rightarrow> Some b)\<rparr>))"

definition ensureParentDirs :: "os_env \<Rightarrow> string \<Rightarrow> bool option \<Rightarrow> write_error option" where
  "ensureParentDirs os resolvedPath createDirs =
     (if createDirs = None \<or> createDirs = Some False then None
      else if \<not> os_mkdir os (DirOf resolvedPath) then Some WMkdir else None)"

definition stageIfExists :: "os_env \<Rightarrow> edit_tool \<Rightarrow> string \<Rightarrow> world \<Rightarrow> world" where
  "stageIfExists os t resolvedPath w =
     (if stat_ok os w resolvedPath then (case et_backupDir t of None \<Rightarrow> w
        | Some dir \<Rightarrow> snd (StageBeforeEdit os dir resolvedPath (et_projectDir t) w)) else w)"

definition buildWritePreview :: "string \<Rightarrow> string \<Rightarrow> string \<Rightarrow> string \<Rightarrow> string" where
  "buildWritePreview expandLabel path pathNote content =
     (let lines = lines_of content; previewLines = min 10 (length lines);
          tick = map char_of [226 :: nat, 156, 147]; fence = replicate 3 (CHR 0x60); dots = map char_of [226 :: nat, 128, 166]
      in ''[write: '' @ path @ '']'' @ [nl] @ tick @ '' Written '' @ emdash @ '' '' @ dec (length content) @ '' bytes, '' @
         dec (length lines) @ '' lines'' @ pathNote @ [nl] @ fence @ [nl] @
         concat (map (\<lambda>l. l @ [nl]) (take previewLines lines)) @ fence @ [nl] @
         (if length lines > previewLines then dots @ '' '' @ dec (length lines - previewLines) @ '' more lines ('' @ expandLabel @
            '' to expand)'' @ [nl] else []))"

text \<open>The settings of the write tool are those of the edit tool it uses.\<close>

definition write_Execute :: "os_env \<Rightarrow> edit_tool \<Rightarrow> string \<Rightarrow> write_params \<Rightarrow> world \<Rightarrow> (write_error + string) \<times> world" where
  "write_Execute os t expandLabel p0 w =
     (case parseWriteFileParams p0 of Inl e \<Rightarrow> (Inl e, w)
      | Inr p \<Rightarrow>
          (let (res, original, w0) = resolve_path os (wp_path p) w in
           case res of None \<Rightarrow> (Inl WProtected, w0)
           | Some resolved \<Rightarrow>
               (case ensureParentDirs os resolved (wp_createDirs p) of Some e \<Rightarrow> (Inl e, w0)
                | None \<Rightarrow>
                    (case WriteFileVerified os resolved (wp_content p) (stageIfExists os t resolved w0) of
                       (Some VerifyFailed, w') \<Rightarrow> (Inl WVerify, w')
                     | (Some WriteFailed, w') \<Rightarrow> (Inl WFailed, w')
                     | (None, w') \<Rightarrow> (Inr (buildWritePreview expandLabel original (resolvedPathNote resolved original) (wp_content p)),
                         if et_notify t then w'\<lparr>w_changed := w_changed w' @ [resolved]\<rparr> else w')))))"

lemma stageIfExists_other:
  assumes "f \<notin> backup_files os t path"
  shows "w_disk (stageIfExists os t path w) f = w_disk w f"
proof (cases "et_backupDir t")
  case (Some dir)
  obtain ok ws where st: "StageBeforeEdit os dir path (et_projectDir t) w = (ok, ws)" by fastforce
  have "f \<noteq> os_file os (Join dir ''.gitignore'')" "\<And>b. BackupPath dir path (et_projectDir t) = Some b \<Longrightarrow> f \<noteq> os_file os b"
    using assms Some by (auto simp: backup_files_def)
  from stage_other [OF st this] show ?thesis using Some st by (simp add: stageIfExists_def)
qed (simp add: stageIfExists_def)

text \<open>A write that reports success has put exactly the content it was given into the file the path resolves to
  (never into one with a similar name), and changed no other file but the snapshot.\<close>

theorem write_success_is_on_disk:
  assumes "write_Execute os t lbl p w = (Inr msg, w')"
  shows "\<exists>resolved original w0. resolve_path os (wp_path p) w = (Some resolved, original, w0) \<and>
    ReadFile os w' resolved = Inr (wp_content p) \<and>
    (\<forall>f. f \<noteq> os_file os resolved \<and> f \<notin> backup_files os t resolved \<longrightarrow> w_disk w' f = w_disk w f)"
proof -
  obtain res original w0 where r: "resolve_path os (wp_path p) w = (res, original, w0)" by (metis prod_cases3)
  from assms r obtain resolved w2 where x: "res = Some resolved"
    "WriteFileVerified os resolved (wp_content p) (stageIfExists os t resolved w0) = (None, w2)" "w_disk w' = w_disk w2"
    by (auto simp: write_Execute_def parseWriteFileParams_def split: if_splits option.splits prod.splits write_failure.splits)
  have "w_disk w' f = w_disk w f" if "f \<noteq> os_file os resolved" "f \<notin> backup_files os t resolved" for f
    using verified_write(4) [OF x(2) that(1)] stageIfExists_other [OF that(2), of w0] resolve_same [OF r] x(3)
    by (simp add: same_disk_def)
  moreover have "ReadFile os w' resolved = Inr (wp_content p)"
    using verified_write(1) [OF x(2)] x(3) by (simp add: ReadFile_def split: if_splits)
  ultimately show ?thesis using r x(1) by blast
qed

theorem write_success_is_on_disk_witness:
  "\<exists>msg w'. write_Execute demo_os demo_tool ''^O'' \<lparr>wp_path = ''mian.go'', wp_content = ''new'', wp_createDirs = None\<rparr> demo_world = (Inr msg, w') \<and>
     ReadFile demo_os w' ''/p/mian.go'' = Inr ''new'' \<and> w_disk w' ''/p/main.go'' = w_disk demo_world ''/p/main.go''"
proof -
  let ?p = "\<lparr>wp_path = ''mian.go'', wp_content = ''new'', wp_createDirs = None\<rparr>"
  have "\<not> isl (fst (write_Execute demo_os demo_tool ''^O'' ?p demo_world))" by code_simp
  then obtain msg w' where x: "write_Execute demo_os demo_tool ''^O'' ?p demo_world = (Inr msg, w')"
    by (cases "write_Execute demo_os demo_tool ''^O'' ?p demo_world"; cases "fst (write_Execute demo_os demo_tool ''^O'' ?p demo_world)") auto
  have "fst (resolve_path demo_os ''mian.go'' demo_world) = Some ''/p/mian.go''" by code_simp
  moreover have "os_file demo_os ''/p/mian.go'' = ''/p/mian.go''" by code_simp
  moreover have "backup_files demo_os demo_tool q = {}" for q by (simp add: backup_files_def demo_tool_def)
  ultimately show ?thesis using write_success_is_on_disk [OF x] x by auto
qed

end
