(* ===== verification/Chat_Model.thy ===== *)
theory Chat_Model
  imports Go_Strings Complex_Main
begin

text \<open>
  The conversation of an agent (src/internal/agentic: message.go, agent_context_stats.go,
  agent_context_cost.go, compression_thresholds.go and the settings of agent_struct_config.go): its messages,
  what they are estimated to cost in tokens, the settings of compaction and the part of the agent's state
  that compaction reads and changes. Token counts are sums over texts in memory and do not overflow.
  Of the metadata of a message only the mark of a transient notice is kept, and
  fields that only streamed pieces carry are left out.
\<close>

section \<open>Messages\<close>

datatype role = System | User | Assistant | ToolRole | OtherRole string

record tool_call =
  tc_id :: string
  tc_name :: string
  tc_args :: string

record message =
  m_role :: role
  m_content :: string
  m_thinking :: string
  m_toolName :: string
  m_callID :: string
  m_calls :: "tool_call list"
  m_images :: "string list"
  m_ephemeral :: bool

definition text_message :: "role \<Rightarrow> string \<Rightarrow> message" where
  "text_message r c = \<lparr>m_role = r, m_content = c, m_thinking = [], m_toolName = [], m_callID = [],
     m_calls = [], m_images = [], m_ephemeral = False\<rparr>"

section \<open>Token estimates\<close>

text \<open>The code point of one element of \<open>runes\<close>; an invalid byte is read as the replacement rune.\<close>

fun rune_code :: "string \<Rightarrow> nat" where
  "rune_code [a] = (if byte a < 128 then byte a else 65533)"
| "rune_code [a, b] = (byte a mod 32) * 64 + byte b mod 64"
| "rune_code [a, b, c] = (byte a mod 16) * 4096 + (byte b mod 64) * 64 + byte c mod 64"
| "rune_code [a, b, c, d] = (byte a mod 8) * 262144 + (byte b mod 64) * 4096 + (byte c mod 64) * 64 + byte d mod 64"
| "rune_code _ = 65533"

definition is_cjk :: "nat \<Rightarrow> bool" where
  "is_cjk r \<longleftrightarrow> 0x4E00 \<le> r \<and> r \<le> 0x9FFF \<or> 0x3040 \<le> r \<and> r \<le> 0x309F \<or> 0x30A0 \<le> r \<and> r \<le> 0x30FF
     \<or> 0xAC00 \<le> r \<and> r \<le> 0xD7AF"

definition asciiCharsPerTokenX10 :: nat where "asciiCharsPerTokenX10 = 33"
definition messageOverheadTokens :: int where "messageOverheadTokens = 4"
definition toolCallOverheadTokens :: int where "toolCallOverheadTokens = 4"

definition estimateTokens :: "string \<Rightarrow> int" where
  "estimateTokens text =
     (let rs = map rune_code (runes text);
          cjk = length (filter is_cjk rs);
          ascii = length (filter (\<lambda>r. \<not> is_cjk r \<and> r < 128) rs);
          others = length rs - cjk - ascii
      in int (cjk + ascii * 10 div asciiCharsPerTokenX10 + others div 2))"

definition messageTokenCount :: "message \<Rightarrow> int" where
  "messageTokenCount m =
     messageOverheadTokens + estimateTokens (m_content m) + estimateTokens (m_thinking m) + estimateTokens (m_callID m)
     + (\<Sum>tc\<leftarrow>m_calls m. toolCallOverheadTokens + estimateTokens (tc_id tc) + estimateTokens (tc_name tc)
          + estimateTokens (tc_args tc))"

definition estimateTokensFromHistory :: "message list \<Rightarrow> int" where
  "estimateTokensFromHistory h = (\<Sum>m\<leftarrow>h. messageTokenCount m)"

lemma estimateTokens_nonneg [simp]: "0 \<le> estimateTokens s"
  by (simp add: estimateTokens_def Let_def)

lemma estimateTokens_Nil [simp]: "estimateTokens [] = 0"
  by (simp add: estimateTokens_def asciiCharsPerTokenX10_def)

lemma sum_list_nonneg_int: "\<forall>x\<in>set xs. 0 \<le> f x \<Longrightarrow> 0 \<le> (\<Sum>x\<leftarrow>xs. f x :: int)"
  by (induction xs) auto

lemma messageTokenCount_pos: "4 \<le> messageTokenCount m"
  unfolding messageTokenCount_def messageOverheadTokens_def
  using sum_list_nonneg_int [of "m_calls m" "\<lambda>tc. toolCallOverheadTokens + estimateTokens (tc_id tc)
      + estimateTokens (tc_name tc) + estimateTokens (tc_args tc)"]
    estimateTokens_nonneg [of "m_content m"] estimateTokens_nonneg [of "m_thinking m"] estimateTokens_nonneg [of "m_callID m"]
  by (simp add: toolCallOverheadTokens_def add_nonneg_nonneg)

lemma messageTokenCount_nonneg [simp]: "0 \<le> messageTokenCount m"
  using messageTokenCount_pos [of m] by simp

lemma history_tokens_simps [simp]:
  "estimateTokensFromHistory [] = 0"
  "estimateTokensFromHistory (m # h) = messageTokenCount m + estimateTokensFromHistory h"
  "estimateTokensFromHistory (h @ h') = estimateTokensFromHistory h + estimateTokensFromHistory h'"
  by (simp_all add: estimateTokensFromHistory_def)

lemma history_tokens_nonneg [simp]: "0 \<le> estimateTokensFromHistory h"
  by (induction h) (simp_all add: add_nonneg_nonneg)

lemma history_tokens_length: "4 * int (length h) \<le> estimateTokensFromHistory h"
proof (induction h)
  case (Cons m h)
  then show ?case using messageTokenCount_pos [of m] by simp
qed simp

section \<open>Settings\<close>

datatype strategy = NoStrategy | ToolElision | Summarize | Selective | Hybrid | Micro | RemoteCompact | FreshWindow
  | OtherStrategy string

text \<open>\<open>MicroCompactionConfig\<close>: the idle time is in nanoseconds.\<close>

record micro_config =
  mc_enabled :: bool
  mc_keep :: int
  mc_minTokens :: int
  mc_threshold :: int
  mc_marker :: string
  mc_minRatio :: rat

definition DefaultMicroCompactionConfig :: micro_config where
  "DefaultMicroCompactionConfig = \<lparr>mc_enabled = False, mc_keep = 20, mc_minTokens = 100,
     mc_threshold = 3600000000000, mc_marker = ''[Old tool result content cleared]'', mc_minRatio = 1/2\<rparr>"

record prune_config =
  pc_enabled :: bool
  pc_threshold :: int
  pc_head :: int
  pc_tail :: int

definition DefaultToolResultPruningConfig :: prune_config where
  "DefaultToolResultPruningConfig = \<lparr>pc_enabled = False, pc_threshold = 8192, pc_head = 4096, pc_tail = 1024\<rparr>"

definition PruneMarker :: string where
  "PruneMarker = [CHR 0x0A, CHR 0x0A] @ ''[... tool result middle pruned ...]'' @ [CHR 0x0A, CHR 0x0A]"

text \<open>\<open>ToolResultPruningConfig.resolve\<close>. The sum of the lengths is a 64-bit integer.\<close>

definition resolve_pruning :: "prune_config \<Rightarrow> prune_config" where
  "resolve_pruning c =
     (let d = DefaultToolResultPruningConfig;
          c = (if pc_threshold c \<le> 0 then c\<lparr>pc_threshold := pc_threshold d\<rparr> else c);
          c = (if pc_head c \<le> 0 then c\<lparr>pc_head := pc_head d\<rparr> else c);
          c = (if pc_tail c \<le> 0 then c\<lparr>pc_tail := pc_tail d\<rparr> else c)
      in if wrap64 (wrap64 (pc_head c + int (rune_count PruneMarker)) + pc_tail c) > pc_threshold c then d else c)"

definition microFallbackConfig :: "micro_config \<Rightarrow> micro_config" where
  "microFallbackConfig c =
     (let d = DefaultMicroCompactionConfig;
          c = (if mc_keep c \<le> 0 then c\<lparr>mc_keep := mc_keep d\<rparr> else c);
          c = (if mc_minTokens c \<le> 0 then c\<lparr>mc_minTokens := mc_minTokens d\<rparr> else c);
          c = (if mc_marker c = [] then c\<lparr>mc_marker := mc_marker d\<rparr> else c);
          c = (if mc_minRatio c \<le> 0 then c\<lparr>mc_minRatio := mc_minRatio d\<rparr> else c)
      in if mc_threshold c \<le> 0 then c\<lparr>mc_threshold := mc_threshold d\<rparr> else c)"

record compress_config =
  cc_maxTokens :: int
  cc_soft :: int
  cc_hard :: int
  cc_softStrategy :: strategy
  cc_hardStrategy :: strategy
  cc_disableGate :: bool
  cc_onContextError :: bool
  cc_onErrorStrategy :: strategy
  cc_micro :: micro_config
  cc_pruning :: prune_config
  cc_preserve :: int
  cc_remoteBudget :: int
  cc_freshEnabled :: bool
  cc_freshPreserve :: int

text \<open>\<open>resolvedThresholds\<close>.\<close>

definition DefaultHardPercent :: int where "DefaultHardPercent = 95"

record thresholds =
  th_soft :: int
  th_hard :: int
  th_softStrategy :: strategy
  th_hardStrategy :: strategy

definition effectiveHard :: "thresholds \<Rightarrow> int" where
  "effectiveHard t = (if th_hard t > 0 then th_hard t else DefaultHardPercent)"

definition resolveThresholds :: "compress_config \<Rightarrow> thresholds" where
  "resolveThresholds c =
     \<lparr>th_soft = (if cc_soft c < 0 then 0 else cc_soft c), th_hard = cc_hard c,
      th_softStrategy = (if cc_softStrategy c = NoStrategy then Micro else cc_softStrategy c),
      th_hardStrategy = (if cc_hardStrategy c = NoStrategy then Summarize else cc_hardStrategy c)\<rparr>"

lemma effectiveHard_pos: "0 < effectiveHard t"
  by (simp add: effectiveHard_def DefaultHardPercent_def)

text \<open>Division of Go: towards zero.\<close>

definition go_div :: "int \<Rightarrow> int \<Rightarrow> int" where
  "go_div a b = sgn a * sgn b * (\<bar>a\<bar> div \<bar>b\<bar>)"

lemma go_div_pos: "0 \<le> a \<Longrightarrow> 0 < b \<Longrightarrow> go_div a b = a div b"
  by (cases "a = 0") (simp_all add: go_div_def)

end
