(* ===== verification/Chat_Agent.thy ===== *)
theory Chat_Agent
  imports Chat_Model
begin

text \<open>
  The part of an agent that compaction reads and changes (src/internal/agentic: agent_context.go,
  agent_context_stats.go, agent_compress_events.go, agent_compaction_events.go, compaction_policy.go and the
  gates of compaction.go and compression_thresholds.go). Every access holds the agent's mutex; the clock is an
  argument. The cost of the tool schemas is a number of the state.
\<close>

section \<open>What happened\<close>

text \<open>\<open>CompactionTx\<close> without the facts about the model call.\<close>

record compaction_tx =
  tx_id :: string
  tx_strategy :: strategy
  tx_summary :: string
  tx_preserve :: int
  tx_start :: int
  tx_end :: int
  tx_tokens :: int
  tx_freed :: int
  tx_replacement :: "message list"
  tx_error :: string

definition empty_tx :: "string \<Rightarrow> compaction_tx" where
  "empty_tx i = \<lparr>tx_id = i, tx_strategy = NoStrategy, tx_summary = [], tx_preserve = 0, tx_start = 0, tx_end = 0,
     tx_tokens = 0, tx_freed = 0, tx_replacement = [], tx_error = []\<rparr>"

record context_stats =
  cs_messages :: nat
  cs_characters :: nat
  cs_estimated :: int
  cs_projected :: int
  cs_max :: int
  cs_percent :: int
  cs_autoMax :: bool

datatype tx_kind = TxStart | TxSummary | TxEnd

text \<open>The events that compaction emits and those from which a history is rebuilt. A content event says
  whether it is thinking.\<close>

datatype out_event =
    EContent role string bool
  | EToolCall string string string
  | EToolResult string string string "string list"
  | EEnd
  | ECompact string int int int int string
  | EStats context_stats
  | ETx tx_kind "compaction_tx option"
  | EOther

section \<open>The agent\<close>

record agent =
  a_cc :: compress_config
  a_prompt :: string
  a_schemaCost :: int
  a_modelWindow :: int
  a_window :: int
  a_remote :: bool
  a_hist :: "message list"
  a_gross :: int
  a_usageOut :: int
  a_usageLen :: nat
  a_warm :: bool
  a_turnEnd :: "int option"
  a_roundAct :: "int option"
  a_stopLength :: bool
  a_generation :: int
  a_sticky :: string
  a_log :: "out_event list"

definition effectiveMaxTokens :: "agent \<Rightarrow> int" where
  "effectiveMaxTokens a =
     (if a_window a > 0 then a_window a
      else if a_modelWindow a > 0 then a_modelWindow a
      else cc_maxTokens (a_cc a))"

abbreviation a_thresholds :: "agent \<Rightarrow> thresholds" where
  "a_thresholds a \<equiv> resolveThresholds (a_cc a)"

definition fixedCostTokens :: "agent \<Rightarrow> int" where
  "fixedCostTokens a = (if a_prompt a \<noteq> [] then estimateTokens (a_prompt a) else 0) + a_schemaCost a"

text \<open>What was appended since the last request the provider counted.\<close>

definition appended_tokens :: "agent \<Rightarrow> int" where
  "appended_tokens a =
     (if a_usageLen a < length (a_hist a) then estimateTokensFromHistory (drop (a_usageLen a) (a_hist a)) else 0)"

definition estimateContextTokensLocked :: "agent \<Rightarrow> int" where
  "estimateContextTokensLocked a =
     (let estimated = estimateTokensFromHistory (a_hist a) + fixedCostTokens a
      in if a_gross a > 0
         then let floor = a_gross a + appended_tokens a in if floor > estimated then floor else estimated
         else estimated)"

definition projectedContextTokensLocked :: "agent \<Rightarrow> int" where
  "projectedContextTokensLocked a =
     (if a_gross a \<le> 0 then estimateTokensFromHistory (a_hist a) + fixedCostTokens a
      else let projected = a_gross a + appended_tokens a in if projected < 0 then 0 else projected)"

definition recordContextUsageLocked :: "int \<Rightarrow> int \<Rightarrow> agent \<Rightarrow> agent" where
  "recordContextUsageLocked gross output a =
     (if gross \<le> 0 then a
      else a\<lparr>a_gross := gross, a_usageOut := output, a_usageLen := length (a_hist a)\<rparr>)"

definition invalidateContextUsageLocked :: "agent \<Rightarrow> agent" where
  "invalidateContextUsageLocked a = a\<lparr>a_gross := 0, a_usageLen := 0, a_usageOut := 0, a_warm := False\<rparr>"

definition history_chars :: "message list \<Rightarrow> nat" where
  "history_chars h = (\<Sum>m\<leftarrow>h. length (m_content m) + length (m_thinking m) + (\<Sum>tc\<leftarrow>m_calls m. length (tc_args tc)))"

definition computeContextStats :: "agent \<Rightarrow> context_stats" where
  "computeContextStats a =
     (let estimated = estimateContextTokensLocked a; maxTokens = effectiveMaxTokens a
      in \<lparr>cs_messages = length (a_hist a), cs_characters = history_chars (a_hist a), cs_estimated = estimated,
          cs_projected = projectedContextTokensLocked a, cs_max = maxTokens,
          cs_percent = (if maxTokens > 0 then go_div (estimated * 100) maxTokens else 0),
          cs_autoMax = (maxTokens > 0 \<and> a_modelWindow a > 0)\<rparr>)"

definition computeContextStatsForMax :: "int \<Rightarrow> agent \<Rightarrow> context_stats" where
  "computeContextStatsForMax maxTokens a =
     (let projected = projectedContextTokensLocked a
      in \<lparr>cs_messages = length (a_hist a), cs_characters = history_chars (a_hist a),
          cs_estimated = estimateContextTokensLocked a, cs_projected = projected, cs_max = maxTokens,
          cs_percent = (if maxTokens > 0 then go_div (projected * 100) maxTokens else 0),
          cs_autoMax = (cc_maxTokens (a_cc a) = 0 \<and> a_modelWindow a > 0)\<rparr>)"

definition contextRatio :: "agent \<Rightarrow> rat" where
  "contextRatio a =
     (let maxTokens = effectiveMaxTokens a
      in if maxTokens = 0 then 0 else of_int (cs_estimated (computeContextStats a)) / of_int maxTokens)"

text \<open>\<open>checkContextLimit\<close>: whether a new turn is accepted.\<close>

definition hard_ceiling :: "agent \<Rightarrow> int" where
  "hard_ceiling a = go_div (effectiveMaxTokens a * effectiveHard (a_thresholds a)) 100"

definition checkContextLimit :: "agent \<Rightarrow> bool" where
  "checkContextLimit a \<longleftrightarrow> effectiveMaxTokens a = 0 \<or> \<not> estimateContextTokensLocked a > hard_ceiling a"

section \<open>Is the provider's cache warm?\<close>

text \<open>\<open>time.Time.After\<close>, where \<open>None\<close> is the zero time.\<close>

definition lastProviderActivityLocked :: "agent \<Rightarrow> int option" where
  "lastProviderActivityLocked a =
     (case (a_roundAct a, a_turnEnd a) of
        (Some r, Some t) \<Rightarrow> if r > t then Some r else Some t
      | (Some r, None) \<Rightarrow> Some r
      | (None, t) \<Rightarrow> t)"

definition cacheColdWithThreshold :: "int \<Rightarrow> int \<Rightarrow> agent \<Rightarrow> bool" where
  "cacheColdWithThreshold now threshold a =
     (if a_turnEnd a = None \<and> \<not> a_warm a then True
      else case lastProviderActivityLocked a of None \<Rightarrow> \<not> a_warm a | Some t \<Rightarrow> now - t \<ge> threshold)"

definition cacheAssumedCold :: "int \<Rightarrow> agent \<Rightarrow> bool" where
  "cacheAssumedCold now a =
     (let threshold = mc_threshold (cc_micro (a_cc a))
      in if threshold \<le> 0 then True else cacheColdWithThreshold now threshold a)"

definition cacheAssumedColdForProactive :: "int \<Rightarrow> agent \<Rightarrow> bool" where
  "cacheAssumedColdForProactive now a =
     (let threshold = mc_threshold (cc_micro (a_cc a))
      in if threshold < 0 then True
         else cacheColdWithThreshold now (if threshold = 0 then mc_threshold DefaultMicroCompactionConfig else threshold) a)"

section \<open>Which action is due\<close>

datatype policy_decision = Noop | SoftMaintenance | HighMarkCompaction | EmergencyFallback

record policy_input =
  pi_estimated :: int
  pi_next :: int
  pi_reserve :: int
  pi_margin :: int
  pi_max :: int
  pi_softPercent :: int
  pi_highPercent :: int
  pi_hardPercent :: int
  pi_cacheHot :: bool
  pi_lastTurn :: "int option"
  pi_now :: "int option"
  pi_ttl :: int
  pi_softAvailable :: bool
  pi_highAvailable :: bool

definition percentOf :: "int \<Rightarrow> int \<Rightarrow> int" where
  "percentOf usage mx = (if usage \<le> 0 \<or> mx \<le> 0 then 0 else usage div mx * 100 + usage mod mx * 100 div mx)"

definition highMarkReached :: "int \<Rightarrow> int \<Rightarrow> int \<Rightarrow> bool" where
  "highMarkReached usage high hard =
     (let high = (if high \<le> 0 then hard else high) in hard > 0 \<and> high < hard \<and> usage \<ge> high)"

definition policyCacheHot :: "policy_input \<Rightarrow> bool" where
  "policyCacheHot i =
     (if pi_cacheHot i then True
      else if pi_ttl i \<le> 0 then False
      else case (pi_lastTurn i, pi_now i) of (Some l, Some n) \<Rightarrow> n - l < pi_ttl i | _ \<Rightarrow> False)"

definition softMaintenanceReady :: "int \<Rightarrow> policy_input \<Rightarrow> bool" where
  "softMaintenanceReady usage i \<longleftrightarrow>
     pi_softPercent i > 0 \<and> usage \<ge> pi_softPercent i \<and> pi_softAvailable i \<and> \<not> policyCacheHot i"

definition policy_usage :: "policy_input \<Rightarrow> int" where
  "policy_usage i = percentOf ((if pi_next i > 0 then pi_next i else pi_estimated i)
     + (max (pi_reserve i) 0 + max (pi_margin i) 0)) (pi_max i)"

definition DecideCompactionPolicy :: "policy_input \<Rightarrow> policy_decision" where
  "DecideCompactionPolicy i =
     (if pi_max i \<le> 0 then Noop
      else let usage = policy_usage i; hard = pi_hardPercent i
        in if hard > 0 \<and> usage \<ge> hard then EmergencyFallback
           else if highMarkReached usage (pi_highPercent i) hard \<and> pi_highAvailable i then HighMarkCompaction
           else if softMaintenanceReady usage i then SoftMaintenance
           else Noop)"

datatype tier = TierNone | TierSoft | TierHard

definition proactiveTierLocked :: "int \<Rightarrow> int \<Rightarrow> thresholds \<Rightarrow> agent \<Rightarrow> tier" where
  "proactiveTierLocked now usagePercent rt a =
     (let hot = (if cc_disableGate (a_cc a) then False else \<not> cacheAssumedColdForProactive now a)
      in case DecideCompactionPolicy \<lparr>pi_estimated = usagePercent, pi_next = 0, pi_reserve = 0, pi_margin = 0,
             pi_max = 100, pi_softPercent = th_soft rt, pi_highPercent = 0, pi_hardPercent = th_hard rt,
             pi_cacheHot = hot, pi_lastTurn = None, pi_now = None, pi_ttl = 0, pi_softAvailable = th_soft rt > 0,
             pi_highAvailable = False\<rparr> of
           EmergencyFallback \<Rightarrow> TierHard | SoftMaintenance \<Rightarrow> TierSoft | _ \<Rightarrow> TierNone)"

section \<open>Reporting\<close>

record compaction_result =
  cr_removed :: int
  cr_freed :: int
  cr_changed :: int
  cr_escalated :: bool

definition no_result :: compaction_result where
  "no_result = \<lparr>cr_removed = 0, cr_freed = 0, cr_changed = 0, cr_escalated = False\<rparr>"

definition didWork :: "compaction_result \<Rightarrow> bool" where
  "didWork r \<longleftrightarrow> cr_removed r > 0 \<or> cr_changed r > 0 \<or> cr_freed r > 0"

definition mergeCompaction :: "compaction_result \<Rightarrow> compaction_result \<Rightarrow> compaction_result" where
  "mergeCompaction x y = \<lparr>cr_removed = cr_removed x + cr_removed y, cr_freed = cr_freed x + cr_freed y,
     cr_changed = cr_changed x + cr_changed y, cr_escalated = (cr_escalated x \<or> cr_escalated y)\<rparr>"

definition emit :: "out_event \<Rightarrow> agent \<Rightarrow> agent" where
  "emit e a = a\<lparr>a_log := a_log a @ [e]\<rparr>"

text \<open>Every report resets the memory of sticky instructions. The label names the strategy or the path
  that ran.\<close>

definition emitCompaction :: "string \<Rightarrow> context_stats \<Rightarrow> context_stats \<Rightarrow> int \<Rightarrow> int \<Rightarrow> string \<Rightarrow> agent \<Rightarrow> agent" where
  "emitCompaction label before after removed freed detail a =
     emit (ECompact label (cs_percent before) (cs_percent after) removed freed detail) (a\<lparr>a_sticky := []\<rparr>)"

definition emitCompactionResult :: "string \<Rightarrow> context_stats \<Rightarrow> compaction_result \<Rightarrow> string \<Rightarrow> agent \<Rightarrow> agent" where
  "emitCompactionResult label before res detail a =
     (if didWork res
      then emitCompaction label before (computeContextStats a) (cr_removed res) (cr_freed res) detail a else a)"

definition emitContextStats :: "agent \<Rightarrow> agent" where
  "emitContextStats a = emit (EStats (computeContextStats a)) a"

definition emitCompactionTxStart :: "string \<Rightarrow> agent \<Rightarrow> agent" where
  "emitCompactionTxStart i = emit (ETx TxStart (Some (empty_tx i)))"

definition emitCompactionTxSummary :: "compaction_tx \<Rightarrow> agent \<Rightarrow> agent" where
  "emitCompactionTxSummary tx = emit (ETx TxSummary (Some tx))"

definition emitCompactionTxEnd :: "string \<Rightarrow> string \<Rightarrow> agent \<Rightarrow> agent" where
  "emitCompactionTxEnd i err = emit (ETx TxEnd (Some ((empty_tx i)\<lparr>tx_error := err\<rparr>)))"

text \<open>\<open>FindOrphanedCompactions\<close>: the open transactions are a set, the order of the starts is kept.\<close>

fun orphan_scan :: "out_event list \<Rightarrow> string list \<times> string list \<Rightarrow> string list \<times> string list" where
  "orphan_scan [] s = s"
| "orphan_scan (ETx k (Some tx) # evs) (opened, order) =
     (if tx_id tx = [] then orphan_scan evs (opened, order)
      else orphan_scan evs
        (case k of
           TxStart \<Rightarrow> if tx_id tx \<in> set opened then (opened, order) else (tx_id tx # opened, order @ [tx_id tx])
         | TxEnd \<Rightarrow> (removeAll (tx_id tx) opened, order)
         | TxSummary \<Rightarrow> (opened, order)))"
| "orphan_scan (_ # evs) s = orphan_scan evs s"

definition FindOrphanedCompactions :: "out_event list \<Rightarrow> string list" where
  "FindOrphanedCompactions evs = (case orphan_scan evs ([], []) of (opened, order) \<Rightarrow> filter (\<lambda>i. i \<in> set opened) order)"

section \<open>Small facts\<close>

lemma invalidate_simps [simp]:
  "a_hist (invalidateContextUsageLocked a) = a_hist a" "a_cc (invalidateContextUsageLocked a) = a_cc a"
  "a_prompt (invalidateContextUsageLocked a) = a_prompt a" "a_schemaCost (invalidateContextUsageLocked a) = a_schemaCost a"
  "a_window (invalidateContextUsageLocked a) = a_window a" "a_modelWindow (invalidateContextUsageLocked a) = a_modelWindow a"
  "a_log (invalidateContextUsageLocked a) = a_log a" "a_gross (invalidateContextUsageLocked a) = 0"
  by (simp_all add: invalidateContextUsageLocked_def)

lemma emit_simps [simp]:
  "a_hist (emit e a) = a_hist a" "a_cc (emit e a) = a_cc a" "a_log (emit e a) = a_log a @ [e]"
  "a_gross (emit e a) = a_gross a"
  by (simp_all add: emit_def)

lemma emitters_hist [simp]:
  "a_hist (emitCompaction l b c r f d a) = a_hist a" "a_hist (emitCompactionResult l b res d a) = a_hist a"
  "a_hist (emitContextStats a) = a_hist a" "a_hist (emitCompactionTxStart i a) = a_hist a"
  "a_hist (emitCompactionTxSummary tx a) = a_hist a" "a_hist (emitCompactionTxEnd i err a) = a_hist a"
  by (simp_all add: emitCompaction_def emitCompactionResult_def emitContextStats_def emitCompactionTxStart_def
      emitCompactionTxSummary_def emitCompactionTxEnd_def)

text \<open>Percentages: splitting before multiplying does not change the result.\<close>

lemma percentOf_div: "0 \<le> u \<Longrightarrow> 0 < m \<Longrightarrow> percentOf u m = u * 100 div m"
proof -
  assume u: "0 \<le> u" and m: "0 < m"
  have "u * 100 = (u div m * 100) * m + u mod m * 100"
    by (metis (no_types, lifting) ab_semigroup_mult_class.mult_ac(1) distrib_right div_mult_mod_eq mult.commute)
  then have "u * 100 div m = u div m * 100 + u mod m * 100 div m" using m by simp
  with u m show ?thesis by (cases "u = 0") (auto simp: percentOf_def)
qed

lemma estimate_invalidated:
  "estimateContextTokensLocked (invalidateContextUsageLocked a) = estimateTokensFromHistory (a_hist a) + fixedCostTokens a"
  by (simp add: estimateContextTokensLocked_def fixedCostTokens_def)

lemma estimate_ge: "estimateTokensFromHistory (a_hist a) + fixedCostTokens a \<le> estimateContextTokensLocked a"
  by (simp add: estimateContextTokensLocked_def Let_def)

end
