(* ===== verification/Chat_Shrink.thy ===== *)
theory Chat_Shrink
  imports Chat_Agent
begin

text \<open>
  The passes that make a conversation smaller without a model call (src/internal/agentic: compaction.go,
  agent_compress_elision.go, agent_compress_micro.go, prune.go and the message drops of agent_compression.go
  and agent_context.go). Passes that rewrite payloads in place and passes that drop the oldest messages.
\<close>

section \<open>Rewriting in place\<close>

text \<open>The loops \<open>for i := 1; i < k && i < len(history); i++\<close> change the messages at these positions.\<close>

definition span :: "int \<Rightarrow> 'a list \<Rightarrow> 'a list" where
  "span k h = drop 1 (take (nat k) h)"

definition rewrite_span :: "int \<Rightarrow> ('a \<Rightarrow> 'a) \<Rightarrow> 'a list \<Rightarrow> 'a list" where
  "rewrite_span k f h = take 1 h @ map f (span k h) @ drop (max 1 (nat k)) h"

lemma split_span: "take 1 h @ span k h @ drop (max 1 (nat k)) h = h"
proof (cases "nat k \<le> 1")
  case True
  then have "span k h = []" by (simp add: span_def min_def)
  with True show ?thesis by (simp add: max_def append_take_drop_id)
next
  case False
  have "take 1 h @ drop 1 (take (nat k) h) = take (nat k) h"
    using False append_take_drop_id [of 1 "take (nat k) h"] by (simp add: min_def)
  with False show ?thesis unfolding span_def append_assoc [symmetric] by (simp add: max_def)
qed

lemma rewrite_span_list_all2:
  "(\<And>x. R x x) \<Longrightarrow> (\<And>x. R x (f x)) \<Longrightarrow> list_all2 R h (rewrite_span k f h)"
  unfolding rewrite_span_def
  by (subst (1) split_span [of h k, symmetric]) (intro list_all2_appendI list_all2_refl, auto simp: list_all2_map2 intro: list_all2_refl)

lemma length_rewrite_span [simp]: "length (rewrite_span k f h) = length h"
  using arg_cong [OF split_span [of h k], of length] by (simp add: rewrite_span_def)

section \<open>Micro compaction\<close>

definition capForcedKeepRecent :: "int \<Rightarrow> int \<Rightarrow> int" where
  "capForcedKeepRecent n keepRecent =
     (let maxKeep = go_div n 2;
          maxKeep = (if maxKeep < 1 then 1 else maxKeep);
          maxKeep = (if maxKeep > 5 then 5 else maxKeep)
      in if keepRecent > maxKeep then maxKeep else keepRecent)"

definition computeKeepIdx :: "int \<Rightarrow> int \<Rightarrow> bool \<Rightarrow> int" where
  "computeKeepIdx n keepRecent force =
     (let keepRecent = (if keepRecent > n - 1 then n - 1 else keepRecent);
          keepRecent = (if keepRecent < 0 then 0 else keepRecent);
          keepRecent = (if force then capForcedKeepRecent n keepRecent else keepRecent);
          keepIdx = n - keepRecent
      in if keepIdx < 1 then 1 else keepIdx)"

text \<open>Which results are replaced: those of tools that are not too small. The size is in bytes.\<close>

definition micro_hit :: "micro_config \<Rightarrow> message \<Rightarrow> bool" where
  "micro_hit cfg m \<longleftrightarrow> m_role m = ToolRole \<and> \<not> int (length (m_content m) div 4) < mc_minTokens cfg"

definition truncate_message :: "micro_config \<Rightarrow> message \<Rightarrow> message" where
  "truncate_message cfg m = (if micro_hit cfg m then m\<lparr>m_content := mc_marker cfg\<rparr> else m)"

definition truncateToolResults :: "int \<Rightarrow> micro_config \<Rightarrow> agent \<Rightarrow> int \<times> agent" where
  "truncateToolResults keepIdx cfg a =
     (let changed = int (length (filter (micro_hit cfg) (span keepIdx (a_hist a))));
          a = a\<lparr>a_hist := rewrite_span keepIdx (truncate_message cfg) (a_hist a)\<rparr>
      in (changed, if changed > 0 then invalidateContextUsageLocked a else a))"

text \<open>The estimate of the same pass, which changes nothing.\<close>

definition microCompactionDryRun :: "micro_config \<Rightarrow> bool \<Rightarrow> agent \<Rightarrow> int \<times> int" where
  "microCompactionDryRun cfg force a =
     (let keepIdx = computeKeepIdx (int (length (a_hist a))) (mc_keep cfg) force;
          hits = filter (micro_hit cfg) (span keepIdx (a_hist a));
          markerTokens = int (length (mc_marker cfg) div 4)
      in (int (length hits),
          \<Sum>m\<leftarrow>hits. let d = int (length (m_content m) div 4) - markerTokens in if d > 0 then d else 0))"

definition applyMicroLocked :: "micro_config \<Rightarrow> agent \<Rightarrow> compaction_result \<times> agent" where
  "applyMicroLocked cfg a =
     (if a_hist a = [] then (no_result, a)
      else let (changed, a) = truncateToolResults (computeKeepIdx (int (length (a_hist a))) (mc_keep cfg) True) cfg a
        in (no_result\<lparr>cr_changed := changed\<rparr>, a))"

definition microCompactForced :: "int \<Rightarrow> bool \<Rightarrow> agent \<Rightarrow> context_stats \<times> compaction_result \<times> agent" where
  "microCompactForced now force a =
     (let cfg = cc_micro (a_cc a); before = computeContextStats a in
      if a_hist a = [] then (before, no_result, a)
      else if \<not> force \<and> contextRatio a < mc_minRatio cfg then (before, no_result, a)
      else
        let overHard = contextRatio a \<ge> of_int (effectiveHard (a_thresholds a)) / 100 in
        if \<not> force \<and> \<not> overHard \<and> \<not> cacheAssumedCold now a then (before, no_result, a)
        else let keepIdx = computeKeepIdx (int (length (a_hist a))) (mc_keep cfg) force;
                 (changed, a) = truncateToolResults keepIdx cfg a
          in (before, no_result\<lparr>cr_changed := changed\<rparr>, a))"

section \<open>Elision of tool payloads\<close>

definition elidedToolCallArguments :: string where "elidedToolCallArguments = ''[elided]''"
definition elidedToolResultContent :: string where "elidedToolResultContent = ''[tool result elided]''"

definition call_reclaim :: "tool_call \<Rightarrow> int" where
  "call_reclaim tc = estimateTokens (tc_args tc) - estimateTokens elidedToolCallArguments"

definition elisionReclaim :: "message \<Rightarrow> int" where
  "elisionReclaim m =
     (case m_role m of
        Assistant \<Rightarrow> (\<Sum>tc\<leftarrow>m_calls m. call_reclaim tc)
      | ToolRole \<Rightarrow> estimateTokens (m_content m) - estimateTokens elidedToolResultContent
      | _ \<Rightarrow> 0)"

text \<open>The body of the loop of \<open>elideToolMessages\<close>: what it frees and the message it leaves.\<close>

definition elide_message :: "message \<Rightarrow> int \<times> message" where
  "elide_message m =
     (case m_role m of
        Assistant \<Rightarrow> ((\<Sum>tc\<leftarrow>m_calls m. estimateTokens (tc_args tc) - estimateTokens elidedToolCallArguments),
          m\<lparr>m_calls := map (tc_args_update (\<lambda>_. elidedToolCallArguments)) (m_calls m)\<rparr>)
      | ToolRole \<Rightarrow> (estimateTokens (m_content m) - estimateTokens elidedToolResultContent,
          m\<lparr>m_content := elidedToolResultContent\<rparr>)
      | _ \<Rightarrow> (0, m))"

definition elideToolMessages :: "int \<Rightarrow> message list \<Rightarrow> int \<times> int \<times> message list" where
  "elideToolMessages boundary h =
     (let gains = filter (\<lambda>r. r > 0) (map (fst \<circ> elide_message) (span boundary h))
      in (int (length gains), sum_list gains, rewrite_span boundary (snd \<circ> elide_message) h))"

definition computeElisionBoundary :: "int \<Rightarrow> int \<Rightarrow> int" where
  "computeElisionBoundary n preserve = (let b = n - preserve * 3 in if b < 1 then 1 else b)"

definition forcedElisionBoundary :: "int \<Rightarrow> int \<Rightarrow> int" where
  "forcedElisionBoundary boundary n =
     (if boundary > 1 then boundary else let b = n - 2 in if b < 1 then 1 else b)"

text \<open>The walk over the oldest messages until enough would be freed: the next position and what was freed.\<close>

fun elision_walk :: "int \<Rightarrow> message list \<Rightarrow> int \<Rightarrow> int \<Rightarrow> int \<times> int" where
  "elision_walk need [] i freed = (i, freed)"
| "elision_walk need (m # ms) i freed =
     (if freed < need then elision_walk need ms (i + 1) (freed + elisionReclaim m) else (i, freed))"

definition proactiveElisionBoundary :: "int \<Rightarrow> int \<Rightarrow> agent \<Rightarrow> int \<times> bool" where
  "proactiveElisionBoundary now countBoundary a =
     (if cc_disableGate (a_cc a) \<or> cacheAssumedColdForProactive now a then (countBoundary, False)
      else let maxTokens = effectiveMaxTokens a in
        if maxTokens \<le> 0 then (countBoundary, False)
        else let rt = a_thresholds a;
                 targetPct = (if th_soft rt \<le> 0 then effectiveHard rt else th_soft rt);
                 need = cs_estimated (computeContextStatsForMax maxTokens a) - go_div (maxTokens * targetPct) 100
          in if need \<le> 0 then (countBoundary, False)
             else let (boundary, freed) = elision_walk need (span (int (length (a_hist a)) - 2) (a_hist a)) 1 0
               in (boundary, freed < need))"

section \<open>Dropping the oldest messages\<close>

text \<open>\<open>findCompressionBoundary\<close> looks at the user messages from the end; the list is reversed here.\<close>

fun turn_scan :: "int \<Rightarrow> int \<Rightarrow> message list \<Rightarrow> nat option" where
  "turn_scan preserve kept [] = None"
| "turn_scan preserve kept (m # ms) =
     (if m_role m = User
      then if kept + 1 \<ge> preserve then Some (length ms) else turn_scan preserve (kept + 1) ms
      else turn_scan preserve kept ms)"

fun skip_tools_back :: "message list \<Rightarrow> nat \<Rightarrow> nat" where
  "skip_tools_back h (Suc (Suc b)) = (if m_role (h ! Suc b) = ToolRole then skip_tools_back h (Suc b) else Suc (Suc b))"
| "skip_tools_back h b = b"

lemma skip_tools_back_le: "skip_tools_back h b \<le> b"
  by (induction h b rule: skip_tools_back.induct) auto

function widenBoundaryForChains :: "message list \<Rightarrow> nat \<Rightarrow> nat" where
  "widenBoundaryForChains h b =
     (if b > 1 then
        let prev = h ! (b - 1) in
        if m_role prev = ToolRole
        then let b = skip_tools_back h (b - 1)
          in widenBoundaryForChains h (if b > 1 \<and> m_role (h ! (b - 1)) = Assistant then b - 1 else b)
        else if m_role prev = Assistant \<and> m_calls prev \<noteq> [] then widenBoundaryForChains h (b - 1)
        else b
      else b)"
  by pat_completeness auto
termination
proof (relation "measure snd", goal_cases)
  case (2 h b prev c)
  then show ?case using skip_tools_back_le [of h "b - 1"] by auto
qed auto

declare widenBoundaryForChains.simps [simp del]

definition findCompressionBoundary :: "message list \<Rightarrow> int \<Rightarrow> nat" where
  "findCompressionBoundary h preserve =
     widenBoundaryForChains h (case turn_scan preserve 0 (rev h) of None \<Rightarrow> length h | Some i \<Rightarrow> i)"

definition keep_system :: "message list \<Rightarrow> message list" where
  "keep_system h = (case h of m # _ \<Rightarrow> if m_role m = System then [m] else [] | [] \<Rightarrow> [])"

definition compressSelective :: "agent \<Rightarrow> compaction_result \<times> agent" where
  "compressSelective a =
     (let preserve = (if cc_preserve (a_cc a) = 0 then 2 else cc_preserve (a_cc a));
          h = a_hist a;
          newHistory = keep_system h @ drop (findCompressionBoundary h preserve) h;
          removed = int (length h) - int (length newHistory);
          a = a\<lparr>a_hist := newHistory\<rparr>
      in (no_result\<lparr>cr_removed := removed\<rparr>,
          if removed > 0 then invalidateContextUsageLocked (a\<lparr>a_generation := a_generation a + 1\<rparr>) else a))"

definition compressToolElision :: "int \<Rightarrow> bool \<Rightarrow> agent \<Rightarrow> compaction_result \<times> agent" where
  "compressToolElision now force a =
     (let preserve = (if cc_preserve (a_cc a) = 0 then 2 else cc_preserve (a_cc a));
          n = int (length (a_hist a));
          boundary = computeElisionBoundary n preserve;
          (boundary, escalate) = (if force then (forcedElisionBoundary boundary n, False) else proactiveElisionBoundary now boundary a);
          (changed, freed, h) = elideToolMessages boundary (a_hist a);
          a = a\<lparr>a_hist := h\<rparr>;
          a = (if boundary > 1 then invalidateContextUsageLocked a else a);
          res = no_result\<lparr>cr_changed := changed, cr_freed := freed\<rparr>
      in if escalate
         then let (sel, a) = compressSelective a
           in (\<lparr>cr_removed = cr_removed res + cr_removed sel, cr_freed = cr_freed res + cr_freed sel,
                cr_changed = cr_changed res + cr_changed sel, cr_escalated = True\<rparr>, a)
         else (res, a))"

text \<open>The oldest messages that must go so that the first one and the rest fit: \<open>keep\<close> is what is kept if
  none goes. Then the results whose calls went. Costs stand beside the messages; the result is the position
  of the first message kept and what was dropped.\<close>

fun front_cut :: "int \<Rightarrow> int \<Rightarrow> (message \<times> int) list \<Rightarrow> int \<Rightarrow> int \<times> (message \<times> int) list" where
  "front_cut keep budget [] dropped = (dropped, [])"
| "front_cut keep budget (x # xs) dropped =
     (if keep - dropped \<le> budget then (dropped, x # xs) else front_cut keep budget xs (dropped + snd x))"

fun skip_orphans :: "(message \<times> int) list \<Rightarrow> int \<Rightarrow> int \<times> (message \<times> int) list" where
  "skip_orphans [] dropped = (dropped, [])"
| "skip_orphans (x # xs) dropped =
     (if m_role (fst x) = ToolRole then skip_orphans xs (dropped + snd x) else (dropped, x # xs))"

definition with_tokens :: "message list \<Rightarrow> (message \<times> int) list" where
  "with_tokens h = map (\<lambda>m. (m, messageTokenCount m)) h"

definition dropOldestToFitLocked :: "int \<Rightarrow> agent \<Rightarrow> compaction_result \<times> agent" where
  "dropOldestToFitLocked budget a =
     (case a_hist a of
        m # m' # ms \<Rightarrow>
          let total = estimateTokensFromHistory (a_hist a) in
          if total \<le> budget then (no_result, a)
          else let (dropped, rest) = front_cut (messageTokenCount m + total) budget (with_tokens (m' # ms)) 0;
                   (dropped, rest) = skip_orphans rest dropped
            in (no_result\<lparr>cr_removed := int (length (m' # ms)) - int (length rest), cr_freed := dropped\<rparr>,
                invalidateContextUsageLocked (a\<lparr>a_hist := m # map fst rest, a_generation := a_generation a + 1\<rparr>))
      | _ \<Rightarrow> (no_result, a))"

section \<open>Pruning tool results\<close>

definition pruneToolResultContent :: "string \<Rightarrow> prune_config \<Rightarrow> string option" where
  "pruneToolResultContent content cfg =
     (let rs = map rune_text (runes content); n = int (length rs) in
      if n \<le> pc_threshold cfg then None
      else let head = (if pc_head cfg > n then n else pc_head cfg);
               tail = (if pc_tail cfg > n - head then n - head else pc_tail cfg)
        in Some (concat (take (nat head) rs) @ PruneMarker @ concat (drop (nat (n - tail)) rs)))"

definition prune_message :: "prune_config \<Rightarrow> message \<Rightarrow> message option" where
  "prune_message cfg m =
     (if m_role m = ToolRole then map_option (\<lambda>c. m\<lparr>m_content := c\<rparr>) (pruneToolResultContent (m_content m) cfg) else None)"

definition pruneToolResultsLocked :: "prune_config \<Rightarrow> agent \<Rightarrow> int \<times> agent" where
  "pruneToolResultsLocked cfg a =
     (let changed = int (length (filter (\<lambda>m. prune_message cfg m \<noteq> None) (a_hist a)));
          a = a\<lparr>a_hist := map (\<lambda>m. case prune_message cfg m of None \<Rightarrow> m | Some m' \<Rightarrow> m') (a_hist a)\<rparr>
      in (changed, if changed > 0 then invalidateContextUsageLocked a else a))"

definition stalePruneProtectMessages :: nat where "stalePruneProtectMessages = 10"
definition stalePruneProtectTokens :: int where "stalePruneProtectTokens = 40000"
definition stalePruneMinBodyTokens :: int where "stalePruneMinBodyTokens = 200"
definition stalePruneGateTokens :: int where "stalePruneGateTokens = 20000"
definition stalePrunePrefix :: string where "stalePrunePrefix = ''[goa-system] pruned ''"

definition stalePlaceholder :: "string \<Rightarrow> int \<Rightarrow> string" where
  "stalePlaceholder toolName tokens = stalePrunePrefix @ toolName @ '' output (~'' @ dec_int tokens
     @ '' tokens) '' @ bytes [226, 128, 148] @ '' re-run the tool if needed''"

text \<open>The scan goes from the newest message to the oldest; \<open>j\<close> counts the messages seen. The candidates are
  positions with the size of the body.\<close>

fun stale_scan :: "message list \<Rightarrow> nat \<Rightarrow> int \<Rightarrow> (nat \<times> int) list" where
  "stale_scan [] j recent = []"
| "stale_scan (m # ms) j recent =
     (if recent < stalePruneProtectTokens \<or> Suc j \<le> stalePruneProtectMessages
      then stale_scan ms (Suc j) (recent + estimateTokens (m_content m))
      else if m_role m \<noteq> ToolRole \<or> m_toolName m = [] \<or> has_prefix stalePrunePrefix (m_content m)
      then stale_scan ms (Suc j) recent
      else if estimateTokens (m_content m) < stalePruneMinBodyTokens then stale_scan ms (Suc j) recent
      else (length ms, estimateTokens (m_content m)) # stale_scan ms (Suc j) recent)"

definition scanStaleCandidates :: "message list \<Rightarrow> (nat \<times> int) list" where
  "scanStaleCandidates h = stale_scan (rev h) 0 0"

definition pruneStaleToolOutput :: "message list \<Rightarrow> int \<times> int \<times> message list" where
  "pruneStaleToolOutput h =
     (let cands = scanStaleCandidates h;
          reclaimed = (\<Sum>(i, tokens)\<leftarrow>cands. let d = tokens - estimateTokens (stalePlaceholder (m_toolName (h ! i)) tokens)
                        in if d > 0 then d else 0)
      in if reclaimed < stalePruneGateTokens then (0, 0, h)
         else (int (length cands), reclaimed,
           foldl (\<lambda>h (i, tokens). h[i := (h ! i)\<lparr>m_content := stalePlaceholder (m_toolName (h ! i)) tokens\<rparr>]) h cands))"

end
