(* ===== verification/Chat_Wire.thy ===== *)
theory Chat_Wire
  imports Chat_Shrink
begin

text \<open>
  The conversation as it is sent to a provider (src/internal/agentic: agent_migrate.go and
  \<open>buildProviderHistory\<close> of agent_turn_lifecycle.go), what makes it acceptable there, and what the passes that
  shrink a conversation keep of it.
\<close>

section \<open>Provider messages\<close>

datatype wire_role = WSystem | WUser | WAssistant | WToolResult

datatype block =
    BText string
  | BThinking string
  | BCall string string string
  | BResult string string string
  | BImage string

record wire_message =
  wm_role :: wire_role
  wm_blocks :: "block list"

fun roleToProviderRole :: "role \<Rightarrow> wire_role" where
  "roleToProviderRole System = WSystem"
| "roleToProviderRole User = WUser"
| "roleToProviderRole Assistant = WAssistant"
| "roleToProviderRole ToolRole = WToolResult"
| "roleToProviderRole (OtherRole _) = WUser"

definition elided :: "tool_call \<Rightarrow> bool" where
  "elided tc \<longleftrightarrow> tc_args tc = elidedToolCallArguments"

definition elidedToolCallNote :: "string list \<Rightarrow> string" where
  "elidedToolCallNote names =
     (case names of [n] \<Rightarrow> ''[earlier call to '' @ n @ '' elided]''
      | _ \<Rightarrow> ''[earlier calls to '' @ join_with '', '' names @ '' elided]'')"

definition issued_calls :: "message \<Rightarrow> tool_call list" where
  "issued_calls m = (if m_role m = Assistant then m_calls m else [])"

definition migrateMessage :: "message \<Rightarrow> wire_message" where
  "migrateMessage m =
     (let calls = map (\<lambda>tc. BCall (tc_id tc) (tc_name tc) (tc_args tc)) (filter (\<lambda>tc. \<not> elided tc) (issued_calls m));
          elidedNames = map tc_name (filter elided (issued_calls m));
          text = (if elidedNames \<noteq> []
            then if m_content m = [] then elidedToolCallNote elidedNames
                 else m_content m @ [CHR 0x0A] @ elidedToolCallNote elidedNames
            else m_content m);
          body = (if m_role m = ToolRole then BResult (m_callID m) (m_toolName m) text else BText text)
      in \<lparr>wm_role = roleToProviderRole (m_role m),
          wm_blocks = calls @ [body] @ map BImage (m_images m)
            @ (if m_thinking m \<noteq> [] then [BThinking (m_thinking m)] else [])\<rparr>)"

definition liveToolCallIDs :: "message list \<Rightarrow> string list" where
  "liveToolCallIDs h = concat (map (\<lambda>m. map tc_id (filter (\<lambda>tc. tc_id tc \<noteq> [] \<and> \<not> elided tc) (issued_calls m))) h)"

definition migrateMessages :: "message list \<Rightarrow> wire_message list" where
  "migrateMessages h =
     map migrateMessage
       (filter (\<lambda>m. \<not> (m_role m = ToolRole \<and> m_callID m \<noteq> [] \<and> m_callID m \<notin> set (liveToolCallIDs h))) h)"

definition countElidedToolCalls :: "message list \<Rightarrow> nat" where
  "countElidedToolCalls h = (\<Sum>m\<leftarrow>h. length (filter elided (issued_calls m)))"

text \<open>The system message at the front is sent apart; later ones become notes of the user.\<close>

definition downgrade :: "message \<Rightarrow> message" where
  "downgrade m = (if m_role m = System then m\<lparr>m_role := User\<rparr> else m)"

definition buildProviderHistory :: "string \<Rightarrow> message list \<Rightarrow> wire_message list" where
  "buildProviderHistory prompt h =
     migrateMessages
       (case h of [] \<Rightarrow> []
        | m # ms \<Rightarrow> (if prompt \<noteq> [] \<and> m_role m = System then [] else [m]) @ map downgrade ms)"

section \<open>What a provider accepts\<close>

definition wire_calls :: "wire_message \<Rightarrow> string list" where
  "wire_calls w = concat (map (\<lambda>b. case b of BCall i _ _ \<Rightarrow> [i] | _ \<Rightarrow> []) (wm_blocks w))"

definition wire_results :: "wire_message \<Rightarrow> string list" where
  "wire_results w = concat (map (\<lambda>b. case b of BResult i _ _ \<Rightarrow> [i] | _ \<Rightarrow> []) (wm_blocks w))"

abbreviation wire_tool :: "wire_message \<Rightarrow> bool" where "wire_tool w \<equiv> wm_role w = WToolResult"

text \<open>Results follow the message with their calls, with nothing but results in between; and every call
  is answered there.\<close>

fun wire_results_ok :: "string list \<Rightarrow> wire_message list \<Rightarrow> bool" where
  "wire_results_ok ids [] \<longleftrightarrow> True"
| "wire_results_ok ids (w # ws) \<longleftrightarrow>
     (if wire_tool w then set (wire_results w) \<subseteq> set ids \<and> wire_results_ok ids ws
      else wire_results_ok (wire_calls w) ws)"

fun wire_calls_ok :: "wire_message list \<Rightarrow> bool" where
  "wire_calls_ok [] \<longleftrightarrow> True"
| "wire_calls_ok (w # ws) \<longleftrightarrow>
     set (wire_calls w) \<subseteq> (\<Union>v\<in>set (takeWhile wire_tool ws). set (wire_results v)) \<and> wire_calls_ok ws"

section \<open>Well-formed conversations\<close>

abbreviation is_result :: "message \<Rightarrow> bool" where "is_result m \<equiv> m_role m = ToolRole"

definition call_ids :: "message \<Rightarrow> string list" where
  "call_ids m = map tc_id (issued_calls m)"

definition all_ids :: "message list \<Rightarrow> string list" where
  "all_ids h = concat (map call_ids h)"

text \<open>A result stands behind its call, or its call is not in the conversation any more.\<close>

fun results_ok :: "string set \<Rightarrow> string list \<Rightarrow> message list \<Rightarrow> bool" where
  "results_ok known ids [] \<longleftrightarrow> True"
| "results_ok known ids (m # h) \<longleftrightarrow>
     (if is_result m then (m_callID m \<in> set ids \<or> m_callID m \<notin> known) \<and> results_ok known ids h
      else results_ok known (call_ids m) h)"

fun calls_ok :: "message list \<Rightarrow> bool" where
  "calls_ok [] \<longleftrightarrow> True"
| "calls_ok (m # h) \<longleftrightarrow> set (call_ids m) \<subseteq> m_callID ` set (takeWhile is_result h) \<and> calls_ok h"

definition paired :: "message list \<Rightarrow> bool" where
  "paired h \<longleftrightarrow> distinct (all_ids h) \<and> [] \<notin> set (all_ids h) \<and> (\<forall>m\<in>set h. is_result m \<longrightarrow> m_callID m \<noteq> [])
     \<and> results_ok (set (all_ids h)) [] h"

lemma all_ids_simps [simp]:
  "all_ids [] = []" "all_ids (m # h) = call_ids m @ all_ids h" "all_ids (h @ h') = all_ids h @ all_ids h'"
  by (simp_all add: all_ids_def)

lemma result_no_calls [simp]: "is_result m \<Longrightarrow> call_ids m = []" "m_role m \<noteq> Assistant \<Longrightarrow> call_ids m = []"
  by (simp_all add: call_ids_def issued_calls_def)

lemma live_subset: "set (liveToolCallIDs h) \<subseteq> set (all_ids h)"
  by (auto simp: liveToolCallIDs_def all_ids_def call_ids_def)

lemma wire_calls_migrate [simp]:
  "wire_calls (migrateMessage m) = map tc_id (filter (\<lambda>tc. \<not> elided tc) (issued_calls m))"
proof -
  have c: "concat (map (\<lambda>b. case b of BCall i _ _ \<Rightarrow> [i] | _ \<Rightarrow> [])
      (map (\<lambda>tc. BCall (tc_id tc) (tc_name tc) (tc_args tc)) tcs)) = map tc_id tcs" for tcs
    by (induction tcs) auto
  have i: "concat (map (\<lambda>b. case b of BCall i _ _ \<Rightarrow> [i] | _ \<Rightarrow> []) (map BImage ps)) = []" for ps by (induction ps) auto
  show ?thesis unfolding wire_calls_def migrateMessage_def Let_def by (simp add: c i del: map_map)
qed

lemma wire_results_migrate [simp]:
  "wire_results (migrateMessage m) = (if is_result m then [m_callID m] else [])"
proof -
  have c: "concat (map (\<lambda>b. case b of BResult i _ _ \<Rightarrow> [i] | _ \<Rightarrow> [])
      (map (\<lambda>tc. BCall (tc_id tc) (tc_name tc) (tc_args tc)) tcs)) = []" for tcs
    by (induction tcs) auto
  have i: "concat (map (\<lambda>b. case b of BResult i _ _ \<Rightarrow> [i] | _ \<Rightarrow> []) (map BImage ps)) = []" for ps by (induction ps) auto
  show ?thesis unfolding wire_results_def migrateMessage_def Let_def by (simp add: c i del: map_map)
qed

lemma wire_tool_migrate [simp]: "wire_tool (migrateMessage m) \<longleftrightarrow> is_result m"
  by (cases "m_role m") (simp_all add: migrateMessage_def Let_def)

text \<open>A call whose identifier is live is itself live, because identifiers are not used twice.\<close>

lemma live_call:
  assumes "distinct (all_ids h)" "m \<in> set h" "tc \<in> set (issued_calls m)" "tc_id tc \<in> set (liveToolCallIDs h)"
  shows "\<not> elided tc"
proof -
  from assms(4) obtain m' tc' where m': "m' \<in> set h" "tc' \<in> set (issued_calls m')" "\<not> elided tc'" "tc_id tc' = tc_id tc"
    by (auto simp: liveToolCallIDs_def)
  from assms(1-3) m' have "tc = tc'"
  proof (induction h)
    case (Cons x h)
    have x: "\<And>y t. y \<in> set h \<Longrightarrow> t \<in> set (issued_calls y) \<Longrightarrow> tc_id t \<in> set (all_ids h)"
      by (auto simp: all_ids_def call_ids_def)
    have d: "distinct (map tc_id (issued_calls x))" "distinct (all_ids h)" "set (map tc_id (issued_calls x)) \<inter> set (all_ids h) = {}"
      using Cons.prems(1) by (auto simp: call_ids_def)
    consider "m \<in> set h" "m' \<in> set h" | "m = x" "m' = x" | "m = x" "m' \<in> set h" | "m \<in> set h" "m' = x"
      using Cons.prems by auto
    then show ?case
    proof cases
      case 1
      with Cons.IH d(2) Cons.prems show ?thesis by blast
    next
      case 2
      with Cons.prems d(1) show ?thesis by (metis (no_types, lifting) distinct_map inj_on_def)
    next
      case 3
      with Cons.prems x [OF 3(2) Cons.prems(5)] d(3) show ?thesis by auto
    next
      case 4
      with Cons.prems x [OF 4(1) Cons.prems(3)] d(3) show ?thesis by fastforce
    qed
  qed simp
  with m' show ?thesis by simp
qed

definition live_ids :: "string set \<Rightarrow> string list \<Rightarrow> string list" where
  "live_ids live ids = filter (\<lambda>i. i \<in> live) ids"

lemma wire_calls_live:
  assumes "distinct (all_ids h)" "[] \<notin> set (all_ids h)" "m \<in> set h"
  shows "wire_calls (migrateMessage m) = live_ids (set (liveToolCallIDs h)) (call_ids m)"
proof -
  have "\<not> elided tc \<longleftrightarrow> tc_id tc \<in> set (liveToolCallIDs h)" if tc: "tc \<in> set (issued_calls m)" for tc
  proof -
    have "tc_id tc \<in> set (all_ids h)" using assms(3) tc by (auto simp: all_ids_def call_ids_def)
    then have "tc_id tc \<noteq> []" using assms(2) by metis
    with assms tc live_call [OF assms(1,3) tc] show ?thesis by (auto simp: liveToolCallIDs_def)
  qed
  then show ?thesis by (simp add: live_ids_def call_ids_def filter_map comp_def cong: filter_cong)
qed

section \<open>What is sent is acceptable\<close>

abbreviation sent :: "string set \<Rightarrow> message \<Rightarrow> bool" where
  "sent live m \<equiv> \<not> (is_result m \<and> m_callID m \<noteq> [] \<and> m_callID m \<notin> live)"

lemma migrate_results_ok:
  assumes "results_ok known ids h" "live \<subseteq> known" "\<forall>m\<in>set h. is_result m \<longrightarrow> m_callID m \<noteq> []"
    "\<forall>m\<in>set h. wire_calls (migrateMessage m) = live_ids live (call_ids m)"
  shows "wire_results_ok (live_ids live ids) (map migrateMessage (filter (sent live) h))"
  using assms by (induction known ids h rule: results_ok.induct) (auto simp: live_ids_def split: if_splits)

lemma takeWhile_sent:
  "set (takeWhile wire_tool (map migrateMessage (filter (sent live) h)))
     \<supseteq> migrateMessage ` {m \<in> set (takeWhile is_result h). sent live m}"
  by (induction h) auto

lemma migrate_calls_ok:
  assumes "calls_ok h" "\<forall>m\<in>set h. wire_calls (migrateMessage m) = live_ids live (call_ids m)"
  shows "wire_calls_ok (map migrateMessage (filter (sent live) h))"
  using assms
proof (induction h)
  case (Cons m h)
  let ?ws = "map migrateMessage (filter (sent live) h)"
  have IH: "wire_calls_ok ?ws" using Cons by simp
  have "i \<in> (\<Union>v\<in>set (takeWhile wire_tool ?ws). set (wire_results v))" if i: "i \<in> set (wire_calls (migrateMessage m))" for i
  proof -
    have "wire_calls (migrateMessage m) = live_ids live (call_ids m)" using Cons.prems(2) by (meson list.set_intros(1))
    with i have "i \<in> set (live_ids live (call_ids m))" by metis
    then have "i \<in> set (call_ids m)" "i \<in> live" by (simp_all add: live_ids_def)
    with Cons.prems(1) obtain r where r: "r \<in> set (takeWhile is_result h)" "m_callID r = i" by auto
    then have "migrateMessage r \<in> set (takeWhile wire_tool ?ws)"
      using takeWhile_sent [where live = live and h = h] \<open>i \<in> live\<close> by auto
    moreover have "is_result r" using r(1) by (meson set_takeWhileD)
    ultimately show ?thesis using r(2) by (intro UN_I [of "migrateMessage r"]) auto
  qed
  with IH show ?case by auto
qed simp

lemma issued_downgrade [simp]: "issued_calls (downgrade m) = issued_calls m" "call_ids (downgrade m) = call_ids m"
  "is_result (downgrade m) \<longleftrightarrow> is_result m" "m_callID (downgrade m) = m_callID m"
  by (auto simp: downgrade_def issued_calls_def call_ids_def)

lemma downgrade_simps [simp]:
  "all_ids (map downgrade h) = all_ids h" "results_ok known ids (map downgrade h) = results_ok known ids h"
  "calls_ok (map downgrade h) = calls_ok h"
proof -
  have tw: "takeWhile is_result (map downgrade h) = map downgrade (takeWhile is_result h)" for h
    by (induction h) auto
  show "all_ids (map downgrade h) = all_ids h" by (induction h) auto
  show "results_ok known ids (map downgrade h) = results_ok known ids h"
    by (induction known ids h rule: results_ok.induct) auto
  show "calls_ok (map downgrade h) = calls_ok h" by (induction h) (simp_all add: tw image_image)
qed

definition request_body :: "string \<Rightarrow> message list \<Rightarrow> message list" where
  "request_body prompt h = (case h of [] \<Rightarrow> [] | m # ms \<Rightarrow> (if prompt \<noteq> [] \<and> m_role m = System then [] else [m]) @ map downgrade ms)"

lemma paired_body: "paired h \<Longrightarrow> paired (request_body prompt h)"
  by (auto simp: paired_def request_body_def split: list.splits if_splits)

lemma calls_ok_body: "calls_ok h \<Longrightarrow> calls_ok (request_body prompt h)"
proof (cases h)
  case (Cons m ms)
  have tw: "takeWhile is_result (map downgrade ms) = map downgrade (takeWhile is_result ms)" by (induction ms) auto
  assume "calls_ok h"
  with Cons show ?thesis by (auto simp: request_body_def tw image_image)
qed (simp add: request_body_def)

theorem request_well_formed:
  assumes "paired h"
  shows "wire_results_ok [] (buildProviderHistory prompt h) \<and> (calls_ok h \<longrightarrow> wire_calls_ok (buildProviderHistory prompt h))"
proof -
  let ?b = "request_body prompt h" and ?live = "set (liveToolCallIDs (request_body prompt h))"
  have b: "buildProviderHistory prompt h = map migrateMessage (filter (sent ?live) ?b)"
    by (simp add: buildProviderHistory_def request_body_def migrateMessages_def)
  have p: "paired ?b" using assms by (rule paired_body)
  have w: "\<forall>m\<in>set ?b. wire_calls (migrateMessage m) = live_ids ?live (call_ids m)"
    using p wire_calls_live by (auto simp: paired_def)
  have "wire_results_ok (live_ids ?live []) (map migrateMessage (filter (sent ?live) ?b))"
    using p w live_subset [of ?b] by (intro migrate_results_ok [of "set (all_ids ?b)"]) (auto simp: paired_def)
  with migrate_calls_ok [OF calls_ok_body w] show ?thesis unfolding b by (auto simp: live_ids_def)
qed

end
