(* ===== verification/Chat_Compact.thy ===== *)
theory Chat_Compact
  imports Chat_Wire
begin

text \<open>
  Compaction of a conversation (src/internal/agentic: agent_compression.go, agent_compress_policy.go,
  agent_compress_elision.go, agent_compress_recovery.go, agent_compress_overflow.go,
  agent_compress_fresh_window.go, agent_remote_compact_run.go, agent_context.go) and the rebuilding of a
  history from its events (events_to_history.go). The model that writes a summary and the server that compacts
  a transcript are arguments; a failed request with its retries is one answer.
\<close>

section \<open>The outside\<close>

record ask_error =
  ae_overflow :: bool
  ae_text :: string

text \<open>\<open>ce_stream\<close> has the number of the attempt, \<open>ce_remote\<close> may fail or be absent, \<open>ce_txid\<close> is random.\<close>

record chat_env =
  ce_now :: int
  ce_txid :: string
  ce_stream :: "nat \<Rightarrow> wire_message list \<Rightarrow> ask_error + string"
  ce_remote :: "wire_message list \<Rightarrow> wire_message list option"

definition overflow_patterns :: "string list" where
  "overflow_patterns = [''context_length_exceeded'', ''context length'', ''maximum context'', ''token limit'',
     ''max_tokens'', ''too many tokens'', ''context window'']"

definition isContextLengthError :: "ask_error \<Rightarrow> bool" where
  "isContextLengthError e \<longleftrightarrow> ae_overflow e \<or> list_ex (\<lambda>p. str_index p (to_lower (ae_text e)) \<noteq> None) overflow_patterns"

definition strategy_name :: "strategy \<Rightarrow> string" where
  "strategy_name s = (case s of NoStrategy \<Rightarrow> [] | ToolElision \<Rightarrow> ''tool_elision'' | Summarize \<Rightarrow> ''summarize''
     | Selective \<Rightarrow> ''selective'' | Hybrid \<Rightarrow> ''hybrid'' | Micro \<Rightarrow> ''micro'' | RemoteCompact \<Rightarrow> ''remote_compact''
     | FreshWindow \<Rightarrow> ''fresh_window'' | OtherStrategy t \<Rightarrow> t)"

section \<open>The checkpoint\<close>

definition compactSummaryPreamble :: string where
  "compactSummaryPreamble = ''This is an automatically generated checkpoint condensing an earlier span of the conversation to free up context. Treat the captured context as established background and build on it without restating it. Continue the task directly from the messages that follow, without acknowledging this checkpoint.''"

abbreviation newline :: char where "newline \<equiv> CHR 0x0A"

definition frameCompactedSummary :: "string \<Rightarrow> string" where
  "frameCompactedSummary summary = compactSummaryPreamble @ [newline, newline] @ ''<compacted-summary>'' @ [newline]
     @ summary @ [newline] @ ''</compacted-summary>''"

definition checkpoint :: "string \<Rightarrow> message list" where
  "checkpoint summary = [text_message User (frameCompactedSummary summary), text_message Assistant summary]"

definition summaryTruncationNote :: string where
  "summaryTruncationNote = [newline, newline] @ ''[summary truncated to fit the context window]''"

definition pairTokens :: "string \<Rightarrow> int" where
  "pairTokens body = messageTokenCount (text_message User (frameCompactedSummary body))
     + messageTokenCount (text_message Assistant body)"

text \<open>The loop that shortens the summary by a tenth until the pair fits.\<close>

function fit_loop :: "string list \<Rightarrow> int \<Rightarrow> nat \<Rightarrow> string" where
  "fit_loop rs budget n =
     (let candidate = concat (take n rs) @ summaryTruncationNote in
      if pairTokens candidate \<le> budget then candidate
      else let next = n - (n div 10 + 1) in
        if next = n then summaryTruncationNote else fit_loop rs budget next)"
  by pat_completeness auto
termination
  by (relation "measure (\<lambda>(_, _, n). n)") auto

declare fit_loop.simps [simp del]

definition fit_budget :: "agent \<Rightarrow> int" where
  "fit_budget a =
     (let budget = go_div (effectiveMaxTokens a * effectiveHard (a_thresholds a)) 100 - fixedCostTokens a
      in if budget < 0 then 0 else budget)"

definition fitSummaryToWindow :: "string \<Rightarrow> agent \<Rightarrow> string" where
  "fitSummaryToWindow summary a =
     (if effectiveMaxTokens a \<le> 0 then summary
      else let budget = fit_budget a in
        if pairTokens summary \<le> budget then summary
        else let rs = map rune_text (runes summary);
                 guess = budget * 33 div 10 div 2;
                 guess = (if guess > int (length rs) then int (length rs) else guess)
          in fit_loop rs budget (nat guess))"

section \<open>Making room\<close>

definition summarizeInputBudget :: "int \<Rightarrow> agent \<Rightarrow> int" where
  "summarizeInputBudget instruction a =
     (let maxTokens = effectiveMaxTokens a in
      if maxTokens \<le> 0 then 0
      else let reserve = maxTokens div 8;
               reserve = (if reserve < 2048 then 2048 else reserve);
               reserve = (if reserve > 32768 then 32768 else reserve);
               budget = maxTokens - fixedCostTokens a - instruction - reserve
        in if budget < 0 then 0 else budget)"

definition shrinkHistoryForSummarizeRetry :: "int \<Rightarrow> agent \<Rightarrow> agent" where
  "shrinkHistoryForSummarizeRetry instruction a =
     (if effectiveMaxTokens a \<le> 0 then a
      else let before = computeContextStats a;
               (res, a) = dropOldestToFitLocked (summarizeInputBudget instruction a) a
        in if cr_removed res > 0
           then emitCompactionResult ''selective'' before res ''shrinking summarize input to fit the window'' a else a)"

definition applyMicroForSummarize :: "agent \<Rightarrow> agent" where
  "applyMicroForSummarize a =
     (let before = computeContextStats a;
          (res, a) = applyMicroLocked (microFallbackConfig (cc_micro (a_cc a))) a
      in emitCompactionResult ''micro'' before res ''summarize overflow fallback'' a)"

definition pruneToolResultsPreCompact :: "agent \<Rightarrow> bool \<times> context_stats \<times> compaction_result \<times> agent" where
  "pruneToolResultsPreCompact a =
     (let maxTokens = effectiveMaxTokens a; before = computeContextStats a in
      if maxTokens \<le> 0 then (False, before, no_result, a)
      else let (staleChanged, reclaimed, h) = pruneStaleToolOutput (a_hist a);
               (changed, a) = pruneToolResultsLocked (resolve_pruning (cc_pruning (a_cc a))) (a\<lparr>a_hist := h\<rparr>);
               changed = changed + staleChanged;
               a = (if staleChanged > 0 then invalidateContextUsageLocked a else a);
               skip = (changed > 0 \<and> cs_percent (computeContextStatsForMax maxTokens a) < effectiveHard (a_thresholds a))
        in (skip, before, no_result\<lparr>cr_changed := changed\<rparr>, a))"

section \<open>Full compactions\<close>

definition replace_history :: "message list \<Rightarrow> agent \<Rightarrow> agent" where
  "replace_history h a = invalidateContextUsageLocked (a\<lparr>a_hist := h, a_generation := a_generation a + 1\<rparr>)"

definition freshWindowPreserveTurns :: "agent \<Rightarrow> int" where
  "freshWindowPreserveTurns a =
     (let p = cc_freshPreserve (a_cc a);
          p = (if p \<le> 0 then cc_preserve (a_cc a) else p)
      in if p \<le> 0 then 2 else p)"

definition freshWindowHistoryLocked :: "agent \<Rightarrow> message list" where
  "freshWindowHistoryLocked a =
     keep_system (a_hist a) @ drop (findCompressionBoundary (a_hist a) (freshWindowPreserveTurns a)) (a_hist a)"

definition summary_tx :: "string \<Rightarrow> strategy \<Rightarrow> context_stats \<Rightarrow> agent \<Rightarrow> int \<Rightarrow> compaction_tx" where
  "summary_tx i s before a shadowed = (empty_tx i)\<lparr>tx_strategy := s, tx_end := shadowed,
     tx_tokens := cs_estimated before, tx_freed := cs_estimated before - cs_estimated (computeContextStats a)\<rparr>"

definition compactFreshWindow :: "string \<Rightarrow> agent \<Rightarrow> agent" where
  "compactFreshWindow i a =
     (let before = computeContextStats a;
          shadowed = int (length (a_hist a));
          keep = freshWindowHistoryLocked a;
          removed = (if shadowed - int (length keep) < 0 then 0 else shadowed - int (length keep));
          a = replace_history keep a;
          after = computeContextStats a;
          a = emitCompactionTxSummary ((summary_tx i FreshWindow before a shadowed)\<lparr>tx_preserve := freshWindowPreserveTurns a\<rparr>) a;
          a = emitCompactionTxEnd i [] a
      in emitCompaction ''fresh_window'' before after removed 0
           (''fresh context window ('' @ dec (length keep) @ '' messages preserved, no summary)'') a)"

text \<open>The transcript of the server: texts and calls of one turn are merged.\<close>

definition providerTextOf :: "wire_message \<Rightarrow> string" where
  "providerTextOf w = concat (map (\<lambda>b. case b of BText t \<Rightarrow> t | _ \<Rightarrow> []) (wm_blocks w))"

definition toolResultToInternal :: "wire_message \<Rightarrow> message" where
  "toolResultToInternal w =
     (case List.find (\<lambda>b. case b of BResult _ _ _ \<Rightarrow> True | _ \<Rightarrow> False) (wm_blocks w) of
        Some (BResult i n t) \<Rightarrow> (text_message ToolRole t)\<lparr>m_callID := i, m_toolName := n\<rparr>
      | _ \<Rightarrow> text_message ToolRole [])"

fun add_block :: "block \<Rightarrow> message \<Rightarrow> message" where
  "add_block (BText t) m = m\<lparr>m_content := m_content m @ t\<rparr>"
| "add_block (BThinking t) m = m\<lparr>m_thinking := m_thinking m @ t\<rparr>"
| "add_block (BCall i n args) m = m\<lparr>m_calls := m_calls m @ [\<lparr>tc_id = i, tc_name = n, tc_args = args\<rparr>]\<rparr>"
| "add_block _ m = m"

definition flush_cur :: "message list \<times> message option \<Rightarrow> message list" where
  "flush_cur b = (case b of (ms, None) \<Rightarrow> ms
     | (ms, Some m) \<Rightarrow> if m_content m \<noteq> [] \<or> m_thinking m \<noteq> [] \<or> m_calls m \<noteq> [] then ms @ [m] else ms)"

definition add_wire :: "wire_message \<Rightarrow> message list \<times> message option \<Rightarrow> message list \<times> message option" where
  "add_wire w b =
     (case wm_role w of
        WAssistant \<Rightarrow> (fst b, Some (fold add_block (wm_blocks w) (case snd b of None \<Rightarrow> text_message Assistant [] | Some m \<Rightarrow> m)))
      | WToolResult \<Rightarrow> (flush_cur b @ [toolResultToInternal w], None)
      | _ \<Rightarrow> (flush_cur b @ (if providerTextOf w \<noteq> [] then [text_message User (providerTextOf w)] else []), None))"

definition providerMessagesToInternal :: "wire_message list \<Rightarrow> message list" where
  "providerMessagesToInternal ws = flush_cur (fold add_wire ws ([], None))"

definition remoteCompactRetainedBudget :: "agent \<Rightarrow> int" where
  "remoteCompactRetainedBudget a = (let b = cc_remoteBudget (a_cc a) in if b = 0 then 64000 else b)"

text \<open>From the newest message on, whole messages while the budget lasts; the list is reversed, \<open>kept\<close> is the
  part already kept, oldest first.\<close>

fun bound_loop :: "message list \<Rightarrow> message list \<Rightarrow> int \<Rightarrow> message list" where
  "bound_loop [] kept remaining = kept"
| "bound_loop (m # ms) kept remaining =
     (let tok = messageTokenCount m in
      if tok > remaining \<and> kept \<noteq> [] then kept
      else bound_loop ms (m # kept) (if remaining - tok < 0 then 0 else remaining - tok))"

definition boundRemoteCompactReplacement :: "agent \<Rightarrow> message list \<Rightarrow> message list" where
  "boundRemoteCompactReplacement a ms =
     (let budget = remoteCompactRetainedBudget a
      in if budget < 0 \<or> ms = [] then ms else bound_loop (rev ms) [] budget)"

definition truncateRunes :: "string \<Rightarrow> nat \<Rightarrow> string" where
  "truncateRunes s n = (let rs = map rune_text (runes s)
     in if length rs \<le> n then s else concat (take n rs) @ bytes [226, 128, 166])"

definition remoteCompactDetail :: "message list \<Rightarrow> string" where
  "remoteCompactDetail ms = ''server-compacted transcript ('' @ dec (length ms) @ '' messages): ''
     @ (case List.find (\<lambda>m. m_content m \<noteq> []) ms of None \<Rightarrow> [] | Some m \<Rightarrow> truncateRunes (m_content m) 120)"

definition compactRemote :: "chat_env \<Rightarrow> string \<Rightarrow> agent \<Rightarrow> agent option" where
  "compactRemote env i a =
     (let request = buildProviderHistory (a_prompt a) (a_hist a) in
      if request = [] then None
      else let before = computeContextStats a; shadowed = int (length (a_hist a)) in
        case ce_remote env request of None \<Rightarrow> None
        | Some ws \<Rightarrow>
            let replacement = boundRemoteCompactReplacement a (providerMessagesToInternal ws) in
            if replacement = [] then None
            else let a = replace_history replacement a;
                     after = computeContextStats a;
                     a = emitCompactionTxSummary ((summary_tx i RemoteCompact before a shadowed)\<lparr>tx_replacement := replacement\<rparr>) a;
                     a = emitCompactionTxEnd i [] a;
                     removed = (if shadowed - int (length replacement) < 0 then 0 else shadowed - int (length replacement))
              in Some (emitCompaction ''remote_compact'' before after removed 0 (remoteCompactDetail replacement) a))"

definition freshWindowSelected :: "strategy \<Rightarrow> agent \<Rightarrow> bool" where
  "freshWindowSelected slot a \<longleftrightarrow> cc_freshEnabled (a_cc a) \<or> slot = FreshWindow"

definition tryPreferredCompaction :: "chat_env \<Rightarrow> string \<Rightarrow> strategy \<Rightarrow> bool \<Rightarrow> agent \<Rightarrow> agent option" where
  "tryPreferredCompaction env i slot explicit a =
     (case (if a_remote a then compactRemote env i a else None) of
        Some a' \<Rightarrow> Some a'
      | None \<Rightarrow> if \<not> explicit \<and> freshWindowSelected slot a then Some (compactFreshWindow i a) else None)"

definition summarizeHistory :: "chat_env \<Rightarrow> nat \<Rightarrow> agent \<Rightarrow> ask_error + string" where
  "summarizeHistory env attempt a =
     (let request = buildProviderHistory (a_prompt a) (a_hist a) in
      if request = [] then Inr []
      else case ce_stream env attempt request of
          Inl e \<Rightarrow> Inl e
        | Inr summary \<Rightarrow>
            if trim_space summary = []
            then Inl \<lparr>ae_overflow = False,
              ae_text = ''summarization produced no text (model may have answered with a tool call only)''\<rparr>
            else Inr summary)"

text \<open>The end of a summarize: the checkpoint replaces the conversation.\<close>

definition land_summary :: "string \<Rightarrow> context_stats \<Rightarrow> string \<Rightarrow> agent \<Rightarrow> agent" where
  "land_summary i before summary a =
     (let summary = fitSummaryToWindow summary a;
          n = int (length (a_hist a));
          removed = (if n - 2 < 0 then 0 else n - 2);
          a = replace_history (checkpoint summary) a;
          after = computeContextStats a;
          a = emitCompactionTxSummary ((summary_tx i Summarize before a n)\<lparr>tx_summary := summary\<rparr>) a;
          a = emitCompactionTxEnd i [] a
      in emitCompaction ''summarize'' before after removed 0 summary a)"

text \<open>The local summarize: when the request itself did not fit, room is made once and it is asked again.\<close>

definition summarize_with_retry :: "chat_env \<Rightarrow> int \<Rightarrow> agent \<Rightarrow> (ask_error + string) \<times> agent" where
  "summarize_with_retry env instruction a =
     (case summarizeHistory env 0 a of
        Inl e \<Rightarrow>
          if isContextLengthError e
          then let a = shrinkHistoryForSummarizeRetry instruction (applyMicroForSummarize a)
            in (summarizeHistory env 1 a, a)
          else (Inl e, a)
      | Inr s \<Rightarrow> (Inr s, a))"

text \<open>The transaction: it opens, one of the ways to compact runs, it closes, with the error if it failed.\<close>

definition compact_transaction ::
    "chat_env \<Rightarrow> int \<Rightarrow> strategy \<Rightarrow> bool \<Rightarrow> context_stats \<Rightarrow> agent \<Rightarrow> ask_error option \<times> agent" where
  "compact_transaction env instruction slot explicit before a =
     (let i = ce_txid env; a = emitCompactionTxStart i a in
      case tryPreferredCompaction env i slot explicit a of
        Some a' \<Rightarrow> (None, a')
      | None \<Rightarrow>
          (case summarize_with_retry env instruction a of
             (Inl e, a) \<Rightarrow> (Some e, emitCompactionTxEnd i (ae_text e) a)
           | (Inr summary, a) \<Rightarrow> (None, land_summary i before summary a)))"

definition compactOrdered :: "chat_env \<Rightarrow> int \<Rightarrow> strategy \<Rightarrow> bool \<Rightarrow> agent \<Rightarrow> ask_error option \<times> agent" where
  "compactOrdered env instruction slot explicit a =
     (if a_hist a = [] then (None, a)
      else if pc_enabled (cc_pruning (a_cc a))
      then (case pruneToolResultsPreCompact a of
              (True, before, res, a') \<Rightarrow> (None, emitContextStats (emitCompactionResult ''tool_result_pruning'' before res
                 ''pruning resolved context pressure; summarize skipped'' a'))
            | (False, _, _, a') \<Rightarrow> compact_transaction env instruction slot explicit (computeContextStats a) a')
      else compact_transaction env instruction slot explicit (computeContextStats a) a)"

definition Compact :: "chat_env \<Rightarrow> int \<Rightarrow> agent \<Rightarrow> ask_error option \<times> agent" where
  "Compact env instruction a = compactOrdered env instruction (th_hardStrategy (a_thresholds a)) False a"

end
