(* ===== verification/Chat_Ceiling.thy ===== *)
theory Chat_Ceiling
  imports Chat_Compact
begin

text \<open>
  When a conversation is compacted (src/internal/agentic: agent_compress_policy.go, agent_compress_elision.go,
  agent_compress_recovery.go, agent_compress_overflow.go): before a request, after a refused one, after a cut
  answer; and the last resort that keeps it under the ceiling (agent_context.go).
\<close>

section \<open>Running a strategy\<close>

definition runElision :: "int \<Rightarrow> bool \<Rightarrow> agent \<Rightarrow> context_stats \<times> compaction_result \<times> agent" where
  "runElision now force a = (computeContextStats a, compressToolElision now force a)"

definition runSelective :: "agent \<Rightarrow> context_stats \<times> compaction_result \<times> agent" where
  "runSelective a = (computeContextStats a, compressSelective a)"

definition report :: "string \<Rightarrow> string \<Rightarrow> context_stats \<times> compaction_result \<times> agent \<Rightarrow> agent" where
  "report label detail r = (case r of (before, res, a) \<Rightarrow> emitCompactionResult label before res detail a)"

definition compressHybrid :: "chat_env \<Rightarrow> int \<Rightarrow> agent \<Rightarrow> ask_error option \<times> agent" where
  "compressHybrid env instruction a =
     (let threshold = effectiveHard (a_thresholds a);
          before = computeContextStats a;
          (res, a) = compressToolElision (ce_now env) True a
      in if cs_percent (computeContextStats a) \<ge> threshold
         then let (sel, a) = compressSelective a;
                  res = res\<lparr>cr_removed := cr_removed res + cr_removed sel, cr_changed := cr_changed res + cr_changed sel,
                    cr_freed := cr_freed res + cr_freed sel\<rparr>
           in if cs_percent (computeContextStats a) \<ge> threshold then Compact env instruction a
              else (None, emitCompactionResult ''hybrid'' before res [] a)
         else (None, emitCompactionResult ''hybrid'' before res [] a))"

definition compressHistoryWith :: "chat_env \<Rightarrow> int \<Rightarrow> strategy \<Rightarrow> bool \<Rightarrow> agent \<Rightarrow> ask_error option \<times> agent" where
  "compressHistoryWith env instruction s force a =
     (case s of
        Selective \<Rightarrow> (None, report ''selective'' [] (runSelective a))
      | Summarize \<Rightarrow> compactOrdered env instruction Summarize True a
      | FreshWindow \<Rightarrow> compactOrdered env instruction FreshWindow False a
      | Hybrid \<Rightarrow> compressHybrid env instruction a
      | Micro \<Rightarrow> (None, report ''micro'' [] (microCompactForced (ce_now env) force a))
      | _ \<Rightarrow> (None, report ''tool_elision'' [] (runElision (ce_now env) force a)))"

definition MaybeCompressWith :: "chat_env \<Rightarrow> int \<Rightarrow> strategy \<Rightarrow> bool \<Rightarrow> agent \<Rightarrow> ask_error option \<times> agent" where
  "MaybeCompressWith env instruction s force a =
     (if a_hist a = [] then (None, a) else compressHistoryWith env instruction s force a)"

text \<open>\<open>compressAndReportWith\<close> and \<open>compressSoftAndReport\<close>.\<close>

definition compressAndReportWith :: "chat_env \<Rightarrow> int \<Rightarrow> strategy \<Rightarrow> agent \<Rightarrow> ask_error option \<times> agent" where
  "compressAndReportWith env instruction s a =
     (case compressHistoryWith env instruction s False a of
        (Some e, a) \<Rightarrow> (Some e, a) | (None, a) \<Rightarrow> (None, emitContextStats a))"

definition proactiveTier :: "int \<Rightarrow> thresholds \<Rightarrow> int \<Rightarrow> agent \<Rightarrow> tier" where
  "proactiveTier now rt maxTokens a =
     proactiveTierLocked now (cs_percent (computeContextStatsForMax maxTokens a)) rt a"

definition maybeCompress :: "chat_env \<Rightarrow> int \<Rightarrow> agent \<Rightarrow> ask_error option \<times> agent" where
  "maybeCompress env instruction a =
     (let maxTokens = effectiveMaxTokens a in
      if maxTokens = 0 then (None, a)
      else
        let rt = a_thresholds a;
            effective = computeContextStatsForMax maxTokens a
        in if effectiveHard rt > 0 \<and> cs_estimated effective \<ge> go_div (maxTokens * effectiveHard rt) 100
           then compressAndReportWith env instruction (th_hardStrategy rt) a
           else if th_soft rt > 0 \<and> th_softStrategy rt = Micro \<and> cs_percent effective < effectiveHard rt
           then compressAndReportWith env instruction (th_softStrategy rt) a
           else case proactiveTier (ce_now env) rt maxTokens a of
               TierHard \<Rightarrow> compressAndReportWith env instruction (th_hardStrategy rt) a
             | TierSoft \<Rightarrow> compressAndReportWith env instruction (th_softStrategy rt) a
             | TierNone \<Rightarrow> (None, a))"

section \<open>After a refused or cut answer\<close>

definition onErrorStrategy :: "agent \<Rightarrow> strategy" where
  "onErrorStrategy a = (if cc_onErrorStrategy (a_cc a) \<noteq> NoStrategy then cc_onErrorStrategy (a_cc a) else Hybrid)"

definition overflowRecoveryInMemory ::
    "int \<Rightarrow> strategy \<Rightarrow> agent \<Rightarrow> context_stats \<times> compaction_result \<times> context_stats \<times> agent" where
  "overflowRecoveryInMemory now s a =
     (let (before, res, a) =
        (case s of
           Micro \<Rightarrow> microCompactForced now True a
         | Selective \<Rightarrow> runSelective a
         | ToolElision \<Rightarrow> runElision now True a
         | _ \<Rightarrow> let before = computeContextStats a;
                   (e, a) = compressToolElision now True a;
                   (sel, a) = compressSelective a
               in (before, mergeCompaction e sel, a))
      in (before, res, computeContextStats a, a))"

definition compressOverflowRecovery :: "chat_env \<Rightarrow> int \<Rightarrow> agent \<Rightarrow> agent" where
  "compressOverflowRecovery env instruction a =
     (let s = onErrorStrategy a in
      if s = Summarize \<or> s = FreshWindow
      then emitContextStats (snd (compactOrdered env instruction s False a))
      else let (before, res, stats, a) = overflowRecoveryInMemory (ce_now env) s a in
        emitContextStats
          (if cs_percent stats \<ge> effectiveHard (a_thresholds a) then snd (Compact env instruction a)
           else emitCompactionResult ''overflow'' before res [] a))"

definition handleContextError :: "chat_env \<Rightarrow> int \<Rightarrow> ask_error \<Rightarrow> agent \<Rightarrow> agent" where
  "handleContextError env instruction e a =
     (if \<not> isContextLengthError e then a
      else let a = emit (EContent System
               (''Context length exceeded: '' @ ae_text e @ ''. The conversation is too long for this model'' @ [CHR 0x27]
                 @ ''s context window.'') False) a
        in if cc_onContextError (a_cc a) then compressOverflowRecovery env instruction a else a)"

definition compressHistoryWithStrategyLocked :: "int \<Rightarrow> strategy \<Rightarrow> bool \<Rightarrow> agent \<Rightarrow> compaction_result \<times> agent" where
  "compressHistoryWithStrategyLocked now s force a =
     (case s of
        Selective \<Rightarrow> compressSelective a
      | Hybrid \<Rightarrow>
          let (res, a) = compressToolElision now True a; maxTokens = effectiveMaxTokens a in
          if maxTokens > 0 \<and> cs_estimated (computeContextStats a) > go_div (maxTokens * effectiveHard (a_thresholds a)) 100
          then let (sel, a) = compressSelective a in (mergeCompaction res sel, a)
          else (res, a)
      | _ \<Rightarrow> compressToolElision now force a)"

definition maybeCompressAfterLengthTruncation :: "int \<Rightarrow> agent \<Rightarrow> agent" where
  "maybeCompressAfterLengthTruncation now a =
     (let total = a_gross a + a_usageOut a; maxTokens = effectiveMaxTokens a in
      if \<not> a_stopLength a \<or> maxTokens \<le> 0 \<or> total < go_div (maxTokens * 99) 100 then a
      else
        let s = (if cc_soft (a_cc a) \<le> 0 then NoStrategy else th_softStrategy (a_thresholds a)) in
        if s = Micro
        then let a = report ''micro'' [] (microCompactForced now True a)
          in emitContextStats (report ''truncation'' [] (runSelective a))
        else let before = computeContextStats a;
                 (e, a) = (if s = NoStrategy then compressToolElision now True a
                           else compressHistoryWithStrategyLocked now s True a);
                 (sel, a) = compressSelective a
          in emitContextStats (emitCompactionResult ''truncation'' before (mergeCompaction e sel) [] a))"

definition checkSilentOverflow :: "agent \<Rightarrow> agent" where
  "checkSilentOverflow a =
     (let stats = computeContextStats a in
      if effectiveMaxTokens a = 0 \<or> cs_percent stats < effectiveHard (a_thresholds a) then a else emit (EStats stats) a)"

section \<open>The last resort\<close>

datatype compression_cause = CauseRan | CauseOverflow | CauseFailed

definition compressionCauseFromErr :: "ask_error option \<Rightarrow> compression_cause" where
  "compressionCauseFromErr e = (case e of None \<Rightarrow> CauseRan
     | Some e \<Rightarrow> if isContextLengthError e then CauseOverflow else CauseFailed)"

definition fixedCostExceedsCeiling :: "agent \<Rightarrow> bool" where
  "fixedCostExceedsCeiling a \<longleftrightarrow> \<not> effectiveMaxTokens a \<le> 0 \<and> fixedCostTokens a \<ge> hard_ceiling a"

definition ceilingFallbackDetail :: "compression_cause \<Rightarrow> compaction_result \<Rightarrow> agent \<Rightarrow> string" where
  "ceilingFallbackDetail cause res a =
     (case cause of CauseRan \<Rightarrow> ''summary still exceeds the window'' | CauseFailed \<Rightarrow> ''summarize could not complete''
        | CauseOverflow \<Rightarrow> ''summarize did not fit the window'')
     @ ''; '' @ (if cr_removed res > 0 then ''dropped oldest messages to the hard ceiling''
        else ''shrank tool payloads to the hard ceiling'')
     @ (if fixedCostExceedsCeiling a
        then '' (warning: system prompt + tool schemas alone use ~'' @ dec_int (fixedCostTokens a)
          @ '' tokens, meeting/exceeding the hard ceiling '' @ bytes [226, 128, 148]
          @ '' lower the ceiling or reduce the fixed footprint)''
        else [])"

definition shrinkToolPayloadsToFitLocked :: "int \<Rightarrow> agent \<Rightarrow> compaction_result \<times> bool \<times> agent" where
  "shrinkToolPayloadsToFitLocked historyCeiling a =
     (let (changed, a) = pruneToolResultsLocked (resolve_pruning (cc_pruning (a_cc a))) a;
          (micro, a) = applyMicroLocked (microFallbackConfig (cc_micro (a_cc a))) a
      in (no_result\<lparr>cr_changed := changed + cr_changed micro\<rparr>,
          estimateTokensFromHistory (a_hist a) \<le> historyCeiling, a))"

definition floorTokensAtProviderUsage :: "int list \<Rightarrow> int \<Rightarrow> agent \<Rightarrow> int list \<times> int" where
  "floorTokensAtProviderUsage tok all a =
     (let floored = estimateContextTokensLocked a - fixedCostTokens a
      in if floored \<le> all \<or> all = 0 then (tok, all)
         else (map (\<lambda>t. go_div (t * floored) all) tok, floored))"

text \<open>The position of the cut is the number of messages dropped plus one.\<close>

definition dropOldestToCeilingLocked :: "int list \<Rightarrow> int \<Rightarrow> int \<Rightarrow> agent \<Rightarrow> int \<times> int \<times> agent" where
  "dropOldestToCeilingLocked tok all historyCeiling a =
     (case a_hist a of
        m # ms \<Rightarrow>
          let (dropped, rest) = front_cut all historyCeiling (zip ms (tl tok)) 0;
              (dropped, rest) = skip_orphans rest dropped;
              cut = int (length ms) - int (length rest) + 1;
              a = invalidateContextUsageLocked (a\<lparr>a_hist := m # map fst rest\<rparr>)
          in (cut, dropped, if cut > 1 then a\<lparr>a_generation := a_generation a + 1\<rparr> else a)
      | [] \<Rightarrow> (0, 0, a))"

definition historyCeiling :: "agent \<Rightarrow> int" where
  "historyCeiling a = (let c = hard_ceiling a - fixedCostTokens a in if c < 0 then 0 else c)"

text \<open>\<open>None\<close>: nothing was cut.\<close>

definition enforceContextCeilingLocked :: "agent \<Rightarrow> (context_stats \<times> compaction_result) option \<times> agent" where
  "enforceContextCeilingLocked a =
     (if effectiveMaxTokens a = 0 \<or> length (a_hist a) \<le> 1 then (None, a)
      else
        let before = computeContextStats a; ceiling = historyCeiling a in
        if estimateContextTokensLocked a \<le> hard_ceiling a then (None, a)
        else
          let (shrunk, fits, a) = shrinkToolPayloadsToFitLocked ceiling a in
          if fits then (if didWork shrunk then Some (before, shrunk) else None, a)
          else
            let tok = map messageTokenCount (a_hist a);
                (tok, all) = floorTokensAtProviderUsage tok (sum_list tok) a;
                res = no_result\<lparr>cr_changed := cr_changed shrunk\<rparr>
            in if all \<le> ceiling then (if didWork res then Some (before, res) else None, a)
               else let (cut, dropped, a) = dropOldestToCeilingLocked tok all ceiling a
                 in (Some (before, res\<lparr>cr_removed := cut - 1, cr_freed := dropped\<rparr>), a))"

definition enforceContextCeilingWithCause :: "compression_cause \<Rightarrow> agent \<Rightarrow> agent" where
  "enforceContextCeilingWithCause cause a =
     (case enforceContextCeilingLocked a of
        (None, a) \<Rightarrow> a
      | (Some (before, res), a) \<Rightarrow> emitCompactionResult ''hard fallback'' before res (ceilingFallbackDetail cause res a) a)"

definition enforceContextCeilingUnlessCanceled :: "bool \<Rightarrow> compression_cause \<Rightarrow> agent \<Rightarrow> agent" where
  "enforceContextCeilingUnlessCanceled canceled cause a = (if canceled then a else enforceContextCeilingWithCause cause a)"

text \<open>The gate in front of every request (\<open>prepareTurn\<close> and \<open>startStreamRound\<close>).\<close>

definition before_request :: "chat_env \<Rightarrow> int \<Rightarrow> bool \<Rightarrow> agent \<Rightarrow> agent" where
  "before_request env instruction canceled a =
     (case maybeCompress env instruction a of
        (err, a) \<Rightarrow> enforceContextCeilingUnlessCanceled canceled (compressionCauseFromErr err) a)"

section \<open>Rebuilding a history from its events\<close>

record message_accum =
  ma_content :: string
  ma_thinking :: string
  ma_calls :: "tool_call list"

definition empty_accum :: message_accum where
  "empty_accum = \<lparr>ma_content = [], ma_thinking = [], ma_calls = []\<rparr>"

type_synonym history_builder = "message list \<times> message_accum option"

definition hb_flush :: "history_builder \<Rightarrow> history_builder" where
  "hb_flush b = (case b of (ms, None) \<Rightarrow> (ms, None)
     | (ms, Some c) \<Rightarrow>
         (if ma_content c \<noteq> [] \<or> ma_thinking c \<noteq> [] \<or> ma_calls c \<noteq> []
          then ms @ [(text_message Assistant (ma_content c))\<lparr>m_thinking := ma_thinking c, m_calls := ma_calls c\<rparr>] else ms, None))"

definition hb_accum :: "history_builder \<Rightarrow> message_accum" where
  "hb_accum b = (case snd b of None \<Rightarrow> empty_accum | Some c \<Rightarrow> c)"

definition handleContent :: "role \<Rightarrow> string \<Rightarrow> bool \<Rightarrow> history_builder \<Rightarrow> history_builder" where
  "handleContent r text thinking b =
     (case r of
        User \<Rightarrow> let b = hb_flush b in if text \<noteq> [] then (fst b @ [text_message User text], snd b) else b
      | Assistant \<Rightarrow> let c = hb_accum b in
          (fst b, Some (if thinking then c\<lparr>ma_thinking := ma_thinking c @ text\<rparr> else c\<lparr>ma_content := ma_content c @ text\<rparr>))
      | _ \<Rightarrow> b)"

definition handleToolCall :: "string \<Rightarrow> string \<Rightarrow> string \<Rightarrow> history_builder \<Rightarrow> history_builder" where
  "handleToolCall i n input b = (let c = hb_accum b in
     (fst b, Some (c\<lparr>ma_calls := ma_calls c @ [\<lparr>tc_id = i, tc_name = n, tc_args = input\<rparr>]\<rparr>)))"

definition handleToolResult :: "string \<Rightarrow> string \<Rightarrow> string \<Rightarrow> string list \<Rightarrow> history_builder \<Rightarrow> history_builder" where
  "handleToolResult res i n images b =
     (let b = hb_flush b in
      if res \<noteq> [] \<or> i \<noteq> []
      then (fst b @ [(text_message ToolRole res)\<lparr>m_callID := i, m_toolName := n, m_images := images\<rparr>], snd b) else b)"

definition handleCompactionSummary :: "compaction_tx option \<Rightarrow> history_builder \<Rightarrow> history_builder" where
  "handleCompactionSummary t b =
     (case t of None \<Rightarrow> b
      | Some tx \<Rightarrow>
          let (ms, c) = hb_flush b in
          case tx_strategy tx of
            Summarize \<Rightarrow> if tx_summary tx = [] \<or> tx_start tx \<noteq> 0 then (ms, c) else (checkpoint (tx_summary tx), c)
          | FreshWindow \<Rightarrow>
              if ms = [] then (ms, c)
              else (drop (findCompressionBoundary ms (if tx_preserve tx \<le> 0 then 2 else tx_preserve tx)) ms, c)
          | RemoteCompact \<Rightarrow> if tx_replacement tx = [] then (ms, c) else (tx_replacement tx, c)
          | _ \<Rightarrow> (ms, c))"

fun handleEvent :: "out_event \<Rightarrow> history_builder \<Rightarrow> history_builder" where
  "handleEvent (EContent r text thinking) b = handleContent r text thinking b"
| "handleEvent (EToolCall i n input) b = handleToolCall i n input b"
| "handleEvent (EToolResult res i n images) b = handleToolResult res i n images b"
| "handleEvent (ETx TxSummary tx) b = handleCompactionSummary tx b"
| "handleEvent EEnd b = hb_flush b"
| "handleEvent _ b = b"

definition EventsToHistory :: "out_event list \<Rightarrow> message list" where
  "EventsToHistory evs = fst (hb_flush (fold handleEvent evs ([], None)))"

text \<open>\<open>SetHistory\<close> and \<open>Clear\<close>.\<close>

definition SetHistory :: "message list \<Rightarrow> agent \<Rightarrow> agent" where
  "SetHistory h a =
     (let h = (if list_ex (\<lambda>m. m_role m = System) h \<or> a_prompt a = [] then h
               else text_message System (a_prompt a) # h)
      in invalidateContextUsageLocked (a\<lparr>a_hist := h, a_generation := a_generation a + 1, a_sticky := []\<rparr>))"

definition Clear :: "agent \<Rightarrow> agent" where
  "Clear a = invalidateContextUsageLocked (a\<lparr>a_hist := [], a_generation := a_generation a + 1, a_sticky := [], a_roundAct := None\<rparr>)"

definition stripEphemeralSystemMessages :: "agent \<Rightarrow> agent" where
  "stripEphemeralSystemMessages a =
     a\<lparr>a_hist := filter (\<lambda>m. \<not> (m_role m = System \<and> m_ephemeral m)) (a_hist a)\<rparr>"

definition InjectSystemMessage :: "string \<Rightarrow> agent \<Rightarrow> agent" where
  "InjectSystemMessage c a = a\<lparr>a_hist := a_hist a @ [text_message System c]\<rparr>"

definition InjectUserMessage :: "string \<Rightarrow> agent \<Rightarrow> agent" where
  "InjectUserMessage c a = a\<lparr>a_hist := a_hist a @ [text_message User c]\<rparr>"

definition InjectEphemeralSystemMessage :: "string \<Rightarrow> agent \<Rightarrow> agent" where
  "InjectEphemeralSystemMessage c a =
     (let a = a\<lparr>a_hist := a_hist a @ [(text_message System c)\<lparr>m_ephemeral := True\<rparr>]\<rparr>
      in if has_prefix ''[goa-system]'' c then emit (EContent System c False) a else a)"

end
