(* ===== verification/Chat_Keep.thy ===== *)
theory Chat_Keep
  imports Chat_Ceiling "HOL-Library.Sublist"
begin

text \<open>
  What compaction keeps of a conversation. The interface is a property of histories that survives the three
  things the passes do: rewriting tool payloads, dropping messages after the first one, dropping messages from
  the front when there is no system message. Whatever survives these survives every pass; it is instantiated
  with the pairing of calls and results, with their completeness, and with the order of the messages.
\<close>

section \<open>Payloads\<close>

text \<open>A message without what the passes may rewrite: the arguments of calls and the text of results.\<close>

definition erase :: "message \<Rightarrow> message" where
  "erase m = (if m_role m = Assistant then m\<lparr>m_calls := map (tc_args_update (\<lambda>_. [])) (m_calls m)\<rparr>
     else if m_role m = ToolRole then m\<lparr>m_content := []\<rparr> else m)"

lemma erase_simps [simp]:
  "m_role (erase m) = m_role m" "m_callID (erase m) = m_callID m" "call_ids (erase m) = call_ids m"
  by (simp_all add: erase_def call_ids_def issued_calls_def comp_def)

lemma map_erase_role: "map erase h' = map erase h \<Longrightarrow> map m_role h' = map m_role h"
  by (metis (no_types, lifting) erase_simps(1) list.map_comp map_eq_conv comp_apply)

lemma erase_truncate [simp]: "erase (truncate_message cfg m) = erase m"
  by (simp add: truncate_message_def micro_hit_def erase_def)

lemma erase_elide [simp]: "erase (snd (elide_message m)) = erase m"
  by (simp add: elide_message_def erase_def comp_def split: role.split)

lemma erase_prune: "prune_message cfg m = Some m' \<Longrightarrow> erase m' = erase m"
  by (auto simp: prune_message_def erase_def split: if_splits)

lemma map_erase_span: "(\<And>m. erase (f m) = erase m) \<Longrightarrow> map erase (rewrite_span k f h) = map erase h"
proof -
  assume "\<And>m. erase (f m) = erase m"
  then have "map erase (rewrite_span k f h) = map erase (take 1 h @ span k h @ drop (max 1 (nat k)) h)"
    by (simp add: rewrite_span_def comp_def del: drop_map take_map)
  then show ?thesis unfolding split_span .
qed

lemma stale_scan_tools: "(i, t) \<in> set (stale_scan ms j r) \<Longrightarrow> i < length ms \<and> m_role (rev ms ! i) = ToolRole"
proof (induction ms arbitrary: j r)
  case (Cons m ms)
  then show ?case by (fastforce simp: nth_append split: if_splits)
qed simp

lemma stale_fold:
  "\<forall>(i, t)\<in>set cands. i < length h \<and> m_role (h ! i) = ToolRole \<Longrightarrow>
    map erase (foldl (\<lambda>h (i, t). h[i := (h ! i)\<lparr>m_content := f (h ! i) t\<rparr>]) h cands) = map erase h"
proof (induction cands arbitrary: h)
  case (Cons c cands)
  obtain i t where c: "c = (i, t)" by fastforce
  let ?h = "h[i := (h ! i)\<lparr>m_content := f (h ! i) t\<rparr>]"
  have i: "i < length h" "m_role (h ! i) = ToolRole" using Cons.prems c by auto
  then have e: "map erase ?h = map erase h"
    by (simp add: map_update erase_def list_update_same_conv)
  have "\<forall>(i', t')\<in>set cands. i' < length ?h \<and> m_role (?h ! i') = ToolRole"
    using Cons.prems i by (auto simp: nth_list_update)
  from Cons.IH [OF this] e c show ?case by simp
qed simp

lemma erase_stale: "map erase (snd (snd (pruneStaleToolOutput h))) = map erase h"
proof -
  have "\<forall>(i, t)\<in>set (scanStaleCandidates h). i < length h \<and> m_role (h ! i) = ToolRole"
    using stale_scan_tools [of _ _ "rev h"] by (auto simp: scanStaleCandidates_def)
  from stale_fold [OF this, of "\<lambda>m t. stalePlaceholder (m_toolName m) t"]
  show ?thesis by (simp add: pruneStaleToolOutput_def Let_def split: if_splits)
qed

section \<open>Where the cuts are\<close>

lemma widen_bounds: "widenBoundaryForChains h b \<le> b \<and> (1 \<le> b \<longrightarrow> 1 \<le> widenBoundaryForChains h b)"
proof (induction h b rule: widenBoundaryForChains.induct)
  case (1 h b)
  have s: "1 \<le> b \<Longrightarrow> 1 \<le> skip_tools_back h b" for b by (induction h b rule: skip_tools_back.induct) auto
  note simp1 = widenBoundaryForChains.simps [of h b]
  show ?case
  proof (cases "b > 1")
    case True
    let ?s = "skip_tools_back h (b - 1)"
    let ?b = "if ?s > 1 \<and> m_role (h ! (?s - 1)) = Assistant then ?s - 1 else ?s"
    consider "m_role (h ! (b - 1)) = ToolRole"
      | "m_role (h ! (b - 1)) \<noteq> ToolRole" "m_role (h ! (b - 1)) = Assistant \<and> m_calls (h ! (b - 1)) \<noteq> []"
      | "m_role (h ! (b - 1)) \<noteq> ToolRole" "\<not> (m_role (h ! (b - 1)) = Assistant \<and> m_calls (h ! (b - 1)) \<noteq> [])" by blast
    then show ?thesis
    proof cases
      case 1
      then have "widenBoundaryForChains h b = widenBoundaryForChains h ?b" using True by (simp add: simp1 Let_def)
      moreover have "?b \<le> b" "1 \<le> ?b" using s [of "b - 1"] True skip_tools_back_le [of h "b - 1"] by auto
      ultimately show ?thesis using 1 "1.IH"(1) [OF True refl 1 refl] by (metis le_trans)
    next
      case 2
      then have "widenBoundaryForChains h b = widenBoundaryForChains h (b - 1)" using True by (simp add: simp1 Let_def)
      then show ?thesis using 1 "1.IH"(2) [OF True refl 2] True by auto
    next
      case 3
      then have "widenBoundaryForChains h b = b" using True by (auto simp: simp1 Let_def)
      then show ?thesis by simp
    qed
  qed (simp add: simp1)
qed

lemma turn_scan_user: "turn_scan p k ms = Some i \<Longrightarrow> i < length ms \<and> m_role (rev ms ! i) = User"
  by (induction p k ms rule: turn_scan.induct) (auto simp: nth_append split: if_splits)

lemma boundary_after_system:
  assumes "m_role m = System"
  shows "1 \<le> findCompressionBoundary (m # h) p"
proof -
  have "1 \<le> (case turn_scan p 0 (rev (m # h)) of None \<Rightarrow> length (m # h) | Some i \<Rightarrow> i)"
  proof (cases "turn_scan p 0 (rev (m # h))")
    case (Some i)
    from turn_scan_user [OF this] have "m_role ((m # h) ! i) = User" by simp
    with assms Some show ?thesis by (cases i) auto
  qed simp
  with widen_bounds show ?thesis unfolding findCompressionBoundary_def by blast
qed

text \<open>What selective compression and a fresh window leave: a system message and the rest without its beginning.\<close>

lemma keep_tail_cases:
  obtains k where "keep_system h = []" "keep_system h @ drop (findCompressionBoundary h p) h = drop k h"
  | m t k where "h = m # t" "m_role m = System" "keep_system h @ drop (findCompressionBoundary h p) h = m # drop k t"
proof (cases "\<exists>m t. h = m # t \<and> m_role m = System")
  case True
  then obtain m t where m: "h = m # t" "m_role m = System" by blast
  obtain b where "findCompressionBoundary h p = Suc b" using boundary_after_system [OF m(2), of t p] m(1) by (cases "findCompressionBoundary h p") auto
  with m that(2) [of m t b] show ?thesis by (simp add: keep_system_def)
next
  case False
  then have "keep_system h = []" by (auto simp: keep_system_def split: list.split)
  with that(1) show ?thesis by simp
qed

lemma front_cut_drop: "\<exists>k. snd (front_cut keep budget xs d) = drop k xs"
proof (induction keep budget xs d rule: front_cut.induct)
  case (2 keep budget x xs d)
  then show ?case by (metis drop_0 drop_Suc_Cons front_cut.simps(2) snd_conv)
qed simp

lemma skip_orphans_drop: "\<exists>k. snd (skip_orphans xs d) = drop k xs"
proof (induction xs d rule: skip_orphans.induct)
  case (2 x xs d)
  then show ?case by (metis drop_0 drop_Suc_Cons skip_orphans.simps(2) snd_conv)
qed simp

lemma cut_drop:
  assumes "front_cut keep budget xs d = (d', rest)" "skip_orphans rest d' = (d'', rest')"
  obtains k where "rest' = drop k xs"
  using front_cut_drop [of keep budget xs d] skip_orphans_drop [of rest d'] assms that by (auto simp: drop_drop)

lemma bound_loop_drop: "\<exists>k. bound_loop ms kept r = drop k (rev ms) @ kept"
proof (induction ms kept r rule: bound_loop.induct)
  case (2 m ms kept r)
  show ?case
  proof (cases "messageTokenCount m > r \<and> kept \<noteq> []")
    case True
    then show ?thesis by (intro exI [of _ "length (rev (m # ms))"]) simp
  next
    case False
    with 2 obtain k where "bound_loop (m # ms) kept r = drop k (rev ms) @ m # kept" by (auto simp: Let_def)
    then show ?thesis by (intro exI [of _ "min k (length ms)"]) (auto simp: min_def)
  qed
qed (intro exI [of _ 0], simp)

lemma bound_drop: "\<exists>k. boundRemoteCompactReplacement a ms = drop k ms"
  using bound_loop_drop [of "rev ms" "[]"] by (auto simp: boundRemoteCompactReplacement_def Let_def intro: exI [of _ 0])

section \<open>The interface\<close>

locale history_invariant =
  fixes P :: "message list \<Rightarrow> bool"
  assumes payload: "P h \<Longrightarrow> map erase h' = map erase h \<Longrightarrow> P h'"
    and first: "P (m # h) \<Longrightarrow> P (m # drop k h)"
    and tail: "P h \<Longrightarrow> keep_system h = [] \<Longrightarrow> P (drop k h)"
begin

lemma keep_tail: "P h \<Longrightarrow> P (keep_system h @ drop (findCompressionBoundary h p) h)"
  by (rule keep_tail_cases [of h p]) (simp_all add: tail first)

lemma truncate: "P (a_hist a) \<Longrightarrow> P (a_hist (snd (truncateToolResults k cfg a)))"
  by (rule payload [of "a_hist a"]) (auto simp: truncateToolResults_def Let_def map_erase_span)

lemma apply_micro: "P (a_hist a) \<Longrightarrow> P (a_hist (snd (applyMicroLocked cfg a)))"
  using truncate [of a] by (auto simp: applyMicroLocked_def split: prod.split) (metis snd_conv)

lemma micro: "P (a_hist a) \<Longrightarrow> P (a_hist (snd (snd (microCompactForced now force a))))"
  using truncate [of a] by (auto simp: microCompactForced_def Let_def split: prod.split) (metis snd_conv)+

lemma prune: "P (a_hist a) \<Longrightarrow> P (a_hist (snd (pruneToolResultsLocked cfg a)))"
proof (rule payload [of "a_hist a"])
  have "erase (case prune_message cfg m of None \<Rightarrow> m | Some m' \<Rightarrow> m') = erase m" for m
    by (auto split: option.split dest: erase_prune)
  then show "map erase (a_hist (snd (pruneToolResultsLocked cfg a))) = map erase (a_hist a)"
    by (simp add: pruneToolResultsLocked_def Let_def)
qed

lemma selective: "P (a_hist a) \<Longrightarrow> P (a_hist (snd (compressSelective a)))"
  using keep_tail by (simp add: compressSelective_def Let_def)

lemma elision: "P (a_hist a) \<Longrightarrow> P (a_hist (snd (compressToolElision now force a)))"
proof -
  assume P: "P (a_hist a)"
  have e: "P (rewrite_span b (snd \<circ> elide_message) (a_hist a))" for b
    by (rule payload [OF P]) (simp add: map_erase_span)
  obtain b es where b: "(let n = int (length (a_hist a)); preserve = (if cc_preserve (a_cc a) = 0 then 2 else cc_preserve (a_cc a));
      boundary = computeElisionBoundary n preserve
    in if force then (forcedElisionBoundary boundary n, False) else proactiveElisionBoundary now boundary a) = (b, es)" by fastforce
  define a' where "a' = (if b > 1 then invalidateContextUsageLocked (a\<lparr>a_hist := rewrite_span b (snd \<circ> elide_message) (a_hist a)\<rparr>)
    else a\<lparr>a_hist := rewrite_span b (snd \<circ> elide_message) (a_hist a)\<rparr>)"
  have h: "a_hist a' = rewrite_span b (snd \<circ> elide_message) (a_hist a)" by (simp add: a'_def)
  have "a_hist (snd (compressToolElision now force a)) = (if es then a_hist (snd (compressSelective a')) else a_hist a')"
    using b unfolding compressToolElision_def elideToolMessages_def a'_def Let_def
    by (simp split: prod.split)
  with selective [of a'] e [of b] h show ?thesis by (auto split: if_splits)
qed

lemma fit: "P (a_hist a) \<Longrightarrow> P (a_hist (snd (dropOldestToFitLocked budget a)))"
proof (cases "a_hist a")
  case (Cons m ms)
  assume P: "P (a_hist a)"
  show ?thesis
  proof (cases ms)
    case (Cons m' ms')
    obtain d1 r1 where c: "front_cut (messageTokenCount m + estimateTokensFromHistory (a_hist a)) budget (with_tokens ms) 0 = (d1, r1)" by fastforce
    obtain d2 r2 where s: "skip_orphans r1 d1 = (d2, r2)" by fastforce
    from cut_drop [OF c s] obtain k where k: "r2 = drop k (with_tokens ms)" .
    have "map fst r2 = drop k ms" unfolding k by (simp add: with_tokens_def drop_map [symmetric] comp_def)
    with first [of m ms k] P \<open>a_hist a = m # ms\<close> c s show ?thesis
      unfolding Cons by (simp add: dropOldestToFitLocked_def Let_def)
  qed (use P \<open>a_hist a = m # ms\<close> in \<open>simp add: dropOldestToFitLocked_def\<close>)
qed (simp add: dropOldestToFitLocked_def)

lemma drop_to_ceiling:
  "P (a_hist a) \<Longrightarrow> length tok = length (a_hist a) \<Longrightarrow> P (a_hist (snd (snd (dropOldestToCeilingLocked tok n c a))))"
proof (cases "a_hist a")
  case (Cons m ms)
  assume P: "P (a_hist a)" and l: "length tok = length (a_hist a)"
  obtain d1 r1 where c: "front_cut n c (zip ms (tl tok)) 0 = (d1, r1)" by fastforce
  obtain d2 r2 where s: "skip_orphans r1 d1 = (d2, r2)" by fastforce
  from cut_drop [OF c s] obtain k where k: "r2 = drop k (zip ms (tl tok))" .
  have "map fst r2 = drop k ms" unfolding k using l Cons by (simp add: drop_map [symmetric])
  with first [of m ms k] P Cons c s show ?thesis by (simp add: dropOldestToCeilingLocked_def Let_def)
qed (simp add: dropOldestToCeilingLocked_def)

lemma shrink: "P (a_hist a) \<Longrightarrow> P (a_hist (snd (snd (shrinkToolPayloadsToFitLocked c a))))"
  using prune [of a] apply_micro by (auto simp: shrinkToolPayloadsToFitLocked_def split: prod.splits) (metis snd_conv)

lemma enforce_locked: "P (a_hist a) \<Longrightarrow> P (a_hist (snd (enforceContextCeilingLocked a)))"
proof -
  assume P: "P (a_hist a)"
  obtain sh fits a1 where sh: "shrinkToolPayloadsToFitLocked (historyCeiling a) a = (sh, fits, a1)" by (metis prod_cases3)
  with shrink [OF P] have P1: "P (a_hist a1)" by (metis snd_conv)
  obtain tok n where t: "floorTokensAtProviderUsage (map messageTokenCount (a_hist a1)) (sum_list (map messageTokenCount (a_hist a1))) a1 = (tok, n)" by fastforce
  then have "length tok = length (a_hist a1)" by (auto simp: floorTokensAtProviderUsage_def Let_def split: if_splits)
  note d = drop_to_ceiling [OF P1 this]
  show ?thesis using P P1 d [of n "historyCeiling a"] by (auto simp: enforceContextCeilingLocked_def Let_def sh t split: prod.split)
qed

lemma enforce: "P (a_hist a) \<Longrightarrow> P (a_hist (enforceContextCeilingUnlessCanceled canceled cause a))"
proof -
  obtain r a1 where e: "enforceContextCeilingLocked a = (r, a1)" by fastforce
  assume "P (a_hist a)"
  with enforce_locked [of a] e show ?thesis
    by (auto simp: enforceContextCeilingUnlessCanceled_def enforceContextCeilingWithCause_def split: option.split)
qed

lemma recovery: "P (a_hist a) \<Longrightarrow> P (a_hist (snd (snd (snd (overflowRecoveryInMemory now s a)))))"
proof -
  assume P: "P (a_hist a)"
  have "P (a_hist (snd (compressSelective (snd (compressToolElision now True a)))))" using selective elision P by blast
  with micro [OF P] selective [OF P] elision [OF P] show ?thesis
    by (cases s) (simp_all add: overflowRecoveryInMemory_def runSelective_def runElision_def Let_def case_prod_unfold)
qed

lemma strategy_locked: "P (a_hist a) \<Longrightarrow> P (a_hist (snd (compressHistoryWithStrategyLocked now s force a)))"
  using selective [of a] elision [of a now] selective [of "snd (compressToolElision now True a)"]
  by (cases s) (simp_all add: compressHistoryWithStrategyLocked_def Let_def case_prod_unfold)

lemma truncation: "P (a_hist a) \<Longrightarrow> P (a_hist (maybeCompressAfterLengthTruncation now a))"
proof -
  assume P: "P (a_hist a)"
  let ?m = "emitCompactionResult ''micro'' (fst (microCompactForced now True a)) (fst (snd (microCompactForced now True a))) []
    (snd (snd (microCompactForced now True a)))"
  have "P (a_hist (snd (compressSelective ?m)))" using selective [of ?m] micro [OF P] by simp
  moreover have "P (a_hist (snd (compressSelective (snd (compressToolElision now True a)))))" using selective elision P by blast
  moreover have "P (a_hist (snd (compressSelective (snd (compressHistoryWithStrategyLocked now s True a)))))" for s
    using selective strategy_locked P by blast
  ultimately show ?thesis using P
    by (simp add: maybeCompressAfterLengthTruncation_def report_def runSelective_def Let_def case_prod_unfold)
qed

end

end
