(* ===== verification/Chat_Requests.thy ===== *)
theory Chat_Requests
  imports Chat_Keep
begin

text \<open>
  Requests stay acceptable through every compaction, full ones included, and what is kept is in order.
\<close>

section \<open>Full compactions\<close>

lemma no_system_remote_all: "m \<in> set (providerMessagesToInternal ws) \<Longrightarrow> m_role m \<noteq> System"
proof -
  assume m: "m \<in> set (providerMessagesToInternal ws)"
  define good where "good ms \<longleftrightarrow> (\<forall>m\<in>set ms. m_role m \<noteq> System)" for ms :: "message list"
  define goodb where "goodb b \<longleftrightarrow> good (fst b) \<and> (\<forall>m. snd b = Some m \<longrightarrow> m_role m = Assistant)" for b :: "message list \<times> message option"
  have blk: "m_role (fold add_block bs m) = m_role m" for bs m
  proof (induction bs arbitrary: m)
    case (Cons b bs)
    have "m_role (add_block b m) = m_role m" by (cases b) simp_all
    with Cons show ?case by simp
  qed simp
  have fl: "goodb b \<Longrightarrow> good (flush_cur b)" for b by (auto simp: goodb_def good_def flush_cur_def split: prod.splits option.splits)
  have tr: "m_role (toolResultToInternal w) = ToolRole" for w
    by (auto simp: toolResultToInternal_def text_message_def split: option.splits block.splits)
  have "goodb b \<Longrightarrow> goodb (add_wire w b)" for w b
    using fl [of b] tr [of w]
    by (auto simp: goodb_def good_def add_wire_def blk text_message_def split: wire_role.splits option.splits)
  then have "goodb b \<Longrightarrow> goodb (fold add_wire ws b)" for b by (induction ws arbitrary: b) auto
  from fl [OF this, of "([], None)"] have "good (providerMessagesToInternal ws)"
    by (simp add: providerMessagesToInternal_def goodb_def good_def)
  with m show ?thesis by (simp add: good_def)
qed

lemma no_system_remote: "keep_system (providerMessagesToInternal ws) = []"
  using no_system_remote_all [of "hd (providerMessagesToInternal ws)" ws] by (auto simp: keep_system_def split: list.split)

definition remote_ok :: "(message list \<Rightarrow> bool) \<Rightarrow> chat_env \<Rightarrow> bool" where
  "remote_ok Q env \<longleftrightarrow> (\<forall>request ws. ce_remote env request = Some ws \<longrightarrow> Q (providerMessagesToInternal ws))"

locale checkpoint_invariant = history_invariant +
  assumes checkpoint: "P (checkpoint s)"
begin

lemma pre_prune: "P (a_hist a) \<Longrightarrow> P (a_hist (snd (snd (snd (pruneToolResultsPreCompact a)))))"
proof -
  assume P: "P (a_hist a)"
  let ?a = "a\<lparr>a_hist := snd (snd (pruneStaleToolOutput (a_hist a)))\<rparr>"
  have "P (a_hist ?a)" by (rule payload [OF P]) (simp add: erase_stale)
  from prune [OF this] P show ?thesis by (simp add: pruneToolResultsPreCompact_def Let_def case_prod_unfold)
qed

lemma fresh: "P (a_hist a) \<Longrightarrow> P (a_hist (compactFreshWindow i a))"
  using keep_tail by (simp add: compactFreshWindow_def Let_def replace_history_def freshWindowHistoryLocked_def)

lemma remote: "remote_ok P env \<Longrightarrow> compactRemote env i a = Some a' \<Longrightarrow> P (a_hist a')"
proof -
  assume r: "remote_ok P env" "compactRemote env i a = Some a'"
  then obtain ws where ws: "ce_remote env (buildProviderHistory (a_prompt a) (a_hist a)) = Some ws"
    "a_hist a' = boundRemoteCompactReplacement a (providerMessagesToInternal ws)"
    by (auto simp: compactRemote_def Let_def replace_history_def split: if_splits option.splits)
  obtain k where "a_hist a' = drop k (providerMessagesToInternal ws)" using bound_drop ws(2) by metis
  with r(1) ws(1) tail [OF _ no_system_remote] show ?thesis by (auto simp: remote_ok_def)
qed

lemma make_room: "P (a_hist a) \<Longrightarrow> P (a_hist (shrinkHistoryForSummarizeRetry ins (applyMicroForSummarize a)))"
proof -
  assume P: "P (a_hist a)"
  have m: "P (a_hist (applyMicroForSummarize a))"
    using apply_micro [OF P] by (simp add: applyMicroForSummarize_def Let_def case_prod_unfold)
  with fit [OF m] show ?thesis by (simp add: shrinkHistoryForSummarizeRetry_def Let_def case_prod_unfold)
qed

lemma land: "P (a_hist (land_summary i before s a))"
  using checkpoint by (simp add: land_summary_def Let_def replace_history_def)

lemma with_retry:
  assumes P: "P (a_hist a)"
  shows "P (a_hist (snd (summarize_with_retry env ins a)))"
  using P make_room [OF P, of ins] by (simp add: summarize_with_retry_def Let_def split: sum.split)

lemma transaction:
  assumes P: "P (a_hist a)" and r: "remote_ok P env"
  shows "P (a_hist (snd (compact_transaction env ins slot ex before a)))"
proof -
  let ?a = "emitCompactionTxStart (ce_txid env) a"
  have P': "P (a_hist ?a)" using P by simp
  have pref: "P (a_hist a'')" if "tryPreferredCompaction env i slot ex ?a = Some a''" for i a''
    using that P' remote [OF r] fresh [OF P'] by (auto simp: tryPreferredCompaction_def split: option.splits if_splits)
  obtain res a1 where s: "summarize_with_retry env ins ?a = (res, a1)" by fastforce
  with with_retry [OF P', of env ins] have "P (a_hist a1)" by simp
  with pref land s show ?thesis by (auto simp: compact_transaction_def Let_def split: option.split sum.split)
qed

lemma compact:
  assumes P: "P (a_hist a)" and r: "remote_ok P env"
  shows "P (a_hist (snd (compactOrdered env ins slot ex a)))"
proof -
  obtain skip before res a1 where p: "pruneToolResultsPreCompact a = (skip, before, res, a1)" by (metis prod_cases4)
  with pre_prune [OF P] have "P (a_hist a1)" by simp
  with P p transaction [OF _ r] show ?thesis by (auto simp: compactOrdered_def split: bool.split)
qed

lemma hybrid:
  assumes P: "P (a_hist a)" and r: "remote_ok P env"
  shows "P (a_hist (snd (compressHybrid env ins a)))"
proof -
  let ?e = "snd (compressToolElision (ce_now env) True a)"
  have e: "P (a_hist ?e)" and s: "P (a_hist (snd (compressSelective ?e)))" using elision [OF P] selective by blast+
  show ?thesis using e s compact [OF s r] by (simp add: compressHybrid_def Compact_def Let_def case_prod_unfold)
qed

lemma history_with:
  assumes P: "P (a_hist a)" and r: "remote_ok P env"
  shows "P (a_hist (snd (compressHistoryWith env ins s force a)))"
  using selective [OF P] compact [OF P r] hybrid [OF P r] micro [OF P] elision [OF P]
  by (cases s) (simp_all add: compressHistoryWith_def report_def runSelective_def runElision_def case_prod_unfold)

lemma and_report:
  assumes P: "P (a_hist a)" and r: "remote_ok P env"
  shows "P (a_hist (snd (compressAndReportWith env ins s a)))"
  using history_with [OF P r, of ins s False]
  by (auto simp: compressAndReportWith_def split: prod.split option.split)

lemma maybe:
  assumes P: "P (a_hist a)" and r: "remote_ok P env"
  shows "P (a_hist (snd (maybeCompress env ins a)))"
  using P and_report [OF P r, of ins] by (simp add: maybeCompress_def Let_def split: tier.split)

lemma gate:
  assumes P: "P (a_hist a)" and r: "remote_ok P env"
  shows "P (a_hist (before_request env ins canceled a))"
proof -
  obtain e a1 where m: "maybeCompress env ins a = (e, a1)" by fastforce
  with maybe [OF P r, of ins] have "P (a_hist a1)" by simp
  from enforce [OF this] m show ?thesis by (simp add: before_request_def)
qed

lemma overflow:
  assumes P: "P (a_hist a)" and r: "remote_ok P env"
  shows "P (a_hist (handleContextError env ins e a))"
proof -
  have "P (a_hist (compressOverflowRecovery env ins a'))" if P': "P (a_hist a')" for a'
    using recovery [OF P'] compact [OF P' r] compact [OF recovery [OF P'] r]
    by (simp add: compressOverflowRecovery_def Compact_def Let_def case_prod_unfold)
  with P show ?thesis by (simp add: handleContextError_def Let_def)
qed

end

section \<open>Pairing survives\<close>

lemma results_mono:
  "results_ok K ids h \<Longrightarrow> K' \<subseteq> K \<Longrightarrow> (\<And>i. i \<in> set ids \<Longrightarrow> i \<in> K' \<Longrightarrow> i \<in> set ids') \<Longrightarrow> results_ok K' ids' h"
proof (induction h arbitrary: ids ids')
  case (Cons m h)
  show ?case
  proof (cases "is_result m")
    case True
    with Cons.prems have "m_callID m \<in> set ids' \<or> m_callID m \<notin> K'" "results_ok K ids h" by auto
    with True Cons.IH [of ids ids'] Cons.prems(2,3) show ?thesis by auto
  next
    case False
    with Cons.prems(1) Cons.IH [of "call_ids m" "call_ids m"] Cons.prems(2) show ?thesis by auto
  qed
qed simp

lemma results_drop:
  assumes "results_ok K ids h" "K' \<subseteq> K" "\<And>i. i \<in> set ids \<Longrightarrow> i \<in> K' \<Longrightarrow> i \<in> set ids'"
    "set (all_ids (take k h)) \<inter> K' = {}"
  shows "results_ok K' ids' (drop k h)"
  using assms
proof (induction h arbitrary: k ids)
  case (Cons m h)
  show ?case
  proof (cases k)
    case 0
    with results_mono [OF Cons.prems(1,2,3)] show ?thesis by auto
  next
    case (Suc k')
    show ?thesis
    proof (cases "is_result m")
      case True
      with Cons.prems(1) have "results_ok K ids h" by simp
      with Cons.IH [of ids k'] Cons.prems(2-4) Suc True show ?thesis by auto
    next
      case False
      with Cons.prems(1) have "results_ok K (call_ids m) h" by simp
      with Cons.IH [of "call_ids m" k'] Cons.prems(2,4) Suc show ?thesis by auto
    qed
  qed
qed simp

lemma all_ids_take_drop: "all_ids h = all_ids (take k h) @ all_ids (drop k h)"
  by (metis all_ids_simps(3) append_take_drop_id)

lemma paired_drop: "paired h \<Longrightarrow> paired (drop k h)"
proof -
  assume p: "paired h"
  then have d: "distinct (all_ids h)" by (simp add: paired_def)
  then have dj: "set (all_ids (take k h)) \<inter> set (all_ids (drop k h)) = {}" "distinct (all_ids (drop k h))"
    using all_ids_take_drop [of h k] by (metis distinct_append)+
  have sub: "set (all_ids (drop k h)) \<subseteq> set (all_ids h)" using all_ids_take_drop [of h k] by auto
  have "results_ok (set (all_ids (drop k h))) [] (drop k h)"
    by (rule results_drop [of "set (all_ids h)" "[]"]) (use p dj sub in \<open>auto simp: paired_def\<close>)
  with p dj sub show ?thesis by (auto simp: paired_def dest: in_set_dropD)
qed

lemma paired_first: "paired (m # h) \<Longrightarrow> paired (m # drop k h)"
proof -
  assume p: "paired (m # h)"
  then have d: "distinct (call_ids m @ all_ids (take k h) @ all_ids (drop k h))"
    using all_ids_take_drop [of h k] by (simp add: paired_def)
  have sub: "set (all_ids (drop k h)) \<subseteq> set (all_ids h)" using all_ids_take_drop [of h k] by auto
  have r: "results_ok (set (all_ids (m # h))) (call_ids m) h" using p by (cases "is_result m") (simp_all add: paired_def)
  have "results_ok (set (call_ids m) \<union> set (all_ids (drop k h))) (call_ids m) (drop k h)"
    by (rule results_drop [OF r]) (use d sub in auto)
  moreover have "is_result m \<Longrightarrow> m_callID m \<notin> set (all_ids (drop k h))" using p sub by (auto simp: paired_def)
  ultimately show ?thesis using p d sub by (auto simp: paired_def dest: in_set_dropD)
qed

lemma erase_determines:
  assumes "map erase h' = map erase h"
  shows "all_ids h' = all_ids h" "results_ok K ids h' = results_ok K ids h" "calls_ok h' = calls_ok h"
    "map m_role h' = map m_role h" "map m_callID h' = map m_callID h"
proof -
  have a: "all_ids h = all_ids (map erase h)" for h by (induction h) auto
  show "all_ids h' = all_ids h" using a assms by metis
  have r: "results_ok K ids h = results_ok K ids (map erase h)" for K ids h
    by (induction K ids h rule: results_ok.induct) auto
  show "results_ok K ids h' = results_ok K ids h" using r assms by metis
  have tw: "takeWhile is_result (map erase h) = map erase (takeWhile is_result h)" for h by (induction h) auto
  have c: "calls_ok h = calls_ok (map erase h)" for h by (induction h) (simp_all add: tw image_image)
  show "calls_ok h' = calls_ok h" using c assms by metis
  show "map m_role h' = map m_role h" by (rule map_erase_role [OF assms])
  have i: "map m_callID h = map m_callID (map erase h)" for h by simp
  show "map m_callID h' = map m_callID h" using i assms by metis
qed

lemma paired_payload: "paired h \<Longrightarrow> map erase h' = map erase h \<Longrightarrow> paired h'"
proof -
  assume p: "paired h" and e: "map erase h' = map erase h"
  have "(\<forall>m\<in>set h. is_result m \<longrightarrow> m_callID m \<noteq> []) \<longleftrightarrow> (\<forall>m\<in>set (map erase h). is_result m \<longrightarrow> m_callID m \<noteq> [])" for h by auto
  with p erase_determines(1,2) [OF e] e show ?thesis unfolding paired_def by metis
qed

lemma paired_checkpoint: "paired (checkpoint s)"
  by (simp add: checkpoint_def text_message_def paired_def call_ids_def issued_calls_def)

interpretation pairing: checkpoint_invariant paired
  by unfold_locales (rule paired_payload paired_first paired_drop paired_checkpoint; assumption)+

text \<open>In a conversation that starts with the system message no call loses its answer either.\<close>

definition headed :: "message list \<Rightarrow> bool" where
  "headed h \<longleftrightarrow> calls_ok h \<and> (case h of [] \<Rightarrow> False | m # _ \<Rightarrow> m_role m = System)"

lemma calls_ok_drop: "calls_ok h \<Longrightarrow> calls_ok (drop k h)"
proof (induction h arbitrary: k)
  case (Cons m h)
  then show ?case by (cases k) auto
qed simp

interpretation complete: history_invariant headed
proof
  fix h h' assume h: "headed h" "map erase h' = map erase h"
  then have "map m_role h' = map m_role h" by (intro map_erase_role)
  with h erase_determines(3) [OF h(2)] show "headed h'" by (auto simp: headed_def split: list.splits)
next
  fix m h k assume "headed (m # h)"
  then show "headed (m # drop k h)" by (auto simp: headed_def call_ids_def issued_calls_def intro: calls_ok_drop)
next
  fix h k assume "headed h" "keep_system h = []"
  then show "headed (drop k h)" by (auto simp: headed_def keep_system_def split: list.splits if_splits)
qed

text \<open>And the messages that are left are messages that were there, in their order.\<close>

interpretation original: history_invariant "\<lambda>h. subseq (map erase h) (map erase h0)" for h0
proof
  fix m h k assume s: "subseq (map erase (m # h)) (map erase h0)"
  have "subseq (map erase (m # drop k h)) (map erase (m # h))" by (simp add: drop_map [symmetric] suffix_imp_subseq suffix_drop)
  with s show "subseq (map erase (m # drop k h)) (map erase h0)" by (rule subseq_order.trans [rotated])
next
  fix h k assume s: "subseq (map erase h) (map erase h0)"
  have "subseq (map erase (drop k h)) (map erase h)" by (simp add: drop_map [symmetric] suffix_imp_subseq suffix_drop)
  with s show "subseq (map erase (drop k h)) (map erase h0)" by (rule subseq_order.trans [rotated])
qed simp

end
