(* ===== verification/Chat_Properties.thy ===== *)
theory Chat_Properties
  imports Chat_Requests Tool_Output
begin

text \<open>
  What compaction promises: requests stay acceptable, nothing the user said is altered, the ceiling is met,
  a summary fits, a transaction is always closed and replaying the log gives the history that was landed.
\<close>

section \<open>The setup of an agent does not change\<close>

definition same_setup :: "agent \<Rightarrow> agent \<Rightarrow> bool" where
  "same_setup a a' \<longleftrightarrow> a_cc a' = a_cc a \<and> a_prompt a' = a_prompt a \<and> a_schemaCost a' = a_schemaCost a
     \<and> a_modelWindow a' = a_modelWindow a \<and> a_window a' = a_window a \<and> a_remote a' = a_remote a"

lemma same_setup_trans: "same_setup a b \<Longrightarrow> same_setup b c \<Longrightarrow> same_setup a c"
  by (simp add: same_setup_def)

lemma same_setupD:
  assumes "same_setup a a'"
  shows "effectiveMaxTokens a' = effectiveMaxTokens a" "fixedCostTokens a' = fixedCostTokens a"
    "hard_ceiling a' = hard_ceiling a" "historyCeiling a' = historyCeiling a" "fit_budget a' = fit_budget a"
  using assms by (simp_all add: same_setup_def effectiveMaxTokens_def fixedCostTokens_def hard_ceiling_def historyCeiling_def
      fit_budget_def Let_def)

lemma setup_simps [simp]:
  "same_setup a a" "same_setup a (a\<lparr>a_hist := h\<rparr>)" "same_setup a (a\<lparr>a_generation := g\<rparr>)"
  "same_setup a (invalidateContextUsageLocked a') = same_setup a a'"
  "same_setup a (emit e a') = same_setup a a'"
  "same_setup a (emitCompaction l b c r f d a') = same_setup a a'"
  "same_setup a (emitCompactionResult l b res d a') = same_setup a a'"
  "same_setup a (a'\<lparr>a_hist := h\<rparr>) = same_setup a a'" "same_setup a (a'\<lparr>a_generation := g\<rparr>) = same_setup a a'"
  by (simp_all add: same_setup_def invalidateContextUsageLocked_def emit_def emitCompaction_def emitCompactionResult_def)

lemma truncate_setup: "same_setup a (snd (truncateToolResults k cfg a))"
  by (simp add: truncateToolResults_def Let_def)

lemma micro_setup: "same_setup a (snd (applyMicroLocked cfg a))"
  using truncate_setup by (simp add: applyMicroLocked_def case_prod_unfold Let_def)

lemma prune_setup: "same_setup a (snd (pruneToolResultsLocked cfg a))"
  by (simp add: pruneToolResultsLocked_def Let_def)

lemma shrink_setup: "same_setup a (snd (snd (shrinkToolPayloadsToFitLocked c a)))"
  using same_setup_trans [OF prune_setup micro_setup] by (simp add: shrinkToolPayloadsToFitLocked_def case_prod_unfold Let_def)

lemma fit_setup: "same_setup a (snd (dropOldestToFitLocked c a))"
  by (auto simp: dropOldestToFitLocked_def case_prod_unfold Let_def split: list.split)

lemma ceiling_setup: "same_setup a (snd (snd (dropOldestToCeilingLocked tok n c a)))"
  by (auto simp: dropOldestToCeilingLocked_def case_prod_unfold Let_def split: list.split)

section \<open>The ceiling\<close>

lemma rewrite_id: "\<forall>x\<in>set (span k h). f x = x \<Longrightarrow> rewrite_span k f h = h"
  using split_span [of h k] by (simp add: rewrite_span_def map_idI)

lemma truncate_gross:
  "truncateToolResults k cfg a = (n, a') \<Longrightarrow> 0 \<le> n \<and> (if n = 0 then a' = a else a_gross a' = 0)"
proof -
  assume t: "truncateToolResults k cfg a = (n, a')"
  have "rewrite_span k (truncate_message cfg) (a_hist a) = a_hist a" if "filter (micro_hit cfg) (span k (a_hist a)) = []"
    using that by (intro rewrite_id) (simp add: truncate_message_def filter_empty_conv)
  with t show ?thesis by (auto simp: truncateToolResults_def Let_def)
qed

lemma micro_gross:
  "applyMicroLocked cfg a = (r, a') \<Longrightarrow> 0 \<le> cr_changed r \<and> (if cr_changed r = 0 then a' = a else a_gross a' = 0)"
  using truncate_gross by (auto simp: applyMicroLocked_def no_result_def Let_def split: if_splits prod.splits)

lemma prune_gross:
  "pruneToolResultsLocked cfg a = (n, a') \<Longrightarrow> 0 \<le> n \<and> (if n = 0 then a' = a else a_gross a' = 0)"
proof -
  assume p: "pruneToolResultsLocked cfg a = (n, a')"
  have "map (\<lambda>m. case prune_message cfg m of None \<Rightarrow> m | Some m' \<Rightarrow> m') (a_hist a) = a_hist a"
    if "filter (\<lambda>m. prune_message cfg m \<noteq> None) (a_hist a) = []"
    using that by (intro map_idI) (auto simp: filter_empty_conv)
  with p show ?thesis by (auto simp: pruneToolResultsLocked_def Let_def)
qed

lemma shrink_gross:
  assumes "shrinkToolPayloadsToFitLocked c a = (r, fits, a')"
  shows "0 \<le> cr_changed r" "if cr_changed r = 0 then a' = a else a_gross a' = 0"
    "fits \<longleftrightarrow> estimateTokensFromHistory (a_hist a') \<le> c"
proof -
  obtain n a1 where p: "pruneToolResultsLocked (resolve_pruning (cc_pruning (a_cc a))) a = (n, a1)" by fastforce
  obtain m a2 where q: "applyMicroLocked (microFallbackConfig (cc_micro (a_cc a1))) a1 = (m, a2)" by fastforce
  have r: "cr_changed r = n + cr_changed m" "a' = a2" "fits \<longleftrightarrow> estimateTokensFromHistory (a_hist a') \<le> c"
    using assms p q by (auto simp: shrinkToolPayloadsToFitLocked_def)
  have "a_gross a1 = 0 \<Longrightarrow> a_gross a2 = 0" using micro_gross [OF q] by (auto split: if_splits)
  with prune_gross [OF p] micro_gross [OF q] r
  show "0 \<le> cr_changed r" "if cr_changed r = 0 then a' = a else a_gross a' = 0" "fits \<longleftrightarrow> estimateTokensFromHistory (a_hist a') \<le> c"
    by (auto split: if_splits)
qed

lemma front_cut_split:
  assumes "front_cut keep budget xs d = (d', rest)"
  shows "\<exists>dr. xs = dr @ rest \<and> d' = d + sum_list (map snd dr) \<and> (rest = [] \<or> keep - d' \<le> budget)"
  using assms
proof (induction keep budget xs d arbitrary: d' rest rule: front_cut.induct)
  case (2 keep budget x xs d)
  show ?case
  proof (cases "keep - d \<le> budget")
    case False
    with 2 obtain dr where "xs = dr @ rest" "d' = d + snd x + sum_list (map snd dr)" "rest = [] \<or> keep - d' \<le> budget" by fastforce
    then show ?thesis by (intro exI [of _ "x # dr"]) simp
  qed (use 2 in simp)
qed simp

lemma skip_orphans_split:
  "skip_orphans xs d = (d', rest) \<Longrightarrow> \<exists>dr. xs = dr @ rest \<and> d' = d + sum_list (map snd dr)"
proof (induction xs d arbitrary: d' rest rule: skip_orphans.induct)
  case (2 x xs d)
  show ?case
  proof (cases "m_role (fst x) = ToolRole")
    case True
    with 2 obtain dr where "xs = dr @ rest" "d' = d + snd x + sum_list (map snd dr)" by fastforce
    then show ?thesis by (intro exI [of _ "x # dr"]) simp
  qed (use 2 in auto)
qed simp

text \<open>Scaling the costs up to the provider's count keeps a cut sufficient for the estimate.\<close>

lemma scaled_cut:
  fixes F T D S :: int
  assumes "T * S \<le> F * D" "D \<le> T" "T \<le> F" "0 < T"
  shows "T - D \<le> F - S"
proof (rule ccontr)
  assume "\<not> T - D \<le> F - S"
  then have "F - T + D + 1 \<le> S" by simp
  then have "T * (F - T + D + 1) \<le> T * S" using assms(4) by (intro mult_left_mono) auto
  with assms(1) have "T * (F - T + D + 1) \<le> F * D" by simp
  then have "T \<le> (F - T) * (D - T)" by (simp add: algebra_simps)
  moreover have "(F - T) * (D - T) \<le> 0" using assms(2,3) by (simp add: mult_nonneg_nonpos)
  ultimately show False using assms(4) by simp
qed

lemma scaled_sum:
  fixes ts :: "int list"
  assumes "\<forall>t\<in>set ts. 0 \<le> t" "0 < T" "0 \<le> F"
  shows "T * sum_list (map (\<lambda>t. go_div (t * F) T) ts) \<le> F * sum_list ts"
  using assms(1)
proof (induction ts)
  case (Cons t ts)
  have "T * (t * F div T) \<le> t * F" using assms(2) pos_mod_sign [of T "t * F"] by (simp add: minus_mod_eq_mult_div [symmetric])
  then have "T * go_div (t * F) T \<le> F * t" using Cons.prems assms by (simp add: go_div_pos mult.commute)
  with Cons show ?case by (simp add: distrib_left)
qed simp

lemma sum_tokens: "sum_list (map messageTokenCount h) = estimateTokensFromHistory h"
  by (simp add: estimateTokensFromHistory_def)

lemma floor_tokens:
  assumes "floorTokensAtProviderUsage (map messageTokenCount h) (estimateTokensFromHistory h) a = (tok, n)"
    "a_hist a = h" "h \<noteq> []"
  obtains F where "n = F" "estimateTokensFromHistory h \<le> F" "0 < estimateTokensFromHistory h"
    "tok = map (\<lambda>t. go_div (t * F) (estimateTokensFromHistory h)) (map messageTokenCount h)"
proof -
  let ?T = "estimateTokensFromHistory h"
  have T: "0 < ?T" using history_tokens_length [of h] assms(3) by (cases h) auto
  show ?thesis
  proof (cases "estimateContextTokensLocked a - fixedCostTokens a \<le> ?T")
    case True
    then have t: "tok = map messageTokenCount h" "n = ?T" using assms(1) by (auto simp: floorTokensAtProviderUsage_def Let_def)
    have "go_div (t * ?T) ?T = t" if "0 \<le> t" for t using that T by (simp add: go_div_pos)
    then have "tok = map (\<lambda>t. go_div (t * ?T) ?T) (map messageTokenCount h)" by (simp add: t)
    with that [of ?T] T t show ?thesis by simp
  next
    case False
    with assms(1) T that [of "estimateContextTokensLocked a - fixedCostTokens a"] show ?thesis
      by (auto simp: floorTokensAtProviderUsage_def Let_def)
  qed
qed

lemma drop_fits:
  assumes "a_hist a = m # ms" "floorTokensAtProviderUsage (map messageTokenCount (m # ms)) (estimateTokensFromHistory (m # ms)) a = (tok, n)"
    "dropOldestToCeilingLocked tok n c a = (ct, d, a')"
  shows "estimateTokensFromHistory (a_hist a') \<le> c \<or> a_hist a' = [m]" "a_gross a' = 0"
proof -
  let ?T = "estimateTokensFromHistory (m # ms)"
  from floor_tokens [OF assms(2,1)] obtain F where F: "n = F" "?T \<le> F" "0 < ?T"
    "tok = map (\<lambda>t. go_div (t * F) ?T) (map messageTokenCount (m # ms))" by auto
  let ?s = "\<lambda>x. go_div (messageTokenCount x * F) ?T"
  have z: "zip ms (tl tok) = map (\<lambda>x. (x, ?s x)) ms" by (simp add: F(4) zip_map2 comp_def zip_same_conv_map)
  obtain d1 r1 where c1: "front_cut F c (map (\<lambda>x. (x, ?s x)) ms) 0 = (d1, r1)" by fastforce
  obtain d2 r2 where c2: "skip_orphans r1 d1 = (d2, r2)" by fastforce
  have a': "a_hist a' = m # map fst r2" "a_gross a' = 0"
    using assms(1,3) c1 c2 F(1) z by (auto simp: dropOldestToCeilingLocked_def Let_def)
  then show "a_gross a' = 0" by simp
  from front_cut_split [OF c1] obtain dr1 where f: "map (\<lambda>x. (x, ?s x)) ms = dr1 @ r1" "d1 = sum_list (map snd dr1)"
    "r1 = [] \<or> F - d1 \<le> c" by auto
  from skip_orphans_split [OF c2] obtain dr2 where s: "r1 = dr2 @ r2" by auto
  have ms: "ms = map fst dr1 @ map fst r1" using arg_cong [OF f(1), of "map fst"] by (simp add: comp_def)
  have d1: "map snd dr1 = map ?s (map fst dr1)"
  proof -
    have "dr1 = map (\<lambda>x. (x, ?s x)) (take (length dr1) ms)" using f(1) by (metis append_eq_conv_conj take_map)
    then obtain us where "dr1 = map (\<lambda>x. (x, ?s x)) us" by blast
    then show ?thesis by simp
  qed
  have le: "estimateTokensFromHistory (map fst r2) \<le> estimateTokensFromHistory (map fst r1)" by (simp add: s)
  show "estimateTokensFromHistory (a_hist a') \<le> c \<or> a_hist a' = [m]"
  proof (cases "r1 = []")
    case True
    then have "r2 = []" using s by simp
    then show ?thesis using a' by simp
  next
    case False
    let ?D = "estimateTokensFromHistory (map fst dr1)"
    have D: "?D \<le> ?T" by (simp add: ms add_nonneg_nonneg)
    have "?T * sum_list (map (\<lambda>t. go_div (t * F) ?T) (map messageTokenCount (map fst dr1))) \<le> F * ?D"
      unfolding sum_tokens [symmetric] using F(2,3) by (intro scaled_sum) (auto simp: sum_tokens)
    then have "?T * d1 \<le> F * ?D" unfolding f(2) d1 by (simp add: comp_def)
    from scaled_cut [OF this D F(2,3)] have "?T - ?D \<le> F - d1" .
    moreover have "?T - ?D = messageTokenCount m + estimateTokensFromHistory (map fst r1)" by (simp add: ms)
    ultimately show ?thesis using False f(3) le a'(1) by auto
  qed
qed

text \<open>C2: The last resort meets its ceiling. When the estimate of the conversation is over the hard
  ceiling and the fixed cost alone is not, enforcing the ceiling leaves a conversation with which the next turn
  is accepted, or nothing but its first message.\<close>

theorem ceiling_enforced:
  assumes "0 < effectiveMaxTokens a" "\<not> fixedCostExceedsCeiling a"
    "estimateContextTokensLocked a > hard_ceiling a \<Longrightarrow>
      estimateTokensFromHistory (a_hist a) + fixedCostTokens a > hard_ceiling a"
  shows "checkContextLimit (snd (enforceContextCeilingLocked a)) \<or> length (a_hist (snd (enforceContextCeilingLocked a))) \<le> 1"
proof (cases "length (a_hist a) \<le> 1 \<or> estimateContextTokensLocked a \<le> hard_ceiling a")
  case True
  then show ?thesis using assms(1) by (auto simp: enforceContextCeilingLocked_def checkContextLimit_def Let_def)
next
  case False
  then have len: "\<not> length (a_hist a) \<le> 1" and over: "\<not> estimateContextTokensLocked a \<le> hard_ceiling a" by auto
  have hc: "historyCeiling a = hard_ceiling a - fixedCostTokens a" "fixedCostTokens a < hard_ceiling a"
    using assms(1,2) by (auto simp: historyCeiling_def fixedCostExceedsCeiling_def Let_def)
  have est: "historyCeiling a < estimateTokensFromHistory (a_hist a)" using assms(3) over hc(1) by simp
  obtain r fits a1 where sh: "shrinkToolPayloadsToFitLocked (historyCeiling a) a = (r, fits, a1)" by (metis prod_cases3)
  have s1: "same_setup a a1" using shrink_setup [of a "historyCeiling a"] sh by simp
  note g = shrink_gross [OF sh]
  have accepted: "checkContextLimit b" if "same_setup a b" "a_gross b = 0" "estimateTokensFromHistory (a_hist b) \<le> historyCeiling a" for b
    using that same_setupD [OF that(1)] hc by (simp add: checkContextLimit_def estimateContextTokensLocked_def)
  show ?thesis
  proof (cases fits)
    case True
    with g est have "a_gross a1 = 0" by (auto split: if_splits)
    with accepted [OF s1] True g(3) show ?thesis using assms(1) len over by (simp add: enforceContextCeilingLocked_def Let_def sh)
  next
    case False
    with g(3) have big: "historyCeiling a < estimateTokensFromHistory (a_hist a1)" by simp
    have "0 \<le> historyCeiling a" using hc by simp
    with big obtain m ms where h: "a_hist a1 = m # ms" by (cases "a_hist a1") auto
    obtain tok n where t: "floorTokensAtProviderUsage (map messageTokenCount (a_hist a1)) (estimateTokensFromHistory (a_hist a1)) a1 = (tok, n)" by fastforce
    have n: "\<not> n \<le> historyCeiling a" using t big by (auto simp: floorTokensAtProviderUsage_def Let_def split: if_splits)
    obtain ct d a2 where d: "dropOldestToCeilingLocked tok n (historyCeiling a) a1 = (ct, d, a2)" by (metis prod_cases3)
    have s2: "same_setup a a2" using same_setup_trans [OF s1 ceiling_setup [of a1 tok n "historyCeiling a"]] d by simp
    have e: "snd (enforceContextCeilingLocked a) = a2"
      using assms(1) len over False n d t by (simp add: enforceContextCeilingLocked_def Let_def sh sum_tokens)
    from drop_fits [OF h _ d] t h have "estimateTokensFromHistory (a_hist a2) \<le> historyCeiling a \<or> a_hist a2 = [m]" "a_gross a2 = 0" by simp_all
    with accepted [OF s2] show ?thesis unfolding e by auto
  qed
qed

end
