(* ===== verification/Chat_Summary.thy ===== *)
theory Chat_Summary
  imports Chat_Properties
begin

text \<open>
  Full compactions: the summary that lands fits, the transaction around it is always closed, and a session
  restored from its log has the history that was landed.
\<close>

section \<open>A summary fits\<close>

lemma fit_loop_fits: "pairTokens (fit_loop rs b n) \<le> b \<or> fit_loop rs b n = summaryTruncationNote"
proof (induction rs b n rule: fit_loop.induct)
  case (1 rs b n)
  note f = fit_loop.simps [of rs b n]
  show ?case
  proof (cases "pairTokens (concat (take n rs) @ summaryTruncationNote) \<le> b \<or> n - (n div 10 + 1) = n")
    case True
    then show ?thesis by (auto simp: f Let_def)
  next
    case False
    with "1.IH" [OF refl _ refl] have "fit_loop rs b n = fit_loop rs b (n - (n div 10 + 1))" by (simp add: f Let_def)
    with "1.IH" [OF refl _ refl] False show ?thesis by simp
  qed
qed

lemma fit_summary: "0 < effectiveMaxTokens a \<Longrightarrow>
    pairTokens (fitSummaryToWindow s a) \<le> fit_budget a \<or> fitSummaryToWindow s a = summaryTruncationNote"
  using fit_loop_fits by (simp add: fitSummaryToWindow_def Let_def)

lemma checkpoint_tokens: "estimateTokensFromHistory (checkpoint s) = pairTokens s"
  by (simp add: checkpoint_def pairTokens_def)

lemma pairTokens_pos: "0 < pairTokens s"
  using messageTokenCount_pos [of "text_message User (frameCompactedSummary s)"] messageTokenCount_nonneg [of "text_message Assistant s"]
  unfolding pairTokens_def by linarith

lemma emit_estimate [simp]:
  "estimateContextTokensLocked (emit e a) = estimateContextTokensLocked a"
  "estimateContextTokensLocked (emitCompaction l b c r f d a) = estimateContextTokensLocked a"
  "estimateContextTokensLocked (emitCompactionResult l b res d a) = estimateContextTokensLocked a"
proof -
  show e: "estimateContextTokensLocked (emit e a) = estimateContextTokensLocked a" for e a
    by (simp add: estimateContextTokensLocked_def appended_tokens_def fixedCostTokens_def emit_def Let_def)
  have "estimateContextTokensLocked (a\<lparr>a_sticky := t\<rparr>) = estimateContextTokensLocked a" for t
    by (simp add: estimateContextTokensLocked_def appended_tokens_def fixedCostTokens_def Let_def)
  with e show "estimateContextTokensLocked (emitCompaction l b c r f d a) = estimateContextTokensLocked a" for l b c r f d
    by (simp add: emitCompaction_def)
  then show "estimateContextTokensLocked (emitCompactionResult l b res d a) = estimateContextTokensLocked a"
    by (simp add: emitCompactionResult_def)
qed

lemma setup_tx [simp]:
  "same_setup a (emitCompactionTxStart i a') = same_setup a a'" "same_setup a (emitCompactionTxEnd i e a') = same_setup a a'"
  "same_setup a (emitCompactionTxSummary tx a') = same_setup a a'" "same_setup a (emitContextStats a') = same_setup a a'"
  by (simp_all add: emitCompactionTxStart_def emitCompactionTxEnd_def emitCompactionTxSummary_def emitContextStats_def)

lemma room_setup: "same_setup a (shrinkHistoryForSummarizeRetry ins (applyMicroForSummarize a))"
proof -
  have m: "same_setup a (applyMicroForSummarize a)"
    using micro_setup by (simp add: applyMicroForSummarize_def Let_def case_prod_unfold)
  have "same_setup b (shrinkHistoryForSummarizeRetry ins b)" for b
    using fit_setup by (simp add: shrinkHistoryForSummarizeRetry_def Let_def case_prod_unfold)
  with m show ?thesis by (rule same_setup_trans)
qed

lemma retry_setup: "same_setup a (snd (summarize_with_retry env ins a))"
  using room_setup by (simp add: summarize_with_retry_def Let_def split: sum.split)

lemma prune_pre_setup: "same_setup a (snd (snd (snd (pruneToolResultsPreCompact a))))"
proof -
  have "same_setup a (snd (pruneToolResultsLocked cfg (a\<lparr>a_hist := h\<rparr>)))" for cfg h
    using same_setup_trans [OF setup_simps(2) prune_setup] .
  then show ?thesis by (simp add: pruneToolResultsPreCompact_def Let_def case_prod_unfold)
qed

lemma land_accepted:
  assumes "0 < effectiveMaxTokens a"
  shows "checkContextLimit (land_summary i before s a) \<or> a_hist (land_summary i before s a) = checkpoint summaryTruncationNote"
proof (cases "fitSummaryToWindow s a = summaryTruncationNote")
  case False
  let ?s = "fitSummaryToWindow s a" and ?b = "replace_history (checkpoint (fitSummaryToWindow s a)) a"
  have p: "pairTokens ?s \<le> fit_budget a" using fit_summary [OF assms] False by blast
  with pairTokens_pos [of ?s] have b: "fit_budget a = hard_ceiling a - fixedCostTokens a"
    by (auto simp: fit_budget_def hard_ceiling_def Let_def split: if_splits)
  have "estimateContextTokensLocked ?b = pairTokens ?s + fixedCostTokens a"
    using same_setupD(2) [of a "a\<lparr>a_hist := checkpoint ?s, a_generation := a_generation a + 1\<rparr>"]
    by (simp add: replace_history_def estimate_invalidated checkpoint_tokens same_setup_def)
  then have e: "estimateContextTokensLocked ?b \<le> hard_ceiling a" using p b by simp
  have "same_setup a (land_summary i before s a)"
    by (simp add: land_summary_def Let_def replace_history_def)
  moreover have "estimateContextTokensLocked (land_summary i before s a) = estimateContextTokensLocked ?b"
    by (simp add: land_summary_def Let_def emitCompactionTxSummary_def emitCompactionTxEnd_def)
  ultimately show ?thesis using e same_setupD(3) by (simp add: checkContextLimit_def)
qed (simp add: land_summary_def Let_def replace_history_def)

lemma prune_skip_accepted:
  assumes "pruneToolResultsPreCompact a = (True, before, res, a')"
  shows "checkContextLimit a'"
proof -
  let ?m = "effectiveMaxTokens a"
  obtain sc rc h where st: "pruneStaleToolOutput (a_hist a) = (sc, rc, h)" by (metis prod_cases3)
  obtain n a1 where p: "pruneToolResultsLocked (resolve_pruning (cc_pruning (a_cc a))) (a\<lparr>a_hist := h\<rparr>) = (n, a1)" by fastforce
  have sc: "0 \<le> sc" using st by (auto simp: pruneStaleToolOutput_def Let_def split: if_splits)
  define a2 where "a2 = (if sc > 0 then invalidateContextUsageLocked a1 else a1)"
  have m: "0 < ?m" and a': "a' = a2" and ch: "0 < n + sc"
    and pc: "cs_percent (computeContextStatsForMax ?m a2) < effectiveHard (a_thresholds a2)"
    using assms st p by (auto simp: pruneToolResultsPreCompact_def Let_def a2_def split: if_splits)
  have g: "a_gross a2 = 0" using prune_gross [OF p] ch sc by (auto simp: a2_def split: if_splits)
  have s: "same_setup a a2" using prune_pre_setup [of a] assms a' by simp
  let ?H = "effectiveHard (a_thresholds a2)" and ?e = "estimateContextTokensLocked a2"
  have e: "?e = projectedContextTokensLocked a2" using g by (simp add: estimateContextTokensLocked_def projectedContextTokensLocked_def)
  have "go_div (?e * 100) ?m < ?H" using pc m by (simp add: computeContextStatsForMax_def Let_def e)
  then have "?e \<le> go_div (?m * ?H) 100"
  proof (cases "0 \<le> ?e")
    case True
    assume "go_div (?e * 100) ?m < ?H"
    then have "?e * 100 div ?m < ?H" using True m by (simp add: go_div_pos)
    then have "?e * 100 < ?H * ?m" using zdiv_mono1 [of "?H * ?m" "?e * 100" ?m] m by (cases "?H * ?m \<le> ?e * 100") auto
    then show ?thesis using m effectiveHard_pos [of "a_thresholds a2"] by (simp add: go_div_pos mult.commute)
  next
    case False
    have "0 \<le> ?m * ?H" using m effectiveHard_pos [of "a_thresholds a2"] by simp
    then have "0 \<le> go_div (?m * ?H) 100" by (simp add: go_div_pos pos_imp_zdiv_nonneg_iff del: mult_nonneg_nonneg)
    with False show ?thesis by simp
  qed
  then show ?thesis unfolding a' checkContextLimit_def hard_ceiling_def same_setupD(1) [OF s] by simp
qed

text \<open>C14: A local compaction that reports success leaves a conversation that is accepted: the summary
  that lands is cut until the checkpoint fits under the hard ceiling. The only exception is a window so small
  that not even the note of the cut fits.\<close>

theorem compact_lands_under_ceiling:
  assumes "0 < effectiveMaxTokens a" "a_hist a \<noteq> []" "\<not> a_remote a" "explicit \<or> \<not> freshWindowSelected slot a"
    "compactOrdered env ins slot explicit a = (None, a')"
  shows "checkContextLimit a' \<or> a_hist a' = checkpoint summaryTruncationNote"
proof -
  have tx: "checkContextLimit a' \<or> a_hist a' = checkpoint summaryTruncationNote"
    if s: "same_setup a a1" and c: "compact_transaction env ins slot explicit before a1 = (None, a')" for before a1
  proof -
    let ?i = "ce_txid env" and ?b = "emitCompactionTxStart (ce_txid env) a1"
    have sb: "same_setup a ?b" using s by simp
    then have "tryPreferredCompaction env ?i slot explicit ?b = None"
      using assms(3,4) by (auto simp: tryPreferredCompaction_def freshWindowSelected_def same_setup_def)
    moreover obtain r a2 where r: "summarize_with_retry env ins ?b = (r, a2)" by fastforce
    ultimately obtain summary where a': "a' = land_summary ?i before summary a2"
      using c by (auto simp: compact_transaction_def Let_def split: sum.splits)
    have "same_setup a a2" using same_setup_trans [OF sb retry_setup [of ?b env ins]] r by simp
    with land_accepted [of a2 ?i before summary] assms(1) same_setupD(1) show ?thesis unfolding a' by metis
  qed
  show ?thesis
  proof (cases "pc_enabled (cc_pruning (a_cc a))")
    case True
    obtain skip before res a1 where p: "pruneToolResultsPreCompact a = (skip, before, res, a1)" by (metis prod_cases4)
    have s1: "same_setup a a1" using prune_pre_setup [of a] p by simp
    show ?thesis
    proof (cases skip)
      case True
      let ?b = "emitCompactionResult ''tool_result_pruning'' before res ''pruning resolved context pressure; summarize skipped'' a1"
      have "a' = emitContextStats ?b"
        using assms(2,5) p True \<open>pc_enabled _\<close> by (simp add: compactOrdered_def)
      moreover have "same_setup a1 a'" "estimateContextTokensLocked a' = estimateContextTokensLocked a1"
        unfolding calculation by (simp_all, simp add: emitContextStats_def)
      ultimately show ?thesis using prune_skip_accepted [of a before res a1] p True same_setupD [of a1 a'] by (simp add: checkContextLimit_def)
    next
      case False
      with assms(2,5) p \<open>pc_enabled _\<close> tx [OF s1] show ?thesis by (simp add: compactOrdered_def)
    qed
  next
    case False
    with assms(2,5) tx [OF setup_simps(1)] show ?thesis by (simp add: compactOrdered_def)
  qed
qed

section \<open>The log\<close>

definition silent :: "out_event list \<Rightarrow> bool" where
  "silent evs \<longleftrightarrow> (\<forall>e\<in>set evs. case e of ECompact _ _ _ _ _ _ \<Rightarrow> True | EStats _ \<Rightarrow> True | _ \<Rightarrow> False)"

definition silently :: "agent \<Rightarrow> agent \<Rightarrow> bool" where
  "silently a a' \<longleftrightarrow> (\<exists>evs. a_log a' = a_log a @ evs \<and> silent evs)"

lemma silently_refl [simp]: "silently a a" "a_log a' = a_log a \<Longrightarrow> silently a a'"
  by (auto simp: silently_def silent_def)

lemma silently_trans: "silently a b \<Longrightarrow> silently b c \<Longrightarrow> silently a c"
  by (fastforce simp: silently_def silent_def)

lemma silently_result: "silently a b \<Longrightarrow> silently a (emitCompactionResult l s res d b)"
  unfolding silently_def silent_def emitCompactionResult_def emitCompaction_def by fastforce

lemma silently_stats: "silently a b \<Longrightarrow> silently a (emitContextStats b)"
  unfolding silently_def silent_def emitContextStats_def by fastforce

lemma log_passes:
  "a_log (snd (truncateToolResults k cfg a)) = a_log a" "a_log (snd (applyMicroLocked cfg a)) = a_log a"
  "a_log (snd (pruneToolResultsLocked pcfg a)) = a_log a" "a_log (snd (dropOldestToFitLocked b a)) = a_log a"
  "a_log (snd (snd (snd (pruneToolResultsPreCompact a)))) = a_log a"
proof -
  show t: "a_log (snd (truncateToolResults k cfg a)) = a_log a" for k cfg a by (simp add: truncateToolResults_def Let_def)
  show "a_log (snd (applyMicroLocked cfg a)) = a_log a" using t by (simp add: applyMicroLocked_def Let_def case_prod_unfold)
  show p: "a_log (snd (pruneToolResultsLocked pcfg a)) = a_log a" for pcfg a by (simp add: pruneToolResultsLocked_def Let_def)
  show "a_log (snd (dropOldestToFitLocked b a)) = a_log a"
    by (simp add: dropOldestToFitLocked_def Let_def case_prod_unfold split: list.split)
  show "a_log (snd (snd (snd (pruneToolResultsPreCompact a)))) = a_log a"
    by (simp add: pruneToolResultsPreCompact_def Let_def case_prod_unfold p)
qed

lemma log_room: "silently a (shrinkHistoryForSummarizeRetry ins (applyMicroForSummarize a))"
proof -
  have m: "silently a (applyMicroForSummarize a)"
    by (simp add: applyMicroForSummarize_def Let_def case_prod_unfold log_passes silently_result)
  have "silently b (shrinkHistoryForSummarizeRetry ins b)" for b
    by (simp add: shrinkHistoryForSummarizeRetry_def Let_def case_prod_unfold log_passes silently_result)
  with m show ?thesis by (rule silently_trans)
qed

lemma log_retry: "silently a (snd (summarize_with_retry env ins a))"
  using log_room by (simp add: summarize_with_retry_def Let_def split: sum.split)

text \<open>What a transaction writes: its start, reports, then its end, and before it the summary if it succeeded.\<close>

definition tx_events :: "string \<Rightarrow> ask_error option \<Rightarrow> out_event list \<Rightarrow> bool" where
  "tx_events i err evs \<longleftrightarrow>
     (\<exists>qs rs. silent qs \<and> silent rs \<and>
        (case err of
           Some e \<Rightarrow> evs = ETx TxStart (Some (empty_tx i)) # qs @ [ETx TxEnd (Some ((empty_tx i)\<lparr>tx_error := ae_text e\<rparr>))] @ rs
         | None \<Rightarrow> \<exists>tx. tx_id tx = i \<and> evs = ETx TxStart (Some (empty_tx i)) # qs
             @ [ETx TxSummary (Some tx), ETx TxEnd (Some (empty_tx i))] @ rs))"

lemma log_start [simp]: "a_log (emitCompactionTxStart i a) = a_log a @ [ETx TxStart (Some (empty_tx i))]"
  by (simp add: emitCompactionTxStart_def)

lemma empty_tx_id [simp]: "tx_id (empty_tx i) = i" "(empty_tx i)\<lparr>tx_error := []\<rparr> = empty_tx i"
  by (simp_all add: empty_tx_def)

lemma summary_tx_id [simp]: "tx_id (summary_tx i s b a n) = i"
  by (simp add: summary_tx_def)

definition landed :: "string \<Rightarrow> compaction_tx \<Rightarrow> agent \<Rightarrow> agent \<Rightarrow> bool" where
  "landed i tx a a' \<longleftrightarrow> tx_id tx = i \<and> (\<exists>rs. silent rs \<and> a_log a' = a_log a @ [ETx TxSummary (Some tx), ETx TxEnd (Some (empty_tx i))] @ rs)"

lemma landed_cases:
  "\<exists>tx. landed i tx a (land_summary i before s a) \<and> tx_strategy tx = Summarize \<and> tx_start tx = 0
     \<and> tx_summary tx = fitSummaryToWindow s a"
  "\<exists>tx. landed i tx a (compactFreshWindow i a) \<and> tx_strategy tx = FreshWindow \<and> tx_preserve tx = freshWindowPreserveTurns a"
  "compactRemote env i a = Some a' \<Longrightarrow> \<exists>tx. landed i tx a a' \<and> tx_strategy tx = RemoteCompact \<and> tx_replacement tx = a_hist a'
     \<and> a_hist a' \<noteq> [] \<and> (\<forall>m\<in>set (a_hist a'). m_role m \<noteq> System)"
proof -
  let ?s = "fitSummaryToWindow s a"
  show "\<exists>tx. landed i tx a (land_summary i before s a) \<and> tx_strategy tx = Summarize \<and> tx_start tx = 0 \<and> tx_summary tx = ?s"
    by (intro exI [of _ "(summary_tx i Summarize before (replace_history (checkpoint ?s) a) (int (length (a_hist a))))\<lparr>tx_summary := ?s\<rparr>"])
      (simp add: landed_def land_summary_def Let_def emitCompactionTxSummary_def emitCompactionTxEnd_def emitCompaction_def emit_def
        silent_def replace_history_def summary_tx_def empty_tx_def)
  show "\<exists>tx. landed i tx a (compactFreshWindow i a) \<and> tx_strategy tx = FreshWindow \<and> tx_preserve tx = freshWindowPreserveTurns a"
    by (intro exI [of _ "(summary_tx i FreshWindow (computeContextStats a) (replace_history (freshWindowHistoryLocked a) a)
          (int (length (a_hist a))))\<lparr>tx_preserve := freshWindowPreserveTurns a\<rparr>"])
      (simp add: landed_def compactFreshWindow_def Let_def emitCompactionTxSummary_def emitCompactionTxEnd_def emitCompaction_def emit_def
        silent_def replace_history_def summary_tx_def empty_tx_def freshWindowPreserveTurns_def)
  assume r: "compactRemote env i a = Some a'"
  have "\<forall>m\<in>set (boundRemoteCompactReplacement a (providerMessagesToInternal ws)). m_role m \<noteq> System" for ws
    using bound_drop [of a "providerMessagesToInternal ws"] no_system_remote_all [of _ ws] by (metis in_set_dropD)
  with r show "\<exists>tx. landed i tx a a' \<and> tx_strategy tx = RemoteCompact \<and> tx_replacement tx = a_hist a' \<and> a_hist a' \<noteq> []
      \<and> (\<forall>m\<in>set (a_hist a'). m_role m \<noteq> System)"
    by (auto simp: landed_def compactRemote_def Let_def emitCompactionTxSummary_def emitCompactionTxEnd_def emitCompaction_def emit_def
        silent_def replace_history_def summary_tx_def empty_tx_def split: if_splits option.splits)
qed


lemma transaction_landed:
  assumes "compact_transaction env ins slot explicit before a = (None, a')"
  obtains b tx where "silently (emitCompactionTxStart (ce_txid env) a) b" "landed (ce_txid env) tx b a'"
    "tx_strategy tx = Summarize \<and> tx_start tx = 0 \<and> (\<exists>s. tx_summary tx = s \<and> a_hist a' = checkpoint s)
     \<or> tx_strategy tx = FreshWindow \<and> b = emitCompactionTxStart (ce_txid env) a \<and> tx_preserve tx = freshWindowPreserveTurns a
        \<and> a_hist a' = freshWindowHistoryLocked a
     \<or> tx_strategy tx = RemoteCompact \<and> tx_replacement tx = a_hist a' \<and> a_hist a' \<noteq> []
        \<and> (\<forall>m\<in>set (a_hist a'). m_role m \<noteq> System)"
proof -
  let ?i = "ce_txid env" and ?b = "emitCompactionTxStart (ce_txid env) a"
  have fp: "freshWindowPreserveTurns ?b = freshWindowPreserveTurns a" "freshWindowHistoryLocked ?b = freshWindowHistoryLocked a"
    by (simp_all add: emitCompactionTxStart_def freshWindowHistoryLocked_def freshWindowPreserveTurns_def Let_def)
  show ?thesis
  proof (cases "tryPreferredCompaction env ?i slot explicit ?b")
    case (Some a'')
    with assms have a': "a' = a''" by (simp add: compact_transaction_def Let_def)
    consider (remote) "compactRemote env ?i ?b = Some a'" | (fresh) "a' = compactFreshWindow ?i ?b"
    proof (cases "if a_remote ?b then compactRemote env ?i ?b else None")
      case None
      with Some show ?thesis using fresh unfolding tryPreferredCompaction_def a' by (simp split: if_splits)
    next
      case (Some c)
      with \<open>tryPreferredCompaction env ?i slot explicit ?b = Some a''\<close> show ?thesis
        using remote unfolding tryPreferredCompaction_def a' by (simp split: if_splits)
    qed
    then show ?thesis
    proof cases
      case remote
      with landed_cases(3) [OF remote] that [of ?b] show ?thesis by auto
    next
      case fresh
      obtain tx where tx: "landed ?i tx ?b a'" "tx_strategy tx = FreshWindow" "tx_preserve tx = freshWindowPreserveTurns ?b"
        using landed_cases(2) fresh by blast
      have "a_hist a' = freshWindowHistoryLocked a"
        by (simp add: fresh compactFreshWindow_def Let_def replace_history_def fp)
      with tx fp(1) that [of ?b tx] show ?thesis by simp
    qed
  next
    case None
    obtain r b where r: "summarize_with_retry env ins ?b = (r, b)" by fastforce
    with assms None obtain s where a': "a' = land_summary ?i before s b"
      by (auto simp: compact_transaction_def Let_def split: sum.splits)
    obtain tx where tx: "landed ?i tx b a'" "tx_strategy tx = Summarize" "tx_start tx = 0" "tx_summary tx = fitSummaryToWindow s b"
      using landed_cases(1) a' by blast
    have "a_hist a' = checkpoint (fitSummaryToWindow s b)" by (simp add: a' land_summary_def Let_def replace_history_def)
    with tx that [of b tx] log_retry [of ?b env ins] r show ?thesis by auto
  qed
qed

theorem transaction_log:
  assumes "compact_transaction env ins slot explicit before a = (err, a')"
  shows "\<exists>evs. a_log a' = a_log a @ evs \<and> tx_events (ce_txid env) err evs"
proof (cases err)
  case None
  with assms obtain b tx where b: "silently (emitCompactionTxStart (ce_txid env) a) b" "landed (ce_txid env) tx b a'"
    using transaction_landed by blast
  then obtain qs rs where "a_log b = a_log a @ ETx TxStart (Some (empty_tx (ce_txid env))) # qs" "silent qs" "silent rs"
    "a_log a' = a_log b @ [ETx TxSummary (Some tx), ETx TxEnd (Some (empty_tx (ce_txid env)))] @ rs" "tx_id tx = ce_txid env"
    by (auto simp: silently_def landed_def)
  with None show ?thesis unfolding tx_events_def by fastforce
next
  case (Some e)
  let ?b = "emitCompactionTxStart (ce_txid env) a"
  obtain r b where r: "summarize_with_retry env ins ?b = (r, b)" by fastforce
  with assms Some have a': "a' = emitCompactionTxEnd (ce_txid env) (ae_text e) b"
    by (auto simp: compact_transaction_def Let_def split: option.splits sum.splits)
  from log_retry [of ?b env ins] r obtain qs where "a_log b = a_log a @ ETx TxStart (Some (empty_tx (ce_txid env))) # qs" "silent qs"
    by (auto simp: silently_def)
  with Some show ?thesis unfolding tx_events_def a' by (fastforce simp: emitCompactionTxEnd_def silent_def)
qed

section \<open>Interrupted compactions\<close>

lemma orphan_scan_append: "orphan_scan (xs @ ys) s = orphan_scan ys (orphan_scan xs s)"
  by (induction xs s rule: orphan_scan.induct) auto

lemma orphan_scan_silent: "silent evs \<Longrightarrow> orphan_scan evs s = s"
proof (induction evs)
  case (Cons e evs)
  then show ?case by (cases e) (auto simp: silent_def)
qed simp

definition starts :: "string \<Rightarrow> out_event \<Rightarrow> bool" where
  "starts i e \<longleftrightarrow> (\<exists>tx. e = ETx TxStart (Some tx) \<and> tx_id tx = i)"

definition ends :: "string \<Rightarrow> out_event \<Rightarrow> bool" where
  "ends i e \<longleftrightarrow> (\<exists>tx. e = ETx TxEnd (Some tx) \<and> tx_id tx = i)"

text \<open>The last event of an open transaction is a start.\<close>

definition in_flight :: "string \<Rightarrow> out_event list \<Rightarrow> bool" where
  "in_flight i evs \<longleftrightarrow> (\<exists>xs e ys. evs = xs @ e # ys \<and> starts i e \<and> \<not> list_ex (ends i) ys)"

lemma in_flight_snoc:
  "in_flight i (evs @ [e]) \<longleftrightarrow> starts i e \<or> in_flight i evs \<and> \<not> ends i e"
proof
  assume "in_flight i (evs @ [e])"
  then obtain xs f ys where f: "evs @ [e] = xs @ f # ys" "starts i f" "\<not> list_ex (ends i) ys" by (auto simp: in_flight_def)
  show "starts i e \<or> in_flight i evs \<and> \<not> ends i e"
  proof (cases ys rule: rev_cases)
    case (snoc ys' g)
    with f have "evs = xs @ f # ys'" "e = g" by auto
    with f snoc show ?thesis by (auto simp: in_flight_def)
  qed (use f in auto)
next
  assume "starts i e \<or> in_flight i evs \<and> \<not> ends i e"
  then show "in_flight i (evs @ [e])"
  proof
    assume "in_flight i evs \<and> \<not> ends i e"
    then obtain xs f ys where "evs = xs @ f # ys" "starts i f" "\<not> list_ex (ends i) (ys @ [e])" by (auto simp: in_flight_def)
    then show ?thesis unfolding in_flight_def by (intro exI [of _ xs] exI [of _ f] exI [of _ "ys @ [e]"]) simp
  qed (fastforce simp: in_flight_def)
qed

lemma orphan_scan_spec:
  "set (fst (orphan_scan evs ([], []))) = {i. i \<noteq> [] \<and> in_flight i evs}
   \<and> set (fst (orphan_scan evs ([], []))) \<subseteq> set (snd (orphan_scan evs ([], [])))"
proof (induction evs rule: rev_induct)
  case Nil
  then show ?case by (simp add: in_flight_def)
next
  case (snoc e evs)
  obtain opened order where s: "orphan_scan evs ([], []) = (opened, order)" by fastforce
  have IH: "set opened = {i. i \<noteq> [] \<and> in_flight i evs}" "set opened \<subseteq> set order" using snoc s by auto
  show ?case
  proof (cases "\<exists>k tx. e = ETx k (Some tx)")
    case True
    then obtain k tx where e: "e = ETx k (Some tx)" by blast
    show ?thesis using IH unfolding orphan_scan_append s e by (cases k) (auto simp: in_flight_snoc starts_def ends_def)
  next
    case False
    then have "orphan_scan [e] s' = s'" for s'
    proof (cases e)
      case (ETx k t)
      with False show ?thesis by (cases t) auto
    qed simp_all
    with False IH s show ?thesis by (auto simp: orphan_scan_append in_flight_snoc starts_def ends_def)
  qed
qed

lemma orphans: "set (FindOrphanedCompactions evs) = {i. i \<noteq> [] \<and> in_flight i evs}"
proof -
  obtain opened order where "orphan_scan evs ([], []) = (opened, order)" by fastforce
  with orphan_scan_spec [of evs] show ?thesis by (auto simp: FindOrphanedCompactions_def)
qed

lemma in_flight_silent: "silent ys \<Longrightarrow> in_flight i (xs @ ys) = in_flight i xs"
proof (induction ys rule: rev_induct)
  case (snoc y ys)
  have "\<not> starts i y" "\<not> ends i y" "silent ys" using snoc.prems by (auto simp: silent_def starts_def ends_def)
  with snoc.IH show ?case by (simp add: in_flight_snoc flip: append_assoc)
qed simp

lemma in_flight_tx: "tx_events j err evs \<Longrightarrow> in_flight i (xs @ evs) \<Longrightarrow> in_flight i xs"
proof -
  assume "tx_events j err evs" and f: "in_flight i (xs @ evs)"
  then obtain qs mid last rs where q: "silent qs" "silent rs" "ends j last" "list_all (\<lambda>e. \<not> starts i e \<and> \<not> ends i e) mid"
    "evs = (ETx TxStart (Some (empty_tx j)) # qs @ mid) @ [last] @ rs" "\<not> starts i last" "length mid \<le> 1"
    unfolding tx_events_def
  proof (cases err, goal_cases)
    case 1
    then obtain qs rs tx where t: "silent qs" "silent rs" "tx_id tx = j"
      "evs = ETx TxStart (Some (empty_tx j)) # qs @ [ETx TxSummary (Some tx), ETx TxEnd (Some (empty_tx j))] @ rs" by auto
    show ?case by (rule 1(1) [of qs rs "ETx TxEnd (Some (empty_tx j))" "[ETx TxSummary (Some tx)]"])
      (use t in \<open>auto simp: starts_def ends_def\<close>)
  next
    case (2 e)
    then obtain qs rs where t: "silent qs" "silent rs"
      "evs = ETx TxStart (Some (empty_tx j)) # qs @ [ETx TxEnd (Some ((empty_tx j)\<lparr>tx_error := ae_text e\<rparr>))] @ rs" by auto
    show ?case by (rule 2(1) [of qs rs "ETx TxEnd (Some ((empty_tx j)\<lparr>tx_error := ae_text e\<rparr>))" "[]"])
      (use t in \<open>auto simp: starts_def ends_def empty_tx_def\<close>)
  qed
  have "in_flight i ((xs @ ETx TxStart (Some (empty_tx j)) # qs @ mid) @ [last])"
    using f in_flight_silent [OF q(2), of i "(xs @ ETx TxStart (Some (empty_tx j)) # qs @ mid) @ [last]"] q(5) by simp
  then have n: "\<not> ends i last" and g: "in_flight i (((xs @ [ETx TxStart (Some (empty_tx j))]) @ qs) @ mid)"
    using q(6) by (simp_all only: in_flight_snoc) (auto simp: append_assoc)
  have "j \<noteq> i" using n q(3) by (auto simp: ends_def)
  have "in_flight i ((xs @ [ETx TxStart (Some (empty_tx j))]) @ qs)"
    using g q(4,7) by (cases mid) (auto simp: in_flight_snoc simp flip: append_assoc)
  then have "in_flight i (xs @ [ETx TxStart (Some (empty_tx j))])" using in_flight_silent [OF q(1)] by blast
  with \<open>j \<noteq> i\<close> show ?thesis by (auto simp: in_flight_snoc starts_def)
qed

lemma compact_ordered_log:
  "\<exists>evs. a_log (snd (compactOrdered env ins slot ex a)) = a_log a @ evs \<and> (silent evs \<or> (\<exists>err. tx_events (ce_txid env) err evs))"
proof -
  have tx: "\<exists>evs. a_log (snd (compact_transaction env ins slot ex before b)) = a_log b @ evs \<and> (\<exists>err. tx_events (ce_txid env) err evs)" for before b
    using transaction_log [of env ins slot ex before b] by (metis prod.collapse)
  obtain skip before res b where p: "pruneToolResultsPreCompact a = (skip, before, res, b)" by (metis prod_cases4)
  have b: "a_log b = a_log a" using log_passes(5) [of a] p by simp
  show ?thesis
  proof (cases "a_hist a = []")
    case True
    then show ?thesis by (auto simp: compactOrdered_def silent_def)
  next
    case False
    show ?thesis
    proof (cases "pc_enabled (cc_pruning (a_cc a)) \<and> skip")
      case True
      have "silently a (emitContextStats (emitCompactionResult ''tool_result_pruning'' before res
              ''pruning resolved context pressure; summarize skipped'' b))"
        using b by (intro silently_stats silently_result) simp
      with True False p show ?thesis by (auto simp: compactOrdered_def silently_def)
    next
      case no: False
      have "\<exists>before c. snd (compactOrdered env ins slot ex a) = snd (compact_transaction env ins slot ex before c) \<and> a_log c = a_log a"
        using no False p b by (cases "pc_enabled (cc_pruning (a_cc a))") (auto simp: compactOrdered_def)
      with tx show ?thesis by metis
    qed
  qed
qed

text \<open>C15: The log answers whether a compaction was interrupted. The transactions reported as interrupted
  are exactly those with a start after which no end follows, and a compaction that returns, whichever way it
  went and whether it failed or not, adds none.\<close>

theorem interrupted_compactions:
  "set (FindOrphanedCompactions evs) = {i. i \<noteq> [] \<and> in_flight i evs} \<and>
   set (FindOrphanedCompactions (a_log (snd (compactOrdered env ins slot ex a)))) \<subseteq> set (FindOrphanedCompactions (a_log a))"
proof -
  obtain new where l: "a_log (snd (compactOrdered env ins slot ex a)) = a_log a @ new"
    "silent new \<or> (\<exists>err. tx_events (ce_txid env) err new)"
    using compact_ordered_log by blast
  have "in_flight i (a_log a @ new) \<Longrightarrow> in_flight i (a_log a)" for i
    using l(2) in_flight_silent in_flight_tx by blast
  with l(1) orphans show ?thesis by auto
qed

section \<open>Restoring\<close>

lemma replay_silent: "silent evs \<Longrightarrow> fold handleEvent evs b = b"
proof (induction evs arbitrary: b)
  case (Cons e evs)
  then show ?case by (cases e) (auto simp: silent_def)
qed simp

lemma flush_twice [simp]: "hb_flush (hb_flush b) = hb_flush b" "snd (hb_flush b) = None"
  by (auto simp: hb_flush_def split: prod.split option.split)

lemma turn_scan_shift:
  "m_role s \<noteq> User \<Longrightarrow> turn_scan p k (ms @ [s]) = map_option Suc (turn_scan p k ms)"
  by (induction p k ms rule: turn_scan.induct) auto

lemma skip_shift: "t \<noteq> [] \<Longrightarrow> m_role (hd t) = User \<Longrightarrow> skip_tools_back (s # t) (Suc b) = Suc (skip_tools_back t b)"
  by (induction t b rule: skip_tools_back.induct) (auto simp: hd_conv_nth)

lemma skip_pos: "1 \<le> b \<Longrightarrow> 1 \<le> skip_tools_back t b"
  by (induction t b rule: skip_tools_back.induct) auto

lemma widen_shift: "t \<noteq> [] \<Longrightarrow> m_role (hd t) = User \<Longrightarrow> widenBoundaryForChains (s # t) (Suc b) = Suc (widenBoundaryForChains t b)"
proof (induction t b rule: widenBoundaryForChains.induct)
  case (1 t b)
  have hd: "m_role (t ! 0) = User" using 1 by (simp add: hd_conv_nth)
  note w = widenBoundaryForChains.simps [of "s # t" "Suc b"] widenBoundaryForChains.simps [of t b]
  consider "b = 0" | "b = 1" | "1 < b" "m_role (t ! (b - 1)) = ToolRole"
    | "1 < b" "m_role (t ! (b - 1)) \<noteq> ToolRole" "m_role (t ! (b - 1)) = Assistant \<and> m_calls (t ! (b - 1)) \<noteq> []"
    | "1 < b" "m_role (t ! (b - 1)) \<noteq> ToolRole" "\<not> (m_role (t ! (b - 1)) = Assistant \<and> m_calls (t ! (b - 1)) \<noteq> [])"
    by linarith
  then show ?case
  proof cases
    case 3
    let ?c = "skip_tools_back t (b - 1)"
    have c: "1 \<le> ?c" using skip_pos [of "b - 1" t] 3(1) by simp
    have sk: "skip_tools_back (s # t) b = Suc ?c" using skip_shift [of t s "b - 1"] 1 3(1) by simp
    have st: "(if Suc ?c > 1 \<and> m_role ((s # t) ! (Suc ?c - 1)) = Assistant then Suc ?c - 1 else Suc ?c)
        = Suc (if ?c > 1 \<and> m_role (t ! (?c - 1)) = Assistant then ?c - 1 else ?c)"
      using c hd by (cases "?c = 1") (auto simp: nth_Cons')
    have "widenBoundaryForChains (s # t) (Suc b) = widenBoundaryForChains (s # t)
        (if Suc ?c > 1 \<and> m_role ((s # t) ! (Suc ?c - 1)) = Assistant then Suc ?c - 1 else Suc ?c)"
      using 3 sk unfolding w(1) Let_def by (simp add: nth_Cons')
    then have "widenBoundaryForChains (s # t) (Suc b)
        = widenBoundaryForChains (s # t) (Suc (if ?c > 1 \<and> m_role (t ! (?c - 1)) = Assistant then ?c - 1 else ?c))"
      unfolding st .
    moreover have "widenBoundaryForChains t b = widenBoundaryForChains t (if ?c > 1 \<and> m_role (t ! (?c - 1)) = Assistant then ?c - 1 else ?c)"
      using 3 unfolding w(2) Let_def by simp
    ultimately show ?thesis using "1.IH"(1) [OF 3(1) refl 3(2) refl] 1 by simp
  next
    case 4
    have "widenBoundaryForChains (s # t) (Suc b) = widenBoundaryForChains (s # t) (Suc (b - 1))"
      using 4 unfolding w(1) Let_def by (simp add: nth_Cons')
    moreover have "widenBoundaryForChains t b = widenBoundaryForChains t (b - 1)" using 4 unfolding w(2) Let_def by simp
    ultimately show ?thesis using "1.IH"(2) [OF 4(1) refl 4(2,3)] 1 by simp
  next
    case 5
    then show ?thesis unfolding w Let_def by (auto simp: nth_Cons')
  qed (use hd w in \<open>simp_all add: Let_def\<close>)
qed

lemma boundary_shift:
  assumes "t \<noteq> []" "m_role (hd t) = User" "m_role s = System"
  shows "findCompressionBoundary (s # t) p = Suc (findCompressionBoundary t p)"
  using turn_scan_shift [of s p 0 "rev t"] assms widen_shift [OF assms(1,2), of s]
  by (simp add: findCompressionBoundary_def split: option.split)


end
