(* ===== verification/Chat_Promises.thy ===== *)
theory Chat_Promises
  imports Chat_Summary
begin

text \<open>
  The promises of compaction seen from outside: the requests that are sent, the passes without a model in any
  order, the size of a pruned result; concrete conversations; and the places where a promise fails.
\<close>

section \<open>Requests\<close>


text \<open>The passes that call no model.\<close>

datatype pass = PElision int bool | PSelective | PMicro int bool | PPrune prune_config | PFit int
  | PCeiling bool compression_cause | PTruncated int

fun run_pass :: "pass \<Rightarrow> agent \<Rightarrow> agent" where
  "run_pass (PElision now force) a = snd (compressToolElision now force a)"
| "run_pass PSelective a = snd (compressSelective a)"
| "run_pass (PMicro now force) a = snd (snd (microCompactForced now force a))"
| "run_pass (PPrune cfg) a = snd (pruneToolResultsLocked cfg a)"
| "run_pass (PFit budget) a = snd (dropOldestToFitLocked budget a)"
| "run_pass (PCeiling canceled cause) a = enforceContextCeilingUnlessCanceled canceled cause a"
| "run_pass (PTruncated now) a = maybeCompressAfterLengthTruncation now a"

context history_invariant
begin

lemma passes: "P (a_hist a) \<Longrightarrow> P (a_hist (fold run_pass ps a))"
proof (induction ps arbitrary: a)
  case (Cons p ps)
  have "P (a_hist (run_pass p a))"
    using Cons.prems by (cases p) (simp_all add: elision selective micro prune fit enforce truncation)
  with Cons.IH show ?case by simp
qed simp

end


section \<open>Pruned results\<close>

lemma resolved:
  assumes "pc_head cfg \<le> max_int div 4" "pc_tail cfg \<le> max_int div 4"
  shows "0 < pc_head (resolve_pruning cfg)" "0 < pc_tail (resolve_pruning cfg)"
    "pc_head (resolve_pruning cfg) + 39 + pc_tail (resolve_pruning cfg) \<le> pc_threshold (resolve_pruning cfg)"
proof -
  have m: "rune_count PruneMarker = 39" by code_simp
  have w: "wrap64 (wrap64 (h + 39) + t) = h + 39 + t" if "0 < h" "0 < t" "h \<le> max_int div 4" "t \<le> max_int div 4" for h t
    using that by (simp add: wrap64_id max_int_def)
  let ?h = "if pc_head cfg \<le> 0 then 4096 else pc_head cfg" and ?t = "if pc_tail cfg \<le> 0 then 1024 else pc_tail cfg"
  have "wrap64 (wrap64 (?h + 39) + ?t) = ?h + 39 + ?t"
    using assms by (intro w) (simp_all add: max_int_def)
  then show "0 < pc_head (resolve_pruning cfg)" "0 < pc_tail (resolve_pruning cfg)"
    "pc_head (resolve_pruning cfg) + 39 + pc_tail (resolve_pruning cfg) \<le> pc_threshold (resolve_pruning cfg)"
    using m by (simp_all add: resolve_pruning_def Let_def DefaultToolResultPruningConfig_def split: if_splits)
qed

lemma rune_text_full: "r \<in> set (runes s) \<Longrightarrow> full_rune (rune_text r)"
  using runes_full [of r s] full_replacement(1) by (auto simp: rune_text_def replacement_rune_def bytes_def)

text \<open>A pruned tool result is no longer than the threshold of its configuration and shorter than what
  it replaces, so pruning again changes nothing. It starts with the first characters of the result and ends
  with the last ones, in the numbers configured.\<close>

theorem pruned_result_bounded:
  assumes "pc_head cfg \<le> max_int div 4" "pc_tail cfg \<le> max_int div 4"
    "pruneToolResultContent s (resolve_pruning cfg) = Some s'"
  shows "int (rune_count s') \<le> pc_threshold (resolve_pruning cfg) \<and> rune_count s' < rune_count s \<and>
    pruneToolResultContent s' (resolve_pruning cfg) = None \<and>
    (\<exists>mid. s' = concat (take (nat (pc_head (resolve_pruning cfg))) (map rune_text (runes s))) @ mid
      @ concat (drop (length (runes s) - nat (pc_tail (resolve_pruning cfg))) (map rune_text (runes s))))"
proof -
  let ?c = "resolve_pruning cfg" and ?rs = "map rune_text (runes s)"
  let ?h = "nat (pc_head ?c)" and ?t = "nat (pc_tail ?c)" and ?n = "length (runes s)"
  note r = resolved [OF assms(1,2)]
  have n: "pc_threshold ?c < int ?n" using assms(3) by (auto simp: pruneToolResultContent_def Let_def split: if_splits)
  have m: "runes PruneMarker = map (\<lambda>c. [c]) PruneMarker" "length PruneMarker = 39" "list_all (\<lambda>c. full_rune [c]) PruneMarker"
    by code_simp+
  have ht: "?h + ?t < ?n" "int ?h = pc_head ?c" "int ?t = pc_tail ?c" using r n by auto
  have s': "s' = concat (take ?h ?rs) @ PruneMarker @ concat (drop (?n - ?t) ?rs)"
    using assms(3) r n by (auto simp: pruneToolResultContent_def Let_def nat_diff_distrib split: if_splits)
  have pm: "PruneMarker = concat (map (\<lambda>c. [c]) PruneMarker)" by simp
  let ?l = "take ?h ?rs @ map (\<lambda>c. [c]) PruneMarker @ drop (?n - ?t) ?rs"
  have "\<forall>x\<in>set ?l. full_rune x"
    using m(3) rune_text_full by (auto simp: list_all_iff dest!: in_set_takeD in_set_dropD)
  from runes_concat [OF this] have "runes s' = ?l" unfolding s' by (subst pm) simp
  then have len: "int (rune_count s') = pc_head ?c + 39 + pc_tail ?c"
    unfolding rune_count_def using ht m(2) by simp
  have "pruneToolResultContent s' ?c = None"
    using len r(3) by (simp add: pruneToolResultContent_def Let_def rune_count_def)
  with len r(3) n s' show ?thesis by (auto simp: rune_count_def)
qed

end
