(* ===== verification/Chat_Findings.thy ===== *)
theory Chat_Findings
  imports Chat_Promises
begin

text \<open>
  Concrete conversations: the theorems on compaction applied to data, and the places where the code does not
  do what it promises.
\<close>

section \<open>Conversations\<close>

definition demo_cc :: "int \<Rightarrow> compress_config" where
  "demo_cc window = \<lparr>cc_maxTokens = window, cc_soft = 0, cc_hard = 0, cc_softStrategy = NoStrategy,
     cc_hardStrategy = NoStrategy, cc_disableGate = False, cc_onContextError = True, cc_onErrorStrategy = NoStrategy,
     cc_micro = DefaultMicroCompactionConfig, cc_pruning = \<lparr>pc_enabled = False, pc_threshold = 0, pc_head = 0, pc_tail = 0\<rparr>,
     cc_preserve = 0, cc_remoteBudget = 0, cc_freshEnabled = False, cc_freshPreserve = 0\<rparr>"

definition demo_agent :: "int \<Rightarrow> message list \<Rightarrow> agent" where
  "demo_agent window h = \<lparr>a_cc = demo_cc window, a_prompt = ''p'', a_schemaCost = 10, a_modelWindow = 0, a_window = 0,
     a_remote = False, a_hist = h, a_gross = 0, a_usageOut = 0, a_usageLen = 0, a_warm = False, a_turnEnd = None,
     a_roundAct = None, a_stopLength = False, a_generation = 0, a_sticky = [], a_log = []\<rparr>"

definition demo_env :: chat_env where
  "demo_env = \<lparr>ce_now = 0, ce_txid = ''cx-1'',
     ce_stream = (\<lambda>n _. if n = 0 then Inl \<lparr>ae_overflow = True, ae_text = []\<rparr> else Inr ''a summary''),
     ce_remote = (\<lambda>_. None)\<rparr>"

definition demo_sys :: message where "demo_sys = text_message System ''p''"
definition demo_user :: message where "demo_user = text_message User ''fix it''"
definition demo_ask :: message where
  "demo_ask = (text_message Assistant [])\<lparr>m_calls := [\<lparr>tc_id = ''c1'', tc_name = ''bash'', tc_args = ''{}''\<rparr>]\<rparr>"
definition demo_result :: "string \<Rightarrow> message" where
  "demo_result c = (text_message ToolRole c)\<lparr>m_callID := ''c1'', m_toolName := ''bash''\<rparr>"
definition demo_answer :: message where "demo_answer = text_message Assistant ''done''"

definition demo_chat :: "message list" where
  "demo_chat = [demo_sys, demo_user, demo_ask, demo_result ''ok'', demo_user, demo_answer]"

lemmas demo_defs = demo_cc_def demo_agent_def demo_env_def demo_sys_def demo_user_def demo_ask_def demo_result_def
  demo_answer_def demo_chat_def text_message_def

lemma demo_simps [simp]:
  "a_hist (demo_agent w h) = h" "effectiveMaxTokens (demo_agent w h) = w" "a_remote (demo_agent w h) = False"
  "a_log (demo_agent w h) = []" "a_cc (demo_agent w h) = demo_cc w"
  by (simp_all add: demo_agent_def effectiveMaxTokens_def demo_cc_def)

lemma demo_paired: "paired demo_chat" "headed demo_chat"
  by code_simp+

lemma demo_remote: "remote_ok Q demo_env"
  by (simp add: remote_ok_def demo_env_def)



section \<open>Counting\<close>

text \<open>A text of ASCII characters is counted by its length.\<close>

definition ascii :: "string \<Rightarrow> bool" where "ascii s \<longleftrightarrow> list_all (\<lambda>c. byte c < 128) s"

lemma ascii_tokens:
  assumes "ascii s"
  shows "estimateTokens s = int (length s * 10 div 33)"
proof -
  have "runes s = map (\<lambda>c. [c]) s" using assms
  proof (induction s)
    case (Cons c s)
    then have "byte c < 128" "runes s = map (\<lambda>c. [c]) s" by (simp_all add: ascii_def)
    with runes_Cons_full [OF full_ascii, of c s] show ?case by simp
  qed simp
  moreover have "map rune_code (map (\<lambda>c. [c]) s) = map byte s" using assms by (induction s) (simp_all add: ascii_def)
  ultimately have m: "map rune_code (runes s) = map byte s" by simp
  have "filter is_cjk (map byte s) = []" "filter (\<lambda>r. \<not> is_cjk r \<and> r < 128) (map byte s) = map byte s"
    using assms by (induction s) (simp_all add: ascii_def is_cjk_def)
  then show ?thesis unfolding estimateTokens_def Let_def m by (simp add: asciiCharsPerTokenX10_def)
qed

lemma ascii_x [simp]: "estimateTokens (replicate n (CHR ''x'')) = int (n * 10 div 33)"
  by (subst ascii_tokens) (simp_all add: ascii_def list_all_iff)

lemmas counting = messageTokenCount_def messageOverheadTokens_def toolCallOverheadTokens_def ascii_tokens ascii_def

lemma demo_fixed: "fixedCostTokens (demo_agent w h) = 10"
  by (simp add: fixedCostTokens_def demo_agent_def counting)

lemma demo_thresholds: "a_thresholds (demo_agent w h) = \<lparr>th_soft = 0, th_hard = 0, th_softStrategy = Micro, th_hardStrategy = Summarize\<rparr>"
  by (simp add: resolveThresholds_def demo_cc_def)

lemma demo_hard: "hard_ceiling (demo_agent w h) = go_div (w * 95) 100"
  unfolding hard_ceiling_def demo_thresholds by (simp add: effectiveHard_def DefaultHardPercent_def)

lemma demo_estimate: "estimateContextTokensLocked (demo_agent w h) = estimateTokensFromHistory h + 10"
  unfolding estimateContextTokensLocked_def demo_fixed by (simp add: demo_agent_def)

lemma demo_chat_tokens: "estimateTokensFromHistory demo_chat = 32"
  by (simp add: demo_defs counting)

theorem ceiling_enforced_witness:
  "checkContextLimit (snd (enforceContextCeilingLocked (demo_agent 40 demo_chat)))
   \<or> length (a_hist (snd (enforceContextCeilingLocked (demo_agent 40 demo_chat)))) \<le> 1"
  by (rule ceiling_enforced)
    (simp_all add: fixedCostExceedsCeiling_def demo_fixed demo_hard demo_estimate demo_chat_tokens go_div_def)

lemma demo_summary: "\<exists>s. summarizeHistory demo_env (Suc 0) a = Inr s"
proof -
  have "trim_space ''a summary'' \<noteq> []" by code_simp
  then show ?thesis by (simp add: summarizeHistory_def demo_env_def Let_def)
qed

lemma demo_transaction: "a_remote a = False \<Longrightarrow> fst (compact_transaction demo_env ins slot True before a) = None"
proof -
  let ?b = "emitCompactionTxStart (ce_txid demo_env) a"
  assume "a_remote a = False"
  then have "a_remote ?b = False" by (simp add: emitCompactionTxStart_def emit_def)
  then have "tryPreferredCompaction demo_env i slot True ?b = None" for i by (simp add: tryPreferredCompaction_def)
  moreover have "\<exists>s. fst (summarize_with_retry demo_env ins ?b) = Inr s"
    using demo_summary by (auto simp: summarize_with_retry_def isContextLengthError_def demo_env_def Let_def summarizeHistory_def split: sum.splits if_splits)
  ultimately show ?thesis by (auto simp: compact_transaction_def Let_def split: prod.split)
qed

lemma demo_compacts: "h \<noteq> [] \<Longrightarrow> fst (compactOrdered demo_env ins Summarize True (demo_agent w h)) = None"
proof -
  have "\<not> pc_enabled (cc_pruning (demo_cc w))" by (simp add: demo_cc_def)
  then show "h \<noteq> [] \<Longrightarrow> ?thesis" by (simp add: compactOrdered_def demo_transaction)
qed

theorem compact_lands_under_ceiling_witness:
  "\<exists>a'. compactOrdered demo_env 100 Summarize True (demo_agent 4000 demo_chat) = (None, a') \<and>
     (checkContextLimit a' \<or> a_hist a' = checkpoint summaryTruncationNote)"
proof -
  have ne: "demo_chat \<noteq> []" by (simp add: demo_chat_def)
  obtain r a' where c: "compactOrdered demo_env 100 Summarize True (demo_agent 4000 demo_chat) = (r, a')" by fastforce
  have "r = None" using c demo_compacts [OF ne, of 100 4000] by simp
  with compact_lands_under_ceiling [of "demo_agent 4000 demo_chat" True Summarize demo_env 100 a'] c ne
  show ?thesis by simp
qed

text \<open>A log whose replay is the conversation without its system message, compacted once.\<close>

definition demo_log :: "out_event list" where
  "demo_log = [EContent User ''fix it'' False, EContent Assistant ''done'' False, EEnd]"

definition logged_agent :: agent where
  "logged_agent = (demo_agent 4000 (demo_sys # EventsToHistory demo_log))\<lparr>a_log := demo_log\<rparr>"


theorem pruned_result_bounded_witness:
  "\<exists>s'. pruneToolResultContent (replicate 60 (CHR ''x''))
       (resolve_pruning \<lparr>pc_enabled = True, pc_threshold = 50, pc_head = 3, pc_tail = 4\<rparr>) = Some s' \<and> rune_count s' < 60"
proof -
  let ?c = "\<lparr>pc_enabled = True, pc_threshold = 50, pc_head = 3, pc_tail = 4\<rparr>"
  have n: "rune_count (replicate 60 (CHR ''x'')) = 60" by code_simp
  have r: "resolve_pruning ?c = ?c" by code_simp
  then obtain s' where s: "pruneToolResultContent (replicate 60 (CHR ''x'')) (resolve_pruning ?c) = Some s'"
    using n by (auto simp: pruneToolResultContent_def rune_count_def Let_def)
  with pruned_result_bounded [OF _ _ s] n show ?thesis by (simp add: max_int_def)
qed

section \<open>Where promises fail\<close>

text \<open>\<open>compressSelective\<close> keeps the last two turns, but when the user has spoken only once it keeps none: the
  boundary stays at the end of the conversation and the request itself is dropped.\<close>

lemma selective_forgets_the_request:
  "a_hist (snd (compressSelective (demo_agent 4000 [demo_sys, demo_user, demo_answer]))) = [demo_sys]"
  by (simp add: compressSelective_def demo_defs keep_system_def findCompressionBoundary_def widenBoundaryForChains.simps)

text \<open>Widening the boundary over tool calls can leave an assistant message in front, which the code calls
  invalid for strict providers.\<close>

lemma selective_starts_with_assistant:
  "a_hist (snd (compressSelective (demo_agent 4000
     [demo_user, demo_answer, demo_user, demo_ask, demo_result ''ok'', demo_user, demo_answer, demo_user])))
   = [demo_ask, demo_result ''ok'', demo_user, demo_answer, demo_user]"
  by (simp add: compressSelective_def demo_defs keep_system_def findCompressionBoundary_def widenBoundaryForChains.simps)

text \<open>The last resort always keeps the first message. When that one has calls, their results are dropped and
  the request is no longer acceptable.\<close>

definition bare_chat :: "message list" where
  "bare_chat = [demo_ask, demo_result (replicate 40 (CHR ''x'')), demo_user]"

lemma bare_chat_ok: "paired bare_chat" "wire_calls_ok (buildProviderHistory [] bare_chat)"
  by code_simp+

text \<open>On short texts the passes over results do nothing.\<close>

definition brief :: "message list \<Rightarrow> bool" where "brief h \<longleftrightarrow> (\<forall>m\<in>set h. length (m_content m) < 100)"

lemma brief_demo: "brief demo_chat" "brief bare_chat"
  by (simp_all add: brief_def bare_chat_def demo_defs)

lemma brief_passes:
  assumes "brief (a_hist a)"
  shows "applyMicroLocked (microFallbackConfig DefaultMicroCompactionConfig) a = (no_result, a)"
    "pruneToolResultsLocked (resolve_pruning (cc_pruning (demo_cc w))) a = (0, a)"
proof -
  have cfg: "microFallbackConfig DefaultMicroCompactionConfig = DefaultMicroCompactionConfig" by code_simp
  have pcfg: "resolve_pruning (cc_pruning (demo_cc w)) = DefaultToolResultPruningConfig"
  proof -
    have "resolve_pruning \<lparr>pc_enabled = False, pc_threshold = 0, pc_head = 0, pc_tail = 0\<rparr> = DefaultToolResultPruningConfig" by code_simp
    then show ?thesis by (simp add: demo_cc_def)
  qed
  have m: "\<not> micro_hit DefaultMicroCompactionConfig m" "prune_message DefaultToolResultPruningConfig m = None" if "m \<in> set (a_hist a)" for m
  proof -
    have l: "length (m_content m) < 100" using assms that by (simp add: brief_def)
    then have "length (m_content m) div 4 < 100" by simp
    then show "\<not> micro_hit DefaultMicroCompactionConfig m" by (simp add: micro_hit_def DefaultMicroCompactionConfig_def)
    have "length (runes (m_content m)) \<le> length (m_content m)" using rune_count_le by (simp add: rune_count_def)
    with l show "prune_message DefaultToolResultPruningConfig m = None"
      by (simp add: prune_message_def pruneToolResultContent_def DefaultToolResultPruningConfig_def)
  qed
  have sub: "set (span k h) \<subseteq> set h" for k and h :: "message list" by (auto simp: span_def dest!: in_set_dropD in_set_takeD)
  have "rewrite_span k (truncate_message DefaultMicroCompactionConfig) (a_hist a) = a_hist a"
    "filter (micro_hit DefaultMicroCompactionConfig) (span k (a_hist a)) = []" for k
    using m(1) sub by (auto intro!: rewrite_id simp: truncate_message_def filter_empty_conv subset_iff)
  then show "applyMicroLocked (microFallbackConfig DefaultMicroCompactionConfig) a = (no_result, a)"
    by (simp add: cfg applyMicroLocked_def truncateToolResults_def no_result_def)
  show "pruneToolResultsLocked (resolve_pruning (cc_pruning (demo_cc w))) a = (0, a)"
    unfolding pcfg using m(2) by (simp add: pruneToolResultsLocked_def filter_empty_conv map_idI)
qed

lemma brief_shrink:
  "brief (a_hist a) \<Longrightarrow> a_cc a = demo_cc w \<Longrightarrow>
   shrinkToolPayloadsToFitLocked c a = (no_result, estimateTokensFromHistory (a_hist a) \<le> c, a)"
proof -
  assume b: "brief (a_hist a)" "a_cc a = demo_cc w"
  have "cc_micro (demo_cc w) = DefaultMicroCompactionConfig" by (simp add: demo_cc_def)
  then show ?thesis using brief_passes [OF b(1)] b(2) by (simp add: shrinkToolPayloadsToFitLocked_def no_result_def)
qed

lemma ceiling_loses_the_result:
  "a_hist (enforceContextCeilingWithCause CauseRan (demo_agent 40 bare_chat)) = [demo_ask, demo_user]"
  "\<not> wire_calls_ok (buildProviderHistory [] [demo_ask, demo_user])"
proof -
  let ?a = "demo_agent 40 bare_chat" and ?r = "demo_result (replicate 40 (CHR ''x''))"
  have t: "estimateTokensFromHistory bare_chat = 30" "messageTokenCount demo_ask = 9" "messageTokenCount ?r = 16"
    "messageTokenCount demo_user = 5" by (simp_all add: bare_chat_def demo_defs counting)
  have h: "hard_ceiling ?a = 38" "historyCeiling ?a = 28"
    by (simp_all add: historyCeiling_def demo_hard demo_fixed go_div_def)
  have f: "floorTokensAtProviderUsage [9, 16, 5] 30 ?a = ([9, 16, 5], 30)"
    by (simp add: floorTokensAtProviderUsage_def demo_estimate t demo_fixed)
  have m: "map messageTokenCount bare_chat = [9, 16, 5]" using t by (simp add: bare_chat_def)
  have "snd (snd (dropOldestToCeilingLocked [9, 16, 5] 30 28 ?a)) = snd (snd (dropOldestToCeilingLocked [9, 16, 5] 30 28 ?a))
     \<and> a_hist (snd (snd (dropOldestToCeilingLocked [9, 16, 5] 30 28 ?a))) = [demo_ask, demo_user]"
    by (simp add: dropOldestToCeilingLocked_def bare_chat_def demo_user_def demo_result_def text_message_def Let_def)
  moreover have "\<exists>x. enforceContextCeilingLocked ?a = (Some x, snd (snd (dropOldestToCeilingLocked [9, 16, 5] 30 28 ?a)))"
    using brief_demo(2) brief_shrink [of ?a 40 28] h f m t(1)
    by (simp add: enforceContextCeilingLocked_def demo_estimate demo_fixed bare_chat_def split: prod.split)
  ultimately show "a_hist (enforceContextCeilingWithCause CauseRan ?a) = [demo_ask, demo_user]"
    by (auto simp: enforceContextCeilingWithCause_def)
  show "\<not> wire_calls_ok (buildProviderHistory [] [demo_ask, demo_user])" by code_simp
qed

text \<open>A provider's count above the ceiling is not acted on when the estimate is below: nothing is cut, and no
  further turn is accepted.\<close>

lemma provider_count_ignored:
  "let a = (demo_agent 2000 demo_chat)\<lparr>a_gross := 3000, a_usageLen := 6\<rparr>
   in enforceContextCeilingWithCause CauseRan a = a \<and> \<not> checkContextLimit a"
proof -
  let ?a = "(demo_agent 2000 demo_chat)\<lparr>a_gross := 3000, a_usageLen := 6\<rparr>"
  have len: "length demo_chat = 6" by (simp add: demo_chat_def)
  have fx: "fixedCostTokens ?a = 10" by (simp add: fixedCostTokens_def demo_agent_def counting)
  have "hard_ceiling ?a = hard_ceiling (demo_agent 2000 demo_chat)" by (simp add: hard_ceiling_def effectiveMaxTokens_def)
  then have hd: "hard_ceiling ?a = 1900" by (simp add: demo_hard go_div_def)
  have est: "estimateContextTokensLocked ?a = 3000"
    unfolding estimateContextTokensLocked_def fx by (simp add: appended_tokens_def len demo_chat_tokens)
  have eff: "effectiveMaxTokens ?a = 2000" by (simp add: effectiveMaxTokens_def demo_agent_def demo_cc_def)
  have "historyCeiling ?a = 1890" by (simp add: historyCeiling_def hd fx)
  moreover have "shrinkToolPayloadsToFitLocked 1890 ?a = (no_result, True, ?a)"
    using brief_shrink [of ?a 2000 1890] brief_demo(1) demo_chat_tokens by simp
  ultimately have "enforceContextCeilingLocked ?a = (None, ?a)"
    using eff hd est len by (simp add: enforceContextCeilingLocked_def didWork_def no_result_def)
  with eff hd est show ?thesis by (simp add: Let_def enforceContextCeilingWithCause_def checkContextLimit_def)
qed

text \<open>Making room for a second summarize can drop everything but the system message. The request is then
  empty, its summary is the empty text, and that replaces the conversation.\<close>

lemma pair_empty: "pairTokens [] \<le> 200"
proof -
  have a: "ascii (frameCompactedSummary [])" "length (frameCompactedSummary []) < 400" by code_simp+
  show ?thesis using a(2) by (simp add: pairTokens_def messageTokenCount_def messageOverheadTokens_def text_message_def ascii_tokens [OF a(1)])
qed

lemma summarize_wipes_the_conversation:
  "a_hist (snd (compactOrdered demo_env 100 Summarize True (demo_agent 2000 demo_chat))) = checkpoint []"
proof -
  let ?b = "emitCompactionTxStart ''cx-1'' (demo_agent 2000 demo_chat)"
  let ?d = "shrinkHistoryForSummarizeRetry 100 ?b"
  have su: "same_setup (demo_agent 2000 demo_chat) ?b" by simp
  have cc: "a_cc ?b = demo_cc 2000" "a_prompt ?b = ''p''" "a_remote ?b = False"
    by (simp_all add: emitCompactionTxStart_def emit_def demo_agent_def)
  have cc: "a_cc ?b = demo_cc 2000" "a_prompt ?b = ''p''" "a_remote ?b = False" "effectiveMaxTokens ?b = 2000" "fixedCostTokens ?b = 10"
    using cc same_setupD [OF su] by (simp_all add: demo_fixed)
  have mi: "cc_micro (demo_cc 2000) = DefaultMicroCompactionConfig" "\<not> pc_enabled (cc_pruning (demo_cc 2000))"
    by (simp_all add: demo_cc_def)
  have no: "emitCompactionResult l s no_result t ?b = ?b" for l s t by (simp add: emitCompactionResult_def didWork_def no_result_def)
  have micro: "applyMicroForSummarize ?b = ?b"
    using brief_passes(1) [of ?b] brief_demo(1) by (simp add: applyMicroForSummarize_def cc mi no)
  have w: "buildProviderHistory ''p'' demo_chat \<noteq> []" "buildProviderHistory ''p'' [demo_sys] = []" by code_simp+
  have "summarizeHistory demo_env 0 ?b = Inl \<lparr>ae_overflow = True, ae_text = []\<rparr>"
    using w(1) by (simp add: summarizeHistory_def cc demo_env_def)
  moreover have "isContextLengthError \<lparr>ae_overflow = True, ae_text = []\<rparr>" by (simp add: isContextLengthError_def)
  ultimately have retry: "summarize_with_retry demo_env 100 ?b = (summarizeHistory demo_env 1 ?d, ?d)"
    by (simp add: summarize_with_retry_def micro Let_def)
  have budget: "summarizeInputBudget 100 ?b = 0" by (simp add: summarizeInputBudget_def cc)
  have tok: "messageTokenCount demo_sys = 4" "messageTokenCount demo_user = 5" "messageTokenCount demo_ask = 9"
    "messageTokenCount (demo_result ''ok'') = 4" "messageTokenCount demo_answer = 5"
    by (simp_all add: demo_defs counting)
  have "a_hist (snd (dropOldestToFitLocked 0 ?b)) = [demo_sys]"
    using demo_chat_tokens by (simp add: dropOldestToFitLocked_def demo_chat_def with_tokens_def tok)
  then have d: "a_hist ?d = [demo_sys]" by (auto simp: shrinkHistoryForSummarizeRetry_def cc budget split: prod.split)
  have "same_setup ?b ?d" using room_setup [of ?b 100] micro by simp
  note sd = same_setupD [OF this]
  have "a_prompt ?d = ''p''" using \<open>same_setup ?b ?d\<close> cc by (simp add: same_setup_def)
  then have "summarizeHistory demo_env 1 ?d = Inr []" using w(2) d by (simp add: summarizeHistory_def)
  moreover have "fitSummaryToWindow [] ?d = []"
  proof -
    have "hard_ceiling ?b = 1900" using same_setupD(3) [OF su] by (simp add: demo_hard go_div_def)
    then have "fit_budget ?d = 1890" unfolding sd(5) by (simp add: fit_budget_def hard_ceiling_def cc)
    then show ?thesis using pair_empty by (simp add: fitSummaryToWindow_def)
  qed
  ultimately have r: "fst (summarize_with_retry demo_env 100 ?b) = Inr []" "snd (summarize_with_retry demo_env 100 ?b) = ?d"
    and land: "a_hist (land_summary i before [] ?d) = checkpoint []" for i before
    using retry by (simp_all add: land_summary_def replace_history_def Let_def)
  have pref: "tryPreferredCompaction demo_env ''cx-1'' Summarize True ?b = None" by (simp add: tryPreferredCompaction_def cc)
  have i: "ce_txid demo_env = ''cx-1''" by (simp add: demo_env_def)
  have ne: "demo_chat \<noteq> []" by (simp add: demo_chat_def)
  have "compactOrdered demo_env 100 Summarize True (demo_agent 2000 demo_chat)
     = compact_transaction demo_env 100 Summarize True (computeContextStats (demo_agent 2000 demo_chat)) (demo_agent 2000 demo_chat)"
    using ne by (simp add: compactOrdered_def mi)
  also have "\<dots> = (None, land_summary ''cx-1'' (computeContextStats (demo_agent 2000 demo_chat)) [] ?d)"
    using r by (cases "summarize_with_retry demo_env 100 ?b") (simp add: compact_transaction_def i pref Let_def)
  finally show ?thesis using land by simp
qed

text \<open>\<open>dropOldestToFitLocked\<close> counts the first message twice, so it drops more than it has to: here the last two
  messages would fit.\<close>

definition long_user :: message where "long_user = text_message User (replicate 33 (CHR ''x''))"

lemma fit_drops_too_much:
  "messageTokenCount long_user = 14"
  "a_hist (snd (dropOldestToFitLocked 30 (demo_agent 4000 [long_user, long_user, long_user]))) = [long_user]"
  by (simp_all add: long_user_def dropOldestToFitLocked_def Let_def text_message_def counting with_tokens_def)

text \<open>Elision is said to free tokens consistently. On small payloads the placeholders are larger: the
  conversation grows and no work is reported.\<close>

lemma elision_grows:
  "let (res, a) = compressToolElision 0 True (demo_agent 4000 demo_chat)
   in \<not> didWork res \<and> estimateTokensFromHistory (a_hist a) = estimateTokensFromHistory demo_chat + 8"
  by (simp add: compressToolElision_def Let_def demo_defs counting elideToolMessages_def span_def rewrite_span_def computeElisionBoundary_def
      forcedElisionBoundary_def elide_message_def elidedToolCallArguments_def elidedToolResultContent_def didWork_def no_result_def)

text \<open>A hard percentage of zero is documented to switch the hard layer off, but at 95 percent its strategy runs
  all the same.\<close>

lemma hard_layer_cannot_be_disabled:
  assumes "cc_hard (a_cc a) = 0" "effectiveMaxTokens a > 0"
    "estimateContextTokensLocked a \<ge> go_div (effectiveMaxTokens a * 95) 100"
  shows "maybeCompress env ins a = compressAndReportWith env ins (th_hardStrategy (a_thresholds a)) a"
  using assms by (simp add: maybeCompress_def Let_def computeContextStatsForMax_def resolveThresholds_def effectiveHard_def
      DefaultHardPercent_def)

text \<open>The identifiers of interrupted compactions are said to be without duplicates.\<close>

lemma orphans_repeated:
  "FindOrphanedCompactions [ETx TxStart (Some (empty_tx ''a'')), ETx TxEnd (Some (empty_tx ''a'')), ETx TxStart (Some (empty_tx ''a''))]
   = [''a'', ''a'']"
  by code_simp

text \<open>Every operation that shrinks the history is said to drop the provider's count. Stripping transient notices
  does not, and a message appended afterwards is not counted.\<close>

lemma strip_keeps_the_count:
  "let a = (demo_agent 4000 [demo_sys, demo_user, demo_user\<lparr>m_role := System, m_ephemeral := True\<rparr>])\<lparr>a_gross := 100, a_usageLen := 3\<rparr>;
       b = InjectUserMessage ''next'' (stripEphemeralSystemMessages a)
   in estimateContextTokensLocked a = 100 \<and> estimateContextTokensLocked b = 100 \<and> length (a_hist b) = 3"
  by (simp add: Let_def demo_defs stripEphemeralSystemMessages_def InjectUserMessage_def estimateContextTokensLocked_def
      fixedCostTokens_def appended_tokens_def counting)

text \<open>The check that head, marker and tail fit the threshold adds 64-bit integers: a huge head passes it and
  a pruned result is longer than before.\<close>

lemma pruning_overflows:
  "let cfg = resolve_pruning \<lparr>pc_enabled = True, pc_threshold = 1, pc_head = max_int, pc_tail = 1\<rparr>
   in pruneToolResultContent ''ab'' cfg = Some (''ab'' @ PruneMarker)"
  by code_simp

end
