(* ===== verification/Spec2Isabelle.thy ===== *)
theory Spec2Isabelle
  imports Plan_Lifecycle Goal_Findings Drive_Findings Goal_Queue Loop_Thinking Tool_Gate Session_Modes Agent_Pool Session_Tree Tool_Scheduler
    Edit_Safety Read_Write Chat_Findings
begin

text \<open>
  A verification development for goa (module github.com/pijalu/goa), a terminal coding assistant written
  in Go. An agent loop sends a conversation to a language model; the model answers with tool calls; tools
  read and change the user's files and run commands. Around the loop stand the components whose state
  must stay right however the model, the user and the other goroutines behave. This development models
  those components from the source under src/ and proves what they promise, or shows where the code
  does not keep the promise.

  Parts of the program and where they are modelled.

  Shared ground. \<open>Goa_Prelude\<close>: what Go code does to slices and the interface of identifier allocation
  (locale \<open>id_alloc\<close>, interpreted on plan items, goal todos and session-tree nodes). \<open>Event_Log\<close>: the contract
  of an event-sourced store (locale \<open>event_log\<close>, interpreted on the plan store and the goal engine).
  \<open>Go_Strings\<close> and \<open>Go_Path\<close>: the functions of Go's strings, unicode, strconv, fmt and path/filepath
  packages the modelled code calls; a Go string is the list of its bytes.

  Plans (src/core/plan: model.go, events.go, store.go, mutations.go). \<open>Plan_Store\<close> has the data model, the
  event records and the replay, \<open>Plan_Mutations\<close> every mutation with its guards in the order of the code,
  \<open>Plan_Replay\<close> the simulation between the plan in memory and the plan its log rebuilds,
  \<open>Plan_Properties\<close> and \<open>Plan_Lifecycle\<close> the promises: reopening, one item in flight, settled items,
  dependencies, approval.

  Goals (src/core/goal: model.go, budget.go, todo.go, serialize.go, mode.go, mode_helpers.go, outcome.go,
  gate.go; src/core/goal_queue.go, goal_queue_commands.go, goal_driver.go; src/internal/idgen.go). \<open>Goal_Model\<close> has the data
  and its pure parts, \<open>Goal_Mode\<close> the engine with one function per locked method, \<open>Goal_Gate\<close> the gate in
  front of completion, whose verification runs without the lock, \<open>Goal_Replay\<close>, \<open>Goal_Properties\<close> and
  \<open>Goal_Findings\<close> its invariant, the replay of its log and the places where they fail, \<open>Goal_Queue\<close> the
  queue of goals and its letters. \<open>Goal_Drive\<close> is the loop that works on a goal without the user: its budget
  checks, its stall watchdog and what it does with errors; \<open>Goal_Progress\<close> proves that it ends, \<open>Drive_Findings\<close>
  has concrete drives.

  Watching the model (src/core/loopdetector.go). \<open>Loop_Text\<close> has the text analysis, \<open>Loop_Detector\<close> the runs of
  identical tool calls, \<open>Loop_Thinking\<close> repeated lines and the diversity of reasoning, as the stream arrives.

  Permission to act (src/internal/perms; src/core/execution.go; src/internal/agentic/agent_tools.go;
  src/core/sessionstate.go, modemanager.go, agentdriven.go, state_store.go, agentmanager_state.go;
  src/internal/types.go; src/internal/app/tool_confirmation.go). \<open>Perms_Match\<close> has the rules and their glob
  matcher, \<open>Perms_Guard\<close> the guards on paths and commands, \<open>Tool_Gate\<close> the checks in front of a tool call and
  the confirmation flow, \<open>Session_Modes\<close> the mode of a session and the approvals kept between sessions.

  Concurrency. \<open>Agent_Pool\<close> (src/core/orchestrator/pool.go) and \<open>Tool_Scheduler\<close>
  (src/internal/agentic/tool_scheduler.go, src/internal/toolaccess/toolaccess.go) are inductive step
  relations whose steps are the sections under the lock; every interleaving of callers is a run.

  Sessions. \<open>Session_Tree\<close> (src/core/sessiontree) has the tree of a branched conversation, its store and its
  manager.

  Files (src/tools and src/tools/common). \<open>File_Lookup\<close>: which file a path means, with the edit distance that
  finds the closest name. \<open>File_Store\<close>: the operating system as the tools see it, the write that is read back
  (locale \<open>verified_writer\<close>, interpreted on the write itself and on the write of an edit) and the snapshots.
  \<open>Edit_Match\<close>, \<open>Edit_Ops\<close>, \<open>Edit_Drift\<close>: locating the text to replace, the operations on lines, batches and the
  guard against stale line numbers. \<open>Edit_Tool\<close> and \<open>Edit_Safety\<close>: the whole edit call, on one file or on
  several, and what it does to the disk. \<open>Tool_Output\<close>: text made harmless for a terminal, truncation, the
  memory of results already sent. \<open>Read_Write\<close>: the read and the write tool.

  The conversation (src/internal/agentic). What is sent to the model must fit its context window, so the
  history of an agent is compacted while it runs. \<open>Chat_Model\<close> has messages, token estimates and settings
  (message.go, agent_context_stats.go, compaction.go, compression_thresholds.go), \<open>Chat_Agent\<close> the state of an
  agent that compaction reads and changes, its statistics, the policy and the events (compaction_policy.go,
  agent_compaction_events.go, agent_compress_events.go), \<open>Chat_Shrink\<close> the passes that need no model
  (agent_compress_elision.go, agent_compress_micro.go, prune.go), \<open>Chat_Wire\<close> the request a provider gets
  (agent_migrate.go, agent_turn_lifecycle.go), \<open>Chat_Compact\<close> summaries, fresh windows and server compaction as one
  transaction (agent_compression.go, agent_compress_fresh_window.go, agent_remote_compact_run.go) and
  \<open>Chat_Ceiling\<close> when which of them runs, the last resort under the ceiling and the replay of a session's
  events (agent_compress_policy.go, agent_compress_recovery.go, agent_compress_overflow.go, agent_context.go,
  events_to_history.go, agent_config.go). The contract of a property of histories that every pass keeps is the
  locale \<open>history_invariant\<close> of \<open>Chat_Keep\<close>, with what every compaction keeps in \<open>checkpoint_invariant\<close> of
  \<open>Chat_Requests\<close>; both are interpreted on three properties: results are paired with calls, calls are
  answered, messages are original. \<open>Chat_Properties\<close>, \<open>Chat_Summary\<close>, \<open>Chat_Promises\<close> and \<open>Chat_Findings\<close> have
  the theorems, concrete conversations and the places where promises fail.

  How the code is read.
  A struct is a record, an enumeration a datatype, an error a value of a datatype on the left of a sum, a
  method of a locked object one function from the old state to the result and the new state. The steps of
  an interleaving are at the grain of the locked sections. Clock readings, random draws and hashes are
  arguments. A JSON text is the value it decodes to, or a line that does not decode. The regular
  expressions, the rule expressions, the lower-casing of letters outside ASCII, the tree below a directory,
  the matches of a glob and what the operating system answers are arguments, with what is needed of them as
  hypotheses of the theorems. Go's int has 64 bits: where a value can reach the bound the model wraps it,
  elsewhere it is an \<open>int\<close> and the header of the theory says why it stays small. Ratios that only order things
  are rational numbers. The iteration order of a map is an argument, or the map is an association list
  when no order is visible.

  Bounds and fuel. \<open>Session_Tree\<close> uses fuel: copying a node may not end in the code, and the theorem
  on it says exactly when some fuel is enough; the path of a node needs no more fuel than the tree has
  nodes. \<open>Goal_Drive\<close> bounds the rounds of its loop, which goes on as long as the agent makes progress: two
  theorems say which bound is enough when it makes none and when its turns are limited. Every other recursion is structural or has a termination proof. The constants of the code (window
  sizes, caps, limits) are definitions with the values of the code.

  Groups of theorems. The properties are numbered; each stands behind a text that states it in words and
  before or beside a witness that applies it to concrete data. Invariants are kept by every command or step
  and hold in every reachable state; round trips compare a state with the one its log, its snapshot or its
  diff rebuilds; refinements relate an efficient structure to a list or set; liveness is a measure or a
  counter that reaches its end. A lemma that shows a fault of the code is a closed example: the model
  computes the state in which the promise fails.

  Not modelled. The providers of language models, their protocols and the transport (src/provider,
  src/internal/agentic/provider), the loop that reads their streams and the terminal and web front ends
  (src/tui, src/internal/webui) are input and output around the modelled state. Commands and configuration
  (src/core/commands, src/config) set the values the components take as arguments. Of the tools that run
  another program (bash, python, search, web, language servers) only the checks in front of them are
  modelled, in the permission theories. The goroutines that run delegated agents (src/core/orchestrator without
  its pool, src/multiagent), plugins, skills, teams, telemetry, prompts and reminders are left out. Crashes in the
  middle of a write are not modelled; a failed write is.
\<close>

end
